(* ===== verification/Prelude.thy ===== *)
theory Prelude
  imports
    Main
    "HOL-Library.Char_ord"
    "HOL-Library.List_Lexorder"
    "HOL-Library.Sublist"
    "HOL-Library.Multiset"
    "HOL-Library.Word"
    "HOL-Library.Code_Target_Nat"
begin

text \<open>
  Shared vocabulary of the development.  Go strings are byte strings, so they are modelled by
  \<^typ>\<open>string\<close> (lists of 8-bit characters); the functions below translate what the agent uses of
  the packages \<open>strings\<close>, \<open>strconv\<close>, \<open>sort\<close> and \<open>time\<close> of the Go standard library.  A call that
  returns \<open>(v, error)\<close> is a value of \<open>'e + 'a\<close> (\<^const>\<open>Inl\<close> is the error).  Durations are
  nanoseconds as \<^typ>\<open>int\<close>, the unit of \<open>time.Duration\<close>.

  The second half holds the generic lemmas and the collections \<open>go_string\<close> (rewriting of the
  string library) and \<open>result_split\<close> (case splits of the result types) that the component
  theories feed to the simplifier.
\<close>

named_theorems go_string \<open>equations of the Go string library\<close>
named_theorems result_split \<open>case splits for results and options\<close>

section \<open>Results\<close>

type_synonym ('e, 'a) result = "'e + 'a"

abbreviation (input) Error :: "'e \<Rightarrow> ('e, 'a) result" where "Error \<equiv> Inl"
abbreviation (input) Ok :: "'a \<Rightarrow> ('e, 'a) result" where "Ok \<equiv> Inr"

fun is_ok :: "('e, 'a) result \<Rightarrow> bool" where
  "is_ok (Inl e) = False"
| "is_ok (Inr x) = True"

section \<open>Durations and instants\<close>

type_synonym duration = int

definition time_Nanosecond :: duration where "time_Nanosecond = 1"
definition time_Millisecond :: duration where "time_Millisecond = 1000000"
definition time_Second :: duration where "time_Second = 1000000000"
definition time_Minute :: duration where "time_Minute = 60 * 1000000000"
definition time_Hour :: duration where "time_Hour = 3600 * 1000000000"

lemmas duration_defs =
  time_Nanosecond_def time_Millisecond_def time_Second_def time_Minute_def time_Hour_def

text \<open>\<open>int64(d.Seconds())\<close>: truncation towards zero.\<close>

definition whole_seconds :: "duration \<Rightarrow> int" where
  "whole_seconds d = (if d < 0 then - ((- d) div time_Second) else d div time_Second)"

text \<open>A \<open>time.Time\<close>: the instant in nanoseconds since the Unix epoch and whether its location is UTC.\<close>

record gotime =
  t_nanos :: int
  t_utc :: bool

definition zero_nanos :: int where "zero_nanos = - 62135596800 * 1000000000"

definition zero_time :: gotime where "zero_time = \<lparr>t_nanos = zero_nanos, t_utc = True\<rparr>"

definition is_zero_time :: "gotime \<Rightarrow> bool" where "is_zero_time t \<longleftrightarrow> t_nanos t = zero_nanos"

definition to_utc :: "gotime \<Rightarrow> gotime" where "to_utc t = t\<lparr>t_utc := True\<rparr>"

section \<open>Package strings\<close>

text \<open>The UTF-8 encodings of the runes for which \<open>unicode.IsSpace\<close> holds.\<close>

definition space_runes :: "string list" where
  "space_runes =
     [[CHR 0x09], [CHR 0x0A], [CHR 0x0B], [CHR 0x0C], [CHR 0x0D], [CHR 0x20],
      [CHR 0xC2, CHR 0x85], [CHR 0xC2, CHR 0xA0], [CHR 0xE1, CHR 0x9A, CHR 0x80],
      [CHR 0xE2, CHR 0x80, CHR 0x80], [CHR 0xE2, CHR 0x80, CHR 0x81], [CHR 0xE2, CHR 0x80, CHR 0x82],
      [CHR 0xE2, CHR 0x80, CHR 0x83], [CHR 0xE2, CHR 0x80, CHR 0x84], [CHR 0xE2, CHR 0x80, CHR 0x85],
      [CHR 0xE2, CHR 0x80, CHR 0x86], [CHR 0xE2, CHR 0x80, CHR 0x87], [CHR 0xE2, CHR 0x80, CHR 0x88],
      [CHR 0xE2, CHR 0x80, CHR 0x89], [CHR 0xE2, CHR 0x80, CHR 0x8A], [CHR 0xE2, CHR 0x80, CHR 0xA8],
      [CHR 0xE2, CHR 0x80, CHR 0xA9], [CHR 0xE2, CHR 0x80, CHR 0xAF], [CHR 0xE2, CHR 0x81, CHR 0x9F],
      [CHR 0xE3, CHR 0x80, CHR 0x80]]"

definition lead_word :: "string list \<Rightarrow> string \<Rightarrow> string option" where
  "lead_word ws s = find (\<lambda>w. w \<noteq> [] \<and> prefix w s) ws"

function strip :: "string list \<Rightarrow> string \<Rightarrow> string" where
  "strip ws s = (case lead_word ws s of None \<Rightarrow> s | Some w \<Rightarrow> strip ws (drop (length w) s))"
  by pat_completeness auto
termination
  by (relation "measure (\<lambda>(ws, s). length s)")
     (auto simp: lead_word_def find_Some_iff prefix_def)

declare strip.simps [simp del]

definition TrimLeftSpace :: "string \<Rightarrow> string" where
  "TrimLeftSpace s = strip space_runes s"

definition TrimRightSpace :: "string \<Rightarrow> string" where
  "TrimRightSpace s = rev (strip (map rev space_runes) (rev s))"

definition TrimSpace :: "string \<Rightarrow> string" where
  "TrimSpace s = TrimRightSpace (TrimLeftSpace s)"

definition HasPrefix :: "string \<Rightarrow> string \<Rightarrow> bool" where
  "HasPrefix s p = prefix p s"

definition HasSuffix :: "string \<Rightarrow> string \<Rightarrow> bool" where
  "HasSuffix s p = suffix p s"

definition TrimPrefix :: "string \<Rightarrow> string \<Rightarrow> string" where
  "TrimPrefix s p = (if prefix p s then drop (length p) s else s)"

text \<open>\<open>strings.TrimRight(s, c)\<close> for a one-character cutset.\<close>

definition TrimRightChar :: "string \<Rightarrow> char \<Rightarrow> string" where
  "TrimRightChar s c = rev (dropWhile (\<lambda>x. x = c) (rev s))"

definition Contains :: "string \<Rightarrow> string \<Rightarrow> bool" where
  "Contains s p = sublist p s"

text \<open>\<open>strings.Cut\<close> with a one-character separator: before, after, found.\<close>

definition Cut :: "string \<Rightarrow> char \<Rightarrow> string \<times> string \<times> bool" where
  "Cut s c = (case dropWhile (\<lambda>x. x \<noteq> c) s of
      [] \<Rightarrow> (s, [], False)
    | _ # r \<Rightarrow> (takeWhile (\<lambda>x. x \<noteq> c) s, r, True))"

fun Split :: "string \<Rightarrow> char \<Rightarrow> string list" where
  "Split [] c = [[]]"
| "Split (x # xs) c =
     (if x = c then [] # Split xs c
      else (case Split xs c of [] \<Rightarrow> [[x]] | y # ys \<Rightarrow> (x # y) # ys))"

fun Join :: "string list \<Rightarrow> string \<Rightarrow> string" where
  "Join [] sep = []"
| "Join [x] sep = x"
| "Join (x # y # ys) sep = x @ sep @ Join (y # ys) sep"

text \<open>\<open>strings.ReplaceAll\<close> of a one-character string.\<close>

definition ReplaceAllChar :: "string \<Rightarrow> char \<Rightarrow> string \<Rightarrow> string" where
  "ReplaceAllChar s c t = concat (map (\<lambda>x. if x = c then t else [x]) s)"

text \<open>\<open>strings.Fields\<close>: the maximal space-free pieces; \<open>acc\<close> is the piece being read, reversed.\<close>

function fields_from :: "string \<Rightarrow> string \<Rightarrow> string list" where
  "fields_from acc s =
     (case lead_word space_runes s of
        Some w \<Rightarrow> (if acc = [] then [] else [rev acc]) @ fields_from [] (drop (length w) s)
      | None \<Rightarrow> (case s of
            [] \<Rightarrow> (if acc = [] then [] else [rev acc])
          | x # xs \<Rightarrow> fields_from (x # acc) xs))"
  by pat_completeness auto
termination
  by (relation "measure (\<lambda>(acc, s). length s)")
     (auto simp: lead_word_def find_Some_iff prefix_def)

declare fields_from.simps [simp del]

definition Fields :: "string \<Rightarrow> string list" where "Fields s = fields_from [] s"

text \<open>
  \<open>strings.ToLower\<close>, exact on ASCII and on the two non-ASCII runes whose lower case is ASCII
  (U+0130 and U+212A); other runes are left alone.
\<close>

definition lower_char :: "char \<Rightarrow> char" where
  "lower_char c = (if CHR ''A'' \<le> c \<and> c \<le> CHR ''Z'' then char_of (of_char c + 32 :: nat) else c)"

fun ToLower :: "string \<Rightarrow> string" where
  "ToLower [] = []"
| "ToLower (a # b # c # s) =
     (if [a, b, c] = [CHR 0xE2, CHR 0x84, CHR 0xAA] then CHR ''k'' # ToLower s
      else if [a, b] = [CHR 0xC4, CHR 0xB0] then CHR ''i'' # ToLower (c # s)
      else lower_char a # ToLower (b # c # s))"
| "ToLower [a, b] = (if [a, b] = [CHR 0xC4, CHR 0xB0] then [CHR ''i''] else [lower_char a, lower_char b])"
| "ToLower [a] = [lower_char a]"

text \<open>
  \<open>strings.EqualFold(s, t)\<close> for an ASCII \<open>t\<close>: simple folding also identifies U+017F with \<open>s\<close> and
  U+212A with \<open>k\<close>.
\<close>

fun fold_ascii :: "string \<Rightarrow> string" where
  "fold_ascii [] = []"
| "fold_ascii (a # b # c # s) =
     (if [a, b, c] = [CHR 0xE2, CHR 0x84, CHR 0xAA] then CHR ''k'' # fold_ascii s
      else if [a, b] = [CHR 0xC5, CHR 0xBF] then CHR ''s'' # fold_ascii (c # s)
      else lower_char a # fold_ascii (b # c # s))"
| "fold_ascii [a, b] = (if [a, b] = [CHR 0xC5, CHR 0xBF] then [CHR ''s''] else [lower_char a, lower_char b])"
| "fold_ascii [a] = [lower_char a]"

definition EqualFold :: "string \<Rightarrow> string \<Rightarrow> bool" where
  "EqualFold s t = (fold_ascii s = fold_ascii t)"

section \<open>Package strconv\<close>

definition is_digit :: "char \<Rightarrow> bool" where
  "is_digit c \<longleftrightarrow> CHR ''0'' \<le> c \<and> c \<le> CHR ''9''"

definition digit_char :: "nat \<Rightarrow> char" where
  "digit_char d = char_of (48 + d mod 10)"

definition digit_val :: "char \<Rightarrow> nat" where
  "digit_val c = of_char c - 48"

fun FormatNat :: "nat \<Rightarrow> string" where
  "FormatNat n = (if n < 10 then [digit_char n] else FormatNat (n div 10) @ [digit_char (n mod 10)])"

declare FormatNat.simps [simp del]

definition FormatInt :: "int \<Rightarrow> string" where
  "FormatInt i = (if i < 0 then CHR ''-'' # FormatNat (nat (- i)) else FormatNat (nat i))"

definition digits_value :: "string \<Rightarrow> nat" where
  "digits_value s = foldl (\<lambda>n c. 10 * n + digit_val c) 0 s"

definition parse_digits :: "string \<Rightarrow> nat option" where
  "parse_digits s = (if s \<noteq> [] \<and> list_all is_digit s then Some (digits_value s) else None)"

text \<open>\<open>strconv.ParseUint(s, 10, bits)\<close>: no sign, error when out of range.\<close>

definition ParseUint :: "nat \<Rightarrow> string \<Rightarrow> nat option" where
  "ParseUint bits s = (case parse_digits s of
      None \<Rightarrow> None
    | Some n \<Rightarrow> if n < 2 ^ bits then Some n else None)"

text \<open>\<open>strconv.ParseInt(s, 10, 64)\<close> and \<open>strconv.Atoi\<close> on a 64-bit platform.\<close>

definition ParseInt :: "string \<Rightarrow> int option" where
  "ParseInt s =
     (let (neg, body) = (case s of
            [] \<Rightarrow> (False, [])
          | c # r \<Rightarrow> if c = CHR ''-'' then (True, r) else if c = CHR ''+'' then (False, r) else (False, s))
      in case parse_digits body of
           None \<Rightarrow> None
         | Some n \<Rightarrow>
             if neg then (if n \<le> 2 ^ 63 then Some (- int n) else None)
             else (if n < 2 ^ 63 then Some (int n) else None))"

section \<open>Package sort\<close>

text \<open>\<open>sort.Strings\<close>: bytewise lexicographic order, as the list order over \<^typ>\<open>char\<close>.\<close>

definition sort_Strings :: "string list \<Rightarrow> string list" where
  "sort_Strings xs = sort xs"

section \<open>Generic lemmas\<close>

lemmas [result_split] = sum.splits option.splits if_splits prod.splits list.splits

lemma is_ok_iff: "is_ok r \<longleftrightarrow> (\<exists>x. r = Inr x)"
  by (cases r) auto

lemma lead_word_SomeD:
  "lead_word ws s = Some w \<Longrightarrow> w \<in> set ws \<and> w \<noteq> [] \<and> prefix w s"
  by (auto simp: lead_word_def find_Some_iff)

lemma lead_word_None_iff:
  "lead_word ws s = None \<longleftrightarrow> (\<forall>w \<in> set ws. w \<noteq> [] \<longrightarrow> \<not> prefix w s)"
  by (auto simp: lead_word_def find_None_iff)

lemma strip_stuck: "lead_word ws (strip ws s) = None"
proof (induction ws s rule: strip.induct)
  case (1 ws s)
  then show ?case
    by (cases "lead_word ws s") (simp_all add: strip.simps [of ws s])
qed

lemma strip_id: "lead_word ws s = None \<Longrightarrow> strip ws s = s"
  by (simp add: strip.simps)

lemma strip_suffix: "suffix (strip ws s) s"
proof (induction ws s rule: strip.induct)
  case (1 ws s)
  show ?case
  proof (cases "lead_word ws s")
    case None
    then show ?thesis by (simp add: strip_id)
  next
    case (Some w)
    with 1 have "suffix (strip ws (drop (length w) s)) (drop (length w) s)" by simp
    then have "suffix (strip ws (drop (length w) s)) s"
      using suffix_drop suffix_order.trans by blast
    with Some show ?thesis by (simp add: strip.simps [of ws s])
  qed
qed

lemma strip_Nil [simp]: "strip ws [] = []"
  using strip_suffix [of ws "[]"] by simp

lemma TrimSpace_Nil [simp]: "TrimSpace [] = []"
  by (simp add: TrimSpace_def TrimRightSpace_def TrimLeftSpace_def)

lemma lead_word_prefix_None:
  "lead_word ws s = None \<Longrightarrow> prefix t s \<Longrightarrow> lead_word ws t = None"
  by (auto simp: lead_word_None_iff intro: prefix_order.trans)

lemma TrimRightSpace_prefix: "prefix (TrimRightSpace s) s"
  using strip_suffix [of "map rev space_runes" "rev s"]
  by (simp add: TrimRightSpace_def suffix_to_prefix)

lemma TrimSpace_lead: "lead_word space_runes (TrimSpace s) = None"
  unfolding TrimSpace_def
  by (rule lead_word_prefix_None [OF _ TrimRightSpace_prefix])
     (simp add: TrimLeftSpace_def strip_stuck)

lemma TrimSpace_trail: "lead_word (map rev space_runes) (rev (TrimSpace s)) = None"
  by (simp add: TrimSpace_def TrimRightSpace_def strip_stuck)

text \<open>\<open>TrimSpace\<close> returns exactly its fixed points: strings with no leading or trailing space rune.\<close>

definition trimmed :: "string \<Rightarrow> bool" where
  "trimmed s \<longleftrightarrow> lead_word space_runes s = None \<and> lead_word (map rev space_runes) (rev s) = None"

lemma trimmed_TrimSpace [simp, intro]: "trimmed (TrimSpace s)"
  by (simp add: trimmed_def TrimSpace_lead TrimSpace_trail)

lemma TrimSpace_trimmed [go_string]: "trimmed s \<Longrightarrow> TrimSpace s = s"
  by (simp add: trimmed_def TrimSpace_def TrimLeftSpace_def TrimRightSpace_def strip_id)

lemma TrimSpace_idem [simp, go_string]: "TrimSpace (TrimSpace s) = TrimSpace s"
  by (rule TrimSpace_trimmed) simp

lemma Cut_spec:
  "Cut s c = (b, a, found) \<longleftrightarrow>
     (if c \<in> set s then found \<and> s = b @ c # a \<and> c \<notin> set b else \<not> found \<and> b = s \<and> a = [])"
proof (cases "c \<in> set s")
  case True
  then obtain xs ys where s: "s = xs @ c # ys" "c \<notin> set xs"
    by (meson split_list_first)
  then have d: "dropWhile (\<lambda>x. x \<noteq> c) s = c # ys" and t: "takeWhile (\<lambda>x. x \<noteq> c) s = xs"
    by (auto simp: dropWhile_append takeWhile_append)
  have eq: "Cut s c = (xs, ys, True)"
    by (simp add: Cut_def d t)
  show ?thesis
  proof
    assume "Cut s c = (b, a, found)"
    then show "if c \<in> set s then found \<and> s = b @ c # a \<and> c \<notin> set b else \<not> found \<and> b = s \<and> a = []"
      using eq s True by simp
  next
    assume r: "if c \<in> set s then found \<and> s = b @ c # a \<and> c \<notin> set b else \<not> found \<and> b = s \<and> a = []"
    with True have f: "found" and sb: "s = b @ c # a" and nb: "c \<notin> set b" by auto
    have "takeWhile (\<lambda>x. x \<noteq> c) s = b" "dropWhile (\<lambda>x. x \<noteq> c) s = c # a"
      using sb nb by (auto simp: dropWhile_append takeWhile_append)
    with f show "Cut s c = (b, a, found)" by (simp add: Cut_def)
  qed
next
  case False
  then have d: "dropWhile (\<lambda>x. x \<noteq> c) s = []"
    by (auto simp: dropWhile_eq_Nil_conv)
  have "Cut s c = (s, [], False)"
    by (simp only: Cut_def d list.case)
  with False show ?thesis by auto
qed

lemma Split_not_Nil [simp]: "Split s c \<noteq> []"
  by (cases s) (auto split: list.splits)

lemma Join_Split: "Join (Split s c) [c] = s"
proof (induction s)
  case Nil
  then show ?case by simp
next
  case (Cons x xs)
  show ?case
  proof (cases "Split xs c")
    case Nil
    then show ?thesis by simp
  next
    case (Cons y ys)
    with Cons.IH show ?thesis by (cases ys) (auto)
  qed
qed

lemma Split_no_sep: "\<forall>p \<in> set (Split s c). c \<notin> set p"
  by (induction s) (auto split: list.splits)

lemma Split_noc: "c \<notin> set s \<Longrightarrow> Split s c = [s]"
  by (induction s) auto

lemma is_digit_iff: "is_digit c \<longleftrightarrow> 48 \<le> (of_char c :: nat) \<and> (of_char c :: nat) \<le> 57"
  by (simp add: is_digit_def less_eq_char_def)

lemma digit_char_digit [simp]: "is_digit (digit_char d)"
  by (simp add: is_digit_iff digit_char_def)

lemma digit_val_char [simp]: "digit_val (digit_char d) = d mod 10"
  by (simp add: digit_val_def digit_char_def)

lemma digits_value_snoc: "digits_value (s @ [c]) = 10 * digits_value s + digit_val c"
  by (simp add: digits_value_def)

lemma FormatNat_digits: "list_all is_digit (FormatNat n) \<and> FormatNat n \<noteq> []"
proof (induction n rule: FormatNat.induct)
  case (1 n)
  then show ?case by (cases "n < 10") (simp_all add: FormatNat.simps [of n])
qed

lemma digits_value_FormatNat: "digits_value (FormatNat n) = n"
proof (induction n rule: FormatNat.induct)
  case (1 n)
  show ?case
  proof (cases "n < 10")
    case True
    then show ?thesis by (simp add: FormatNat.simps [of n] digits_value_def)
  next
    case False
    with 1 show ?thesis
      by (simp add: FormatNat.simps [of n] digits_value_snoc)
  qed
qed

lemma parse_digits_FormatNat [go_string]: "parse_digits (FormatNat n) = Some n"
  by (simp add: parse_digits_def FormatNat_digits digits_value_FormatNat)

lemma ParseUint_FormatNat [go_string]: "n < 2 ^ bits \<Longrightarrow> ParseUint bits (FormatNat n) = Some n"
  by (simp add: ParseUint_def parse_digits_FormatNat)

lemma FormatNat_hd: "is_digit (hd (FormatNat n))"
  using FormatNat_digits [of n] by (cases "FormatNat n") auto

lemma sign_not_digit [simp]: "\<not> is_digit CHR ''-''" "\<not> is_digit CHR ''+''"
  by (simp_all add: is_digit_iff)

lemma ParseInt_FormatInt [go_string]:
  assumes "- (2 ^ 63) \<le> i" "i < 2 ^ 63"
  shows "ParseInt (FormatInt i) = Some i"
proof (cases "i < 0")
  case True
  with assms show ?thesis
    by (simp add: ParseInt_def FormatInt_def parse_digits_FormatNat)
next
  case False
  obtain c r where cr: "FormatNat (nat i) = c # r"
    using FormatNat_digits [of "nat i"] by (cases "FormatNat (nat i)") auto
  with FormatNat_hd [of "nat i"] have "c \<noteq> CHR ''-''" "c \<noteq> CHR ''+''"
    by auto
  moreover have "parse_digits (c # r) = Some (nat i)"
    using parse_digits_FormatNat [of "nat i"] cr by simp
  ultimately show ?thesis
    using False assms by (simp add: ParseInt_def FormatInt_def cr)
qed

lemma FormatNat_inj: "FormatNat m = FormatNat n \<Longrightarrow> m = n"
  using digits_value_FormatNat by metis

lemma sort_Strings_props [simp]:
  "sorted (sort_Strings xs)" "set (sort_Strings xs) = set xs"
  "mset (sort_Strings xs) = mset xs" "length (sort_Strings xs) = length xs"
  by (simp_all add: sort_Strings_def)

lemma sort_Strings_perm: "mset xs = mset ys \<Longrightarrow> sort_Strings xs = sort_Strings ys"
  unfolding sort_Strings_def by (rule properties_for_sort) auto

section \<open>Systems that take steps\<close>

text \<open>
  Concurrent parts of the program are step relations.  A system with an invariant: what holds of the states it can
  start in, and is kept by every step, holds of every reachable state.
\<close>

locale invariant_system =
  fixes step :: "'s \<Rightarrow> 's \<Rightarrow> bool" and start :: "'s \<Rightarrow> bool" and invariant :: "'s \<Rightarrow> bool"
  assumes start_invariant: "start s \<Longrightarrow> invariant s"
    and step_invariant: "step s s' \<Longrightarrow> invariant s \<Longrightarrow> invariant s'"
begin

lemma reachable_invariant: "step\<^sup>*\<^sup>* s0 s \<Longrightarrow> start s0 \<Longrightarrow> invariant s"
  by (induction rule: rtranclp_induct) (auto intro: start_invariant step_invariant)

end

text \<open>A system whose steps use up a rank: its runs are bounded, and it cannot go on forever.\<close>

locale ranked_system = invariant_system +
  fixes rank :: "'s \<Rightarrow> nat"
  assumes step_uses_rank: "invariant s \<Longrightarrow> step s s' \<Longrightarrow> rank s' < rank s"
begin

lemma run_bounded: "(step ^^ n) s s' \<Longrightarrow> invariant s \<Longrightarrow> rank s' + n \<le> rank s \<and> invariant s'"
proof (induction n arbitrary: s')
  case (Suc n)
  from Suc.prems(1) obtain t where t: "(step ^^ n) s t" "step t s'" by auto
  from Suc.IH [OF t(1) Suc.prems(2)] have i: "rank t + n \<le> rank s" "invariant t" by simp_all
  from step_uses_rank [OF i(2) t(2)] step_invariant [OF t(2) i(2)] i(1) show ?case by simp
qed simp

end

end
