(* ===== verification/Endpoint.thy ===== *)
theory Endpoint
  imports Prelude
begin

text \<open>
  \<open>internal/endpoint/endpoint.go\<close>: which URLs the agent accepts for its local daemon and for the
  backend.  The parser and printer of package \<open>net/url\<close> and the parser of \<open>net.ParseIP\<close> are the
  fields of the record \<open>netlib\<close>, an argument of every definition that calls them: the theorems hold
  for every parser.  Where a proof needs a fact about the parser it is the predicate
  \<open>base_url_roundtrip\<close>, and \<open>plain_netlib\<close> is a concrete executable library that satisfies it.
\<close>

section \<open>Definitions\<close>

text \<open>The fields of \<open>url.URL\<close>; \<open>u_user\<close> is \<open>None\<close> for a nil \<open>*Userinfo\<close>.\<close>

record url =
  u_scheme :: string
  u_opaque :: string
  u_user :: "string option"
  u_host :: string
  u_path :: string
  u_raw_path :: string
  u_omit_host :: bool
  u_force_query :: bool
  u_raw_query :: string
  u_fragment :: string
  u_raw_fragment :: string

definition empty_url :: url where
  "empty_url = \<lparr>u_scheme = [], u_opaque = [], u_user = None, u_host = [], u_path = [],
     u_raw_path = [], u_omit_host = False, u_force_query = False, u_raw_query = [],
     u_fragment = [], u_raw_fragment = []\<rparr>"

text \<open>The 16-byte form of a \<open>net.IP\<close>, as \<open>net.ParseIP\<close> returns it.\<close>

type_synonym ip = "nat list"

record netlib =
  url_Parse :: "string \<Rightarrow> url option"
  url_String :: "url \<Rightarrow> string"
  url_JoinPath :: "string \<Rightarrow> string list \<Rightarrow> string option"
  net_ParseIP :: "string \<Rightarrow> ip option"

text \<open>\<open>URL.Hostname\<close>: the host without a trailing \<open>:port\<close> and without IPv6 brackets.\<close>

definition drop_port :: "string \<Rightarrow> string" where
  "drop_port h =
     (let after = rev (takeWhile (\<lambda>c. c \<noteq> CHR '':'') (rev h));
          before = rev (dropWhile (\<lambda>c. c \<noteq> CHR '':'') (rev h))
      in if before \<noteq> [] \<and> list_all is_digit after then butlast before else h)"

definition url_Hostname :: "url \<Rightarrow> string" where
  "url_Hostname u =
     (let h = drop_port (u_host u)
      in if HasPrefix h ''['' \<and> HasSuffix h '']'' then butlast (tl h) else h)"

definition ip_IsLoopback :: "ip \<Rightarrow> bool" where
  "ip_IsLoopback a \<longleftrightarrow>
     (if length a = 4 then a ! 0 = 127
      else if length a = 16 \<and> take 10 a = replicate 10 0 \<and> a ! 10 = 255 \<and> a ! 11 = 255 then a ! 12 = 127
      else a = replicate 15 0 @ [1])"

datatype endpoint_error =
    InvalidURL
  | UserInfoPresent
  | HostMissing
  | QueryOrFragmentPresent
  | UnixURLExtraParts
  | UnixPathNotAbsolute string
  | SchemeNotAllowed "string list" string
  | ServerPathPresent string
  | ServerHostMissing
  | ServerHostNotLoopback string
  | BackendHTTPNotLoopback string

definition parseURL :: "netlib \<Rightarrow> string \<Rightarrow> (endpoint_error, url) result" where
  "parseURL L raw =
     (case url_Parse L raw of
        None \<Rightarrow> Error InvalidURL
      | Some u \<Rightarrow>
          if u_user u \<noteq> None then Error UserInfoPresent
          else if u_host u = [] then Error HostMissing
          else if u_raw_query u \<noteq> [] \<or> u_fragment u \<noteq> [] then Error QueryOrFragmentPresent
          else Ok u)"

definition requireScheme :: "url \<Rightarrow> string list \<Rightarrow> (endpoint_error, unit) result" where
  "requireScheme u allowed =
     (if u_scheme u \<in> set allowed then Ok () else Error (SchemeNotAllowed allowed (u_scheme u)))"

definition isLoopbackHost :: "netlib \<Rightarrow> string \<Rightarrow> bool" where
  "isLoopbackHost L host \<longleftrightarrow>
     (if EqualFold host ''localhost'' then True
      else (case net_ParseIP L host of None \<Rightarrow> False | Some a \<Rightarrow> ip_IsLoopback a))"

definition ValidateLocalServerURL :: "netlib \<Rightarrow> string \<Rightarrow> (endpoint_error, url) result" where
  "ValidateLocalServerURL L raw =
     (if HasPrefix raw ''/'' then Ok (empty_url\<lparr>u_scheme := ''unix'', u_path := raw\<rparr>)
      else case url_Parse L raw of
        None \<Rightarrow> Error InvalidURL
      | Some p \<Rightarrow>
          if u_scheme p = ''unix'' then
            (if u_user p \<noteq> None \<or> u_host p \<noteq> [] \<or> u_raw_query p \<noteq> [] \<or> u_fragment p \<noteq> []
             then Error UnixURLExtraParts
             else if u_path p = [] \<or> \<not> HasPrefix (u_path p) ''/'' then Error (UnixPathNotAbsolute raw)
             else Ok (empty_url\<lparr>u_scheme := ''unix'', u_path := u_path p\<rparr>))
          else (case parseURL L raw of
              Inl e \<Rightarrow> Inl e
            | Inr q \<Rightarrow> (case requireScheme q [''http'', ''https''] of
                Inl e \<Rightarrow> Inl e
              | Inr _ \<Rightarrow>
                  if u_path q \<noteq> [] \<and> u_path q \<noteq> ''/'' then Error (ServerPathPresent (u_path q))
                  else let host = url_Hostname q in
                    if host = [] then Error ServerHostMissing
                    else if \<not> isLoopbackHost L host then Error (ServerHostNotLoopback host)
                    else Ok q)))"

text \<open>The parts of \<open>http.Client\<close> that \<open>NewAgentHTTPClient\<close> sets; \<open>None\<close> dials TCP.\<close>

record agent_client =
  ac_timeout :: duration
  ac_follow_redirects :: bool
  ac_unix_socket :: "string option"

definition NewAgentHTTPClient :: "url \<Rightarrow> agent_client" where
  "NewAgentHTTPClient u =
     (if u_scheme u = ''unix''
      then \<lparr>ac_timeout = 5 * time_Second, ac_follow_redirects = False, ac_unix_socket = Some (u_path u)\<rparr>
      else \<lparr>ac_timeout = 5 * time_Second, ac_follow_redirects = False, ac_unix_socket = None\<rparr>)"

definition AgentBaseURL :: "url \<Rightarrow> url" where
  "AgentBaseURL u =
     (if u_scheme u = ''unix'' then empty_url\<lparr>u_scheme := ''http'', u_host := ''localhost''\<rparr> else u)"

definition ValidateBackendEndpoint :: "netlib \<Rightarrow> string \<Rightarrow> (endpoint_error, url) result" where
  "ValidateBackendEndpoint L raw =
     (case parseURL L raw of
        Inl e \<Rightarrow> Inl e
      | Inr u \<Rightarrow>
          if u_scheme u = ''http'' then
            (let host = url_Hostname u in
             if host = [] \<or> \<not> isLoopbackHost L host then Error (BackendHTTPNotLoopback host) else Ok u)
          else (case requireScheme u [''https''] of Inl e \<Rightarrow> Inl e | Inr _ \<Rightarrow> Ok u))"

definition base_of :: "url \<Rightarrow> url" where
  "base_of u = empty_url\<lparr>u_scheme := u_scheme u, u_host := u_host u\<rparr>"

definition DeriveBackendBaseURL :: "netlib \<Rightarrow> string \<Rightarrow> (endpoint_error, string) result" where
  "DeriveBackendBaseURL L raw =
     (case parseURL L raw of
        Inl e \<Rightarrow> Inl e
      | Inr u \<Rightarrow>
          if u_scheme u = ''http'' then
            (let host = url_Hostname u in
             if host = [] \<or> \<not> isLoopbackHost L host then Error (BackendHTTPNotLoopback host)
             else Ok (url_String L (base_of u)))
          else (case requireScheme u [''https''] of
              Inl e \<Rightarrow> Inl e
            | Inr _ \<Rightarrow> Ok (url_String L (base_of u))))"

definition JoinPath :: "netlib \<Rightarrow> url \<Rightarrow> string list \<Rightarrow> string option" where
  "JoinPath L base elems = url_JoinPath L (url_String L base) elems"

text \<open>
  What the code relies on from \<open>net/url\<close>: printing the scheme and host of a parsed URL and parsing
  the result gives that scheme and host back, with every other part empty.
\<close>

definition base_url_roundtrip :: "netlib \<Rightarrow> bool" where
  "base_url_roundtrip L \<longleftrightarrow>
     (\<forall>s u. url_Parse L s = Some u \<longrightarrow> u_scheme u \<noteq> [] \<longrightarrow> u_host u \<noteq> [] \<longrightarrow>
        url_Parse L (url_String L (base_of u)) = Some (base_of u))"

text \<open>
  A concrete library for witnesses: URLs of the form \<open>scheme://[user@]host[/path][?query][#frag]\<close>
  with a lower-case scheme, dotted-decimal IPv4 addresses and the IPv6 loopback address.
\<close>

definition plain_Parse :: "string \<Rightarrow> url option" where
  "plain_Parse raw =
     (let (nofrag, frag, _) = Cut raw CHR ''#'';
          (noq, q, _) = Cut nofrag CHR ''?'';
          (sch, rest, found) = Cut noq CHR '':'';
          auth = takeWhile (\<lambda>c. c \<noteq> CHR ''/'') (drop 2 rest);
          path = dropWhile (\<lambda>c. c \<noteq> CHR ''/'') (drop 2 rest);
          (before_at, after_at, at) = Cut auth CHR ''@'';
          host = (if at then after_at else auth)
      in if \<not> found \<or> sch = [] \<or> \<not> list_all (\<lambda>c. CHR ''a'' \<le> c \<and> c \<le> CHR ''z'') sch
            \<or> \<not> prefix ''//'' rest \<or> CHR ''@'' \<in> set host then None
         else Some (empty_url\<lparr>u_scheme := sch, u_user := (if at then Some before_at else None),
                u_host := host, u_path := path, u_raw_query := q, u_fragment := frag\<rparr>))"

definition plain_String :: "url \<Rightarrow> string" where
  "plain_String u = u_scheme u @ ''://'' @ u_host u @ u_path u"

definition plain_JoinPath :: "string \<Rightarrow> string list \<Rightarrow> string option" where
  "plain_JoinPath base elems = Some (TrimRightChar base CHR ''/'' @ concat (map (\<lambda>e. CHR ''/'' # e) elems))"

definition plain_ParseIP :: "string \<Rightarrow> ip option" where
  "plain_ParseIP s =
     (if s = ''::1'' then Some (replicate 15 0 @ [1])
      else let parts = map parse_digits (Split s CHR ''.'')
           in if length parts = 4 \<and> list_all (\<lambda>p. case p of None \<Rightarrow> False | Some n \<Rightarrow> n < 256) parts
              then Some (replicate 10 0 @ [255, 255] @ map the parts) else None)"

definition plain_netlib :: netlib where
  "plain_netlib = \<lparr>url_Parse = plain_Parse, url_String = plain_String,
     url_JoinPath = plain_JoinPath, net_ParseIP = plain_ParseIP\<rparr>"

section \<open>Lemmas\<close>

text \<open>The declarative reading of an acceptable backend URL.\<close>

definition bare_url :: "url \<Rightarrow> bool" where
  "bare_url u \<longleftrightarrow> u_user u = None \<and> u_host u \<noteq> [] \<and> u_raw_query u = [] \<and> u_fragment u = []"

definition backend_url_ok :: "netlib \<Rightarrow> url \<Rightarrow> bool" where
  "backend_url_ok L u \<longleftrightarrow> bare_url u \<and>
     (u_scheme u = ''https'' \<or>
      u_scheme u = ''http'' \<and> url_Hostname u \<noteq> [] \<and> isLoopbackHost L (url_Hostname u))"

lemma parseURL_Ok_iff: "parseURL L raw = Inr u \<longleftrightarrow> url_Parse L raw = Some u \<and> bare_url u"
  by (auto simp: parseURL_def bare_url_def split: option.splits)

lemma backend_Ok_iff:
  "ValidateBackendEndpoint L raw = Inr u \<longleftrightarrow> url_Parse L raw = Some u \<and> backend_url_ok L u"
proof (cases "parseURL L raw")
  case (Inl e)
  then have "\<not> (url_Parse L raw = Some u \<and> bare_url u)"
    by (auto simp flip: parseURL_Ok_iff)
  then show ?thesis
    by (auto simp: ValidateBackendEndpoint_def backend_url_ok_def Inl)
next
  case (Inr v)
  then have "url_Parse L raw = Some v" "bare_url v"
    by (auto simp: parseURL_Ok_iff)
  then show ?thesis
    by (auto simp: ValidateBackendEndpoint_def backend_url_ok_def Inr requireScheme_def Let_def)
qed

lemma derive_eq_validate:
  "DeriveBackendBaseURL L raw =
     (case ValidateBackendEndpoint L raw of Inl e \<Rightarrow> Inl e | Inr u \<Rightarrow> Inr (url_String L (base_of u)))"
  by (simp add: DeriveBackendBaseURL_def ValidateBackendEndpoint_def Let_def split: sum.split)

lemma base_of_simps [simp]:
  "u_scheme (base_of u) = u_scheme u" "u_host (base_of u) = u_host u" "u_path (base_of u) = []"
  "u_user (base_of u) = None" "u_raw_query (base_of u) = []" "u_fragment (base_of u) = []"
  "base_of (base_of u) = base_of u" "url_Hostname (base_of u) = url_Hostname u"
  by (simp_all add: base_of_def empty_url_def url_Hostname_def)

lemma backend_url_ok_base: "backend_url_ok L u \<Longrightarrow> backend_url_ok L (base_of u)"
  by (auto simp: backend_url_ok_def bare_url_def)

lemma backend_url_ok_scheme: "backend_url_ok L u \<Longrightarrow> u_scheme u \<noteq> [] \<and> u_host u \<noteq> []"
  by (auto simp: backend_url_ok_def bare_url_def)

lemma derive_base:
  assumes "base_url_roundtrip L" and "DeriveBackendBaseURL L raw = Inr b"
  obtains u where "url_Parse L raw = Some u" "backend_url_ok L u" "b = url_String L (base_of u)"
    "ValidateBackendEndpoint L b = Inr (base_of u)" "DeriveBackendBaseURL L b = Inr b"
proof -
  from assms(2) obtain u where u: "ValidateBackendEndpoint L raw = Inr u" "b = url_String L (base_of u)"
    by (auto simp: derive_eq_validate split: sum.splits)
  then have p: "url_Parse L raw = Some u" and ok: "backend_url_ok L u"
    by (auto simp: backend_Ok_iff)
  have "url_Parse L b = Some (base_of u)"
    using assms(1) p backend_url_ok_scheme [OF ok] u(2) by (auto simp: base_url_roundtrip_def)
  then have v: "ValidateBackendEndpoint L b = Inr (base_of u)"
    using backend_url_ok_base [OF ok] by (simp add: backend_Ok_iff)
  then have "DeriveBackendBaseURL L b = Inr b"
    by (simp add: derive_eq_validate u(2))
  with p ok u(2) v show ?thesis by (rule that)
qed

lemma local_Ok_cases:
  assumes "ValidateLocalServerURL L raw = Inr u"
  shows "(u_scheme u = ''unix'' \<and> HasPrefix (u_path u) ''/'' \<and> u_host u = []) \<or>
         (u_scheme u \<in> {''http'', ''https''} \<and> isLoopbackHost L (url_Hostname u) \<and>
          u_path u \<in> {[], ''/''} \<and> bare_url u)"
  using assms
  by (auto simp: ValidateLocalServerURL_def parseURL_Ok_iff requireScheme_def Let_def empty_url_def
           split: if_splits option.splits sum.splits)

lemma Cut_noc: "c \<notin> set s \<Longrightarrow> Cut s c = (s, [], False)"
  by (simp add: Cut_spec)

lemma Cut_append: "c \<notin> set b \<Longrightarrow> Cut (b @ c # a) c = (b, a, True)"
  by (simp add: Cut_spec)

lemma Cut_set:
  assumes "Cut s c = (b, a, f)"
  shows "c \<notin> set b" "set b \<subseteq> set s" "set a \<subseteq> set s"
  using assms by (auto simp: Cut_spec split: if_splits)

lemma plain_Parse_base:
  assumes "list_all (\<lambda>c. CHR ''a'' \<le> c \<and> c \<le> CHR ''z'') sch" "sch \<noteq> []"
    and "set host \<inter> {CHR ''#'', CHR ''?'', CHR ''/'', CHR ''@''} = {}"
  shows "plain_Parse (sch @ ''://'' @ host) = Some (empty_url\<lparr>u_scheme := sch, u_host := host\<rparr>)"
proof -
  have low: "c \<notin> set sch" if "\<not> (CHR ''a'' \<le> c \<and> c \<le> CHR ''z'')" for c
    using assms(1) that by (auto simp: list_all_iff)
  have "CHR ''#'' \<notin> set sch" "CHR ''?'' \<notin> set sch" "CHR '':'' \<notin> set sch" "CHR ''/'' \<notin> set sch"
    by (rule low, simp add: less_eq_char_def)+
  then have c: "Cut (sch @ ''://'' @ host) CHR ''#'' = (sch @ ''://'' @ host, [], False)"
    "Cut (sch @ ''://'' @ host) CHR ''?'' = (sch @ ''://'' @ host, [], False)"
    "Cut (sch @ ''://'' @ host) CHR '':'' = (sch, ''//'' @ host, True)"
    using assms(3) by (auto intro!: Cut_noc simp: Cut_append)
  have h: "takeWhile (\<lambda>c. c \<noteq> CHR ''/'') host = host" "dropWhile (\<lambda>c. c \<noteq> CHR ''/'') host = []"
    using assms(3) by (auto simp: takeWhile_eq_all_conv dropWhile_eq_Nil_conv)
  have a: "Cut host CHR ''@'' = (host, [], False)" "CHR ''@'' \<notin> set host"
    using assms(3) by (auto intro: Cut_noc)
  have d: "drop 2 (''//'' @ host) = host" by simp
  show ?thesis
    unfolding plain_Parse_def Let_def c prod.case d h a
    using assms(1,2) a by (simp add: empty_url_def)
qed

lemma plain_roundtrip: "base_url_roundtrip plain_netlib"
  unfolding base_url_roundtrip_def
proof (intro allI impI)
  fix s u
  assume "url_Parse plain_netlib s = Some u"
  then have p: "plain_Parse s = Some u" by (simp add: plain_netlib_def)
  obtain nofrag frag f1 where c1: "Cut s CHR ''#'' = (nofrag, frag, f1)" by (metis prod_cases3)
  obtain noq q f2 where c2: "Cut nofrag CHR ''?'' = (noq, q, f2)" by (metis prod_cases3)
  obtain sch rest f3 where c3: "Cut noq CHR '':'' = (sch, rest, f3)" by (metis prod_cases3)
  obtain ba aa at' where c4: "Cut (takeWhile (\<lambda>c. c \<noteq> CHR ''/'') (drop 2 rest)) CHR ''@'' = (ba, aa, at')"
    by (metis prod_cases3)
  let ?auth = "takeWhile (\<lambda>c. c \<noteq> CHR ''/'') (drop 2 rest)"
  have h: "u_host u = (if at' then aa else ?auth)" and sch: "u_scheme u = sch" "sch \<noteq> []"
    "list_all (\<lambda>c. CHR ''a'' \<le> c \<and> c \<le> CHR ''z'') sch" and noat: "CHR ''@'' \<notin> set (u_host u)"
    using p by (auto simp: plain_Parse_def c1 c2 c3 c4 Let_def empty_url_def split: if_splits)
  have sub: "set (u_host u) \<subseteq> set ?auth"
    using h Cut_set(3) [OF c4] by auto
  have auth: "set ?auth \<subseteq> set rest" "CHR ''/'' \<notin> set ?auth"
    by (auto dest!: set_takeWhileD in_set_dropD)
  have "set rest \<subseteq> set noq" "set noq \<subseteq> set nofrag" "CHR ''?'' \<notin> set noq" "CHR ''#'' \<notin> set nofrag"
    using Cut_set [OF c3] Cut_set [OF c2] Cut_set [OF c1] by auto
  with sub auth noat have dis: "set (u_host u) \<inter> {CHR ''#'', CHR ''?'', CHR ''/'', CHR ''@''} = {}"
    by blast
  show "url_Parse plain_netlib (url_String plain_netlib (base_of u)) = Some (base_of u)"
    using plain_Parse_base [OF sch(3,2) dis] sch(1)
    by (simp add: plain_netlib_def plain_String_def base_of_def empty_url_def)
qed

section \<open>Properties\<close>

text \<open>C22: which backend endpoints are accepted.  \<open>ValidateBackendEndpoint\<close> returns the parsed URL
  exactly when it has no user info, query or fragment, has a host, and is HTTPS or is HTTP to a
  loopback host; \<open>DeriveBackendBaseURL\<close> accepts exactly the same inputs and returns the printed
  scheme and host of the URL, with the same error otherwise.\<close>

theorem backend_endpoint_accepts:
  "(ValidateBackendEndpoint L raw = Ok u \<longleftrightarrow>
      url_Parse L raw = Some u \<and> u_user u = None \<and> u_host u \<noteq> [] \<and> u_raw_query u = [] \<and> u_fragment u = [] \<and>
      (u_scheme u = ''https'' \<or>
       u_scheme u = ''http'' \<and> url_Hostname u \<noteq> [] \<and> isLoopbackHost L (url_Hostname u))) \<and>
   DeriveBackendBaseURL L raw =
     (case ValidateBackendEndpoint L raw of
        Inl e \<Rightarrow> Error e
      | Inr w \<Rightarrow> Ok (url_String L (empty_url\<lparr>u_scheme := u_scheme w, u_host := u_host w\<rparr>)))"
  using backend_Ok_iff [of L raw u] derive_eq_validate [of L raw]
  by (simp add: backend_url_ok_def bare_url_def base_of_def split: sum.split)

text \<open>A local server URL never leaves the machine.  Whatever \<open>ValidateLocalServerURL\<close> accepts is
  either a Unix socket with an absolute path, which \<open>NewAgentHTTPClient\<close> dials whatever the request's
  host is, or an HTTP(S) URL without path whose host is loopback, which is then the base URL of every
  request; redirects are never followed.\<close>

theorem local_server_url_is_local:
  assumes "ValidateLocalServerURL L raw = Ok u"
  shows "\<not> ac_follow_redirects (NewAgentHTTPClient u) \<and> ac_timeout (NewAgentHTTPClient u) = 5 * time_Second \<and>
         (case ac_unix_socket (NewAgentHTTPClient u) of
            Some path \<Rightarrow> HasPrefix path ''/'' \<and> url_Hostname (AgentBaseURL u) = ''localhost''
          | None \<Rightarrow> AgentBaseURL u = u \<and> u_scheme u \<in> {''http'', ''https''} \<and> u_path u \<in> {[], ''/''} \<and>
                    u_user u = None \<and> isLoopbackHost L (url_Hostname u))"
proof -
  have host: "url_Hostname (empty_url\<lparr>u_scheme := ''http'', u_host := ''localhost''\<rparr>) = ''localhost''"
    by code_simp
  show ?thesis
    using local_Ok_cases [OF assms]
    by (auto simp: NewAgentHTTPClient_def AgentBaseURL_def bare_url_def host)
qed

theorem local_server_url_is_local_witness:
  "ValidateLocalServerURL plain_netlib ''http://127.0.0.1:15133'' =
     Ok (empty_url\<lparr>u_scheme := ''http'', u_host := ''127.0.0.1:15133''\<rparr>) \<and>
   isLoopbackHost plain_netlib (url_Hostname (empty_url\<lparr>u_scheme := ''http'', u_host := ''127.0.0.1:15133''\<rparr>))"
proof -
  have v: "ValidateLocalServerURL plain_netlib ''http://127.0.0.1:15133'' =
     Ok (empty_url\<lparr>u_scheme := ''http'', u_host := ''127.0.0.1:15133''\<rparr>)"
    by code_simp
  with local_server_url_is_local [OF v] show ?thesis
    by (simp add: NewAgentHTTPClient_def empty_url_def)
qed

end
