(* ===== verification/Agent_State.thy ===== *)
theory Agent_State
  imports Endpoint
begin

text \<open>
  \<open>internal/agentstate\<close> (the SQLite-backed agent state), the two functions of the SDK's metadata
  package it stores through, and \<open>internal/agentidentity\<close>.

  A database file is an optional table from keys to values (\<open>None\<close>: the table does not exist).  Every
  external failure (path lookup, opening, permissions, a failing statement) is a field of the record
  \<open>sqlite_env\<close>, so each error return of the code is a branch of the model; a failed statement leaves
  the table alone.  Getters return \<open>None\<close> for the code's \<open>("", false, nil)\<close>.

  The locale \<open>metadata_store\<close> is the contract the workflows above rely on (what is read after a
  sequence of writes); it is interpreted on the model's own read and write.  The step relation
  \<open>uuid_step\<close> interleaves any number of processes running \<open>GetOrCreateAgentUUIDMetadata\<close> on one
  database.
\<close>

section \<open>Definitions\<close>

subsection \<open>The SQLite environment\<close>

datatype sql_fault = Sqlite3Error int string | OtherSqlError string
datatype sql_error = ErrNoRows | SqlFault sql_fault

type_synonym table = "string \<rightharpoonup> string"
type_synonym database = "table option"

record sqlite_env =
  se_state_file :: "(string, string) result"
  se_open_ro :: "string option"
  se_open_rw :: "string option"
  se_secure :: "string option"
  se_create_table :: "sql_fault option"
  se_select :: "string \<Rightarrow> sql_fault option"
  se_reselect :: "string \<Rightarrow> sql_fault option"
  se_exec :: "string \<Rightarrow> sql_fault option"

definition healthy :: sqlite_env where
  "healthy = \<lparr>se_state_file = Ok ''/var/lib/fleetint/fleetint.state'', se_open_ro = None, se_open_rw = None,
     se_secure = None, se_create_table = None, se_select = (\<lambda>_. None), se_reselect = (\<lambda>_. None),
     se_exec = (\<lambda>_. None)\<rparr>"

definition no_such_table :: sql_error where
  "no_such_table = SqlFault (Sqlite3Error 1 ''no such table: gpud_metadata'')"

definition sql_select :: "(string \<Rightarrow> sql_fault option) \<Rightarrow> database \<Rightarrow> string \<Rightarrow> (sql_error, string) result" where
  "sql_select faults db key =
     (case faults key of
        Some e \<Rightarrow> Error (SqlFault e)
      | None \<Rightarrow> (case db of
            None \<Rightarrow> Error no_such_table
          | Some t \<Rightarrow> (case t key of None \<Rightarrow> Error ErrNoRows | Some v \<Rightarrow> Ok v)))"

definition sql_exec :: "sqlite_env \<Rightarrow> string \<Rightarrow> (table \<Rightarrow> table) \<Rightarrow> database \<Rightarrow> (sql_error, unit) result \<times> database" where
  "sql_exec E key f db =
     (case se_exec E key of
        Some e \<Rightarrow> (Error (SqlFault e), db)
      | None \<Rightarrow> (case db of None \<Rightarrow> (Error no_such_table, db) | Some t \<Rightarrow> (Ok (), Some (f t))))"

subsection \<open>Package metadata of the SDK\<close>

definition MetadataKeyMachineID :: string where "MetadataKeyMachineID = ''machine_id''"
definition MetadataKeyToken :: string where "MetadataKeyToken = ''token''"

definition CreateTableMetadata :: "sqlite_env \<Rightarrow> database \<Rightarrow> (sql_error, unit) result \<times> database" where
  "CreateTableMetadata E db =
     (case se_create_table E of
        Some e \<Rightarrow> (Error (SqlFault e), db)
      | None \<Rightarrow> (Ok (), Some (case db of None \<Rightarrow> Map.empty | Some t \<Rightarrow> t)))"

definition SetMetadata :: "sqlite_env \<Rightarrow> string \<Rightarrow> string \<Rightarrow> database \<Rightarrow> (sql_error, unit) result \<times> database" where
  "SetMetadata E key value db = sql_exec E key (\<lambda>t. t(key \<mapsto> value)) db"

definition ReadMetadata :: "sqlite_env \<Rightarrow> database \<Rightarrow> string \<Rightarrow> (sql_error, string) result" where
  "ReadMetadata E db key =
     (case sql_select (se_select E) db key of
        Inl e \<Rightarrow> if e = ErrNoRows then Ok [] else Error e
      | Inr v \<Rightarrow> Ok v)"

subsection \<open>Keys and errors of agentstate\<close>

definition MetadataKeyBackendBaseURL :: string where "MetadataKeyBackendBaseURL = ''backend_base_url''"
definition MetadataKeySAKToken :: string where "MetadataKeySAKToken = ''sak_token''"
definition MetadataKeyEnrolledAt :: string where "MetadataKeyEnrolledAt = ''enrolled_at''"
definition MetadataKeyNodeGroup :: string where "MetadataKeyNodeGroup = ''node_group''"
definition MetadataKeyComputeZone :: string where "MetadataKeyComputeZone = ''compute_zone''"

lemmas metadata_keys =
  MetadataKeyMachineID_def MetadataKeyToken_def MetadataKeyBackendBaseURL_def MetadataKeySAKToken_def
  MetadataKeyEnrolledAt_def MetadataKeyNodeGroup_def MetadataKeyComputeZone_def

datatype state_error =
    StateFilePath string
  | OpenReadOnlyFailed string
  | OpenReadWriteFailed string
  | SecurePermissions string
  | CreateTableFailed sql_error
  | ReadMetadataFailed string sql_error
  | SetMetadataFailed string sql_error
  | InvalidBackendBaseURL endpoint_error
  | CreateFunctionRequired
  | CreateFailed string
  | CreatedUUIDEmpty
  | InsertAgentUUIDFailed sql_error
  | ReadAgentUUIDFailed sql_error
  | AgentUUIDNotCommitted
  | AgentUUIDEmpty
  | DatabaseRequired
  | ReadPlacementFailed sql_error
  | UpdatePlacementFailed sql_error
  | ParseEnrolledAt
  | EnrollmentTimeZero

definition isMetadataAbsentErr :: "sql_error \<Rightarrow> bool" where
  "isMetadataAbsentErr e =
     (case e of
        ErrNoRows \<Rightarrow> True
      | SqlFault (Sqlite3Error code msg) \<Rightarrow> code = 1 \<and> Contains (ToLower msg) ''no such table''
      | SqlFault (OtherSqlError _) \<Rightarrow> False)"

subsection \<open>Opening the database, generic read and write\<close>

definition openReadOnly :: "sqlite_env \<Rightarrow> database \<Rightarrow> (state_error, database) result" where
  "openReadOnly E db =
     (case se_state_file E of
        Inl e \<Rightarrow> Error (StateFilePath e)
      | Inr _ \<Rightarrow> (case se_open_ro E of Some e \<Rightarrow> Error (OpenReadOnlyFailed e) | None \<Rightarrow> Ok db))"

definition openReadWrite :: "sqlite_env \<Rightarrow> database \<Rightarrow> (state_error, database) result" where
  "openReadWrite E db =
     (case se_state_file E of
        Inl e \<Rightarrow> Error (StateFilePath e)
      | Inr _ \<Rightarrow> (case se_open_rw E of Some e \<Rightarrow> Error (OpenReadWriteFailed e) | None \<Rightarrow> Ok db))"

text \<open>The prologue of every writer: open, tighten the file permissions, make sure the table exists.\<close>

definition prepareReadWrite :: "sqlite_env \<Rightarrow> database \<Rightarrow> (state_error, unit) result \<times> database" where
  "prepareReadWrite E db =
     (case openReadWrite E db of
        Inl e \<Rightarrow> (Error e, db)
      | Inr _ \<Rightarrow>
          (case (case se_state_file E of Inl _ \<Rightarrow> None | Inr _ \<Rightarrow> se_secure E) of
             Some e \<Rightarrow> (Error (SecurePermissions e), db)
           | None \<Rightarrow> (case CreateTableMetadata E db of
                 (Inl e, db1) \<Rightarrow> (Error (CreateTableFailed e), db1)
               | (Inr _, db1) \<Rightarrow> (Ok (), db1))))"

definition getMetadata :: "sqlite_env \<Rightarrow> database \<Rightarrow> string \<Rightarrow> (state_error, string option) result" where
  "getMetadata E db key =
     (case openReadOnly E db of
        Inl e \<Rightarrow> Error e
      | Inr h \<Rightarrow> (case ReadMetadata E h key of
            Inl e \<Rightarrow> if isMetadataAbsentErr e then Ok None else Error (ReadMetadataFailed key e)
          | Inr v \<Rightarrow> if v = [] then Ok None else Ok (Some v)))"

definition setMetadata :: "sqlite_env \<Rightarrow> string \<Rightarrow> string \<Rightarrow> database \<Rightarrow> (state_error, unit) result \<times> database" where
  "setMetadata E key value db =
     (case prepareReadWrite E db of
        (Inl e, db1) \<Rightarrow> (Error e, db1)
      | (Inr _, db1) \<Rightarrow> (case SetMetadata E key value db1 of
            (Inl e, db2) \<Rightarrow> (Error (SetMetadataFailed key e), db2)
          | (Inr _, db2) \<Rightarrow> (Ok (), db2)))"

subsection \<open>Backend base URL\<close>

definition legacy_endpoint_keys :: "string list" where
  "legacy_endpoint_keys = [''enroll_endpoint'', ''metrics_endpoint'', ''logs_endpoint'', ''nonce_endpoint'']"

fun legacy_lookup :: "netlib \<Rightarrow> sqlite_env \<Rightarrow> database \<Rightarrow> string list \<Rightarrow> (state_error, string option) result" where
  "legacy_lookup L E h [] = Ok None"
| "legacy_lookup L E h (key # keys) =
     (case ReadMetadata E h key of
        Inr v \<Rightarrow>
          if v = [] then legacy_lookup L E h keys
          else (case DeriveBackendBaseURL L v of
              Inl _ \<Rightarrow> legacy_lookup L E h keys
            | Inr b \<Rightarrow> Ok (Some b))
      | Inl e \<Rightarrow>
          if isMetadataAbsentErr e then legacy_lookup L E h keys else Error (ReadMetadataFailed key e))"

definition GetBackendBaseURL :: "netlib \<Rightarrow> sqlite_env \<Rightarrow> database \<Rightarrow> (state_error, string option) result" where
  "GetBackendBaseURL L E db =
     (case openReadOnly E db of
        Inl e \<Rightarrow> Error e
      | Inr h \<Rightarrow> (case ReadMetadata E h MetadataKeyBackendBaseURL of
            Inr v \<Rightarrow>
              if v \<noteq> [] then (case DeriveBackendBaseURL L v of
                  Inr b \<Rightarrow> Ok (Some b)
                | Inl _ \<Rightarrow> legacy_lookup L E h legacy_endpoint_keys)
              else legacy_lookup L E h legacy_endpoint_keys
          | Inl e \<Rightarrow>
              if isMetadataAbsentErr e then legacy_lookup L E h legacy_endpoint_keys
              else Error (ReadMetadataFailed MetadataKeyBackendBaseURL e)))"

definition SetBackendBaseURL :: "netlib \<Rightarrow> sqlite_env \<Rightarrow> string \<Rightarrow> database \<Rightarrow> (state_error, unit) result \<times> database" where
  "SetBackendBaseURL L E value db =
     (case ValidateBackendEndpoint L value of
        Inl e \<Rightarrow> (Error (InvalidBackendBaseURL e), db)
      | Inr _ \<Rightarrow> setMetadata E MetadataKeyBackendBaseURL value db)"

subsection \<open>Simple keys\<close>

definition GetJWT where "GetJWT E db = getMetadata E db MetadataKeyToken"
definition SetJWT where "SetJWT E value db = setMetadata E MetadataKeyToken value db"
definition GetSAK where "GetSAK E db = getMetadata E db MetadataKeySAKToken"
definition SetSAK where "SetSAK E value db = setMetadata E MetadataKeySAKToken value db"
definition GetAgentUUID where "GetAgentUUID E db = getMetadata E db MetadataKeyMachineID"
definition SetAgentUUID where "SetAgentUUID E value db = setMetadata E MetadataKeyMachineID value db"
definition GetNodeGroup where "GetNodeGroup E db = getMetadata E db MetadataKeyNodeGroup"
definition SetNodeGroup where "SetNodeGroup E value db = setMetadata E MetadataKeyNodeGroup value db"
definition GetComputeZone where "GetComputeZone E db = getMetadata E db MetadataKeyComputeZone"
definition SetComputeZone where "SetComputeZone E value db = setMetadata E MetadataKeyComputeZone value db"

subsection \<open>Agent UUID\<close>

definition readAgentUUIDDB :: "(string \<Rightarrow> sql_fault option) \<Rightarrow> database \<Rightarrow> (state_error, string option) result" where
  "readAgentUUIDDB faults db =
     (case sql_select faults db MetadataKeyMachineID of
        Inr v \<Rightarrow> if v \<noteq> [] then Ok (Some v) else Ok None
      | Inl e \<Rightarrow> if e = ErrNoRows then Ok None else Error (ReadAgentUUIDFailed e))"

text \<open>\<open>INSERT ... ON CONFLICT(key) DO UPDATE ... WHERE gpud_metadata.value = ''\<close>\<close>

definition insert_if_blank :: "string \<Rightarrow> string \<Rightarrow> table \<Rightarrow> table" where
  "insert_if_blank key value t =
     (case t key of
        None \<Rightarrow> t(key \<mapsto> value)
      | Some old \<Rightarrow> if old = [] then t(key \<mapsto> value) else t)"

text \<open>The argument \<open>create\<close> is \<open>None\<close> for a nil function, otherwise the result of calling it.\<close>

definition GetOrCreateAgentUUIDMetadata ::
  "sqlite_env \<Rightarrow> (string, string) result option \<Rightarrow> database \<Rightarrow> (state_error, string \<times> bool) result \<times> database" where
  "GetOrCreateAgentUUIDMetadata E create db =
     (case create of
        None \<Rightarrow> (Error CreateFunctionRequired, db)
      | Some outcome \<Rightarrow> (case readAgentUUIDDB (se_select E) db of
            Inl e \<Rightarrow> (Error e, db)
          | Inr (Some existing) \<Rightarrow> (Ok (existing, False), db)
          | Inr None \<Rightarrow> (case outcome of
                Inl e \<Rightarrow> (Error (CreateFailed e), db)
              | Inr candidate \<Rightarrow>
                  if candidate = [] then (Error CreatedUUIDEmpty, db)
                  else (case sql_exec E MetadataKeyMachineID (insert_if_blank MetadataKeyMachineID candidate) db of
                      (Inl e, db1) \<Rightarrow> (Error (InsertAgentUUIDFailed e), db1)
                    | (Inr _, db1) \<Rightarrow> (case readAgentUUIDDB (se_reselect E) db1 of
                          Inl e \<Rightarrow> (Error e, db1)
                        | Inr None \<Rightarrow> (Error AgentUUIDNotCommitted, db1)
                        | Inr (Some committed) \<Rightarrow>
                            if committed = [] then (Error AgentUUIDEmpty, db1)
                            else (Ok (committed, committed = candidate), db1))))))"

definition GetOrCreateAgentUUID ::
  "sqlite_env \<Rightarrow> (string, string) result option \<Rightarrow> database \<Rightarrow> (state_error, string \<times> bool) result \<times> database" where
  "GetOrCreateAgentUUID E create db =
     (case prepareReadWrite E db of
        (Inl e, db1) \<Rightarrow> (Error e, db1)
      | (Inr _, db1) \<Rightarrow> GetOrCreateAgentUUIDMetadata E create db1)"

subsection \<open>Node placement\<close>

definition coalesce_value :: "table \<Rightarrow> string \<Rightarrow> string" where
  "coalesce_value t key = (case t key of None \<Rightarrow> [] | Some v \<Rightarrow> v)"

definition ok_if_nonempty :: "string \<Rightarrow> string option" where
  "ok_if_nonempty v = (if v = [] then None else Some v)"

text \<open>A nil handle is \<open>None\<close>.  The statement reads both keys, so a fault of either is its fault.\<close>

definition ReadNodePlacementMetadata ::
  "sqlite_env \<Rightarrow> database option \<Rightarrow> (state_error, string option \<times> string option) result" where
  "ReadNodePlacementMetadata E handle =
     (case handle of
        None \<Rightarrow> Error DatabaseRequired
      | Some db \<Rightarrow>
          (case (case se_select E MetadataKeyNodeGroup of
                   Some e \<Rightarrow> Inl (SqlFault e)
                 | None \<Rightarrow> (case db of None \<Rightarrow> Inl no_such_table | Some t \<Rightarrow> Inr t)) of
             Inl e \<Rightarrow> if isMetadataAbsentErr e then Ok (None, None) else Error (ReadPlacementFailed e)
           | Inr t \<Rightarrow> Ok (ok_if_nonempty (coalesce_value t MetadataKeyNodeGroup),
                           ok_if_nonempty (coalesce_value t MetadataKeyComputeZone))))"

definition GetNodePlacement :: "sqlite_env \<Rightarrow> database \<Rightarrow> (state_error, string option \<times> string option) result" where
  "GetNodePlacement E db =
     (case openReadOnly E db of Inl e \<Rightarrow> Error e | Inr h \<Rightarrow> ReadNodePlacementMetadata E (Some h))"

text \<open>\<open>COALESCE(?, (SELECT value ... WHERE key = ?), '')\<close>, the argument being NULL for a nil pointer.\<close>

definition placement_value :: "string option \<Rightarrow> string \<Rightarrow> table \<Rightarrow> string" where
  "placement_value arg key t = (case arg of Some v \<Rightarrow> v | None \<Rightarrow> coalesce_value t key)"

definition UpdateNodePlacementMetadata ::
  "sqlite_env \<Rightarrow> string option \<Rightarrow> string option \<Rightarrow> database option \<Rightarrow> (state_error, unit) result \<times> database option" where
  "UpdateNodePlacementMetadata E nodeGroup computeZone handle =
     (case handle of
        None \<Rightarrow> (Error DatabaseRequired, handle)
      | Some db \<Rightarrow>
          if nodeGroup = None \<and> computeZone = None then (Ok (), handle)
          else (case sql_exec E MetadataKeyNodeGroup
                       (\<lambda>t. t(MetadataKeyNodeGroup \<mapsto> placement_value nodeGroup MetadataKeyNodeGroup t,
                              MetadataKeyComputeZone \<mapsto> placement_value computeZone MetadataKeyComputeZone t)) db of
              (Inl e, db1) \<Rightarrow> (Error (UpdatePlacementFailed e), Some db1)
            | (Inr _, db1) \<Rightarrow> (Ok (), Some db1)))"

definition SetNodePlacement ::
  "sqlite_env \<Rightarrow> string \<Rightarrow> string \<Rightarrow> database \<Rightarrow> (state_error, unit) result \<times> database" where
  "SetNodePlacement E nodeGroup computeZone db =
     (case prepareReadWrite E db of
        (Inl e, db1) \<Rightarrow> (Error e, db1)
      | (Inr _, db1) \<Rightarrow>
          (case UpdateNodePlacementMetadata E (Some nodeGroup) (Some computeZone) (Some db1) of
             (r, h) \<Rightarrow> (r, case h of None \<Rightarrow> db1 | Some db2 \<Rightarrow> db2)))"

subsection \<open>Enrollment time\<close>

text \<open>\<open>time.Parse\<close> and \<open>Time.Format\<close> with the layout \<open>time.RFC3339Nano\<close>.\<close>

record timelib =
  rfc3339_parse :: "string \<Rightarrow> gotime option"
  rfc3339_format :: "gotime \<Rightarrow> string"

definition GetEnrollmentTime :: "timelib \<Rightarrow> sqlite_env \<Rightarrow> database \<Rightarrow> (state_error, gotime option) result" where
  "GetEnrollmentTime T E db =
     (case getMetadata E db MetadataKeyEnrolledAt of
        Inl e \<Rightarrow> Error e
      | Inr None \<Rightarrow> Ok None
      | Inr (Some v) \<Rightarrow> (case rfc3339_parse T v of
            None \<Rightarrow> Error ParseEnrolledAt
          | Some t \<Rightarrow> Ok (Some (to_utc t))))"

definition SetEnrollmentTime :: "timelib \<Rightarrow> sqlite_env \<Rightarrow> gotime \<Rightarrow> database \<Rightarrow> (state_error, unit) result \<times> database" where
  "SetEnrollmentTime T E value db =
     (if is_zero_time value then (Error EnrollmentTimeZero, db)
      else setMetadata E MetadataKeyEnrolledAt (rfc3339_format T (to_utc value)) db)"

text \<open>
  What the layout guarantees for years 0 to 9999: parsing a formatted UTC time gives the same instant,
  and the formatted text is not empty.
\<close>

definition year0_nanos :: int where "year0_nanos = - 62167219200 * 1000000000"
definition year10000_nanos :: int where "year10000_nanos = 253402300800 * 1000000000"

definition rfc3339_roundtrip :: "timelib \<Rightarrow> bool" where
  "rfc3339_roundtrip T \<longleftrightarrow>
     (\<forall>t. t_utc t \<longrightarrow> year0_nanos \<le> t_nanos t \<longrightarrow> t_nanos t < year10000_nanos \<longrightarrow>
        rfc3339_format T t \<noteq> [] \<and>
        (\<exists>u. rfc3339_parse T (rfc3339_format T t) = Some u \<and> t_nanos u = t_nanos t))"

text \<open>A concrete library for witnesses: the decimal number of seconds and nanoseconds since the epoch.\<close>

definition plain_timelib :: timelib where
  "plain_timelib = \<lparr>
     rfc3339_parse = (\<lambda>s. case Cut s CHR ''.'' of (sec, frac, _) \<Rightarrow>
        (case (ParseInt sec, ParseInt frac) of
           (Some a, Some b) \<Rightarrow> Some \<lparr>t_nanos = a * 1000000000 + b, t_utc = True\<rparr>
         | _ \<Rightarrow> None)),
     rfc3339_format = (\<lambda>t. FormatInt (t_nanos t div 1000000000) @ ''.'' @ FormatInt (t_nanos t mod 1000000000))\<rparr>"

subsection \<open>Agent identity\<close>

text \<open>
  The host's reported system UUID, the parser of package \<open>google/uuid\<close> (the 16 bytes of the UUID) and
  the next random UUID it draws.
\<close>

record identity_env =
  ie_system_uuid :: string
  ie_uuid_parse :: "string \<Rightarrow> nat list option"
  ie_new_uuid :: string

datatype identity_error =
    SystemUUIDNotFound
  | InvalidSystemUUID string
  | PlaceholderSystemUUID string
  | IdentityStateRequired
  | EnsureAgentUUIDFailed state_error

definition uuid_Nil :: "nat list" where "uuid_Nil = replicate 16 0"
definition uuid_Max :: "nat list" where "uuid_Max = replicate 16 255"

definition agentUUIDFromSystemUUID :: "identity_env \<Rightarrow> string \<Rightarrow> (identity_error, string) result" where
  "agentUUIDFromSystemUUID I systemUUID =
     (if systemUUID = [] then Error SystemUUIDNotFound
      else (case ie_uuid_parse I systemUUID of
          None \<Rightarrow> Error (InvalidSystemUUID systemUUID)
        | Some p \<Rightarrow>
            if p = uuid_Nil \<or> p = uuid_Max then Error (PlaceholderSystemUUID systemUUID)
            else Ok systemUUID))"

definition readHardwareUUID :: "identity_env \<Rightarrow> (identity_error, string) result" where
  "readHardwareUUID I = agentUUIDFromSystemUUID I (ie_system_uuid I)"

definition createAgentUUID :: "identity_env \<Rightarrow> (string, string) result" where
  "createAgentUUID I =
     (case readHardwareUUID I of
        Inl _ \<Rightarrow> Ok (ie_new_uuid I)
      | Inr u \<Rightarrow> if u = [] then Ok (ie_new_uuid I) else Ok u)"

text \<open>A nil \<open>State\<close> interface is \<open>None\<close>.\<close>

definition EnsureAgentUUID ::
  "identity_env \<Rightarrow> sqlite_env option \<Rightarrow> database \<Rightarrow> (identity_error, string) result \<times> database" where
  "EnsureAgentUUID I state db =
     (case state of
        None \<Rightarrow> (Error IdentityStateRequired, db)
      | Some E \<Rightarrow> (case GetOrCreateAgentUUID E (Some (createAgentUUID I)) db of
            (Inl e, db1) \<Rightarrow> (Error (EnsureAgentUUIDFailed e), db1)
          | (Inr (agentUUID, _), db1) \<Rightarrow> (Ok agentUUID, db1)))"

subsection \<open>The abstract store\<close>

text \<open>What a reader sees: the non-empty value of a key, if there is one.\<close>

definition view :: "database \<Rightarrow> string \<Rightarrow> string option" where
  "view db key = (case db of None \<Rightarrow> None | Some t \<Rightarrow> ok_if_nonempty (coalesce_value t key))"

definition store :: "string \<Rightarrow> string \<Rightarrow> database \<Rightarrow> database" where
  "store key value db = Some ((case db of None \<Rightarrow> Map.empty | Some t \<Rightarrow> t)(key \<mapsto> value))"

subsection \<open>Processes racing to create the agent UUID\<close>

text \<open>
  The program counter of one process inside \<open>GetOrCreateAgentUUIDMetadata\<close>: before its first
  \<open>SELECT\<close>, after a miss with its candidate, after its conditional upsert, returned, or failed.
\<close>

datatype uuid_pc =
    Start
  | Missed string
  | Inserted string
  | Done string bool
  | Failed state_error

record uuid_sys =
  us_db :: database
  us_pc :: "nat \<Rightarrow> uuid_pc"

inductive uuid_step :: "(nat \<Rightarrow> string) \<Rightarrow> uuid_sys \<Rightarrow> uuid_sys \<Rightarrow> bool" for cand where
  Hit: "us_pc s p = Start \<Longrightarrow> readAgentUUIDDB (\<lambda>_. None) (us_db s) = Ok (Some v) \<Longrightarrow>
        uuid_step cand s (s\<lparr>us_pc := (us_pc s)(p := Done v False)\<rparr>)"
| Miss: "us_pc s p = Start \<Longrightarrow> readAgentUUIDDB (\<lambda>_. None) (us_db s) = Ok None \<Longrightarrow> cand p \<noteq> [] \<Longrightarrow>
        uuid_step cand s (s\<lparr>us_pc := (us_pc s)(p := Missed (cand p))\<rparr>)"
| Insert: "us_pc s p = Missed c \<Longrightarrow>
        sql_exec healthy MetadataKeyMachineID (insert_if_blank MetadataKeyMachineID c) (us_db s) = (Ok (), db1) \<Longrightarrow>
        uuid_step cand s (s\<lparr>us_db := db1, us_pc := (us_pc s)(p := Inserted c)\<rparr>)"
| Confirm: "us_pc s p = Inserted c \<Longrightarrow> readAgentUUIDDB (\<lambda>_. None) (us_db s) = Ok (Some v) \<Longrightarrow>
        uuid_step cand s (s\<lparr>us_pc := (us_pc s)(p := Done v (v = c))\<rparr>)"
| Fault: "us_pc s p \<in> {Start, Missed c, Inserted c} \<Longrightarrow>
        uuid_step cand s (s\<lparr>us_pc := (us_pc s)(p := Failed e)\<rparr>)"
| Other: "key \<noteq> MetadataKeyMachineID \<Longrightarrow>
        uuid_step cand s (s\<lparr>us_db := store key value (us_db s)\<rparr>)"

definition uuid_init :: "database \<Rightarrow> uuid_sys" where
  "uuid_init db = \<lparr>us_db = db, us_pc = (\<lambda>_. Start)\<rparr>"

inductive uuid_reach :: "(nat \<Rightarrow> string) \<Rightarrow> database \<Rightarrow> uuid_sys \<Rightarrow> bool" for cand db0 where
  reach_init: "uuid_reach cand db0 (uuid_init db0)"
| reach_step: "uuid_reach cand db0 s \<Longrightarrow> uuid_step cand s s' \<Longrightarrow> uuid_reach cand db0 s'"

inductive_cases uuid_stepE: "uuid_step cand s s'"

section \<open>The store contract\<close>

locale metadata_store =
  fixes get :: "'s \<Rightarrow> 'k \<Rightarrow> 'v option"
    and put :: "'k \<Rightarrow> 'v \<Rightarrow> 's \<Rightarrow> 's"
    and blank :: 'v
  assumes get_put_same: "get (put k v s) k = (if v = blank then None else Some v)"
    and get_put_other: "k' \<noteq> k \<Longrightarrow> get (put k v s) k' = get s k'"
begin

lemma get_put: "get (put k v s) k' = (if k' = k then (if v = blank then None else Some v) else get s k')"
  by (simp add: get_put_same get_put_other)

text \<open>After a sequence of writes a key holds its last write, or what it held before.\<close>

lemma get_puts:
  "get (fold (\<lambda>(k, v). put k v) kvs s) k =
     (case map_of (rev kvs) k of None \<Rightarrow> get s k | Some v \<Rightarrow> if v = blank then None else Some v)"
proof (induction kvs arbitrary: s)
  case Nil
  then show ?case by simp
next
  case (Cons kv kvs)
  obtain k' v' where "kv = (k', v')" by (cases kv)
  with Cons show ?case
    by (simp add: map_add_def get_put split: option.split)
qed

lemma get_puts_frame: "k \<notin> fst ` set kvs \<Longrightarrow> get (fold (\<lambda>(k, v). put k v) kvs s) k = get s k"
proof -
  assume "k \<notin> fst ` set kvs"
  then have "map_of (rev kvs) k = None" by (simp add: map_of_eq_None_iff)
  then show ?thesis by (simp add: get_puts)
qed

text \<open>Writing the blank value to a list of keys erases exactly these keys.\<close>

lemma get_erase: "get (fold (\<lambda>k. put k blank) ks s) k = (if k \<in> set ks then None else get s k)"
  by (induction ks arbitrary: s) (auto simp: get_put)

end

interpretation meta: metadata_store view store "[]"
  by unfold_locales (auto simp: view_def store_def ok_if_nonempty_def coalesce_value_def split: option.splits)

section \<open>Lemmas\<close>

lemma absent_no_such_table [simp]: "isMetadataAbsentErr no_such_table" "isMetadataAbsentErr ErrNoRows"
  by (code_simp, code_simp)

lemma no_such_table_neq [simp]: "no_such_table \<noteq> ErrNoRows"
  by (simp add: no_such_table_def)

text \<open>The environments in which nothing fails for the given key.\<close>

definition can_read :: "sqlite_env \<Rightarrow> string \<Rightarrow> bool" where
  "can_read E key \<longleftrightarrow> is_ok (se_state_file E) \<and> se_open_ro E = None \<and> se_select E key = None"

definition can_write :: "sqlite_env \<Rightarrow> string \<Rightarrow> bool" where
  "can_write E key \<longleftrightarrow> is_ok (se_state_file E) \<and> se_open_rw E = None \<and> se_secure E = None \<and>
     se_create_table E = None \<and> se_exec E key = None"

lemma healthy_ok [simp]: "can_read healthy key" "can_write healthy key"
  "se_select healthy = (\<lambda>_. None)" "se_reselect healthy = (\<lambda>_. None)" "se_exec healthy = (\<lambda>_. None)"
  by (simp_all add: can_read_def can_write_def healthy_def)

lemma view_None [simp]: "view None k = None"
  by (simp add: view_def)

lemma view_Some: "view (Some t) k = ok_if_nonempty (coalesce_value t k)"
  by (simp add: view_def)

lemma view_Some_iff: "view db k = Some v \<longleftrightarrow> (\<exists>t. db = Some t \<and> t k = Some v \<and> v \<noteq> [])"
  by (auto simp: view_def ok_if_nonempty_def coalesce_value_def split: option.splits)

text \<open>A read refines the abstract view, a write the abstract update.\<close>

lemma getMetadata_view: "can_read E key \<Longrightarrow> getMetadata E db key = Ok (view db key)"
  by (cases db)
     (auto simp: getMetadata_def openReadOnly_def can_read_def is_ok_iff ReadMetadata_def sql_select_def
        view_def ok_if_nonempty_def coalesce_value_def split: option.split)

lemma ReadMetadata_view:
  "se_select E key = None \<Longrightarrow>
     (case ReadMetadata E db key of Inl e \<Rightarrow> isMetadataAbsentErr e \<and> view db key = None
      | Inr v \<Rightarrow> view db key = ok_if_nonempty v)"
  by (cases db)
     (auto simp: ReadMetadata_def sql_select_def view_def ok_if_nonempty_def coalesce_value_def split: option.split)

lemma ReadMetadata_blank:
  "view db key = None \<Longrightarrow> case ReadMetadata E db key of Inl _ \<Rightarrow> True | Inr v \<Rightarrow> v = []"
  by (cases db)
     (auto simp: ReadMetadata_def sql_select_def view_def ok_if_nonempty_def coalesce_value_def
        split: option.splits sum.splits if_splits)

lemma SetMetadata_cases:
  "SetMetadata E key value db = (r, db1) \<Longrightarrow>
     (r = Ok () \<and> view db1 = (view db)(key := ok_if_nonempty value)) \<or> (is_ok r = False \<and> db1 = db)"
  by (auto simp: SetMetadata_def sql_exec_def view_Some coalesce_value_def fun_eq_iff split: option.splits)

lemma prepare_ok:
  "can_write E key \<Longrightarrow>
     prepareReadWrite E db = (Ok (), Some (case db of None \<Rightarrow> Map.empty | Some t \<Rightarrow> t))"
  by (auto simp: prepareReadWrite_def openReadWrite_def can_write_def is_ok_iff CreateTableMetadata_def)

lemma setMetadata_store: "can_write E key \<Longrightarrow> setMetadata E key value db = (Ok (), store key value db)"
  by (simp add: setMetadata_def prepare_ok SetMetadata_def sql_exec_def store_def)
     (simp add: can_write_def)

lemma prepare_Ok_db: "prepareReadWrite E db = (Ok (), db1) \<Longrightarrow> (\<exists>t. db1 = Some t) \<and> view db1 = view db"
  by (cases db)
     (auto simp: prepareReadWrite_def CreateTableMetadata_def view_def ok_if_nonempty_def coalesce_value_def fun_eq_iff
        split: sum.splits option.splits prod.splits)

lemma prepare_view: "view (snd (prepareReadWrite E db)) = view db"
  by (cases db)
     (auto simp: prepareReadWrite_def CreateTableMetadata_def view_def ok_if_nonempty_def coalesce_value_def fun_eq_iff
        split: sum.splits option.splits prod.splits)

lemma setMetadata_cases:
  "(fst (setMetadata E key value db) = Ok () \<and> view (snd (setMetadata E key value db)) = (view db)(key := ok_if_nonempty value))
   \<or> (is_ok (fst (setMetadata E key value db)) = False \<and> view (snd (setMetadata E key value db)) = view db)"
proof (cases "prepareReadWrite E db")
  case (Pair r db1)
  show ?thesis
  proof (cases r)
    case (Inl e)
    then show ?thesis using prepare_view [of E db] by (simp add: setMetadata_def Pair)
  next
    case (Inr u)
    then obtain t where t: "db1 = Some t" "view db1 = view db"
      using prepare_Ok_db Pair by (metis (full_types) old.unit.exhaust)
    then show ?thesis
      by (auto simp: setMetadata_def Pair Inr SetMetadata_def sql_exec_def view_Some coalesce_value_def
            fun_eq_iff split: option.split)
  qed
qed

lemma readAgentUUID_view:
  "db = Some t \<Longrightarrow> f MetadataKeyMachineID = None \<Longrightarrow> readAgentUUIDDB f db = Ok (view db MetadataKeyMachineID)"
  by (auto simp: readAgentUUIDDB_def sql_select_def view_def ok_if_nonempty_def coalesce_value_def split: option.split)

lemma readAgentUUID_SomeD: "readAgentUUIDDB f db = Ok (Some v) \<Longrightarrow> view db MetadataKeyMachineID = Some v"
  by (auto simp: readAgentUUIDDB_def sql_select_def view_Some_iff split: option.splits sum.splits if_splits)

lemma readAgentUUID_NoneD: "readAgentUUIDDB f db = Ok None \<Longrightarrow> view db MetadataKeyMachineID = None"
  by (auto simp: readAgentUUIDDB_def sql_select_def view_def ok_if_nonempty_def coalesce_value_def
           split: option.splits sum.splits if_splits)

lemma view_insert_if_blank:
  "c \<noteq> [] \<Longrightarrow> view (Some (insert_if_blank key c t)) k =
     (if k = key then (case view (Some t) key of None \<Rightarrow> Some c | Some v \<Rightarrow> Some v) else view (Some t) k)"
  by (auto simp: insert_if_blank_def view_def ok_if_nonempty_def coalesce_value_def split: option.split)

lemma insert_exec_view:
  assumes "sql_exec E MetadataKeyMachineID (insert_if_blank MetadataKeyMachineID c) db = (Ok u, db1)" "c \<noteq> []"
  shows "view db1 k = (if k = MetadataKeyMachineID
      then (case view db MetadataKeyMachineID of None \<Rightarrow> Some c | Some v \<Rightarrow> Some v) else view db k)"
  using assms by (auto simp: sql_exec_def view_insert_if_blank split: option.splits)

text \<open>The outcome of a successful call: the UUID is the committed one and nothing else changes.\<close>

lemma getOrCreate_Ok:
  assumes "GetOrCreateAgentUUIDMetadata E create db = (Ok (v, created), db1)"
  shows "view db1 MetadataKeyMachineID = Some v \<and> v \<noteq> [] \<and>
         (\<forall>k. k \<noteq> MetadataKeyMachineID \<longrightarrow> view db1 k = view db k) \<and>
         (\<forall>old. view db MetadataKeyMachineID = Some old \<longrightarrow> v = old \<and> \<not> created \<and> db1 = db) \<and>
         (view db MetadataKeyMachineID = None \<longrightarrow> create = Some (Ok v) \<and> created)"
proof -
  from assms obtain outcome where cr: "create = Some outcome"
    by (auto simp: GetOrCreateAgentUUIDMetadata_def split: option.splits)
  from assms obtain r where r: "readAgentUUIDDB (se_select E) db = Inr r"
    by (auto simp: GetOrCreateAgentUUIDMetadata_def cr split: sum.splits)
  show ?thesis
  proof (cases r)
    case (Some old)
    with r have "view db MetadataKeyMachineID = Some old" by (simp add: readAgentUUID_SomeD)
    with assms Some r cr show ?thesis
      by (auto simp: GetOrCreateAgentUUIDMetadata_def view_Some_iff)
  next
    case None
    with r have miss: "view db MetadataKeyMachineID = None" by (simp add: readAgentUUID_NoneD)
    from assms r cr None obtain c u where c: "outcome = Inr c" "c \<noteq> []"
      "sql_exec E MetadataKeyMachineID (insert_if_blank MetadataKeyMachineID c) db = (Ok u, db1)"
      "readAgentUUIDDB (se_reselect E) db1 = Inr (Some v)" "v \<noteq> []" "created = (v = c)"
      by (auto simp: GetOrCreateAgentUUIDMetadata_def split: sum.splits if_splits prod.splits option.splits)
    from insert_exec_view [OF c(3,2)] miss readAgentUUID_SomeD [OF c(4)]
    show ?thesis using c cr miss by auto
  qed
qed

lemma getOrCreateAgent_Ok:
  assumes "GetOrCreateAgentUUID E create db = (Ok (v, created), db1)"
  shows "view db1 MetadataKeyMachineID = Some v \<and> v \<noteq> [] \<and>
         (\<forall>k. k \<noteq> MetadataKeyMachineID \<longrightarrow> view db1 k = view db k) \<and>
         (\<forall>old. view db MetadataKeyMachineID = Some old \<longrightarrow> v = old \<and> \<not> created) \<and>
         (view db MetadataKeyMachineID = None \<longrightarrow> create = Some (Ok v) \<and> created)"
proof -
  from assms obtain u db0 where p: "prepareReadWrite E db = (Ok u, db0)"
    and g: "GetOrCreateAgentUUIDMetadata E create db0 = (Ok (v, created), db1)"
    by (auto simp: GetOrCreateAgentUUID_def split: prod.splits sum.splits)
  from p have "view db0 = view db" using prepare_Ok_db by (metis (full_types) old.unit.exhaust)
  with getOrCreate_Ok [OF g] show ?thesis by metis
qed

lemma getOrCreate_existing:
  assumes "view db MetadataKeyMachineID = Some v" "can_write E MetadataKeyMachineID"
    "se_select E MetadataKeyMachineID = None"
  shows "GetOrCreateAgentUUID E (Some outcome) db = (Ok (v, False), db)"
proof -
  from assms(1) obtain t where t: "db = Some t" by (auto simp: view_Some_iff)
  then have "readAgentUUIDDB (se_select E) db = Ok (Some v)"
    using readAgentUUID_view [OF t, of "se_select E"] assms(1,3) by simp
  with t assms(2) show ?thesis
    by (simp add: GetOrCreateAgentUUID_def prepare_ok GetOrCreateAgentUUIDMetadata_def)
qed

subsection \<open>Racing processes\<close>

lemma uuid_step_stable:
  assumes "uuid_step cand s s'" "\<forall>p c. us_pc s p = Missed c \<longrightarrow> c \<noteq> []"
    "view (us_db s) MetadataKeyMachineID = Some v"
  shows "view (us_db s') MetadataKeyMachineID = Some v"
  using assms by (auto elim!: uuid_stepE simp: insert_exec_view meta.get_put)

definition uuid_inv :: "uuid_sys \<Rightarrow> bool" where
  "uuid_inv s \<longleftrightarrow>
     (\<forall>p. case us_pc s p of
        Missed c \<Rightarrow> c \<noteq> []
      | Inserted c \<Rightarrow> view (us_db s) MetadataKeyMachineID \<noteq> None
      | Done v _ \<Rightarrow> view (us_db s) MetadataKeyMachineID = Some v
      | _ \<Rightarrow> True)"

lemma uuid_inv_Missed: "uuid_inv s \<Longrightarrow> us_pc s p = Missed c \<Longrightarrow> c \<noteq> []"
  unfolding uuid_inv_def by (drule spec [of _ p]) simp

lemma uuid_inv_Done: "uuid_inv s \<Longrightarrow> us_pc s p = Done v b \<Longrightarrow> view (us_db s) MetadataKeyMachineID = Some v"
  unfolding uuid_inv_def by (drule spec [of _ p]) simp

text \<open>A step that keeps the committed value and moves only process \<open>p\<close> keeps the invariant.\<close>

lemma uuid_inv_move:
  assumes "uuid_inv s"
    and "\<And>v. view (us_db s) MetadataKeyMachineID = Some v \<Longrightarrow> view db' MetadataKeyMachineID = Some v"
    and "case pc of Missed c \<Rightarrow> c \<noteq> [] | Inserted c \<Rightarrow> view db' MetadataKeyMachineID \<noteq> None
       | Done v _ \<Rightarrow> view db' MetadataKeyMachineID = Some v | _ \<Rightarrow> True"
  shows "uuid_inv (s\<lparr>us_db := db', us_pc := (us_pc s)(p := pc)\<rparr>)"
  unfolding uuid_inv_def
proof
  fix q
  show "case us_pc (s\<lparr>us_db := db', us_pc := (us_pc s)(p := pc)\<rparr>) q of
        Missed c \<Rightarrow> c \<noteq> []
      | Inserted c \<Rightarrow> view (us_db (s\<lparr>us_db := db', us_pc := (us_pc s)(p := pc)\<rparr>)) MetadataKeyMachineID \<noteq> None
      | Done v _ \<Rightarrow> view (us_db (s\<lparr>us_db := db', us_pc := (us_pc s)(p := pc)\<rparr>)) MetadataKeyMachineID = Some v
      | _ \<Rightarrow> True"
    using assms(1) [unfolded uuid_inv_def, rule_format, of q] assms(2,3)
    by (auto split: uuid_pc.splits)
qed

lemma uuid_inv_move_pc:
  assumes "uuid_inv s"
    and "case pc of Missed c \<Rightarrow> c \<noteq> [] | Inserted c \<Rightarrow> view (us_db s) MetadataKeyMachineID \<noteq> None
       | Done v _ \<Rightarrow> view (us_db s) MetadataKeyMachineID = Some v | _ \<Rightarrow> True"
  shows "uuid_inv (s\<lparr>us_pc := (us_pc s)(p := pc)\<rparr>)"
  using uuid_inv_move [OF assms(1), of "us_db s" pc p] assms(2) by simp

lemma uuid_step_inv:
  assumes "uuid_step cand s s'" "uuid_inv s"
  shows "uuid_inv s'"
  using assms(1)
proof cases
  case (Hit p v)
  then show ?thesis using assms(2) by (simp add: uuid_inv_move_pc readAgentUUID_SomeD)
next
  case (Miss p)
  then show ?thesis using assms(2) by (simp add: uuid_inv_move_pc)
next
  case (Insert p c db1)
  with uuid_inv_Missed [OF assms(2)] have c: "c \<noteq> []" by blast
  show ?thesis
    unfolding Insert(1)
    by (rule uuid_inv_move [OF assms(2)]) (auto simp: insert_exec_view [OF Insert(3) c] split: option.split)
next
  case (Confirm p c v)
  then show ?thesis using assms(2) by (simp add: uuid_inv_move_pc readAgentUUID_SomeD)
next
  case (Fault p c e)
  then show ?thesis using assms(2) by (simp add: uuid_inv_move_pc)
next
  case (Other key val)
  then have "us_pc s' = us_pc s" "view (us_db s') MetadataKeyMachineID = view (us_db s) MetadataKeyMachineID"
    by (simp_all add: meta.get_put)
  with assms(2) show ?thesis by (simp only: uuid_inv_def simp_thms)
qed

lemma uuid_reach_inv: "uuid_reach cand db0 s \<Longrightarrow> uuid_inv s"
  by (induction rule: uuid_reach.induct) (auto simp: uuid_inv_def uuid_init_def uuid_step_inv [unfolded uuid_inv_def])

lemma uuid_reach_stable:
  assumes "uuid_reach cand db0 s" "view db0 MetadataKeyMachineID = Some v"
  shows "view (us_db s) MetadataKeyMachineID = Some v"
  using assms(1)
proof induction
  case reach_init
  then show ?case by (simp add: uuid_init_def assms(2))
next
  case (reach_step s s')
  then show ?case using uuid_step_stable uuid_reach_inv uuid_inv_Missed by blast
qed

text \<open>A run of \<open>GetOrCreateAgentUUIDMetadata\<close> with no faults is a run of the step relation.\<close>

lemma getOrCreate_is_run:
  assumes "GetOrCreateAgentUUIDMetadata healthy (Some (Ok (cand p))) (us_db s) = (Ok (v, b), db1)"
    "us_pc s p = Start"
  shows "(uuid_step cand)\<^sup>*\<^sup>* s (s\<lparr>us_db := db1, us_pc := (us_pc s)(p := Done v b)\<rparr>)"
proof (cases "view (us_db s) MetadataKeyMachineID")
  case (Some old)
  then obtain t where t: "us_db s = Some t" by (auto simp: view_Some_iff)
  have "readAgentUUIDDB (\<lambda>_. None) (us_db s) = Ok (Some old)"
    using readAgentUUID_view [OF t, of "\<lambda>_. None"] Some by simp
  moreover have "v = old" "\<not> b" "db1 = us_db s" using getOrCreate_Ok [OF assms(1)] Some by auto
  ultimately show ?thesis
    using uuid_step.Hit [OF assms(2), of old cand] by auto
next
  case None
  obtain t where t: "us_db s = Some t"
    using assms(1)
    by (cases "us_db s") (auto simp: GetOrCreateAgentUUIDMetadata_def readAgentUUIDDB_def sql_select_def)
  have read: "readAgentUUIDDB (\<lambda>_. None) (us_db s) = Ok None"
    using readAgentUUID_view [OF t, of "\<lambda>_. None"] None by simp
  have vb: "v = cand p" "b" "v \<noteq> []" using getOrCreate_Ok [OF assms(1)] None by auto
  have ex: "sql_exec healthy MetadataKeyMachineID (insert_if_blank MetadataKeyMachineID v) (us_db s) = (Ok (), db1)"
    "readAgentUUIDDB (\<lambda>_. None) db1 = Ok (Some v)"
    using assms(1) read vb
    by (auto simp: GetOrCreateAgentUUIDMetadata_def split: prod.splits sum.splits option.splits if_splits)
  let ?s1 = "s\<lparr>us_pc := (us_pc s)(p := Missed v)\<rparr>"
  let ?s2 = "?s1\<lparr>us_db := db1, us_pc := (us_pc ?s1)(p := Inserted v)\<rparr>"
  have "uuid_step cand s ?s1" using uuid_step.Miss [OF assms(2) read] vb by auto
  moreover have "uuid_step cand ?s1 ?s2" using uuid_step.Insert [of ?s1 p v db1] ex by simp
  moreover have "uuid_step cand ?s2 (?s2\<lparr>us_pc := (us_pc ?s2)(p := Done v (v = v))\<rparr>)"
    using uuid_step.Confirm [of ?s2 p v v] ex by simp
  ultimately have "(uuid_step cand)\<^sup>*\<^sup>* s (?s2\<lparr>us_pc := (us_pc ?s2)(p := Done v (v = v))\<rparr>)"
    by (meson rtranclp.rtrancl_into_rtrancl rtranclp.rtrancl_refl)
  then show ?thesis using vb by simp
qed

subsection \<open>Times\<close>

lemma plain_rfc3339: "rfc3339_roundtrip plain_timelib"
  unfolding rfc3339_roundtrip_def
proof (intro allI impI conjI)
  fix t :: gotime
  assume b: "year0_nanos \<le> t_nanos t" "t_nanos t < year10000_nanos"
  let ?s = "t_nanos t div 1000000000" and ?n = "t_nanos t mod 1000000000"
  have "- 62167219200 \<le> ?s" "?s \<le> 253402300800"
    using b by (simp_all add: year0_nanos_def year10000_nanos_def)
  then have s: "ParseInt (FormatInt ?s) = Some ?s"
    by (intro ParseInt_FormatInt) simp_all
  have "0 \<le> ?n" "?n < 1000000000" by simp_all
  then have n: "ParseInt (FormatInt ?n) = Some ?n"
    by (intro ParseInt_FormatInt) simp_all
  have nodot: "CHR ''.'' \<notin> set (FormatNat m)" for m
  proof
    assume "CHR ''.'' \<in> set (FormatNat m)"
    with FormatNat_digits [of m] have "is_digit CHR ''.''" by (auto simp: list_all_iff)
    then show False by (simp add: is_digit_iff)
  qed
  have "Cut (FormatInt ?s @ CHR ''.'' # FormatInt ?n) CHR ''.'' = (FormatInt ?s, FormatInt ?n, True)"
    using nodot by (intro Cut_append) (simp add: FormatInt_def)
  then show "\<exists>u. rfc3339_parse plain_timelib (rfc3339_format plain_timelib t) = Some u \<and> t_nanos u = t_nanos t"
    using s n by (simp add: plain_timelib_def)
  show "rfc3339_format plain_timelib t \<noteq> []" by (simp add: plain_timelib_def)
qed

subsection \<open>Placement and backend URL\<close>

lemma placement_keys_neq [simp]: "MetadataKeyNodeGroup \<noteq> MetadataKeyComputeZone"
  by (simp add: metadata_keys)

lemma ReadNodePlacement_view:
  "se_select E MetadataKeyNodeGroup = None \<Longrightarrow>
     ReadNodePlacementMetadata E (Some db) = Ok (view db MetadataKeyNodeGroup, view db MetadataKeyComputeZone)"
  by (cases db) (simp_all add: ReadNodePlacementMetadata_def view_def)

lemma UpdateNodePlacement_view:
  assumes "se_exec E MetadataKeyNodeGroup = None" "db = Some t"
  obtains db1 where "UpdateNodePlacementMetadata E ng cz (Some db) = (Ok (), Some db1)"
    "view db1 = (view db)
       (MetadataKeyNodeGroup := (case ng of None \<Rightarrow> view db MetadataKeyNodeGroup | Some v \<Rightarrow> ok_if_nonempty v),
        MetadataKeyComputeZone := (case cz of None \<Rightarrow> view db MetadataKeyComputeZone | Some v \<Rightarrow> ok_if_nonempty v))"
proof (cases "ng = None \<and> cz = None")
  case True
  show ?thesis
    by (rule that [of db]) (use True in \<open>auto simp: UpdateNodePlacementMetadata_def\<close>)
next
  case False
  let ?t = "t(MetadataKeyNodeGroup \<mapsto> placement_value ng MetadataKeyNodeGroup t,
              MetadataKeyComputeZone \<mapsto> placement_value cz MetadataKeyComputeZone t)"
  show ?thesis
  proof (rule that [of "Some ?t"])
    show "UpdateNodePlacementMetadata E ng cz (Some db) = (Ok (), Some (Some ?t))"
      using False assms by (auto simp: UpdateNodePlacementMetadata_def sql_exec_def)
    show "view (Some ?t) = (view db)
       (MetadataKeyNodeGroup := (case ng of None \<Rightarrow> view db MetadataKeyNodeGroup | Some v \<Rightarrow> ok_if_nonempty v),
        MetadataKeyComputeZone := (case cz of None \<Rightarrow> view db MetadataKeyComputeZone | Some v \<Rightarrow> ok_if_nonempty v))"
      by (auto simp: fun_eq_iff assms(2) view_Some coalesce_value_def placement_value_def split: option.split)
  qed
qed

lemma SetNodePlacement_view:
  assumes "can_write E MetadataKeyNodeGroup"
  obtains db1 where "SetNodePlacement E ng cz db = (Ok (), db1)"
    "view db1 = (view db)(MetadataKeyNodeGroup := ok_if_nonempty ng, MetadataKeyComputeZone := ok_if_nonempty cz)"
proof -
  let ?t = "case db of None \<Rightarrow> Map.empty | Some t \<Rightarrow> t"
  have v: "view (Some ?t) = view db"
    by (cases db) (auto simp: view_def fun_eq_iff coalesce_value_def ok_if_nonempty_def)
  from assms have "se_exec E MetadataKeyNodeGroup = None" by (simp add: can_write_def)
  from UpdateNodePlacement_view [where t = ?t and db = "Some ?t" and ng = "Some ng" and cz = "Some cz", OF this refl]
  obtain db1 where u: "UpdateNodePlacementMetadata E (Some ng) (Some cz) (Some (Some ?t)) = (Ok (), Some db1)"
    "view db1 = (view db)(MetadataKeyNodeGroup := ok_if_nonempty ng, MetadataKeyComputeZone := ok_if_nonempty cz)"
    by (auto simp: v)
  show ?thesis
    by (rule that [of db1]) (use assms u in \<open>simp_all add: SetNodePlacement_def prepare_ok\<close>)
qed

lemma SetNodePlacement_Ok:
  assumes "SetNodePlacement E ng cz db = (Inr u, db1)"
  shows "view db1 = (view db)(MetadataKeyNodeGroup := ok_if_nonempty ng, MetadataKeyComputeZone := ok_if_nonempty cz)"
proof -
  from assms obtain v db0 where p: "prepareReadWrite E db = (Inr v, db0)"
    by (auto simp: SetNodePlacement_def split: prod.splits sum.splits)
  then obtain t where t: "db0 = Some t" "view db0 = view db"
    using prepare_Ok_db by (metis (full_types) old.unit.exhaust)
  from assms p have ex: "se_exec E MetadataKeyNodeGroup = None"
    by (auto simp: SetNodePlacement_def UpdateNodePlacementMetadata_def sql_exec_def split: option.splits)
  obtain db2 where "UpdateNodePlacementMetadata E (Some ng) (Some cz) (Some db0) = (Ok (), Some db2)"
    "view db2 = (view db0)(MetadataKeyNodeGroup := ok_if_nonempty ng, MetadataKeyComputeZone := ok_if_nonempty cz)"
    using UpdateNodePlacement_view [where ng = "Some ng" and cz = "Some cz", OF ex t(1)] by auto
  with assms p t(2) show ?thesis by (simp add: SetNodePlacement_def)
qed

lemma SetNodePlacement_Inl:
  assumes "SetNodePlacement E ng cz db = (Inl e, db1)"
  shows "view db1 = view db"
  using assms prepare_view [of E db]
  by (auto simp: SetNodePlacement_def UpdateNodePlacementMetadata_def sql_exec_def split: prod.splits sum.splits option.splits)

lemma SetNodePlacement_frame:
  "SetNodePlacement E ng cz db = (r, db1) \<Longrightarrow> k \<noteq> MetadataKeyNodeGroup \<Longrightarrow> k \<noteq> MetadataKeyComputeZone \<Longrightarrow>
     view db1 k = view db k"
  by (cases r) (auto dest: SetNodePlacement_Ok SetNodePlacement_Inl)

text \<open>The keys of the backend URL in the order the reader tries them.\<close>

definition url_keys :: "string list" where
  "url_keys = MetadataKeyBackendBaseURL # legacy_endpoint_keys"

definition usable_base :: "netlib \<Rightarrow> database \<Rightarrow> string \<Rightarrow> string option" where
  "usable_base L db key =
     (case view db key of
        None \<Rightarrow> None
      | Some v \<Rightarrow> (case DeriveBackendBaseURL L v of Inl _ \<Rightarrow> None | Inr b \<Rightarrow> Some b))"

fun first_some :: "('a \<Rightarrow> 'b option) \<Rightarrow> 'a list \<Rightarrow> 'b option" where
  "first_some f [] = None"
| "first_some f (x # xs) = (case f x of None \<Rightarrow> first_some f xs | Some y \<Rightarrow> Some y)"

lemma first_some_SomeD: "first_some f xs = Some y \<Longrightarrow> \<exists>x \<in> set xs. f x = Some y"
  by (induction xs) (auto split: option.splits)

lemma legacy_lookup_view:
  "(\<And>k. k \<in> set keys \<Longrightarrow> se_select E k = None) \<Longrightarrow>
     legacy_lookup L E db keys = Ok (first_some (usable_base L db) keys)"
proof (induction keys)
  case Nil
  then show ?case by simp
next
  case (Cons k ks)
  from Cons.prems have "se_select E k = None" by simp
  from ReadMetadata_view [OF this, of db] Cons show ?case
    by (cases "ReadMetadata E db k") (auto simp: usable_base_def ok_if_nonempty_def split: sum.split)
qed

lemma GetBackendBaseURL_view:
  assumes "\<And>k. k \<in> set url_keys \<Longrightarrow> can_read E k"
  shows "GetBackendBaseURL L E db = Ok (first_some (usable_base L db) url_keys)"
proof -
  have sel: "se_select E k = None" if "k \<in> set url_keys" for k
    using assms [OF that] by (simp add: can_read_def)
  have leg: "legacy_lookup L E db legacy_endpoint_keys = Ok (first_some (usable_base L db) legacy_endpoint_keys)"
    by (rule legacy_lookup_view) (simp add: sel url_keys_def)
  have op: "openReadOnly E db = Ok db"
    using assms [of MetadataKeyBackendBaseURL] by (auto simp: openReadOnly_def can_read_def url_keys_def is_ok_iff)
  have "se_select E MetadataKeyBackendBaseURL = None" by (rule sel) (simp add: url_keys_def)
  from ReadMetadata_view [OF this, of db] show ?thesis
    by (cases "ReadMetadata E db MetadataKeyBackendBaseURL")
       (auto simp: GetBackendBaseURL_def op leg url_keys_def usable_base_def ok_if_nonempty_def split: sum.split)
qed

section \<open>Properties\<close>

text \<open>Reading refines the abstract store and writing updates exactly one key of it: after a
  successful write of \<open>v\<close> under \<open>key\<close>, every reader sees \<open>v\<close> there (an empty \<open>v\<close> reads as absent) and
  the old value everywhere else; a write that returns an error changes nothing a reader can see.\<close>

theorem state_read_after_write:
  assumes "can_read R k"
  shows "(case setMetadata E key v db of
            (Inr _, db1) \<Rightarrow> getMetadata R db1 k = Ok (if k = key then ok_if_nonempty v else view db k)
          | (Inl _, db1) \<Rightarrow> getMetadata R db1 k = getMetadata R db k)"
  using setMetadata_cases [of E key v db] assms
  by (cases "setMetadata E key v db") (auto simp: getMetadata_view split: sum.split)

theorem state_read_after_write_witness:
  "can_read healthy ''token'' \<and>
   (case setMetadata healthy ''token'' ''jwt'' None of
      (Inr _, db1) \<Rightarrow> getMetadata healthy db1 ''token'' = Ok (Some ''jwt'')
    | (Inl _, db1) \<Rightarrow> False)"
  using state_read_after_write [where R = healthy and k = "''token''" and E = healthy and key = "''token''" and v = "''jwt''" and db = None]
  by (simp add: setMetadata_store ok_if_nonempty_def)

text \<open>The agent UUID is created at most once.  A successful \<open>GetOrCreateAgentUUID\<close> returns a
  non-empty UUID that is then the committed one; an already committed UUID is returned unchanged
  (created is false); otherwise the result is the candidate of the create function (created is true);
  no other key changes; and every later fault-free call, whatever it would create, returns the same
  UUID and leaves the database alone.\<close>

theorem agent_uuid_created_once:
  assumes "GetOrCreateAgentUUID E create db = (Ok (v, created), db1)"
  shows "v \<noteq> [] \<and> view db1 = (view db)(MetadataKeyMachineID := Some v) \<and>
         (case view db MetadataKeyMachineID of
            Some old \<Rightarrow> v = old \<and> \<not> created
          | None \<Rightarrow> create = Some (Ok v) \<and> created) \<and>
         (\<forall>outcome. GetOrCreateAgentUUID healthy (Some outcome) db1 = (Ok (v, False), db1))"
proof -
  note ok = getOrCreateAgent_Ok [OF assms]
  then have "view db1 = (view db)(MetadataKeyMachineID := Some v)" by (auto simp: fun_eq_iff)
  moreover have "GetOrCreateAgentUUID healthy (Some outcome) db1 = (Ok (v, False), db1)" for outcome
    using ok by (intro getOrCreate_existing) simp_all
  ultimately show ?thesis using ok by (auto split: option.split)
qed

theorem agent_uuid_created_once_witness:
  "GetOrCreateAgentUUID healthy (Some (Ok ''u1'')) None = (Ok (''u1'', True), Some [MetadataKeyMachineID \<mapsto> ''u1'']) \<and>
   GetOrCreateAgentUUID healthy (Some (Ok ''u2'')) (Some [MetadataKeyMachineID \<mapsto> ''u1'']) =
     (Ok (''u1'', False), Some [MetadataKeyMachineID \<mapsto> ''u1''])"
proof -
  have "GetOrCreateAgentUUID healthy (Some (Ok ''u1'')) None = (Ok (''u1'', True), Some [MetadataKeyMachineID \<mapsto> ''u1''])"
    by (simp add: GetOrCreateAgentUUID_def prepareReadWrite_def openReadWrite_def CreateTableMetadata_def
        GetOrCreateAgentUUIDMetadata_def readAgentUUIDDB_def sql_select_def sql_exec_def insert_if_blank_def healthy_def)
  with agent_uuid_created_once [OF this] show ?thesis by blast
qed

text \<open>C1: any number of processes racing through \<open>GetOrCreateAgentUUIDMetadata\<close> on one database, in
  any interleaving of their statements with each other, with faults and with writes to other keys,
  agree: all processes that return, return the same non-empty UUID, which is the committed one, and a
  UUID committed before the race is the one they return.\<close>

theorem agent_uuid_race_agreement:
  assumes "uuid_reach cand db0 s" "us_pc s p = Done v b" "us_pc s q = Done w c"
  shows "v = w \<and> v \<noteq> [] \<and> view (us_db s) MetadataKeyMachineID = Some v \<and>
         (\<forall>old. view db0 MetadataKeyMachineID = Some old \<longrightarrow> v = old)"
proof -
  from uuid_reach_inv [OF assms(1)] assms(2,3)
  have "view (us_db s) MetadataKeyMachineID = Some v" "view (us_db s) MetadataKeyMachineID = Some w"
    using uuid_inv_Done by blast+
  then show ?thesis
    using uuid_reach_stable [OF assms(1)] by (auto simp: view_Some_iff)
qed

text \<open>Two processes with different candidates: both miss, process 1 inserts first, process 0 second.\<close>

definition race_cand :: "nat \<Rightarrow> string" where
  "race_cand p = (if p = 0 then ''a'' else ''b'')"

definition race_end :: uuid_sys where
  "race_end = \<lparr>us_db = Some [MetadataKeyMachineID \<mapsto> ''b''],
     us_pc = (\<lambda>_. Start)(0 := Done ''b'' False, 1 := Done ''b'' True)\<rparr>"

lemma race_end_reach: "uuid_reach race_cand (Some Map.empty) race_end"
proof -
  let ?d = "Some [MetadataKeyMachineID \<mapsto> ''b'']"
  let ?s0 = "uuid_init (Some Map.empty)"
  let ?s1 = "?s0\<lparr>us_pc := (us_pc ?s0)(0 := Missed (race_cand 0))\<rparr>"
  let ?s2 = "?s1\<lparr>us_pc := (us_pc ?s1)(1 := Missed (race_cand 1))\<rparr>"
  let ?s3 = "?s2\<lparr>us_db := ?d, us_pc := (us_pc ?s2)(1 := Inserted ''b'')\<rparr>"
  let ?s4 = "?s3\<lparr>us_db := ?d, us_pc := (us_pc ?s3)(0 := Inserted ''a'')\<rparr>"
  let ?s5 = "?s4\<lparr>us_pc := (us_pc ?s4)(0 := Done ''b'' (''b'' = ''a''))\<rparr>"
  let ?s6 = "?s5\<lparr>us_pc := (us_pc ?s5)(1 := Done ''b'' (''b'' = ''b''))\<rparr>"
  note d = uuid_init_def readAgentUUIDDB_def sql_select_def sql_exec_def insert_if_blank_def race_cand_def
  have "uuid_reach race_cand (Some Map.empty) ?s0" by (rule reach_init)
  then have "uuid_reach race_cand (Some Map.empty) ?s1"
    by (rule reach_step) (rule uuid_step.Miss, simp_all add: d)
  then have "uuid_reach race_cand (Some Map.empty) ?s2"
    by (rule reach_step) (rule uuid_step.Miss, simp_all add: d)
  then have "uuid_reach race_cand (Some Map.empty) ?s3"
    by (rule reach_step) (rule uuid_step.Insert, simp_all add: d)
  then have "uuid_reach race_cand (Some Map.empty) ?s4"
    by (rule reach_step) (rule uuid_step.Insert, simp_all add: d)
  then have "uuid_reach race_cand (Some Map.empty) ?s5"
    by (rule reach_step) (rule uuid_step.Confirm, simp_all add: d)
  then have "uuid_reach race_cand (Some Map.empty) ?s6"
    by (rule reach_step) (rule uuid_step.Confirm, simp_all add: d)
  moreover have "?s6 = race_end" by (simp add: race_end_def uuid_init_def fun_eq_iff)
  ultimately show ?thesis by simp
qed

theorem agent_uuid_race_agreement_witness:
  "uuid_reach race_cand (Some Map.empty) race_end \<and> us_pc race_end 0 = Done ''b'' False \<and>
   us_pc race_end 1 = Done ''b'' True \<and> view (us_db race_end) MetadataKeyMachineID = Some ''b''"
  using race_end_reach agent_uuid_race_agreement [OF race_end_reach, of 0 "''b''" False 1 "''b''" True]
  by (simp add: race_end_def)

text \<open>\<open>GetBackendBaseURL\<close> tries the base-URL key and then the four legacy endpoint keys in order,
  skips absent, empty and invalid values, and returns the base URL of the first usable one; what it
  returns is always an acceptable backend endpoint (HTTPS, or HTTP to a loopback host) that derives to
  itself.\<close>

theorem backend_base_url_lookup:
  assumes "\<And>k. k \<in> set url_keys \<Longrightarrow> can_read E k" and "base_url_roundtrip L"
  shows "GetBackendBaseURL L E db = Ok (first_some (usable_base L db) url_keys) \<and>
         (\<forall>b. first_some (usable_base L db) url_keys = Some b \<longrightarrow>
            DeriveBackendBaseURL L b = Ok b \<and> is_ok (ValidateBackendEndpoint L b))"
proof (intro conjI allI impI)
  show "GetBackendBaseURL L E db = Ok (first_some (usable_base L db) url_keys)"
    by (rule GetBackendBaseURL_view) (rule assms(1))
next
  fix b
  assume "first_some (usable_base L db) url_keys = Some b"
  then obtain v where "DeriveBackendBaseURL L v = Inr b"
    by (auto simp: usable_base_def dest!: first_some_SomeD split: option.splits sum.splits)
  then obtain u where u: "ValidateBackendEndpoint L b = Inr (base_of u)" "DeriveBackendBaseURL L b = Inr b"
    by (rule derive_base [OF assms(2)])
  then show "DeriveBackendBaseURL L b = Ok b" and "is_ok (ValidateBackendEndpoint L b)" by auto
qed

theorem backend_base_url_lookup_witness:
  "GetBackendBaseURL plain_netlib healthy
     (Some [''backend_base_url'' \<mapsto> ''http://evil.example'', ''logs_endpoint'' \<mapsto> ''https://b.example:8443/v1/logs''])
   = Ok (Some ''https://b.example:8443'')"
proof -
  let ?db = "Some [''backend_base_url'' \<mapsto> ''http://evil.example'', ''logs_endpoint'' \<mapsto> ''https://b.example:8443/v1/logs'']"
  have "GetBackendBaseURL plain_netlib healthy ?db = Ok (first_some (usable_base plain_netlib ?db) url_keys)"
    using backend_base_url_lookup [of healthy plain_netlib ?db] plain_roundtrip by simp
  moreover have "first_some (usable_base plain_netlib ?db) url_keys = Some ''https://b.example:8443''"
    by code_simp
  ultimately show ?thesis by simp
qed

text \<open>Updating the node placement sets exactly the supplied fields: a nil argument keeps the stored
  value, every other key is untouched, and reading the placement afterwards returns the new pair.\<close>

theorem placement_update_then_read:
  assumes "se_exec E MetadataKeyNodeGroup = None" "se_select R MetadataKeyNodeGroup = None"
  shows "\<exists>db1. UpdateNodePlacementMetadata E ng cz (Some (Some t)) = (Ok (), Some db1) \<and>
           ReadNodePlacementMetadata R (Some db1) =
             Ok (case ng of None \<Rightarrow> view (Some t) MetadataKeyNodeGroup | Some v \<Rightarrow> ok_if_nonempty v,
                 case cz of None \<Rightarrow> view (Some t) MetadataKeyComputeZone | Some v \<Rightarrow> ok_if_nonempty v) \<and>
           (\<forall>k. k \<noteq> MetadataKeyNodeGroup \<and> k \<noteq> MetadataKeyComputeZone \<longrightarrow> view db1 k = view (Some t) k)"
proof -
  obtain db1 where "UpdateNodePlacementMetadata E ng cz (Some (Some t)) = (Ok (), Some db1)"
    "view db1 = (view (Some t))
       (MetadataKeyNodeGroup := (case ng of None \<Rightarrow> view (Some t) MetadataKeyNodeGroup | Some v \<Rightarrow> ok_if_nonempty v),
        MetadataKeyComputeZone := (case cz of None \<Rightarrow> view (Some t) MetadataKeyComputeZone | Some v \<Rightarrow> ok_if_nonempty v))"
    by (rule UpdateNodePlacement_view [OF assms(1) refl])
  then show ?thesis
    using ReadNodePlacement_view [OF assms(2), of db1] by auto
qed

theorem placement_update_then_read_witness:
  "\<exists>db1. UpdateNodePlacementMetadata healthy (Some ''rack1'') None (Some (Some [''compute_zone'' \<mapsto> ''z''])) =
      (Ok (), Some db1) \<and> ReadNodePlacementMetadata healthy (Some db1) = Ok (Some ''rack1'', Some ''z'')"
  using placement_update_then_read [where E = healthy and R = healthy and ng = "Some ''rack1''" and cz = None
      and t = "[''compute_zone'' \<mapsto> ''z'']"]
  by (auto simp: view_def ok_if_nonempty_def coalesce_value_def metadata_keys)

text \<open>Storing an enrollment time and reading it back gives the same instant, in UTC, for every
  non-zero time in the years 0 to 9999; the zero time is rejected and nothing is written.\<close>

theorem enrollment_time_roundtrip:
  assumes "rfc3339_roundtrip T" "can_write E MetadataKeyEnrolledAt" "can_read R MetadataKeyEnrolledAt"
    "year0_nanos \<le> t_nanos t" "t_nanos t < year10000_nanos"
  shows "if is_zero_time t then SetEnrollmentTime T E t db = (Error EnrollmentTimeZero, db)
         else \<exists>db1. SetEnrollmentTime T E t db = (Ok (), db1) \<and>
                GetEnrollmentTime T R db1 = Ok (Some \<lparr>t_nanos = t_nanos t, t_utc = True\<rparr>)"
proof (cases "is_zero_time t")
  case True
  then show ?thesis by (simp add: SetEnrollmentTime_def)
next
  case False
  let ?s = "rfc3339_format T (to_utc t)"
  obtain u where u: "?s \<noteq> []" "rfc3339_parse T ?s = Some u" "t_nanos u = t_nanos t"
    using assms(1,4,5) unfolding rfc3339_roundtrip_def by (auto simp: to_utc_def dest: spec [of _ "to_utc t"])
  have "getMetadata R (store MetadataKeyEnrolledAt ?s db) MetadataKeyEnrolledAt = Ok (Some ?s)"
    using u(1) by (simp add: getMetadata_view assms(3) meta.get_put)
  then show ?thesis
    using False u
    by (auto simp: SetEnrollmentTime_def setMetadata_store assms(2) GetEnrollmentTime_def to_utc_def)
qed

theorem enrollment_time_roundtrip_witness:
  "\<exists>db1. SetEnrollmentTime plain_timelib healthy \<lparr>t_nanos = 1700000000123456789, t_utc = False\<rparr> None = (Ok (), db1) \<and>
     GetEnrollmentTime plain_timelib healthy db1 = Ok (Some \<lparr>t_nanos = 1700000000123456789, t_utc = True\<rparr>)"
  using enrollment_time_roundtrip [OF plain_rfc3339, of healthy healthy "\<lparr>t_nanos = 1700000000123456789, t_utc = False\<rparr>" None]
  by (simp add: year0_nanos_def year10000_nanos_def is_zero_time_def zero_nanos_def)

text \<open>The agent identity survives restarts and hardware changes.  Once \<open>EnsureAgentUUID\<close> has
  returned an identity, every later call on that database returns it again, whatever the host then
  reports as its system UUID; on a fresh database the identity is the system UUID when it parses and is
  not the all-zero or all-ones placeholder, and the generated UUID otherwise.\<close>

theorem agent_identity_stable:
  assumes "EnsureAgentUUID I (Some E) db = (Ok v, db1)"
  shows "EnsureAgentUUID I' (Some healthy) db1 = (Ok v, db1) \<and>
         (view db MetadataKeyMachineID = None \<longrightarrow>
            v = (if ie_system_uuid I \<noteq> [] \<and>
                    (\<exists>p. ie_uuid_parse I (ie_system_uuid I) = Some p \<and> p \<noteq> uuid_Nil \<and> p \<noteq> uuid_Max)
                 then ie_system_uuid I else ie_new_uuid I))"
proof -
  from assms obtain created where
    g: "GetOrCreateAgentUUID E (Some (createAgentUUID I)) db = (Ok (v, created), db1)"
    by (auto simp: EnsureAgentUUID_def split: prod.splits sum.splits)
  note ok = getOrCreateAgent_Ok [OF g]
  have "GetOrCreateAgentUUID healthy (Some (createAgentUUID I')) db1 = (Ok (v, False), db1)"
    using ok by (intro getOrCreate_existing) simp_all
  then have "EnsureAgentUUID I' (Some healthy) db1 = (Ok v, db1)" by (simp add: EnsureAgentUUID_def)
  moreover have "view db MetadataKeyMachineID = None \<longrightarrow> createAgentUUID I = Ok v" using ok by auto
  ultimately show ?thesis
    by (auto simp: createAgentUUID_def readHardwareUUID_def agentUUIDFromSystemUUID_def split: option.splits if_splits)
qed

definition sample_identity :: identity_env where
  "sample_identity = \<lparr>ie_system_uuid = ''hw'', ie_uuid_parse = (\<lambda>s. if s = ''hw'' then Some [1] else None),
     ie_new_uuid = ''random''\<rparr>"

theorem agent_identity_stable_witness:
  "\<exists>db1. EnsureAgentUUID sample_identity (Some healthy) None = (Ok ''hw'', db1) \<and>
     EnsureAgentUUID (sample_identity\<lparr>ie_system_uuid := []\<rparr>) (Some healthy) db1 = (Ok ''hw'', db1)"
proof -
  have "EnsureAgentUUID sample_identity (Some healthy) None = (Ok ''hw'', Some [MetadataKeyMachineID \<mapsto> ''hw''])"
    by (simp add: EnsureAgentUUID_def createAgentUUID_def readHardwareUUID_def agentUUIDFromSystemUUID_def
        sample_identity_def uuid_Nil_def uuid_Max_def numeral_eq_Suc
        GetOrCreateAgentUUID_def prepareReadWrite_def openReadWrite_def CreateTableMetadata_def
        GetOrCreateAgentUUIDMetadata_def readAgentUUIDDB_def sql_select_def sql_exec_def insert_if_blank_def healthy_def)
  with agent_identity_stable [OF this] show ?thesis by blast
qed

end
