(* ===== verification/Field_Intervals.thy ===== *)
theory Field_Intervals
  imports Prelude
begin

text \<open>
  \<open>pkg/nvidia-query/dcgm/field_intervals.go\<close> of the SDK: the parser of DCGM field-profile settings,
  the sampling interval of a field, the partition of fields into watch groups, and the life cycle of
  the native field groups (\<open>Setup\<close>, \<open>Close\<close>, \<open>Reset\<close>).

  The four native DCGM calls are outcomes chosen by the record \<open>native_lib\<close>, indexed by how many calls
  were made before, so that any pattern of failures is covered; the model logs every call that
  succeeded, and the set of live and of watched native groups is computed from that log.
\<close>

section \<open>Definitions\<close>

definition defaultStandardInterval :: duration where "defaultStandardInterval = 30 * time_Second"
definition defaultExtendedInterval :: duration where "defaultExtendedInterval = time_Minute"
definition maxFieldsPerGroup :: nat where "maxFieldsPerGroup = 128"

type_synonym field_profile = string

definition StandardProfile :: field_profile where "StandardProfile = ''standard''"
definition ExtendedProfile :: field_profile where "ExtendedProfile = ''extended''"

lemmas profile_defs = StandardProfile_def ExtendedProfile_def

record collection_intervals =
  ci_Extended :: duration
  ci_FieldProfiles :: "nat \<rightharpoonup> field_profile"

datatype profile_error =
    ExpectedIDProfile
  | UnknownProfile string
  | InvalidFieldRange
  | InvalidFieldID
  | OverlappingField nat

definition parseFieldProfile :: "string \<Rightarrow> (profile_error, field_profile) result" where
  "parseFieldProfile s =
     (let profile = TrimSpace s in
      if profile = StandardProfile \<or> profile = ExtendedProfile then Ok profile else Error (UnknownProfile s))"

text \<open>One entry of the setting: first field, last field and profile.\<close>

definition parse_entry :: "string \<Rightarrow> (profile_error, nat \<times> nat \<times> field_profile) result" where
  "parse_entry entry =
     (let parts = Split entry CHR ''='' in
      if length parts \<noteq> 2 then Error ExpectedIDProfile
      else case parseFieldProfile (parts ! 1) of
        Inl e \<Rightarrow> Error e
      | Inr profile \<Rightarrow>
          (let bounds = Split (TrimSpace (parts ! 0)) CHR ''-'' in
           if length bounds > 2 then Error InvalidFieldRange
           else case ParseUint 16 (TrimSpace (bounds ! 0)) of
             None \<Rightarrow> Error InvalidFieldID
           | Some lo \<Rightarrow>
               if lo = 0 then Error InvalidFieldID
               else if length bounds = 2 then
                 (case ParseUint 16 (TrimSpace (bounds ! 1)) of
                    None \<Rightarrow> Error InvalidFieldRange
                  | Some hi \<Rightarrow> if hi < lo then Error InvalidFieldRange else Ok (lo, hi, profile))
               else Ok (lo, lo, profile)))"

fun assign_ids :: "field_profile \<Rightarrow> nat list \<Rightarrow> (nat \<rightharpoonup> field_profile) \<Rightarrow> (profile_error, nat \<rightharpoonup> field_profile) result" where
  "assign_ids profile [] m = Ok m"
| "assign_ids profile (i # ids) m =
     (if m i \<noteq> None then Error (OverlappingField i) else assign_ids profile ids (m(i \<mapsto> profile)))"

fun assign_entries :: "string list \<Rightarrow> (nat \<rightharpoonup> field_profile) \<Rightarrow> (profile_error, nat \<rightharpoonup> field_profile) result" where
  "assign_entries [] m = Ok m"
| "assign_entries (entry # entries) m =
     (case parse_entry entry of
        Inl e \<Rightarrow> Error e
      | Inr (lo, hi, profile) \<Rightarrow> (case assign_ids profile [lo..<Suc hi] m of
            Inl e \<Rightarrow> Error e
          | Inr m' \<Rightarrow> assign_entries entries m'))"

definition ParseFieldProfiles :: "string \<Rightarrow> (profile_error, nat \<rightharpoonup> field_profile) result" where
  "ParseFieldProfiles s =
     (if TrimSpace s = [] then Ok Map.empty else assign_entries (Split s CHR '','') Map.empty)"

text \<open>The NVLink counter fields 1200 to 1219 and the FEC history fields 1404 to 1419.\<close>

definition built_in_profile :: "nat \<Rightarrow> field_profile" where
  "built_in_profile field =
     (if (1200 \<le> field \<and> field \<le> 1219) \<or> (1404 \<le> field \<and> field \<le> 1419) then ExtendedProfile else StandardProfile)"

definition FieldInterval :: "nat \<Rightarrow> duration \<Rightarrow> collection_intervals \<Rightarrow> duration" where
  "FieldInterval field standardInterval ci =
     (let standard = (if standardInterval \<le> 0 then defaultStandardInterval else standardInterval);
          profile = (case ci_FieldProfiles ci field of
              None \<Rightarrow> built_in_profile field
            | Some p \<Rightarrow> if p = StandardProfile \<or> p = ExtendedProfile then p else built_in_profile field)
      in if profile = StandardProfile then standard
         else let extended = (if ci_Extended ci \<le> 0 then defaultExtendedInterval else ci_Extended ci)
              in if extended > standard then extended else standard)"

subsection \<open>Field watches\<close>

record watch_group =
  wg_interval :: duration
  wg_fields :: "nat list"
  wg_handle :: nat
  wg_watching :: bool

record field_watches =
  fw_groups :: "watch_group list"
  fw_fields :: "nat list"
  fw_group :: nat

text \<open>The map from intervals to fields, as an association list in insertion order.\<close>

fun append_to :: "'k \<Rightarrow> 'v \<Rightarrow> ('k \<times> 'v list) list \<Rightarrow> ('k \<times> 'v list) list" where
  "append_to k v [] = [(k, [v])]"
| "append_to k v ((k', vs) # rest) = (if k' = k then (k', vs @ [v]) # rest else (k', vs) # append_to k v rest)"

fun group_fields :: "(nat \<Rightarrow> duration) \<Rightarrow> nat list \<Rightarrow> nat list \<Rightarrow> (duration \<times> nat list) list \<Rightarrow> (duration \<times> nat list) list" where
  "group_fields interval [] seen grouped = grouped"
| "group_fields interval (f # fs) seen grouped =
     (if f \<in> set seen then group_fields interval fs seen grouped
      else group_fields interval fs (f # seen) (append_to (interval f) f grouped))"

definition NewFieldWatches :: "nat list \<Rightarrow> duration \<Rightarrow> collection_intervals \<Rightarrow> field_watches" where
  "NewFieldWatches fids standardInterval ci =
     (let grouped = group_fields (\<lambda>f. FieldInterval f standardInterval ci) fids [] [];
          groups = sort_key wg_interval
            (map (\<lambda>(interval, fs). \<lparr>wg_interval = interval, wg_fields = sort fs, wg_handle = 0, wg_watching = False\<rparr>) grouped)
      in \<lparr>fw_groups = groups, fw_fields = concat (map wg_fields groups), fw_group = 0\<rparr>)"

datatype native_call =
    Created nat
  | Watched nat nat int
  | Unwatched nat nat
  | Destroyed nat

record native =
  nv_log :: "native_call list"
  nv_calls :: nat

record native_lib =
  nl_create :: "nat \<Rightarrow> nat option"
  nl_watch :: "nat \<Rightarrow> bool"
  nl_unwatch :: "nat \<Rightarrow> bool"
  nl_destroy :: "nat \<Rightarrow> bool"

datatype watch_error =
    GroupTooLarge nat
  | CleanupFailed "watch_error list"
  | CreateGroupFailed "watch_error list"
  | WatchFieldsFailed "watch_error list"
  | UnwatchFailed
  | DestroyFailed

definition tick :: "native \<Rightarrow> native" where
  "tick n = n\<lparr>nv_calls := Suc (nv_calls n)\<rparr>"

definition logged :: "native_call \<Rightarrow> native \<Rightarrow> native" where
  "logged c n = (tick n)\<lparr>nv_log := nv_log n @ [c]\<rparr>"

definition native_destroy :: "native_lib \<Rightarrow> watch_group \<Rightarrow> native \<Rightarrow> watch_error list \<times> watch_group \<times> native" where
  "native_destroy lib b n =
     (if nl_destroy lib (nv_calls n) then ([], b\<lparr>wg_handle := 0\<rparr>, logged (Destroyed (wg_handle b)) n)
      else ([DestroyFailed], b, tick n))"

definition close_group :: "native_lib \<Rightarrow> nat \<Rightarrow> watch_group \<Rightarrow> native \<Rightarrow> watch_error list \<times> watch_group \<times> native" where
  "close_group lib eg b n =
     (if wg_handle b = 0 then ([], b, n)
      else if wg_watching b then
        (if nl_unwatch lib (nv_calls n)
         then native_destroy lib (b\<lparr>wg_watching := False\<rparr>) (logged (Unwatched (wg_handle b) eg) n)
         else ([UnwatchFailed], b, tick n))
      else native_destroy lib b n)"

fun close_groups :: "native_lib \<Rightarrow> nat \<Rightarrow> watch_group list \<Rightarrow> native \<Rightarrow> watch_error list \<times> watch_group list \<times> native" where
  "close_groups lib eg [] n = ([], [], n)"
| "close_groups lib eg (b # bs) n =
     (let (e1, b', n1) = close_group lib eg b n;
          (e2, bs', n2) = close_groups lib eg bs n1
      in (e1 @ e2, b' # bs', n2))"

definition Close :: "native_lib \<Rightarrow> field_watches \<Rightarrow> native \<Rightarrow> watch_error list \<times> field_watches \<times> native" where
  "Close lib s n =
     (let (errs, gs, n') = close_groups lib (fw_group s) (fw_groups s) n in (errs, s\<lparr>fw_groups := gs\<rparr>, n'))"

definition Reset :: "field_watches \<Rightarrow> field_watches" where
  "Reset s = s\<lparr>fw_groups := map (\<lambda>b. b\<lparr>wg_handle := 0, wg_watching := False\<rparr>) (fw_groups s)\<rparr>"

definition watch_interval_us :: "duration \<Rightarrow> int" where
  "watch_interval_us d = (d + 1000 - 1) div 1000"

text \<open>The loop of \<open>Setup\<close>: \<open>acc\<close> are the groups already handled, the error comes with its constructor.\<close>

fun open_groups :: "native_lib \<Rightarrow> nat \<Rightarrow> watch_group list \<Rightarrow> watch_group list \<Rightarrow> native
    \<Rightarrow> (watch_error list \<Rightarrow> watch_error) option \<times> watch_group list \<times> native" where
  "open_groups lib eg acc [] n = (None, acc, n)"
| "open_groups lib eg acc (b # bs) n =
     (case nl_create lib (nv_calls n) of
        None \<Rightarrow> (Some CreateGroupFailed, acc @ b # bs, tick n)
      | Some h \<Rightarrow>
          (let b1 = b\<lparr>wg_handle := h\<rparr>; n1 = logged (Created h) n
           in if nl_watch lib (nv_calls n1)
              then open_groups lib eg (acc @ [b1\<lparr>wg_watching := True\<rparr>]) bs
                     (logged (Watched h eg (watch_interval_us (wg_interval b))) n1)
              else (Some WatchFieldsFailed, acc @ b1 # bs, tick n1)))"

definition groups_ready :: "field_watches \<Rightarrow> bool" where
  "groups_ready s = list_all (\<lambda>b. wg_handle b \<noteq> 0 \<and> wg_watching b) (fw_groups s)"

definition Setup :: "native_lib \<Rightarrow> nat \<Rightarrow> field_watches \<Rightarrow> native \<Rightarrow> watch_error option \<times> field_watches \<times> native" where
  "Setup lib eg s n =
     (if fw_groups s = [] then (None, s, n)
      else case find (\<lambda>b. length (wg_fields b) > maxFieldsPerGroup) (fw_groups s) of
        Some b \<Rightarrow> (Some (GroupTooLarge (length (wg_fields b))), s, n)
      | None \<Rightarrow>
          if groups_ready s \<and> fw_group s = eg then (None, s, n)
          else (case Close lib s n of
              (errs, s1, n1) \<Rightarrow>
                if errs \<noteq> [] then (Some (CleanupFailed errs), s1, n1)
                else (case open_groups lib eg [] (fw_groups s1) n1 of
                    (None, gs, n2) \<Rightarrow> (None, s1\<lparr>fw_group := eg, fw_groups := gs\<rparr>, n2)
                  | (Some mk, gs, n2) \<Rightarrow>
                      (case Close lib (s1\<lparr>fw_group := eg, fw_groups := gs\<rparr>) n2 of
                         (errs2, s3, n3) \<Rightarrow> (Some (mk errs2), s3, n3)))))"

section \<open>What the native library holds\<close>

fun live_after :: "nat set \<Rightarrow> native_call list \<Rightarrow> nat set" where
  "live_after S [] = S"
| "live_after S (Created h # cs) = live_after (insert h S) cs"
| "live_after S (Destroyed h # cs) = live_after (S - {h}) cs"
| "live_after S (Watched h g i # cs) = live_after S cs"
| "live_after S (Unwatched h g # cs) = live_after S cs"

fun watched_after :: "nat set \<Rightarrow> native_call list \<Rightarrow> nat set" where
  "watched_after S [] = S"
| "watched_after S (Created h # cs) = watched_after S cs"
| "watched_after S (Destroyed h # cs) = watched_after S cs"
| "watched_after S (Watched h g i # cs) = watched_after (insert h S) cs"
| "watched_after S (Unwatched h g # cs) = watched_after (S - {h}) cs"

definition live :: "native \<Rightarrow> nat set" where "live n = live_after {} (nv_log n)"
definition watched :: "native \<Rightarrow> nat set" where "watched n = watched_after {} (nv_log n)"

definition handles :: "watch_group list \<Rightarrow> nat list" where
  "handles gs = filter (\<lambda>h. h \<noteq> 0) (map wg_handle gs)"

definition watching_handles :: "watch_group list \<Rightarrow> nat list" where
  "watching_handles gs = map wg_handle (filter wg_watching gs)"

text \<open>
  The ledger invariant: the native groups alive are exactly those whose handle a group keeps, each once,
  and the native watches are exactly the groups marked as watching.
\<close>

definition ledger :: "watch_group list \<Rightarrow> native \<Rightarrow> bool" where
  "ledger gs n \<longleftrightarrow>
     live n = set (handles gs) \<and> distinct (handles gs) \<and> watched n = set (watching_handles gs) \<and>
     (\<forall>b \<in> set gs. wg_watching b \<longrightarrow> wg_handle b \<noteq> 0)"

text \<open>What the code relies on from DCGM: a created group has a non-zero handle no other group has had.\<close>

definition fresh_handles :: "native_lib \<Rightarrow> bool" where
  "fresh_handles lib \<longleftrightarrow>
     (\<forall>c h. nl_create lib c = Some h \<longrightarrow> h \<noteq> 0) \<and>
     (\<forall>c d h. nl_create lib c = Some h \<longrightarrow> nl_create lib d = Some h \<longrightarrow> c = d)"

text \<open>Every handle in the log was returned by a create call made before now.\<close>

definition issued :: "native_lib \<Rightarrow> native \<Rightarrow> bool" where
  "issued lib n \<longleftrightarrow> (\<forall>h. Created h \<in> set (nv_log n) \<longrightarrow> (\<exists>c < nv_calls n. nl_create lib c = Some h))"

section \<open>Lemmas on the profile parser\<close>

text \<open>A parsed entry is a non-empty range of valid field IDs with one of the two profiles.\<close>

definition entry_covers :: "nat \<times> nat \<times> field_profile \<Rightarrow> nat \<Rightarrow> bool" where
  "entry_covers e i \<longleftrightarrow> fst e \<le> i \<and> i \<le> fst (snd e)"

definition entries_apart :: "(nat \<times> nat \<times> field_profile) \<Rightarrow> (nat \<times> nat \<times> field_profile) \<Rightarrow> bool" where
  "entries_apart e e' \<longleftrightarrow> (\<forall>i. \<not> (entry_covers e i \<and> entry_covers e' i))"

definition entries_map :: "(nat \<times> nat \<times> field_profile) list \<Rightarrow> nat \<rightharpoonup> field_profile" where
  "entries_map es i = map_option (\<lambda>e. snd (snd e)) (find (\<lambda>e. entry_covers e i) es)"

lemma parse_entry_Ok:
  assumes "parse_entry s = Inr (lo, hi, p)"
  shows "1 \<le> lo" "lo \<le> hi" "hi < 65536" "p \<in> {StandardProfile, ExtendedProfile}"
  using assms
  by (auto simp: parse_entry_def parseFieldProfile_def ParseUint_def Let_def split: sum.splits option.splits if_splits)

lemma assign_ids_iff:
  "assign_ids p ids m = Inr m' \<longleftrightarrow>
     distinct ids \<and> (\<forall>i \<in> set ids. m i = None) \<and> m' = (\<lambda>i. if i \<in> set ids then Some p else m i)"
proof (induction ids arbitrary: m)
  case Nil
  then show ?case by auto
next
  case (Cons i ids)
  then show ?case by (auto simp: fun_eq_iff)
qed

definition entry_over :: "nat \<times> nat \<times> field_profile \<Rightarrow> (nat \<rightharpoonup> field_profile) \<Rightarrow> nat \<rightharpoonup> field_profile" where
  "entry_over e m i = (if entry_covers e i then Some (snd (snd e)) else m i)"

lemma assign_range:
  "assign_ids p [lo..<Suc hi] m = Inr m1 \<longleftrightarrow>
     (\<forall>i. entry_covers (lo, hi, p) i \<longrightarrow> m i = None) \<and> m1 = entry_over (lo, hi, p) m"
  by (auto simp: assign_ids_iff entry_over_def entry_covers_def fun_eq_iff simp del: upt_Suc)

lemma assign_entries_Cons_iff:
  "assign_entries (s # ss) m = Inr m' \<longleftrightarrow>
     (\<exists>e. parse_entry s = Inr e \<and> (\<forall>i. entry_covers e i \<longrightarrow> m i = None) \<and> assign_entries ss (entry_over e m) = Inr m')"
proof (cases "parse_entry s")
  case (Inr e)
  obtain lo hi p where e: "e = (lo, hi, p)" by (cases e)
  show ?thesis
  proof (cases "assign_ids p [lo..<Suc hi] m")
    case (Inl err)
    then have "\<not> (\<forall>i. entry_covers e i \<longrightarrow> m i = None)"
      using assign_range [of p lo hi m "entry_over e m"] by (auto simp: e simp del: upt_Suc)
    with Inl show ?thesis by (auto simp: Inr e simp del: upt_Suc)
  next
    case (Inr m1)
    with assign_range [of p lo hi m m1] \<open>parse_entry s = Inr e\<close> show ?thesis
      by (auto simp: e simp del: upt_Suc)
  qed
qed simp

lemma entry_over_free:
  assumes "\<forall>i. entry_covers e i \<longrightarrow> m i = None"
  shows "(\<forall>e' \<in> set es. \<forall>i. entry_covers e' i \<longrightarrow> entry_over e m i = None) \<longleftrightarrow>
    (\<forall>e' \<in> set es. entries_apart e e') \<and> (\<forall>e' \<in> set es. \<forall>i. entry_covers e' i \<longrightarrow> m i = None)"
  using assms by (auto simp: entries_apart_def entry_over_def)

lemma entries_map_over:
  assumes "\<forall>e' \<in> set es. entries_apart e e'"
  shows "(case entries_map es i of Some q \<Rightarrow> Some q | None \<Rightarrow> entry_over e m i) =
     (case entries_map (e # es) i of Some q \<Rightarrow> Some q | None \<Rightarrow> m i)"
proof (cases "entry_covers e i")
  case True
  with assms have "find (\<lambda>e. entry_covers e i) es = None"
    by (auto simp: find_None_iff entries_apart_def)
  with True show ?thesis by (simp add: entries_map_def entry_over_def)
qed (simp add: entries_map_def entry_over_def split: option.split)

text \<open>The loop succeeds exactly on well-formed entries that overlap neither each other nor the map so far.\<close>

lemma assign_entries_iff:
  "assign_entries entries m = Inr m' \<longleftrightarrow>
     (\<exists>es. map parse_entry entries = map Inr es \<and> sorted_wrt entries_apart es \<and>
        (\<forall>e \<in> set es. \<forall>i. entry_covers e i \<longrightarrow> m i = None) \<and>
        m' = (\<lambda>i. case entries_map es i of Some p \<Rightarrow> Some p | None \<Rightarrow> m i))"
proof (induction entries arbitrary: m)
  case Nil
  then show ?case by (auto simp: entries_map_def)
next
  case (Cons s ss)
  have "assign_entries (s # ss) m = Inr m' \<longleftrightarrow>
     (\<exists>e es. parse_entry s = Inr e \<and> map parse_entry ss = map Inr es \<and> sorted_wrt entries_apart (e # es) \<and>
        (\<forall>e' \<in> set (e # es). \<forall>i. entry_covers e' i \<longrightarrow> m i = None) \<and>
        m' = (\<lambda>i. case entries_map es i of Some p \<Rightarrow> Some p | None \<Rightarrow> entry_over e m i))"
    unfolding assign_entries_Cons_iff Cons.IH using entry_over_free by fastforce
  also have "\<dots> \<longleftrightarrow> (\<exists>e es. parse_entry s = Inr e \<and> map parse_entry ss = map Inr es \<and> sorted_wrt entries_apart (e # es) \<and>
        (\<forall>e' \<in> set (e # es). \<forall>i. entry_covers e' i \<longrightarrow> m i = None) \<and>
        m' = (\<lambda>i. case entries_map (e # es) i of Some p \<Rightarrow> Some p | None \<Rightarrow> m i))"
    by (intro ex_cong1 conj_cong refl) (simp add: entries_map_over)
  also have "\<dots> \<longleftrightarrow> (\<exists>es. map parse_entry (s # ss) = map Inr es \<and> sorted_wrt entries_apart es \<and>
        (\<forall>e \<in> set es. \<forall>i. entry_covers e i \<longrightarrow> m i = None) \<and>
        m' = (\<lambda>i. case entries_map es i of Some p \<Rightarrow> Some p | None \<Rightarrow> m i))"
    by (auto simp: Cons_eq_map_conv map_eq_Cons_conv)
  finally show ?case .
qed

section \<open>Lemmas on intervals and groups\<close>

definition standard_of :: "duration \<Rightarrow> duration" where
  "standard_of d = (if d \<le> 0 then defaultStandardInterval else d)"

definition extended_of :: "duration \<Rightarrow> collection_intervals \<Rightarrow> duration" where
  "extended_of d ci = max (standard_of d) (if ci_Extended ci \<le> 0 then defaultExtendedInterval else ci_Extended ci)"

lemma FieldInterval_two: "FieldInterval f d ci \<in> {standard_of d, extended_of d ci}"
  by (simp add: FieldInterval_def standard_of_def extended_of_def Let_def)

definition alist_fields :: "('k \<times> 'v list) list \<Rightarrow> 'v list" where
  "alist_fields g = concat (map snd g)"

lemma append_to_keys: "map fst (append_to k v g) = (if k \<in> fst ` set g then map fst g else map fst g @ [k])"
  by (induction g) (fastforce simp: image_iff)+

lemma append_to_fields: "mset (alist_fields (append_to k v g)) = add_mset v (mset (alist_fields g))"
  by (induction g) (auto simp: alist_fields_def)

lemma append_to_mem:
  "(k', vs') \<in> set (append_to k v g) \<Longrightarrow>
     (k', vs') \<in> set g \<or> (k' = k \<and> (vs' = [v] \<or> (\<exists>vs. (k, vs) \<in> set g \<and> vs' = vs @ [v])))"
  by (induction g) (auto split: if_splits)

text \<open>The invariant of the grouping loop: distinct keys, and each group holds fields of its interval only.\<close>

definition grouped_ok :: "(nat \<Rightarrow> duration) \<Rightarrow> (duration \<times> nat list) list \<Rightarrow> bool" where
  "grouped_ok interval g \<longleftrightarrow> distinct (map fst g) \<and> (\<forall>(k, vs) \<in> set g. vs \<noteq> [] \<and> (\<forall>v \<in> set vs. interval v = k))"

lemma append_to_ok: "grouped_ok interval g \<Longrightarrow> grouped_ok interval (append_to (interval v) v g)"
proof -
  assume g: "grouped_ok interval g"
  then have "distinct (map fst (append_to (interval v) v g))"
    by (auto simp: grouped_ok_def append_to_keys)
  moreover have "vs' \<noteq> [] \<and> (\<forall>x \<in> set vs'. interval x = k')" if "(k', vs') \<in> set (append_to (interval v) v g)" for k' vs'
    using append_to_mem [OF that] g by (fastforce simp: grouped_ok_def)
  ultimately show ?thesis by (auto simp: grouped_ok_def)
qed

lemma group_fields_ok: "grouped_ok interval g \<Longrightarrow> grouped_ok interval (group_fields interval fs seen g)"
  by (induction interval fs seen g rule: group_fields.induct) (auto simp: append_to_ok)

lemma group_fields_mset:
  "set seen = set (alist_fields g) \<Longrightarrow> distinct (alist_fields g) \<Longrightarrow>
     distinct (alist_fields (group_fields interval fs seen g)) \<and>
     set (alist_fields (group_fields interval fs seen g)) = set (alist_fields g) \<union> set fs"
proof (induction interval fs seen g rule: group_fields.induct)
  case (2 interval f fs seen g)
  show ?case
  proof (cases "f \<in> set seen")
    case True
    with 2 show ?thesis by auto
  next
    case False
    let ?g = "append_to (interval f) f g"
    have m: "mset (alist_fields ?g) = mset (f # alist_fields g)" by (simp add: append_to_fields)
    have "distinct (f # alist_fields g)" using False "2.prems" by simp
    with m have d: "distinct (alist_fields ?g)" by (metis mset_eq_imp_distinct_iff)
    have st: "set (alist_fields ?g) = insert f (set (alist_fields g))"
      using m by (metis list.simps(15) mset_eq_setD)
    show ?thesis
      using "2.IH"(2) [OF False] False "2.prems" d st by auto
  qed
qed simp

lemma sort_key_mset_concat:
  "mset (concat (map f (sort_key k xs))) = mset (concat (map f xs))"
proof -
  have "mset (map (\<lambda>x. mset (f x)) (sort_key k xs)) = mset (map (\<lambda>x. mset (f x)) xs)" by simp
  then show ?thesis
    by (metis (no_types, lifting) comp_apply map_cong map_map mset_concat sum_mset_sum_list)
qed

lemma NewFieldWatches_groups:
  fixes fids d ci
  defines "g \<equiv> group_fields (\<lambda>f. FieldInterval f d ci) fids [] []"
  shows "mset (fw_groups (NewFieldWatches fids d ci)) =
      mset (map (\<lambda>(i, fs). \<lparr>wg_interval = i, wg_fields = sort fs, wg_handle = 0, wg_watching = False\<rparr>) g)"
    and "sorted (map wg_interval (fw_groups (NewFieldWatches fids d ci)))"
    and "fw_fields (NewFieldWatches fids d ci) = concat (map wg_fields (fw_groups (NewFieldWatches fids d ci)))"
    and "mset (fw_fields (NewFieldWatches fids d ci)) = mset (alist_fields g)"
proof -
  let ?mk = "\<lambda>(i, fs). \<lparr>wg_interval = i, wg_fields = sort fs, wg_handle = 0, wg_watching = False\<rparr>"
  have gr: "fw_groups (NewFieldWatches fids d ci) = sort_key wg_interval (map ?mk g)"
    by (simp add: NewFieldWatches_def Let_def g_def)
  show "mset (fw_groups (NewFieldWatches fids d ci)) = mset (map ?mk g)" by (simp add: gr)
  show "sorted (map wg_interval (fw_groups (NewFieldWatches fids d ci)))" by (simp add: gr)
  show f: "fw_fields (NewFieldWatches fids d ci) = concat (map wg_fields (fw_groups (NewFieldWatches fids d ci)))"
    by (simp add: NewFieldWatches_def Let_def)
  have "mset (concat (map wg_fields (map ?mk g))) = mset (alist_fields g)"
    by (induction g) (auto simp: alist_fields_def)
  then show "mset (fw_fields (NewFieldWatches fids d ci)) = mset (alist_fields g)"
    by (simp add: f gr sort_key_mset_concat)
qed

section \<open>Lemmas on the native ledger\<close>

lemma after_append:
  "live_after S (xs @ ys) = live_after (live_after S xs) ys"
  "watched_after S (xs @ ys) = watched_after (watched_after S xs) ys"
  by (induction xs arbitrary: S; simp; case_tac a; simp)+

lemma native_simps [simp]:
  "live (tick n) = live n" "watched (tick n) = watched n"
  "live (logged (Created h) n) = insert h (live n)" "watched (logged (Created h) n) = watched n"
  "live (logged (Destroyed h) n) = live n - {h}" "watched (logged (Destroyed h) n) = watched n"
  "live (logged (Watched h g i) n) = live n" "watched (logged (Watched h g i) n) = insert h (watched n)"
  "live (logged (Unwatched h g) n) = live n" "watched (logged (Unwatched h g) n) = watched n - {h}"
  by (simp_all add: live_def watched_def tick_def logged_def after_append)

lemma issued_simps [simp]:
  "issued lib n \<Longrightarrow> issued lib (tick n)"
  "issued lib n \<Longrightarrow> issued lib (logged (Destroyed h) n)"
  "issued lib n \<Longrightarrow> issued lib (logged (Watched h g i) n)"
  "issued lib n \<Longrightarrow> issued lib (logged (Unwatched h g) n)"
  "issued lib n \<Longrightarrow> nl_create lib (nv_calls n) = Some h \<Longrightarrow> issued lib (logged (Created h) n)"
  by (auto simp: issued_def tick_def logged_def intro: less_SucI)

lemma live_subset: "live_after S cs \<subseteq> S \<union> {h. Created h \<in> set cs}"
  by (induction S cs rule: live_after.induct) auto

lemma fresh_not_live:
  "fresh_handles lib \<Longrightarrow> issued lib n \<Longrightarrow> nl_create lib (nv_calls n) = Some h \<Longrightarrow> h \<noteq> 0 \<and> h \<notin> live n"
  using live_subset [of "{}" "nv_log n"]
  unfolding fresh_handles_def issued_def live_def by fastforce

lemma handles_append [simp]: "handles (xs @ ys) = handles xs @ handles ys"
  by (simp add: handles_def)

lemma handles_Cons: "handles (b # bs) = (if wg_handle b = 0 then handles bs else wg_handle b # handles bs)"
  by (simp add: handles_def)

lemma watching_append [simp]: "watching_handles (xs @ ys) = watching_handles xs @ watching_handles ys"
  by (simp add: watching_handles_def)

lemma watching_Cons:
  "watching_handles (b # bs) = (if wg_watching b then wg_handle b # watching_handles bs else watching_handles bs)"
  by (simp add: watching_handles_def)

lemmas ledger_simps = ledger_def handles_Cons watching_Cons

text \<open>A watching group elsewhere keeps its own handle, which is one of the distinct handles.\<close>

lemma watching_in_handles:
  "\<forall>b \<in> set gs. wg_watching b \<longrightarrow> wg_handle b \<noteq> 0 \<Longrightarrow> set (watching_handles gs) \<subseteq> set (handles gs)"
  by (auto simp: watching_handles_def handles_def)

lemma ledger_unwatch:
  assumes "ledger (pre @ b # post) n" "wg_watching b"
  shows "ledger (pre @ b\<lparr>wg_watching := False\<rparr> # post) (logged (Unwatched (wg_handle b) g) n)"
  using assms watching_in_handles [of pre] watching_in_handles [of post]
  by (auto simp: ledger_simps)

lemma ledger_destroy:
  assumes "ledger (pre @ b # post) n" "wg_handle b \<noteq> 0" "\<not> wg_watching b"
  shows "ledger (pre @ b\<lparr>wg_handle := 0\<rparr> # post) (logged (Destroyed (wg_handle b)) n)"
  using assms by (auto simp: ledger_simps)

lemma ledger_create:
  assumes "ledger (pre @ b # post) n" "wg_handle b = 0" "h \<noteq> 0" "h \<notin> live n"
  shows "ledger (pre @ b\<lparr>wg_handle := h\<rparr> # post) (logged (Created h) n)"
  using assms by (auto simp: ledger_simps)

lemma ledger_watch:
  assumes "ledger (pre @ b # post) n" "wg_handle b \<noteq> 0"
  shows "ledger (pre @ b\<lparr>wg_watching := True\<rparr> # post) (logged (Watched (wg_handle b) g i) n)"
  using assms by (auto simp: ledger_simps)

lemma ledger_tick [simp]: "ledger gs (tick n) = ledger gs n"
  by (simp add: ledger_def)

lemma native_destroy_ledger:
  assumes "native_destroy lib b n = (e, b', n')" "ledger (pre @ b # post) n" "issued lib n"
    "wg_handle b \<noteq> 0" "\<not> wg_watching b"
  shows "ledger (pre @ b' # post) n' \<and> issued lib n' \<and> (e = [] \<longrightarrow> wg_handle b' = 0)"
  using assms by (auto simp: native_destroy_def ledger_destroy split: if_splits)

lemma close_group_ledger:
  assumes "close_group lib g b n = (e, b', n')" "ledger (pre @ b # post) n" "issued lib n"
  shows "ledger (pre @ b' # post) n' \<and> issued lib n' \<and> (e = [] \<longrightarrow> wg_handle b' = 0)"
proof (cases "wg_handle b = 0 \<or> (wg_watching b \<and> \<not> nl_unwatch lib (nv_calls n))")
  case True
  with assms show ?thesis by (auto simp: close_group_def split: if_splits)
next
  case False
  show ?thesis
  proof (cases "wg_watching b")
    case True
    with False assms show ?thesis
      by (intro native_destroy_ledger [where b = "b\<lparr>wg_watching := False\<rparr>" and n = "logged (Unwatched (wg_handle b) g) n"])
         (auto simp: close_group_def ledger_unwatch)
  next
    case nw: False
    with False assms show ?thesis
      by (intro native_destroy_ledger [where b = b and n = n]) (auto simp: close_group_def)
  qed
qed

lemma close_groups_ledger:
  assumes "close_groups lib g gs n = (e, gs', n')" "ledger (pre @ gs) n" "issued lib n"
  shows "ledger (pre @ gs') n' \<and> issued lib n' \<and> (e = [] \<longrightarrow> (\<forall>b \<in> set gs'. wg_handle b = 0))"
  using assms
proof (induction lib g gs n arbitrary: pre e gs' n' rule: close_groups.induct)
  case (1 lib g n)
  then show ?case by simp
next
  case (2 lib g b bs n)
  obtain e1 b1 n1 where c: "close_group lib g b n = (e1, b1, n1)" by (metis prod_cases3)
  obtain e2 bs2 n2 where cs: "close_groups lib g bs n1 = (e2, bs2, n2)" by (metis prod_cases3)
  from close_group_ledger [OF c "2.prems"(2,3)]
  have l: "ledger (pre @ b1 # bs) n1" "issued lib n1" "e1 = [] \<longrightarrow> wg_handle b1 = 0" by auto
  from "2.IH" [OF c [symmetric] refl refl cs, of "pre @ [b1]"] l c cs "2.prems"(1) show ?case
    by auto
qed

lemma Close_ledger:
  assumes "Close lib s n = (e, s', n')" "ledger (fw_groups s) n" "issued lib n"
  shows "ledger (fw_groups s') n'" "issued lib n'" "e = [] \<Longrightarrow> \<forall>b \<in> set (fw_groups s'). wg_handle b = 0"
  using assms close_groups_ledger [where pre = "[]"]
  by (auto simp: Close_def split: prod.splits)

lemma open_groups_ledger:
  assumes "open_groups lib g acc bs n = (r, gs, n')" "ledger (acc @ bs) n" "issued lib n" "fresh_handles lib"
    "\<forall>b \<in> set bs. wg_handle b = 0" "\<forall>b \<in> set acc. wg_handle b \<noteq> 0 \<and> wg_watching b"
  shows "ledger gs n' \<and> issued lib n' \<and>
    (r = None \<longrightarrow> (\<forall>b \<in> set gs. wg_handle b \<noteq> 0 \<and> wg_watching b))"
  using assms
proof (induction lib g acc bs n arbitrary: r gs n' rule: open_groups.induct)
  case (1 lib g acc n)
  then show ?case by auto
next
  case (2 lib g acc b bs n)
  show ?case
  proof (cases "nl_create lib (nv_calls n)")
    case None
    with "2.prems"(1) have "r = Some CreateGroupFailed" "gs = acc @ b # bs" "n' = tick n" by simp_all
    with "2.prems"(2,3) show ?thesis by simp
  next
    case (Some h)
    let ?n1 = "logged (Created h) n" and ?b1 = "b\<lparr>wg_handle := h\<rparr>"
    from fresh_not_live [OF "2.prems"(4,3) Some] have h: "h \<noteq> 0" "h \<notin> live n" by auto
    have l1: "ledger (acc @ ?b1 # bs) ?n1" "issued lib ?n1"
      using "2.prems" h Some by (auto intro: ledger_create)
    show ?thesis
    proof (cases "nl_watch lib (nv_calls ?n1)")
      case False
      then have "r = Some WatchFieldsFailed" "gs = acc @ ?b1 # bs" "n' = tick ?n1"
        using "2.prems"(1) Some by (simp_all add: Let_def)
      with l1 show ?thesis by simp
    next
      case True
      have l2: "ledger ((acc @ [?b1\<lparr>wg_watching := True\<rparr>]) @ bs)
          (logged (Watched h g (watch_interval_us (wg_interval b))) ?n1)"
        using ledger_watch [OF l1(1)] h by simp
      have eq: "open_groups lib g (acc @ [?b1\<lparr>wg_watching := True\<rparr>]) bs
          (logged (Watched h g (watch_interval_us (wg_interval b))) ?n1) = (r, gs, n')"
        using "2.prems"(1) Some True by (simp add: Let_def)
      show ?thesis
        by (rule "2.IH" [OF Some refl refl True eq l2]) (use l1(2) "2.prems"(4,5,6) h(1) in auto)
    qed
  qed
qed

lemma Setup_ledger:
  assumes "Setup lib g s n = (r, s', n')" "ledger (fw_groups s) n" "issued lib n" "fresh_handles lib"
  shows "ledger (fw_groups s') n' \<and> issued lib n' \<and>
    (r = None \<longrightarrow> (\<forall>b \<in> set (fw_groups s'). wg_handle b \<noteq> 0 \<and> wg_watching b))"
proof (cases "fw_groups s = [] \<or> find (\<lambda>b. length (wg_fields b) > maxFieldsPerGroup) (fw_groups s) \<noteq> None \<or>
    (groups_ready s \<and> fw_group s = g)")
  case True
  with assms show ?thesis
    by (auto simp: Setup_def groups_ready_def list_all_iff split: if_splits option.splits)
next
  case False
  obtain errs s1 n1 where c: "Close lib s n = (errs, s1, n1)" by (metis prod_cases3)
  note c1 = Close_ledger [OF c assms(2,3)]
  show ?thesis
  proof (cases "errs = []")
    case False
    with \<open>\<not> (fw_groups s = [] \<or> _)\<close> assms(1) c have "r = Some (CleanupFailed errs)" "s' = s1" "n' = n1"
      by (auto simp: Setup_def)
    with c1 show ?thesis by simp
  next
    case True
    obtain r2 gs n2 where o: "open_groups lib g [] (fw_groups s1) n1 = (r2, gs, n2)" by (metis prod_cases3)
    have o1: "ledger gs n2" "issued lib n2"
      "r2 = None \<longrightarrow> (\<forall>b \<in> set gs. wg_handle b \<noteq> 0 \<and> wg_watching b)"
      using open_groups_ledger [OF o] c1 True assms(4) by auto
    obtain e3 s3 n3 where c3: "Close lib (s1\<lparr>fw_group := g, fw_groups := gs\<rparr>) n2 = (e3, s3, n3)" by (metis prod_cases3)
    have l3: "ledger (fw_groups s3) n3" "issued lib n3" using Close_ledger [OF c3] o1 by simp_all
    have "(r, s', n') = (case r2 of None \<Rightarrow> (None, s1\<lparr>fw_group := g, fw_groups := gs\<rparr>, n2) | Some mk \<Rightarrow> (Some (mk e3), s3, n3))"
      using False True assms(1) c o c3 by (auto simp: Setup_def split: option.splits)
    with o1 l3 show ?thesis by (cases r2) auto
  qed
qed

section \<open>Properties\<close>

text \<open>The field-profile parser accepts exactly the settings it documents.  A non-blank setting
  yields a map exactly when every comma-separated entry parses to a range and a profile and no two
  ranges overlap; the map then assigns each field of a range that range's profile and nothing else, so
  it is defined only on IDs 1 to 65535 and only with the two known profiles.\<close>

theorem field_profiles_parse:
  "(ParseFieldProfiles s = Ok m \<longleftrightarrow>
      (if TrimSpace s = [] then m = Map.empty
       else \<exists>es. map parse_entry (Split s CHR '','') = map Ok es \<and> sorted_wrt entries_apart es \<and> m = entries_map es)) \<and>
   (ParseFieldProfiles s = Ok m \<longrightarrow>
      (\<forall>i p. m i = Some p \<longrightarrow> 1 \<le> i \<and> i < 65536 \<and> p \<in> {StandardProfile, ExtendedProfile}))"
proof (intro conjI impI allI)
  show eq: "ParseFieldProfiles s = Ok m \<longleftrightarrow>
      (if TrimSpace s = [] then m = Map.empty
       else \<exists>es. map parse_entry (Split s CHR '','') = map Ok es \<and> sorted_wrt entries_apart es \<and> m = entries_map es)"
    by (auto simp: ParseFieldProfiles_def assign_entries_iff fun_eq_iff split: option.splits) (metis option.exhaust)+
  fix i p
  assume ok: "ParseFieldProfiles s = Ok m" and mi: "m i = Some p"
  with eq obtain es where es: "map parse_entry (Split s CHR '','') = map Ok es" "m = entries_map es"
    by (auto split: if_splits)
  with mi obtain e where "find (\<lambda>e. entry_covers e i) es = Some e" and p: "p = snd (snd e)"
    by (auto simp: entries_map_def)
  then have e: "e \<in> set es" "entry_covers e i" by (auto simp: find_Some_iff)
  then have "Inr e \<in> set (map parse_entry (Split s CHR '',''))" using es(1) by simp
  then obtain t where "parse_entry t = Inr (fst e, fst (snd e), snd (snd e))" by auto
  from parse_entry_Ok [OF this] e p show "1 \<le> i" "i < 65536" "p \<in> {StandardProfile, ExtendedProfile}"
    by (auto simp: entry_covers_def)
qed

theorem field_profiles_parse_witness:
  "ParseFieldProfiles ''1110=extended, 1200-1201 = standard'' = Ok [1110 \<mapsto> ''extended'', 1200 \<mapsto> ''standard'', 1201 \<mapsto> ''standard''] \<and>
   1201 < (65536 :: nat) \<and> ''standard'' \<in> {StandardProfile, ExtendedProfile}"
proof -
  let ?m = "[1110 \<mapsto> ''extended'', 1200 \<mapsto> ''standard'', 1201 \<mapsto> ''standard''] :: nat \<rightharpoonup> string"
  have "Split ''1110=extended, 1200-1201 = standard'' CHR '','' = [''1110=extended'', '' 1200-1201 = standard'']"
    "parse_entry ''1110=extended'' = Inr (1110, 1110, ''extended'')"
    "parse_entry '' 1200-1201 = standard'' = Inr (1200, 1201, ''standard'')"
    "TrimSpace ''1110=extended, 1200-1201 = standard'' = ''1110=extended, 1200-1201 = standard''"
    by code_simp+
  then have "ParseFieldProfiles ''1110=extended, 1200-1201 = standard'' =
      Ok [1110 \<mapsto> ''extended'', 1200 \<mapsto> ''standard'', 1201 \<mapsto> ''standard'']"
    unfolding ParseFieldProfiles_def by (simp del: Split.simps)
  moreover have "?m 1201 = Some ''standard''" by simp
  ultimately show ?thesis
    using field_profiles_parse [of "''1110=extended, 1200-1201 = standard''" ?m] by blast
qed

text \<open>\<open>NewFieldWatches\<close> partitions the selected fields by sampling interval.  The groups hold every
  selected field exactly once and nothing else, each group is non-empty and holds fields whose interval
  is the group's, groups are in strictly increasing order of interval, there are at most two of them,
  and no native resource is allocated.\<close>

theorem field_watches_partition:
  "let w = NewFieldWatches fids d ci in
     distinct (fw_fields w) \<and> set (fw_fields w) = set fids \<and>
     fw_fields w = concat (map wg_fields (fw_groups w)) \<and>
     (\<forall>b. b \<in> set (fw_groups w) \<longrightarrow> wg_fields b \<noteq> [] \<and> sorted (wg_fields b) \<and> wg_handle b = 0 \<and> \<not> wg_watching b \<and>
        (\<forall>f. f \<in> set (wg_fields b) \<longrightarrow> FieldInterval f d ci = wg_interval b)) \<and>
     sorted_wrt (<) (map wg_interval (fw_groups w)) \<and> length (fw_groups w) \<le> 2"
proof -
  define w where "w = NewFieldWatches fids d ci"
  define g where "g = group_fields (\<lambda>f. FieldInterval f d ci) fids [] []"
  define mk where "mk = (\<lambda>(i :: duration, fs :: nat list). \<lparr>wg_interval = i, wg_fields = sort fs, wg_handle = 0, wg_watching = False\<rparr>)"
  note gr = NewFieldWatches_groups [of fids d ci, folded g_def w_def, folded mk_def]
  have ok: "grouped_ok (\<lambda>f. FieldInterval f d ci) g"
    unfolding g_def by (rule group_fields_ok) (simp add: grouped_ok_def)
  have fm: "distinct (alist_fields g)" "set (alist_fields g) = set fids"
    using group_fields_mset [of "[]" "[]" "\<lambda>f. FieldInterval f d ci" fids] by (auto simp: g_def alist_fields_def)
  have fields: "distinct (fw_fields w)" "set (fw_fields w) = set fids"
    using gr(4) fm by (metis mset_eq_imp_distinct_iff, metis mset_eq_setD)
  have set_gr: "set (fw_groups w) = mk ` set g" using gr(1) by (metis mset_eq_setD set_map)
  have grp: "wg_fields b \<noteq> [] \<and> sorted (wg_fields b) \<and> wg_handle b = 0 \<and> \<not> wg_watching b \<and>
      (\<forall>f. f \<in> set (wg_fields b) \<longrightarrow> FieldInterval f d ci = wg_interval b)" if "b \<in> set (fw_groups w)" for b
  proof -
    from that obtain k vs where kv: "(k, vs) \<in> set g" "b = mk (k, vs)" by (auto simp: set_gr)
    with ok have "vs \<noteq> []" "\<forall>v \<in> set vs. FieldInterval v d ci = k" by (auto simp: grouped_ok_def)
    moreover from \<open>vs \<noteq> []\<close> have "sort vs \<noteq> []" by (metis set_empty set_sort)
    ultimately show ?thesis by (simp add: kv(2) mk_def)
  qed
  have "mset (map wg_interval (fw_groups w)) = mset (map fst g)"
    using gr(1) by (simp add: mk_def case_prod_unfold image_mset.compositionality comp_def)
  then have dist: "distinct (map wg_interval (fw_groups w))"
    using ok unfolding grouped_ok_def by (metis mset_eq_imp_distinct_iff)
  have strict: "sorted_wrt (<) (map wg_interval (fw_groups w))"
    using gr(2) dist by (simp add: strict_sorted_iff)
  have "set (map wg_interval (fw_groups w)) \<subseteq> {standard_of d, extended_of d ci}"
  proof
    fix i
    assume "i \<in> set (map wg_interval (fw_groups w))"
    then obtain b where b: "b \<in> set (fw_groups w)" "i = wg_interval b" by auto
    with grp have "FieldInterval (hd (wg_fields b)) d ci = i" by (simp add: list.set_sel)
    with FieldInterval_two show "i \<in> {standard_of d, extended_of d ci}" by metis
  qed
  then have "card (set (map wg_interval (fw_groups w))) \<le> card {standard_of d, extended_of d ci}"
    by (intro card_mono) auto
  also have "\<dots> \<le> 2" by (simp add: card_insert_if)
  finally have "length (fw_groups w) \<le> 2" using distinct_card [OF dist] by simp
  with fields gr(3) grp strict show ?thesis unfolding Let_def w_def [symmetric] by blast
qed

theorem field_watches_partition_witness:
  "let w = NewFieldWatches [1200, 100, 1200, 7] 0 \<lparr>ci_Extended = 0, ci_FieldProfiles = Map.empty\<rparr> in
     fw_fields w = [7, 100, 1200] \<and> map wg_interval (fw_groups w) = [30000000000, 60000000000] \<and>
     distinct (fw_fields w) \<and> sorted_wrt (<) (map wg_interval (fw_groups w))"
proof -
  let ?w = "NewFieldWatches [1200, 100, 1200, 7] 0 \<lparr>ci_Extended = 0, ci_FieldProfiles = Map.empty\<rparr>"
  have "fw_fields ?w = [7, 100, 1200]" "map wg_interval (fw_groups ?w) = [30000000000, 60000000000]"
    by code_simp+
  moreover have "distinct (fw_fields ?w)" "sorted_wrt (<) (map wg_interval (fw_groups ?w))"
    using field_watches_partition [of "[1200, 100, 1200, 7]" 0 "\<lparr>ci_Extended = 0, ci_FieldProfiles = Map.empty\<rparr>"]
    unfolding Let_def by blast+
  ultimately show ?thesis unfolding Let_def by (intro conjI)
qed

text \<open>C6: native field groups are never leaked, whatever calls fail.  Starting from a state in which the
  groups record exactly the live and the watched native groups, \<open>Setup\<close> and \<open>Close\<close> keep that
  correspondence even when they return an error; a \<open>Setup\<close> that succeeds leaves every group created and
  watched; a \<open>Close\<close> that reports no error leaves nothing alive and nothing watched.\<close>

theorem field_watches_never_leak:
  assumes "ledger (fw_groups s) n" "issued lib n" "fresh_handles lib"
  shows "(case Setup lib g s n of (r, s1, n1) \<Rightarrow>
            ledger (fw_groups s1) n1 \<and> issued lib n1 \<and>
            (r = None \<longrightarrow> (\<forall>b. b \<in> set (fw_groups s1) \<longrightarrow> wg_handle b \<in> live n1 \<and> wg_handle b \<in> watched n1))) \<and>
         (case Close lib s n of (errs, s1, n1) \<Rightarrow>
            ledger (fw_groups s1) n1 \<and> issued lib n1 \<and> (errs = [] \<longrightarrow> live n1 = {} \<and> watched n1 = {}))"
proof
  obtain r s1 n1 where se: "Setup lib g s n = (r, s1, n1)" by (metis prod_cases3)
  from Setup_ledger [OF se assms] show "case Setup lib g s n of (r, s1, n1) \<Rightarrow>
            ledger (fw_groups s1) n1 \<and> issued lib n1 \<and>
            (r = None \<longrightarrow> (\<forall>b. b \<in> set (fw_groups s1) \<longrightarrow> wg_handle b \<in> live n1 \<and> wg_handle b \<in> watched n1))"
    by (auto simp: se ledger_def handles_def watching_handles_def)
  obtain errs s2 n2 where cl: "Close lib s n = (errs, s2, n2)" by (metis prod_cases3)
  note c = Close_ledger [OF cl assms(1,2)]
  then have "live n2 = {} \<and> watched n2 = {}" if "errs = []"
    using that by (auto simp: ledger_def handles_def watching_handles_def)
  with c show "case Close lib s n of (errs, s1, n1) \<Rightarrow>
            ledger (fw_groups s1) n1 \<and> issued lib n1 \<and> (errs = [] \<longrightarrow> live n1 = {} \<and> watched n1 = {})"
    by (simp add: cl)
qed

text \<open>A library whose second watch call fails: the first group is rolled back.\<close>

definition flaky_lib :: native_lib where
  "flaky_lib = \<lparr>nl_create = (\<lambda>c. Some (Suc c)), nl_watch = (\<lambda>c. c < 3), nl_unwatch = (\<lambda>_. True), nl_destroy = (\<lambda>_. True)\<rparr>"

theorem field_watches_never_leak_witness:
  "let w = NewFieldWatches [1200, 100] 0 \<lparr>ci_Extended = 0, ci_FieldProfiles = Map.empty\<rparr>;
       n = \<lparr>nv_log = [], nv_calls = 0\<rparr>
   in ledger (fw_groups w) n \<and>
      (case Setup flaky_lib 5 w n of (r, s1, n1) \<Rightarrow> r = Some (WatchFieldsFailed []) \<and> ledger (fw_groups s1) n1 \<and>
         nv_log n1 = [Created 1, Watched 1 5 30000000, Created 3, Unwatched 1 5, Destroyed 1, Destroyed 3])"
proof -
  let ?w = "NewFieldWatches [1200, 100] 0 \<lparr>ci_Extended = 0, ci_FieldProfiles = Map.empty\<rparr>"
  let ?n = "\<lparr>nv_log = [], nv_calls = 0\<rparr>"
  have w: "fw_groups ?w = [\<lparr>wg_interval = 30000000000, wg_fields = [100], wg_handle = 0, wg_watching = False\<rparr>,
      \<lparr>wg_interval = 60000000000, wg_fields = [1200], wg_handle = 0, wg_watching = False\<rparr>]" by code_simp
  have l: "ledger (fw_groups ?w) ?n" "issued flaky_lib ?n" "fresh_handles flaky_lib"
    by (simp_all add: w ledger_def handles_def watching_handles_def live_def watched_def issued_def fresh_handles_def flaky_lib_def)
  have "fst (Setup flaky_lib 5 ?w ?n) = Some (WatchFieldsFailed [])"
    "nv_log (snd (snd (Setup flaky_lib 5 ?w ?n))) =
       [Created 1, Watched 1 5 30000000, Created 3, Unwatched 1 5, Destroyed 1, Destroyed 3]"
    by code_simp+
  with field_watches_never_leak [OF l, of 5] l show ?thesis
    by (cases "Setup flaky_lib 5 ?w ?n") (auto simp: Let_def)
qed

end
