(* ===== verification/Config.thy ===== *)
theory Config
  imports Endpoint Field_Intervals
begin

text \<open>
  \<open>internal/config\<close>: the configuration record and its validation, component selection, the exported
  view of the configuration, the defaults with the state directory they set up, and the environment
  file.  Files and directories are a map from paths to a node with a kind and permission bits, the
  process environment is a map; the system calls that can fail do so as the record \<open>os_env\<close> says.
\<close>

section \<open>Definitions\<close>

subsection \<open>The configuration records\<close>

definition WorkloadSourceHPC :: string where "WorkloadSourceHPC = ''hpc''"
definition HPCGPUIdentifierDCGMIndex :: string where "HPCGPUIdentifierDCGMIndex = ''dcgm_index''"
definition HPCGPUIdentifierUUID :: string where "HPCGPUIdentifierUUID = ''uuid''"

record hpc_workload_config =
  hw_JobMappingDir :: string
  hw_GPUIdentifier :: string

record workload_attribution_config =
  wa_Source :: string
  wa_HPC :: "hpc_workload_config option"

record loop_config =
  lc_Enabled :: bool
  lc_Interval :: duration

record health_exporter_config =
  he_DCGMExtendedInterval :: duration
  he_DCGMFieldProfiles :: string
  he_MetricsEndpoint :: string
  he_LogsEndpoint :: string
  he_AuthToken :: string
  he_Interval :: duration
  he_Timeout :: duration
  he_IncludeMetrics :: bool
  he_IncludeEvents :: bool
  he_IncludeMachineInfo :: bool
  he_IncludeComponentData :: bool
  he_MetricsLookback :: duration
  he_EventsLookback :: duration
  he_HealthCheckInterval :: duration
  he_DCGMHealthCheckInterval :: duration
  he_RetryMaxAttempts :: int
  he_CollectorEndpoint :: string
  he_OfflineMode :: bool
  he_OutputPath :: string
  he_OutputFormat :: string
  he_Duration :: duration

text \<open>The two caches of component names are \<open>None\<close> until first use (a nil map).\<close>

record config =
  c_APIVersion :: string
  c_Address :: string
  c_State :: string
  c_RetentionPeriod :: duration
  c_InfinibandClassRootDir :: string
  c_ExcludedInfinibandDevices :: "string list"
  c_Components :: "string list"
  c_selectedComponents :: "string list option"
  c_disabledComponents :: "string list option"
  c_EnableFaultInjection :: bool
  c_WorkloadAttribution :: "workload_attribution_config option"
  c_Inventory :: "loop_config option"
  c_Attestation :: "loop_config option"
  c_HealthExporter :: "health_exporter_config option"

datatype config_error =
    WorkloadRequiresSource
  | WorkloadSourceUnsupported string
  | WorkloadDirRequired
  | WorkloadDirNotAbsolute
  | WorkloadIdentifierUnsupported string
  | AddressRequired
  | RetentionTooShort duration
  | LoopIntervalRequired string
  | LoopIntervalTooShort string duration duration
  | CollectorNotAbsolute
  | CollectorHasExtras
  | CollectorBareSuffix
  | DCGMExtendedOutOfRange
  | DCGMFieldProfilesInvalid profile_error
  | HealthCheckTooShort duration
  | HealthCheckTooLong duration
  | DCGMHealthTooShort duration
  | DCGMHealthTooLong duration
  | OfflineOutputPathRequired
  | OfflineDurationRequired
  | OfflineOutputFormat string

definition MinInventoryInterval :: duration where "MinInventoryInterval = 5 * time_Minute"
definition MinAttestationInterval :: duration where "MinAttestationInterval = 5 * time_Minute"

subsection \<open>Validation\<close>

definition filepath_IsAbs :: "string \<Rightarrow> bool" where
  "filepath_IsAbs p = HasPrefix p ''/''"

definition DCGMCollectionIntervals :: "health_exporter_config option \<Rightarrow> (config_error, collection_intervals) result" where
  "DCGMCollectionIntervals cfg =
     (let settings = (case cfg of None \<Rightarrow> [] | Some c \<Rightarrow> he_DCGMFieldProfiles c);
          ext = (case cfg of None \<Rightarrow> 0 | Some c \<Rightarrow> he_DCGMExtendedInterval c)
      in if ext \<noteq> 0 \<and> (ext < time_Second \<or> ext > 24 * time_Hour) then Error DCGMExtendedOutOfRange
         else (case ParseFieldProfiles settings of
             Inl e \<Rightarrow> Error (DCGMFieldProfilesInvalid e)
           | Inr m \<Rightarrow> Ok \<lparr>ci_Extended = (if ext \<noteq> 0 then ext else time_Minute), ci_FieldProfiles = m\<rparr>))"

definition WorkloadAttributionConfig_Validate :: "workload_attribution_config option \<Rightarrow> (config_error, unit) result" where
  "WorkloadAttributionConfig_Validate cfg =
     (case cfg of
        None \<Rightarrow> Ok ()
      | Some w \<Rightarrow>
          if wa_Source w = [] then
            (case wa_HPC w of
               None \<Rightarrow> Ok ()
             | Some h \<Rightarrow> if hw_JobMappingDir h \<noteq> [] \<or> hw_GPUIdentifier h \<noteq> [] then Error WorkloadRequiresSource else Ok ())
          else if wa_Source w \<noteq> WorkloadSourceHPC then Error (WorkloadSourceUnsupported (wa_Source w))
          else (case wa_HPC w of
              None \<Rightarrow> Error WorkloadDirRequired
            | Some h \<Rightarrow>
                if hw_JobMappingDir h = [] then Error WorkloadDirRequired
                else if \<not> filepath_IsAbs (hw_JobMappingDir h) then Error WorkloadDirNotAbsolute
                else if hw_GPUIdentifier h \<noteq> [] \<and> hw_GPUIdentifier h \<noteq> HPCGPUIdentifierDCGMIndex \<and>
                        hw_GPUIdentifier h \<noteq> HPCGPUIdentifierUUID
                then Error (WorkloadIdentifierUnsupported (hw_GPUIdentifier h))
                else Ok ()))"

definition HPCGPUIdentifier :: "hpc_workload_config option \<Rightarrow> string" where
  "HPCGPUIdentifier cfg =
     (case cfg of
        None \<Rightarrow> HPCGPUIdentifierDCGMIndex
      | Some h \<Rightarrow> if hw_GPUIdentifier h = [] then HPCGPUIdentifierDCGMIndex else hw_GPUIdentifier h)"

definition loop_GetEnabled :: "loop_config option \<Rightarrow> bool" where
  "loop_GetEnabled c = (case c of None \<Rightarrow> False | Some l \<Rightarrow> lc_Enabled l)"

definition loop_GetInterval :: "loop_config option \<Rightarrow> duration" where
  "loop_GetInterval c = (case c of None \<Rightarrow> 0 | Some l \<Rightarrow> lc_Interval l)"

definition validateLoopConfig :: "string \<Rightarrow> loop_config option \<Rightarrow> duration \<Rightarrow> (config_error, unit) result" where
  "validateLoopConfig name cfg minInterval =
     (if \<not> loop_GetEnabled cfg then Ok ()
      else if loop_GetInterval cfg \<le> 0 then Error (LoopIntervalRequired name)
      else if loop_GetInterval cfg < minInterval
      then Error (LoopIntervalTooShort name minInterval (loop_GetInterval cfg))
      else Ok ())"

definition validateCollectorEndpoint :: "netlib \<Rightarrow> string \<Rightarrow> (config_error, unit) result" where
  "validateCollectorEndpoint L ep =
     (if ep = [] then Ok ()
      else case url_Parse L ep of
        None \<Rightarrow> Error CollectorNotAbsolute
      | Some u \<Rightarrow>
          if (u_scheme u \<noteq> ''http'' \<and> u_scheme u \<noteq> ''https'') \<or> u_host u = [] then Error CollectorNotAbsolute
          else if u_user u \<noteq> None \<or> u_raw_query u \<noteq> [] \<or> u_fragment u \<noteq> [] then Error CollectorHasExtras
          else if u_force_query u \<or> HasSuffix ep ''#'' then Error CollectorBareSuffix
          else Ok ())"

definition validateHealthCheckInterval :: "duration \<Rightarrow> (config_error, unit) result" where
  "validateHealthCheckInterval d =
     (if d \<noteq> 0 then
        (if d < time_Second then Error (HealthCheckTooShort d)
         else if d > 24 * time_Hour then Error (HealthCheckTooLong d) else Ok ())
      else Ok ())"

definition validateDCGMHealthCheckInterval :: "duration \<Rightarrow> (config_error, unit) result" where
  "validateDCGMHealthCheckInterval d =
     (if d \<noteq> 0 then
        (if d < time_Minute then Error (DCGMHealthTooShort d)
         else if d > 24 * time_Hour then Error (DCGMHealthTooLong d) else Ok ())
      else Ok ())"

definition validateOffline :: "health_exporter_config \<Rightarrow> (config_error, unit) result" where
  "validateOffline he =
     (if he_OfflineMode he then
        (if he_OutputPath he = [] then Error OfflineOutputPathRequired
         else if he_Duration he \<le> 0 then Error OfflineDurationRequired
         else if he_OutputFormat he \<noteq> [] \<and> he_OutputFormat he \<noteq> ''json'' \<and> he_OutputFormat he \<noteq> ''csv''
         then Error (OfflineOutputFormat (he_OutputFormat he))
         else Ok ())
      else Ok ())"

text \<open>Sequencing of checks: the first error is returned.\<close>

fun first_error :: "('e, unit) result list \<Rightarrow> ('e, unit) result" where
  "first_error [] = Ok ()"
| "first_error (r # rs) = (case r of Inl e \<Rightarrow> Error e | Inr _ \<Rightarrow> first_error rs)"

definition isOfflineMode :: "config \<Rightarrow> bool" where
  "isOfflineMode c = (case c_HealthExporter c of None \<Rightarrow> False | Some he \<Rightarrow> he_OfflineMode he)"

definition Config_Validate :: "netlib \<Rightarrow> config \<Rightarrow> (config_error, unit) result" where
  "Config_Validate L c = first_error
     ([WorkloadAttributionConfig_Validate (c_WorkloadAttribution c),
       if \<not> isOfflineMode c \<and> c_Address c = [] then Error AddressRequired else Ok (),
       if c_RetentionPeriod c < time_Minute then Error (RetentionTooShort (c_RetentionPeriod c)) else Ok (),
       validateLoopConfig ''inventory'' (c_Inventory c) MinInventoryInterval,
       validateLoopConfig ''attestation'' (c_Attestation c) MinAttestationInterval] @
      (case c_HealthExporter c of
         None \<Rightarrow> []
       | Some he \<Rightarrow>
          [validateCollectorEndpoint L (he_CollectorEndpoint he),
           case DCGMCollectionIntervals (Some he) of Inl e \<Rightarrow> Error e | Inr _ \<Rightarrow> Ok (),
           validateHealthCheckInterval (he_HealthCheckInterval he),
           validateDCGMHealthCheckInterval (he_DCGMHealthCheckInterval he),
           validateOffline he]))"

subsection \<open>Component selection\<close>

definition is_all_marker :: "string \<Rightarrow> bool" where
  "is_all_marker c \<longleftrightarrow> c = ''*'' \<or> c = ''all''"

text \<open>The loop of \<open>ShouldEnable\<close>: the names collected so far, and whether it returned on a marker.\<close>

fun select_loop :: "string list \<Rightarrow> string list \<Rightarrow> bool \<times> string list" where
  "select_loop [] acc = (False, acc)"
| "select_loop (c # cs) acc =
     (if is_all_marker c then (True, acc)
      else if HasPrefix c ''-'' then select_loop cs acc
      else select_loop cs (c # acc))"

definition ShouldEnable :: "string \<Rightarrow> config \<Rightarrow> bool \<times> config" where
  "ShouldEnable componentName cfg =
     (if c_Components cfg = [] \<or> is_all_marker (hd (c_Components cfg)) then (True, cfg)
      else (case c_selectedComponents cfg of
          Some sel \<Rightarrow> (componentName \<in> set sel, cfg)
        | None \<Rightarrow> (case select_loop (c_Components cfg) [] of
              (True, acc) \<Rightarrow> (True, cfg\<lparr>c_selectedComponents := Some acc\<rparr>)
            | (False, acc) \<Rightarrow> (componentName \<in> set acc, cfg\<lparr>c_selectedComponents := Some acc\<rparr>))))"

definition disabled_names :: "string list \<Rightarrow> string list" where
  "disabled_names cs = map (\<lambda>c. TrimPrefix c ''-'') (filter (\<lambda>c. \<not> is_all_marker c \<and> HasPrefix c ''-'') cs)"

definition ShouldDisable :: "string \<Rightarrow> config \<Rightarrow> bool \<times> config" where
  "ShouldDisable componentName cfg =
     (if c_Components cfg = [] then (False, cfg)
      else (case c_disabledComponents cfg of
          Some dis \<Rightarrow> (componentName \<in> set dis, cfg)
        | None \<Rightarrow> let dis = disabled_names (c_Components cfg)
                  in (componentName \<in> set dis, cfg\<lparr>c_disabledComponents := Some dis\<rparr>)))"

definition getComponentLists :: "config \<Rightarrow> string list \<Rightarrow> string list \<times> string list" where
  "getComponentLists cfg allNames =
     (let disabledSet = set (map (\<lambda>c. TrimPrefix c ''-'') (filter (\<lambda>c. HasPrefix c ''-'') (c_Components cfg)));
          allMode = (c_Components cfg = [] \<or> is_all_marker (hd (c_Components cfg)))
      in if allMode then (filter (\<lambda>n. n \<notin> disabledSet) allNames, filter (\<lambda>n. n \<in> disabledSet) allNames)
         else let enabledSet = set (filter (\<lambda>c. \<not> HasPrefix c ''-'' \<and> \<not> is_all_marker c) (c_Components cfg))
              in (filter (\<lambda>n. n \<notin> disabledSet \<and> n \<in> enabledSet) allNames,
                  filter (\<lambda>n. n \<in> disabledSet \<or> n \<notin> enabledSet) allNames))"

subsection \<open>Exported configuration\<close>

text \<open>The kinds of field the reflection loop meets, with the value it prints.\<close>

datatype field_value = FString string | FBool bool | FInt int | FDuration duration

fun show_field :: "field_value \<Rightarrow> string" where
  "show_field (FString s) = s"
| "show_field (FBool b) = (if b then ''true'' else ''false'')"
| "show_field (FInt i) = FormatInt i"
| "show_field (FDuration d) = FormatInt (whole_seconds d)"

text \<open>The fields of \<open>HealthExporterConfig\<close> in declaration order, under the name of their JSON tag.\<close>

definition exporter_fields :: "health_exporter_config \<Rightarrow> (string \<times> field_value) list" where
  "exporter_fields he =
    [(''dcgm_extended_interval'', FDuration (he_DCGMExtendedInterval he)),
     (''dcgm_field_profiles'', FString (he_DCGMFieldProfiles he)),
     (''metrics_endpoint'', FString (he_MetricsEndpoint he)),
     (''logs_endpoint'', FString (he_LogsEndpoint he)),
     (''auth_token'', FString (he_AuthToken he)),
     (''interval'', FDuration (he_Interval he)),
     (''timeout'', FDuration (he_Timeout he)),
     (''include_metrics'', FBool (he_IncludeMetrics he)),
     (''include_events'', FBool (he_IncludeEvents he)),
     (''include_machine_info'', FBool (he_IncludeMachineInfo he)),
     (''include_component_data'', FBool (he_IncludeComponentData he)),
     (''metrics_lookback'', FDuration (he_MetricsLookback he)),
     (''events_lookback'', FDuration (he_EventsLookback he)),
     (''health_check_interval'', FDuration (he_HealthCheckInterval he)),
     (''dcgm_health_check_interval'', FDuration (he_DCGMHealthCheckInterval he)),
     (''retry_max_attempts'', FInt (he_RetryMaxAttempts he)),
     (''collector_endpoint'', FString (he_CollectorEndpoint he)),
     (''offline_mode'', FBool (he_OfflineMode he)),
     (''output_path'', FString (he_OutputPath he)),
     (''output_format'', FString (he_OutputFormat he)),
     (''duration'', FDuration (he_Duration he))]"

definition sensitive_keys :: "string list" where
  "sensitive_keys = [''auth_token'', ''metrics_endpoint'', ''logs_endpoint'', ''collector_endpoint'']"

definition extractHealthExporterEntries :: "health_exporter_config \<Rightarrow> (string \<times> string) list" where
  "extractHealthExporterEntries he =
     map (\<lambda>(k, v). (''health_exporter.'' @ k, show_field v))
       (filter (\<lambda>(k, v). k \<notin> set sensitive_keys) (exporter_fields he))"

definition ToConfigEntries :: "(string list \<Rightarrow> string) \<Rightarrow> config \<Rightarrow> string list \<Rightarrow> (string \<times> string) list" where
  "ToConfigEntries json_Marshal cfg allNames =
     (let (enabled, disabled) = getComponentLists cfg allNames in
      [(''api_version'', c_APIVersion cfg), (''address'', c_Address cfg), (''state'', c_State cfg),
       (''retention_period'', FormatInt (whole_seconds (c_RetentionPeriod cfg))),
       (''enabled_components'', json_Marshal enabled), (''disabled_components'', json_Marshal disabled)] @
      (case c_HealthExporter cfg of None \<Rightarrow> [] | Some he \<Rightarrow> extractHealthExporterEntries he))"

definition InventoryAgentConfig :: "config option \<Rightarrow> string list \<Rightarrow> int \<times> string list \<times> string list" where
  "InventoryAgentConfig cfg allNames =
     (case cfg of
        None \<Rightarrow> (0, [], [])
      | Some c \<Rightarrow> (case getComponentLists c allNames of (en, dis) \<Rightarrow> (whole_seconds (c_RetentionPeriod c), en, dis)))"

definition InventoryLoopAgentConfig :: "config option \<Rightarrow> bool \<times> int" where
  "InventoryLoopAgentConfig cfg =
     (case cfg of
        None \<Rightarrow> (False, 0)
      | Some c \<Rightarrow> (case c_Inventory c of None \<Rightarrow> (False, 0) | Some l \<Rightarrow> (lc_Enabled l, whole_seconds (lc_Interval l))))"

definition AttestationLoopAgentConfig :: "config option \<Rightarrow> bool \<times> int" where
  "AttestationLoopAgentConfig cfg =
     (case cfg of
        None \<Rightarrow> (False, 0)
      | Some c \<Rightarrow> (case c_Attestation c of None \<Rightarrow> (False, 0) | Some l \<Rightarrow> (lc_Enabled l, whole_seconds (lc_Interval l))))"

definition HealthCheckInterval :: "config option \<Rightarrow> duration" where
  "HealthCheckInterval cfg =
     (case cfg of
        None \<Rightarrow> 30 * time_Second
      | Some c \<Rightarrow> (case c_HealthExporter c of
            None \<Rightarrow> 30 * time_Second
          | Some he \<Rightarrow> if he_HealthCheckInterval he \<le> 0 then 30 * time_Second else he_HealthCheckInterval he))"

definition DCGMHealthCheckInterval :: "config option \<Rightarrow> duration" where
  "DCGMHealthCheckInterval cfg =
     (case cfg of
        None \<Rightarrow> time_Minute
      | Some c \<Rightarrow> (case c_HealthExporter c of
            None \<Rightarrow> time_Minute
          | Some he \<Rightarrow> if he_DCGMHealthCheckInterval he \<le> 0 then time_Minute else he_DCGMHealthCheckInterval he))"

definition MetricScrapeIntervalSeconds :: "config option \<Rightarrow> int" where
  "MetricScrapeIntervalSeconds cfg = whole_seconds (HealthCheckInterval cfg)"

subsection \<open>Paths\<close>

text \<open>\<open>filepath.Clean\<close> and \<open>filepath.Join\<close> on Unix.\<close>

fun clean_parts :: "bool \<Rightarrow> string list \<Rightarrow> string list \<Rightarrow> string list" where
  "clean_parts rooted out [] = rev out"
| "clean_parts rooted out (p # ps) =
     (if p = [] \<or> p = ''.'' then clean_parts rooted out ps
      else if p = ''..'' then
        (case out of
           [] \<Rightarrow> clean_parts rooted (if rooted then [] else [p]) ps
         | q # qs \<Rightarrow> if q = ''..'' then clean_parts rooted (p # out) ps else clean_parts rooted qs ps)
      else clean_parts rooted (p # out) ps)"

definition filepath_Clean :: "string \<Rightarrow> string" where
  "filepath_Clean p =
     (let rooted = HasPrefix p ''/'';
          body = Join (clean_parts rooted [] (Split p CHR ''/'')) ''/''
      in if rooted then CHR ''/'' # body else if body = [] then ''.'' else body)"

definition filepath_Join :: "string \<Rightarrow> string \<Rightarrow> string" where
  "filepath_Join a b =
     (if a = [] \<and> b = [] then []
      else if a = [] then filepath_Clean b
      else if b = [] then filepath_Clean a
      else filepath_Clean (a @ ''/'' @ b))"

subsection \<open>State directory and file permissions\<close>

record fnode =
  fn_dir :: bool
  fn_mode :: nat

type_synonym files = "string \<rightharpoonup> fnode"

record os_env =
  oe_root :: bool
  oe_home :: "(string, string) result"
  oe_stat_err :: "string \<Rightarrow> string option"
  oe_mkdir_err :: "string \<Rightarrow> string option"
  oe_chmod_err :: "string \<Rightarrow> string option"

datatype fs_error = OsError string | IsDirectory string

datatype stat_result = StatMissing | StatError string | StatNode fnode

definition osStat :: "os_env \<Rightarrow> files \<Rightarrow> string \<Rightarrow> stat_result" where
  "osStat W fs p =
     (case oe_stat_err W p of
        Some e \<Rightarrow> StatError e
      | None \<Rightarrow> (case fs p of None \<Rightarrow> StatMissing | Some nd \<Rightarrow> StatNode nd))"

definition osChmod :: "os_env \<Rightarrow> string \<Rightarrow> nat \<Rightarrow> files \<Rightarrow> (fs_error, unit) result \<times> files" where
  "osChmod W p mode fs =
     (case oe_chmod_err W p of
        Some e \<Rightarrow> (Error (OsError e), fs)
      | None \<Rightarrow> (case fs p of
            None \<Rightarrow> (Error (OsError ''no such file or directory''), fs)
          | Some nd \<Rightarrow> (Ok (), fs(p \<mapsto> nd\<lparr>fn_mode := mode\<rparr>))))"

text \<open>\<open>os.MkdirAll\<close> of the directory itself; the umask may clear bits of the mode, none here.\<close>

definition osMkdirAll :: "os_env \<Rightarrow> string \<Rightarrow> nat \<Rightarrow> files \<Rightarrow> (fs_error, unit) result \<times> files" where
  "osMkdirAll W p mode fs =
     (case oe_mkdir_err W p of
        Some e \<Rightarrow> (Error (OsError e), fs)
      | None \<Rightarrow> (Ok (), fs(p \<mapsto> \<lparr>fn_dir = True, fn_mode = mode\<rparr>)))"

definition defaultVarLibDir :: string where "defaultVarLibDir = ''/var/lib/fleetint''"
definition defaultStateDirMode :: nat where "defaultStateDirMode = 448"
definition defaultStateFileMode :: nat where "defaultStateFileMode = 384"

definition defaultDir :: "os_env \<Rightarrow> files \<Rightarrow> (fs_error, string) result" where
  "defaultDir W fs =
     (if \<not> oe_root W \<or> osStat W fs ''/var/lib'' = StatMissing then
        (case oe_home W of Inl e \<Rightarrow> Error (OsError e) | Inr home \<Rightarrow> Ok (filepath_Join home ''.fleetint''))
      else Ok defaultVarLibDir)"

definition setupDefaultDir :: "os_env \<Rightarrow> files \<Rightarrow> (fs_error, string) result \<times> files" where
  "setupDefaultDir W fs =
     (case defaultDir W fs of
        Inl e \<Rightarrow> (Error e, fs)
      | Inr d \<Rightarrow>
          (case (if osStat W fs d = StatMissing then osMkdirAll W d defaultStateDirMode fs else (Ok (), fs)) of
             (Inl e, fs1) \<Rightarrow> (Error e, fs1)
           | (Inr _, fs1) \<Rightarrow> (case osChmod W d defaultStateDirMode fs1 of
                 (Inl e, fs2) \<Rightarrow> (Error e, fs2)
               | (Inr _, fs2) \<Rightarrow> (Ok d, fs2))))"

definition DefaultStateFile :: "os_env \<Rightarrow> files \<Rightarrow> (fs_error, string) result \<times> files" where
  "DefaultStateFile W fs =
     (case setupDefaultDir W fs of
        (Inl e, fs1) \<Rightarrow> (Error e, fs1)
      | (Inr d, fs1) \<Rightarrow> (Ok (filepath_Join d ''fleetint.state''), fs1))"

fun secure_files :: "os_env \<Rightarrow> string list \<Rightarrow> files \<Rightarrow> (fs_error, unit) result \<times> files" where
  "secure_files W [] fs = (Ok (), fs)"
| "secure_files W (p # ps) fs =
     (case osStat W fs p of
        StatMissing \<Rightarrow> secure_files W ps fs
      | StatError e \<Rightarrow> (Error (OsError e), fs)
      | StatNode nd \<Rightarrow>
          if fn_dir nd then (Error (IsDirectory p), fs)
          else (case osChmod W p defaultStateFileMode fs of
              (Inl e, fs1) \<Rightarrow> (Error e, fs1)
            | (Inr _, fs1) \<Rightarrow> secure_files W ps fs1))"

definition SecureStateFilePermissions :: "os_env \<Rightarrow> string \<Rightarrow> files \<Rightarrow> (fs_error, unit) result \<times> files" where
  "SecureStateFilePermissions W path fs =
     (if path = [] \<or> path = '':memory:'' then (Ok (), fs)
      else secure_files W [path, path @ ''-wal'', path @ ''-shm''] fs)"

subsection \<open>Defaults\<close>

definition DefaultUnixSocketPath :: string where "DefaultUnixSocketPath = ''/run/fleetint/fleetint.sock''"
definition DefaultListenAddress :: string where "DefaultListenAddress = DefaultUnixSocketPath"

definition DefaultRootDir :: string where "DefaultRootDir = ''/sys/class/infiniband''"

text \<open>The options are the root directories they set, in order; the last one wins.\<close>

definition ApplyOpts :: "string list \<Rightarrow> string" where
  "ApplyOpts opts = (let d = fold (\<lambda>p _. p) opts [] in if d = [] then DefaultRootDir else d)"

definition default_exporter :: health_exporter_config where
  "default_exporter = \<lparr>he_DCGMExtendedInterval = time_Minute, he_DCGMFieldProfiles = [],
     he_MetricsEndpoint = [], he_LogsEndpoint = [], he_AuthToken = [],
     he_Interval = time_Minute, he_Timeout = 30 * time_Second,
     he_IncludeMetrics = True, he_IncludeEvents = True, he_IncludeMachineInfo = True, he_IncludeComponentData = True,
     he_MetricsLookback = time_Minute, he_EventsLookback = time_Minute,
     he_HealthCheckInterval = 30 * time_Second, he_DCGMHealthCheckInterval = time_Minute,
     he_RetryMaxAttempts = 3, he_CollectorEndpoint = [], he_OfflineMode = False, he_OutputPath = [],
     he_OutputFormat = ''json'', he_Duration = 0\<rparr>"

definition Default :: "os_env \<Rightarrow> string list \<Rightarrow> files \<Rightarrow> (fs_error, config) result \<times> files" where
  "Default W opts fs =
     (case DefaultStateFile W fs of
        (Inl e, fs1) \<Rightarrow> (Error e, fs1)
      | (Inr state, fs1) \<Rightarrow>
          (Ok \<lparr>c_APIVersion = ''v1'', c_Address = DefaultListenAddress, c_State = state,
             c_RetentionPeriod = 24 * time_Hour, c_InfinibandClassRootDir = ApplyOpts opts,
             c_ExcludedInfinibandDevices = [], c_Components = [], c_selectedComponents = None,
             c_disabledComponents = None, c_EnableFaultInjection = False, c_WorkloadAttribution = None,
             c_Inventory = Some \<lparr>lc_Enabled = True, lc_Interval = time_Hour\<rparr>,
             c_Attestation = Some \<lparr>lc_Enabled = True, lc_Interval = 24 * time_Hour\<rparr>,
             c_HealthExporter = Some default_exporter\<rparr>, fs1))"

subsection \<open>Environment file\<close>

datatype env_error =
    OpenEnvFile string
  | EnvLineExpectedKeyValue nat
  | EnvLineKeyEmpty nat
  | SetEnvInvalid string
  | ReadEnvFile

definition unquote :: "string \<Rightarrow> string" where
  "unquote v =
     (if length v \<ge> 2 \<and> (hd v = CHR 0x22 \<or> hd v = CHR 0x27) \<and> last v = hd v then butlast (tl v) else v)"

text \<open>\<open>Some (key, value)\<close> is the code's \<open>ok = true\<close>; the error carries the line number of the caller.\<close>

definition parseEnvFileLine :: "nat \<Rightarrow> string \<Rightarrow> (env_error, (string \<times> string) option) result" where
  "parseEnvFileLine nr raw =
     (let line = TrimSpace raw in
      if line = [] \<or> HasPrefix line ''#'' then Ok None
      else case Cut (TrimPrefix line ''export '') CHR ''='' of
        (before, after, found) \<Rightarrow>
          if \<not> found then Error (EnvLineExpectedKeyValue nr)
          else if TrimSpace before = [] then Error (EnvLineKeyEmpty nr)
          else Ok (Some (TrimSpace before, unquote (TrimSpace after))))"

text \<open>\<open>bufio.ScanLines\<close>: lines without their newline and one trailing carriage return; a line longer than
  the scanner's 64 KiB buffer stops the scan with an error.\<close>

definition drop_cr :: "string \<Rightarrow> string" where
  "drop_cr s = (if s \<noteq> [] \<and> last s = CHR 0x0D then butlast s else s)"

definition scan_lines :: "string \<Rightarrow> string list" where
  "scan_lines text =
     (let ls = Split text CHR 0x0A in if last ls = [] then butlast ls else ls)"

definition maxTokenSize :: nat where "maxTokenSize = 65536"

definition Setenv :: "string \<Rightarrow> string \<Rightarrow> (string \<rightharpoonup> string) \<Rightarrow> (string \<rightharpoonup> string) option" where
  "Setenv key v env =
     (if key = [] \<or> CHR ''='' \<in> set key \<or> CHR 0x00 \<in> set key \<or> CHR 0x00 \<in> set v then None
      else Some (env(key \<mapsto> v)))"

fun load_lines :: "nat \<Rightarrow> string list \<Rightarrow> (string \<rightharpoonup> string) \<Rightarrow> (env_error, unit) result \<times> (string \<rightharpoonup> string)" where
  "load_lines nr [] env = (Ok (), env)"
| "load_lines nr (l # ls) env =
     (if length l \<ge> maxTokenSize then (Error ReadEnvFile, env)
      else case parseEnvFileLine (Suc nr) (drop_cr l) of
        Inl e \<Rightarrow> (Error e, env)
      | Inr None \<Rightarrow> load_lines (Suc nr) ls env
      | Inr (Some (key, v)) \<Rightarrow>
          if env key \<noteq> None then load_lines (Suc nr) ls env
          else (case Setenv key v env of
              None \<Rightarrow> (Error (SetEnvInvalid key), env)
            | Some env' \<Rightarrow> load_lines (Suc nr) ls env'))"

datatype file_open = FileMissing | FileOpenError string | FileContent string

definition LoadEnvFileDefaults :: "file_open \<Rightarrow> (string \<rightharpoonup> string) \<Rightarrow> (env_error, unit) result \<times> (string \<rightharpoonup> string)" where
  "LoadEnvFileDefaults f env =
     (case f of
        FileMissing \<Rightarrow> (Ok (), env)
      | FileOpenError e \<Rightarrow> (Error (OpenEnvFile e), env)
      | FileContent text \<Rightarrow> load_lines 0 (scan_lines text) env)"

section \<open>Lemmas\<close>

lemma first_error_Ok: "first_error rs = Inr () \<longleftrightarrow> (\<forall>r \<in> set rs. r = Inr ())"
  by (induction rs) (auto split: sum.splits)

text \<open>The declarative reading of a valid configuration.\<close>

definition workload_ok :: "workload_attribution_config option \<Rightarrow> bool" where
  "workload_ok cfg \<longleftrightarrow> (case cfg of None \<Rightarrow> True | Some w \<Rightarrow>
     (wa_Source w = [] \<and> (case wa_HPC w of None \<Rightarrow> True | Some h \<Rightarrow> hw_JobMappingDir h = [] \<and> hw_GPUIdentifier h = [])) \<or>
     (wa_Source w = ''hpc'' \<and> (case wa_HPC w of None \<Rightarrow> False | Some h \<Rightarrow>
        HasPrefix (hw_JobMappingDir h) ''/'' \<and> hw_GPUIdentifier h \<in> {[], ''dcgm_index'', ''uuid''})))"

definition loop_ok :: "duration \<Rightarrow> loop_config option \<Rightarrow> bool" where
  "loop_ok minInterval c \<longleftrightarrow> (case c of None \<Rightarrow> True | Some l \<Rightarrow> lc_Enabled l \<longrightarrow> minInterval \<le> lc_Interval l)"

definition within :: "duration \<Rightarrow> duration \<Rightarrow> bool" where
  "within lo d \<longleftrightarrow> d = 0 \<or> (lo \<le> d \<and> d \<le> 24 * time_Hour)"

definition collector_ok :: "netlib \<Rightarrow> string \<Rightarrow> bool" where
  "collector_ok L ep \<longleftrightarrow> ep = [] \<or> (\<exists>u. url_Parse L ep = Some u \<and> u_scheme u \<in> {''http'', ''https''} \<and>
     bare_url u \<and> \<not> u_force_query u \<and> \<not> HasSuffix ep ''#'')"

definition exporter_ok :: "netlib \<Rightarrow> health_exporter_config \<Rightarrow> bool" where
  "exporter_ok L he \<longleftrightarrow> collector_ok L (he_CollectorEndpoint he) \<and>
     within time_Second (he_DCGMExtendedInterval he) \<and> is_ok (ParseFieldProfiles (he_DCGMFieldProfiles he)) \<and>
     within time_Second (he_HealthCheckInterval he) \<and> within time_Minute (he_DCGMHealthCheckInterval he) \<and>
     (he_OfflineMode he \<longrightarrow> he_OutputPath he \<noteq> [] \<and> 0 < he_Duration he \<and> he_OutputFormat he \<in> {[], ''json'', ''csv''})"

definition config_ok :: "netlib \<Rightarrow> config \<Rightarrow> bool" where
  "config_ok L c \<longleftrightarrow> workload_ok (c_WorkloadAttribution c) \<and> (isOfflineMode c \<or> c_Address c \<noteq> []) \<and>
     time_Minute \<le> c_RetentionPeriod c \<and> loop_ok (5 * time_Minute) (c_Inventory c) \<and> loop_ok (5 * time_Minute) (c_Attestation c) \<and>
     (case c_HealthExporter c of None \<Rightarrow> True | Some he \<Rightarrow> exporter_ok L he)"

lemma workload_Validate_iff: "WorkloadAttributionConfig_Validate cfg = Inr () \<longleftrightarrow> workload_ok cfg"
proof -
  have "HasPrefix d ''/'' \<Longrightarrow> d \<noteq> []" for d by (auto simp: HasPrefix_def)
  then show ?thesis
    by (auto simp: WorkloadAttributionConfig_Validate_def workload_ok_def filepath_IsAbs_def WorkloadSourceHPC_def
          HPCGPUIdentifierDCGMIndex_def HPCGPUIdentifierUUID_def split: option.splits)
qed

lemma loop_Validate_iff: "0 < m \<Longrightarrow> validateLoopConfig nm cfg m = Inr () \<longleftrightarrow> loop_ok m cfg"
  by (auto simp: validateLoopConfig_def loop_ok_def loop_GetEnabled_def loop_GetInterval_def split: option.splits)

lemma collector_Validate_iff: "validateCollectorEndpoint L ep = Inr () \<longleftrightarrow> collector_ok L ep"
  by (auto simp: validateCollectorEndpoint_def collector_ok_def bare_url_def split: option.splits)

lemma interval_Validate_iff:
  "validateHealthCheckInterval d = Inr () \<longleftrightarrow> within time_Second d"
  "validateDCGMHealthCheckInterval d = Inr () \<longleftrightarrow> within time_Minute d"
  by (auto simp: validateHealthCheckInterval_def validateDCGMHealthCheckInterval_def within_def)

lemma DCGM_Validate_iff:
  "(case DCGMCollectionIntervals (Some he) of Inl e \<Rightarrow> Inl e | Inr _ \<Rightarrow> Inr ()) = Inr () \<longleftrightarrow>
     within time_Second (he_DCGMExtendedInterval he) \<and> is_ok (ParseFieldProfiles (he_DCGMFieldProfiles he))"
  by (auto simp: DCGMCollectionIntervals_def within_def Let_def is_ok_iff split: sum.splits)

lemma offline_Validate_iff:
  "validateOffline he = Inr () \<longleftrightarrow>
     (he_OfflineMode he \<longrightarrow> he_OutputPath he \<noteq> [] \<and> 0 < he_Duration he \<and> he_OutputFormat he \<in> {[], ''json'', ''csv''})"
  by (auto simp: validateOffline_def)

lemmas Validate_iffs = workload_Validate_iff loop_Validate_iff collector_Validate_iff interval_Validate_iff
  DCGM_Validate_iff offline_Validate_iff

lemma Config_Validate_iff: "Config_Validate L c = Inr () \<longleftrightarrow> config_ok L c"
proof -
  have pos: "0 < MinInventoryInterval" "0 < MinAttestationInterval"
    by (simp_all add: MinInventoryInterval_def MinAttestationInterval_def duration_defs)
  show ?thesis
  proof (cases "c_HealthExporter c")
    case None
    then show ?thesis
      unfolding Config_Validate_def first_error_Ok config_ok_def
      by (simp add: Validate_iffs pos) (auto simp: MinInventoryInterval_def MinAttestationInterval_def)
  next
    case (Some he)
    then show ?thesis
      unfolding Config_Validate_def first_error_Ok config_ok_def exporter_ok_def
      by (simp add: Validate_iffs pos) (auto simp: MinInventoryInterval_def MinAttestationInterval_def)
  qed
qed

lemma select_loop_eq:
  "select_loop cs acc =
     (if list_ex is_all_marker cs
      then (True, rev (filter (\<lambda>c. \<not> HasPrefix c ''-'') (takeWhile (\<lambda>c. \<not> is_all_marker c) cs)) @ acc)
      else (False, rev (filter (\<lambda>c. \<not> HasPrefix c ''-'') cs) @ acc))"
  by (induction cs arbitrary: acc) auto

lemma marker_not_dash: "is_all_marker c \<Longrightarrow> \<not> HasPrefix c ''-''"
  by (auto simp: is_all_marker_def HasPrefix_def)

lemma disabled_names_eq: "disabled_names cs = map (\<lambda>c. TrimPrefix c ''-'') (filter (\<lambda>c. HasPrefix c ''-'') cs)"
proof -
  have "filter (\<lambda>c. \<not> is_all_marker c \<and> HasPrefix c ''-'') cs = filter (\<lambda>c. HasPrefix c ''-'') cs"
    by (rule filter_cong) (auto dest: marker_not_dash)
  then show ?thesis by (simp add: disabled_names_def)
qed

text \<open>The caches hold what their loops compute from the component list.\<close>

definition caches_ok :: "config \<Rightarrow> bool" where
  "caches_ok c \<longleftrightarrow>
     (\<forall>sel. c_selectedComponents c = Some sel \<longrightarrow> set sel = set (snd (select_loop (c_Components c) []))) \<and>
     (\<forall>dis. c_disabledComponents c = Some dis \<longrightarrow> set dis = set (disabled_names (c_Components c)))"

lemma ShouldEnable_frame:
  "ShouldEnable n c = (b, c') \<Longrightarrow> caches_ok c \<Longrightarrow>
     caches_ok c' \<and> c_Components c' = c_Components c \<and> c_disabledComponents c' = c_disabledComponents c"
  by (auto simp: ShouldEnable_def caches_ok_def split: if_splits option.splits prod.splits bool.splits)

lemma ShouldDisable_eq:
  assumes "ShouldDisable n c = (b, c')" "caches_ok c"
  shows "b \<longleftrightarrow> n \<in> set (disabled_names (c_Components c))" "caches_ok c'"
    "c_Components c' = c_Components c" "c_selectedComponents c' = c_selectedComponents c"
  using assms
  by (auto simp: ShouldDisable_def caches_ok_def Let_def disabled_names_def split: if_splits option.splits)

definition component_on :: "config \<Rightarrow> string \<Rightarrow> bool" where
  "component_on c n \<longleftrightarrow> n \<notin> set (disabled_names (c_Components c)) \<and>
     (c_Components c = [] \<or> is_all_marker (hd (c_Components c)) \<or>
      (n \<in> set (c_Components c) \<and> \<not> HasPrefix n ''-'' \<and> \<not> is_all_marker n))"

lemma getComponentLists_eq:
  "getComponentLists c names = (filter (component_on c) names, filter (\<lambda>n. \<not> component_on c n) names)"
  by (auto simp: getComponentLists_def Let_def component_on_def disabled_names_eq intro!: filter_cong)

lemma ShouldEnable_eq:
  assumes "caches_ok c" "ShouldEnable n c = (e, c1)" "list_ex is_all_marker (tl (c_Components c)) = False"
  shows "e \<longleftrightarrow> c_Components c = [] \<or> is_all_marker (hd (c_Components c)) \<or>
     (n \<in> set (c_Components c) \<and> \<not> HasPrefix n ''-'')"
proof (cases "c_Components c = [] \<or> is_all_marker (hd (c_Components c))")
  case True
  with assms(2) show ?thesis by (auto simp: ShouldEnable_def)
next
  case False
  then have "list_ex is_all_marker (c_Components c) = False" using assms(3) by (cases "c_Components c") auto
  then have "select_loop (c_Components c) [] = (False, rev (filter (\<lambda>c. \<not> HasPrefix c ''-'') (c_Components c)))"
    by (simp add: select_loop_eq)
  with False assms(1,2) show ?thesis
    by (auto simp: ShouldEnable_def caches_ok_def split: option.splits)
qed

text \<open>The definitions of an environment file, in line order.\<close>

definition line_defs :: "string list \<Rightarrow> (string \<times> string) list" where
  "line_defs ls = List.map_filter (\<lambda>l. case parseEnvFileLine 0 (drop_cr l) of Inr r \<Rightarrow> r | Inl _ \<Rightarrow> None) ls"

lemma parse_line_nr: "parseEnvFileLine nr l = Inr r \<longleftrightarrow> parseEnvFileLine 0 l = Inr r"
  by (auto simp: parseEnvFileLine_def Let_def split: prod.splits if_splits)

lemma line_defs_Cons:
  "parseEnvFileLine nr (drop_cr l) = Inr r \<Longrightarrow>
     line_defs (l # ls) = (case r of None \<Rightarrow> line_defs ls | Some kv \<Rightarrow> kv # line_defs ls)"
  using parse_line_nr [of nr "drop_cr l" r]
  by (auto simp: line_defs_def List.map_filter_def split: option.splits)

lemma Setenv_Some: "Setenv k v env = Some env' \<Longrightarrow> env' = env(k \<mapsto> v)"
  by (auto simp: Setenv_def split: if_splits)

lemma load_lines_keeps: "load_lines nr ls env = (r, env') \<Longrightarrow> env k = Some v \<Longrightarrow> env' k = Some v"
proof (induction ls arbitrary: nr env)
  case (Cons l ls)
  have ih: "env' k = Some v" if "load_lines (Suc nr) ls (env(x \<mapsto> y)) = (r, env')" "env x = None" for x y
    by (rule Cons.IH [OF that(1)]) (use that Cons.prems in auto)
  from Cons.prems show ?case
    by (auto split: if_splits sum.splits option.splits prod.splits dest!: Setenv_Some intro: Cons.IH dest: ih)
qed simp

lemma load_lines_Ok:
  "load_lines nr ls env = (Inr u, env') \<Longrightarrow>
     env' = (\<lambda>k. case env k of Some v \<Rightarrow> Some v | None \<Rightarrow> map_of (line_defs ls) k)"
proof (induction ls arbitrary: nr env)
  case Nil
  then show ?case by (auto simp: line_defs_def List.map_filter_def fun_eq_iff split: option.split)
next
  case (Cons l ls)
  from Cons.prems obtain r where len: "\<not> length l \<ge> maxTokenSize" and r: "parseEnvFileLine (Suc nr) (drop_cr l) = Inr r"
    by (auto split: if_splits sum.splits)
  note ld = line_defs_Cons [OF r]
  show ?case
  proof (cases "r = None \<or> (\<exists>k v. r = Some (k, v) \<and> env k \<noteq> None)")
    case True
    then have "load_lines (Suc nr) ls env = (Inr u, env')" using Cons.prems len r by auto
    from Cons.IH [OF this] True show ?thesis by (auto simp: ld fun_eq_iff split: option.split)
  next
    case False
    then obtain k v where kv: "r = Some (k, v)" "env k = None" by auto
    then obtain env2 where e2: "Setenv k v env = Some env2" "load_lines (Suc nr) ls env2 = (Inr u, env')"
      using Cons.prems len r by (auto split: option.splits)
    from Cons.IH [OF e2(2)] Setenv_Some [OF e2(1)] kv show ?thesis
      by (auto simp: ld fun_eq_iff split: option.split)
  qed
qed

text \<open>No byte below 0x7F except the six ASCII spaces starts or ends a space rune.\<close>

lemma lead_word_app:
  assumes "lead_word ws s = None" "\<forall>w \<in> set ws. c \<notin> set w"
  shows "lead_word ws (s @ c # t) = None"
proof -
  have "prefix w s" if "w \<in> set ws" "prefix w (s @ c # t)" for w
  proof (rule ccontr)
    assume n: "\<not> prefix w s"
    from that(2) n obtain us where us: "w = s @ us" "prefix us (c # t)" by (auto simp: prefix_append)
    with n have "us \<noteq> []" by auto
    with us that assms(2) show False by (cases us) auto
  qed
  with assms(1) show ?thesis by (auto simp: lead_word_None_iff)
qed

lemma lead_word_hd:
  assumes "\<forall>w \<in> set ws. c \<notin> set w"
  shows "lead_word ws (c # t) = None"
  using lead_word_app [of ws "[]" c t] assms by (auto simp: lead_word_None_iff)

lemma space_free: "\<forall>w \<in> set space_runes. c \<notin> set w" "\<forall>w \<in> set (map rev space_runes). c \<notin> set w"
  if "c \<in> {CHR ''='', CHR 0x22, CHR 0x27, CHR ''#''}"
  using that by (auto simp: space_runes_def)

lemma trimmed_quoted:
  assumes "trimmed key" "q \<in> {CHR 0x22, CHR 0x27}"
  shows "trimmed (key @ CHR ''='' # q # v @ [q])" "trimmed (q # v @ [q])"
  using assms(1) lead_word_app [of space_runes key "CHR ''=''"] lead_word_hd [of _ q] space_free [of "CHR ''=''"]
    space_free [of q] assms(2)
  by (auto simp: trimmed_def)

lemma parse_quoted_line:
  assumes "trimmed key" "key \<noteq> []" "CHR ''='' \<notin> set key" "\<not> HasPrefix key ''#''" "\<not> HasPrefix key ''export ''"
    "q \<in> {CHR 0x22, CHR 0x27}"
  shows "parseEnvFileLine nr (key @ CHR ''='' # q # v @ [q]) = Inr (Some (key, v))"
proof -
  let ?l = "key @ CHR ''='' # q # v @ [q]"
  have t: "TrimSpace ?l = ?l" "TrimSpace (q # v @ [q]) = q # v @ [q]" "TrimSpace key = key"
    using trimmed_quoted [OF assms(1,6), of v] assms(1) by (simp_all add: TrimSpace_trimmed)
  have h: "\<not> HasPrefix ?l ''#''" using assms(2,4) by (cases key) (auto simp: HasPrefix_def)
  have e: "TrimPrefix ?l ''export '' = ?l"
    using assms(3,5) by (auto simp: TrimPrefix_def HasPrefix_def prefix_append append_eq_Cons_conv Cons_eq_append_conv)
  have c: "Cut ?l CHR ''='' = (key, q # v @ [q], True)" using assms(3) by (rule Cut_append)
  have u: "unquote (q # v @ [q]) = v" using assms(6) by (auto simp: unquote_def)
  show ?thesis
    unfolding parseEnvFileLine_def Let_def t e c prod.case using h assms(2) by (simp add: t u)
qed

text \<open>Tightening of file modes.\<close>

definition secured :: "files \<Rightarrow> files \<Rightarrow> string \<Rightarrow> bool" where
  "secured fs fs1 p \<longleftrightarrow> (case fs p of
      None \<Rightarrow> fs1 p = None
    | Some nd \<Rightarrow> \<not> fn_dir nd \<and> fs1 p = Some (nd\<lparr>fn_mode := defaultStateFileMode\<rparr>))"

lemma secure_files_Ok:
  assumes "secure_files W ps fs = (Inr u, fs1)" "distinct ps"
  shows "(\<forall>p. p \<in> set ps \<longrightarrow> secured fs fs1 p) \<and> (\<forall>p. p \<notin> set ps \<longrightarrow> fs1 p = fs p)"
  using assms
proof (induction W ps fs rule: secure_files.induct)
  case (2 W p ps fs)
  show ?case
  proof (cases "osStat W fs p")
    case StatMissing
    then have "fs p = None" by (auto simp: osStat_def split: option.splits)
    with 2 StatMissing show ?thesis by (auto simp: secured_def)
  next
    case (StatNode nd)
    then have nd: "fs p = Some nd" by (auto simp: osStat_def split: option.splits)
    from "2.prems" StatNode nd obtain r where c: "\<not> fn_dir nd"
      "osChmod W p defaultStateFileMode fs = (Inr r, fs(p \<mapsto> nd\<lparr>fn_mode := defaultStateFileMode\<rparr>))"
      "secure_files W ps (fs(p \<mapsto> nd\<lparr>fn_mode := defaultStateFileMode\<rparr>)) = (Inr u, fs1)"
      by (auto simp: osChmod_def split: if_splits option.splits)
    from "2.IH"(2) [OF StatNode c(1) c(2) [symmetric] refl c(3)] "2.prems"(2) nd c(1) show ?thesis
      by (auto simp: secured_def split: option.splits if_splits)
  qed (use 2 in simp)
qed simp

section \<open>Properties\<close>

text \<open>\<open>Config.Validate\<close> accepts a configuration exactly when it is valid: workload attribution
  is off or names an absolute HPC mapping directory with a known GPU identifier; a server that is not
  offline has an address; data is retained for at least a minute; enabled inventory and attestation
  loops run at most every five minutes; the collector endpoint is a bare absolute HTTP(S) URL without a
  dangling \<open>?\<close> or \<open>#\<close>; the three check intervals are zero or within their documented ranges; the DCGM
  field profiles parse; and offline mode has an output path, a positive duration and a known format.\<close>

theorem config_validate_iff_valid:
  "Config_Validate L c = Ok () \<longleftrightarrow> config_ok L c"
  by (rule Config_Validate_iff)

text \<open>The default configuration is valid, does not enable fault injection and keeps its state in a
  directory that exists with mode 0700; the state directory is the only path whose mode changes.\<close>

theorem default_config_valid:
  assumes "Default W opts fs = (Ok c, fs1)"
  shows "Config_Validate L c = Ok () \<and> \<not> c_EnableFaultInjection c \<and>
         (\<exists>d. defaultDir W fs = Ok d \<and> c_State c = filepath_Join d ''fleetint.state'' \<and>
            (\<exists>nd. fs1 d = Some nd \<and> fn_mode nd = defaultStateDirMode) \<and> (\<forall>p. p \<noteq> d \<longrightarrow> fs1 p = fs p))"
proof -
  from assms obtain st where st: "DefaultStateFile W fs = (Ok st, fs1)" and
    c: "c_HealthExporter c = Some default_exporter" "c_WorkloadAttribution c = None" "c_Address c = DefaultListenAddress"
      "c_RetentionPeriod c = 24 * time_Hour" "c_Inventory c = Some \<lparr>lc_Enabled = True, lc_Interval = time_Hour\<rparr>"
      "c_Attestation c = Some \<lparr>lc_Enabled = True, lc_Interval = 24 * time_Hour\<rparr>" "\<not> c_EnableFaultInjection c"
      "c_State c = st"
    by (auto simp: Default_def split: prod.splits sum.splits)
  from st obtain d where d: "setupDefaultDir W fs = (Ok d, fs1)" "st = filepath_Join d ''fleetint.state''"
    by (auto simp: DefaultStateFile_def split: prod.splits sum.splits)
  have dir: "defaultDir W fs = Ok d" "\<exists>nd. fs1 d = Some nd \<and> fn_mode nd = defaultStateDirMode" "\<forall>p. p \<noteq> d \<longrightarrow> fs1 p = fs p"
    using d(1)
    by (auto simp: setupDefaultDir_def osMkdirAll_def osChmod_def split: prod.splits sum.splits option.splits if_splits)
  have prof: "is_ok (ParseFieldProfiles [])" by code_simp
  have "config_ok L c"
    by (simp add: config_ok_def c workload_ok_def loop_ok_def exporter_ok_def default_exporter_def collector_ok_def
        within_def prof isOfflineMode_def DefaultListenAddress_def DefaultUnixSocketPath_def)
      (simp add: duration_defs)
  then show ?thesis using c d dir by (simp add: Config_Validate_iff)
qed

definition root_env :: os_env where
  "root_env = \<lparr>oe_root = True, oe_home = Ok ''/root'', oe_stat_err = (\<lambda>_. None), oe_mkdir_err = (\<lambda>_. None),
     oe_chmod_err = (\<lambda>_. None)\<rparr>"

theorem default_config_valid_witness:
  "\<exists>c fs1. Default root_env [] [''/var/lib'' \<mapsto> \<lparr>fn_dir = True, fn_mode = 493\<rparr>] = (Ok c, fs1) \<and>
     Config_Validate plain_netlib c = Ok () \<and> c_State c = ''/var/lib/fleetint/fleetint.state''"
proof -
  let ?fs = "[''/var/lib'' \<mapsto> \<lparr>fn_dir = True, fn_mode = 493\<rparr>]"
  have dir: "defaultDir root_env ?fs = Ok ''/var/lib/fleetint''"
    by (simp add: defaultDir_def root_env_def osStat_def defaultVarLibDir_def)
  then obtain fs1 where "setupDefaultDir root_env ?fs = (Ok ''/var/lib/fleetint'', fs1)"
    by (simp add: setupDefaultDir_def root_env_def osStat_def osMkdirAll_def osChmod_def)
  then obtain c where c: "Default root_env [] ?fs = (Ok c, fs1)"
    by (simp add: Default_def DefaultStateFile_def)
  have j: "filepath_Join ''/var/lib/fleetint'' ''fleetint.state'' = ''/var/lib/fleetint/fleetint.state''"
    by code_simp
  from c default_config_valid [OF c, of plain_netlib] dir j show ?thesis
    by (intro exI [of _ c] exI [of _ fs1]) auto
qed

text \<open>The exported component lists partition the registered components, in their order, and agree
  with what the server does: when every all-marker stands first in the list, a component is exported as
  enabled exactly when \<open>ShouldEnable\<close> says yes and \<open>ShouldDisable\<close> says no, in whatever state the two
  caches are.\<close>

theorem component_lists_agree:
  assumes "caches_ok c" "list_ex is_all_marker (tl (c_Components c)) = False"
    "getComponentLists c names = (en, dis)"
    "ShouldEnable n c = (e, c1)" "ShouldDisable n c1 = (d, c2)" "n \<in> set names"
  shows "mset en + mset dis = mset names \<and> set en \<inter> set dis = {} \<and>
         (n \<in> set en \<longleftrightarrow> e \<and> \<not> d) \<and> caches_ok c2"
proof -
  have d: "d \<longleftrightarrow> n \<in> set (disabled_names (c_Components c))" "caches_ok c2"
    using ShouldEnable_frame [OF assms(4,1)] ShouldDisable_eq [OF assms(5)] by auto
  have mk: "is_all_marker n \<Longrightarrow> n \<in> set (c_Components c) \<Longrightarrow> is_all_marker (hd (c_Components c))"
    using assms(2) by (cases "c_Components c") (auto simp: list_ex_iff)
  from assms(3) have "en = filter (component_on c) names" "dis = filter (\<lambda>n. \<not> component_on c n) names"
    by (simp_all add: getComponentLists_eq)
  moreover have "component_on c n \<longleftrightarrow> e \<and> \<not> d"
    using mk by (auto simp: component_on_def d ShouldEnable_eq [OF assms(1,4,2)])
  ultimately show ?thesis using d(2) assms(6) by (auto simp flip: multiset_partition)
qed

definition sample_config :: "string list \<Rightarrow> config" where
  "sample_config comps = \<lparr>c_APIVersion = ''v1'', c_Address = ''/run/s'', c_State = [],
     c_RetentionPeriod = time_Hour, c_InfinibandClassRootDir = [],
     c_ExcludedInfinibandDevices = [], c_Components = comps, c_selectedComponents = None,
     c_disabledComponents = None, c_EnableFaultInjection = False, c_WorkloadAttribution = None,
     c_Inventory = None, c_Attestation = None, c_HealthExporter = None\<rparr>"

theorem component_lists_agree_witness:
  "getComponentLists (sample_config [''*'', ''-disk'']) [''cpu'', ''disk''] = ([''cpu''], [''disk'']) \<and>
   fst (ShouldEnable ''disk'' (sample_config [''*'', ''-disk''])) \<and>
   fst (ShouldDisable ''disk'' (sample_config [''*'', ''-disk''])) \<and>
   mset [''cpu''] + mset [''disk''] = mset [''cpu'', ''disk'']"
proof -
  let ?c = "sample_config [''*'', ''-disk'']"
  have l: "getComponentLists ?c [''cpu'', ''disk''] = ([''cpu''], [''disk''])" by code_simp
  have e: "ShouldEnable ''disk'' ?c = (True, ?c)" by (simp add: ShouldEnable_def sample_config_def is_all_marker_def)
  have d: "ShouldDisable ''disk'' ?c = (True, ?c\<lparr>c_disabledComponents := Some [''disk'']\<rparr>)"
    by (simp add: ShouldDisable_def sample_config_def is_all_marker_def disabled_names_def HasPrefix_def TrimPrefix_def)
  have "caches_ok ?c" "list_ex is_all_marker (tl (c_Components ?c)) = False"
    by (simp_all add: caches_ok_def sample_config_def is_all_marker_def)
  from component_lists_agree [OF this l e d] l e d show ?thesis by simp
qed

text \<open>C40: an all-marker that is not first in the component list is honoured once only.  The first
  call of \<open>ShouldEnable\<close> meets the marker and answers yes for every component, but it leaves the cache
  with the names before the marker, so from the second call on a component not named before the marker
  is refused; the exported lists count it as disabled from the start.\<close>

theorem late_marker_enables_once:
  assumes "c_Components c = pre @ mk # post" "is_all_marker mk" "pre \<noteq> []" "\<not> list_ex is_all_marker pre"
    "c_selectedComponents c = None" "n \<notin> set pre" "n \<notin> set post" "ShouldEnable n c = (b, c1)" "\<not> is_all_marker n"
  shows "b \<and> \<not> fst (ShouldEnable n c1) \<and> n \<notin> set (fst (getComponentLists c names))"
proof -
  have tw: "takeWhile (\<lambda>c. \<not> is_all_marker c) (pre @ mk # post) = pre"
    using assms(2,4) by (subst takeWhile_append2) (auto simp: list_ex_iff)
  have hd: "\<not> is_all_marker (hd (c_Components c))" "c_Components c \<noteq> []"
    using assms(1,3,4) by (auto simp: list_ex_iff)
  have "select_loop (c_Components c) [] = (True, rev (filter (\<lambda>c. \<not> HasPrefix c ''-'') pre))"
    using assms(2) by (simp add: assms(1) select_loop_eq tw)
  then have "b" "c1 = c\<lparr>c_selectedComponents := Some (rev (filter (\<lambda>c. \<not> HasPrefix c ''-'') pre))\<rparr>"
    using assms(5,8) hd by (auto simp: ShouldEnable_def)
  moreover have "\<not> component_on c n"
    using assms(1,2,6,7,9) hd by (auto simp: component_on_def)
  ultimately show ?thesis
    using assms(6) hd by (auto simp: ShouldEnable_def getComponentLists_eq)
qed

theorem late_marker_enables_once_witness:
  "\<exists>c1. ShouldEnable ''disk'' (sample_config [''cpu'', ''*'']) = (True, c1) \<and> \<not> fst (ShouldEnable ''disk'' c1)"
proof -
  obtain b c1 where s: "ShouldEnable ''disk'' (sample_config [''cpu'', ''*'']) = (b, c1)" by fastforce
  have "c_Components (sample_config [''cpu'', ''*'']) = [''cpu''] @ ''*'' # []"
    "c_selectedComponents (sample_config [''cpu'', ''*'']) = None"
    by (simp_all add: sample_config_def)
  from late_marker_enables_once [OF this(1) _ _ _ this(2) _ _ s] s show ?thesis
    by (simp add: is_all_marker_def)
qed

text \<open>The environment file only supplies defaults.  Whatever \<open>LoadEnvFileDefaults\<close> returns, every
  variable that was set keeps its value; when it succeeds, an unset variable gets the value of its first
  definition in the file and every other variable stays unset.\<close>

theorem env_file_supplies_defaults:
  assumes "LoadEnvFileDefaults f env = (r, env')"
  shows "(\<forall>k v. env k = Some v \<longrightarrow> env' k = Some v) \<and>
         (\<forall>text. f = FileContent text \<and> r = Ok () \<longrightarrow>
            env' = (\<lambda>k. case env k of Some v \<Rightarrow> Some v | None \<Rightarrow> map_of (line_defs (scan_lines text)) k))"
  using assms load_lines_keeps load_lines_Ok [of 0 _ env]
  by (auto simp: LoadEnvFileDefaults_def split: file_open.splits)

theorem env_file_supplies_defaults_witness:
  "\<exists>env'. LoadEnvFileDefaults (FileContent (''# fleetint'' @ [CHR 0x0A] @ ''export A=1'' @ [CHR 0x0A] @ ''B=\"x y\"'' @ [CHR 0x0A]))
        [''A'' \<mapsto> ''0''] = (Ok (), env') \<and> env' ''A'' = Some ''0'' \<and> env' ''B'' = Some ''x y''"
proof -
  let ?f = "FileContent (''# fleetint'' @ [CHR 0x0A] @ ''export A=1'' @ [CHR 0x0A] @ ''B=\"x y\"'' @ [CHR 0x0A])"
  have "is_ok (fst (LoadEnvFileDefaults ?f [''A'' \<mapsto> ''0'']))"
    "snd (LoadEnvFileDefaults ?f [''A'' \<mapsto> ''0'']) ''B'' = Some ''x y''"
    by code_simp+
  then obtain env' where e: "LoadEnvFileDefaults ?f [''A'' \<mapsto> ''0''] = (Ok (), env')" "env' ''B'' = Some ''x y''"
    by (cases "LoadEnvFileDefaults ?f [''A'' \<mapsto> ''0'']") (auto simp: is_ok_iff)
  with env_file_supplies_defaults [OF e(1)] show ?thesis by auto
qed

text \<open>Quoting protects a value.  A line that assigns a value in single or double quotes parses to
  exactly that key and value, whatever bytes the value holds (spaces, \<open>=\<close>, \<open>#\<close>, further quotes), for every
  key that is trimmed, is not a comment, has no \<open>=\<close> and does not begin with \<open>export\<close> and a space.\<close>

theorem env_line_quoted_roundtrip:
  assumes "trimmed key" "key \<noteq> []" "CHR ''='' \<notin> set key" "\<not> HasPrefix key ''#''" "\<not> HasPrefix key ''export ''"
    "q \<in> {CHR 0x22, CHR 0x27}"
  shows "parseEnvFileLine nr (key @ ''='' @ [q] @ v @ [q]) = Ok (Some (key, v))"
  using parse_quoted_line [OF assms] by simp

theorem env_line_quoted_roundtrip_witness:
  "parseEnvFileLine 7 (''TOKEN'' @ ''='' @ [CHR 0x27] @ '' a=b #c '' @ [CHR 0x27]) = Ok (Some (''TOKEN'', '' a=b #c ''))"
proof (rule env_line_quoted_roundtrip)
  show "trimmed ''TOKEN''" by code_simp
qed (simp_all add: HasPrefix_def)

text \<open>Securing the state file leaves the database and its two SQLite sidecars, as far as they exist,
  as regular files readable and writable by the owner only, and touches no other path; an in-memory or
  empty path is left alone.\<close>

theorem state_files_secured:
  assumes "SecureStateFilePermissions W path fs = (Ok (), fs1)"
  shows "if path = [] \<or> path = '':memory:'' then fs1 = fs
         else (\<forall>p. p \<in> {path, path @ ''-wal'', path @ ''-shm''} \<longrightarrow> secured fs fs1 p) \<and>
              (\<forall>p. p \<notin> {path, path @ ''-wal'', path @ ''-shm''} \<longrightarrow> fs1 p = fs p)"
  using assms secure_files_Ok [of W "[path, path @ ''-wal'', path @ ''-shm'']" fs "()" fs1]
  by (auto simp: SecureStateFilePermissions_def split: if_splits)

theorem state_files_secured_witness:
  "\<exists>fs1. SecureStateFilePermissions root_env ''/s'' [''/s'' \<mapsto> \<lparr>fn_dir = False, fn_mode = 420\<rparr>] = (Ok (), fs1) \<and>
     secured [''/s'' \<mapsto> \<lparr>fn_dir = False, fn_mode = 420\<rparr>] fs1 ''/s''"
proof -
  let ?fs = "[''/s'' \<mapsto> \<lparr>fn_dir = False, fn_mode = 420\<rparr>]"
  obtain fs1 where f: "SecureStateFilePermissions root_env ''/s'' ?fs = (Ok (), fs1)"
    by (simp add: SecureStateFilePermissions_def root_env_def osStat_def osChmod_def)
  from state_files_secured [OF f] f show ?thesis by auto
qed

text \<open>The exported configuration reveals no credential and no enrollment-assigned endpoint: it has no
  entry for them, and two configurations that differ only in the token and in the metrics, logs and
  collector endpoints export the same entries.\<close>

theorem config_export_hides_secrets:
  "(\<forall>he. c_HealthExporter c = Some he \<longrightarrow>
      ToConfigEntries J (c\<lparr>c_HealthExporter := Some (he\<lparr>he_AuthToken := tok, he_MetricsEndpoint := m, he_LogsEndpoint := l,
         he_CollectorEndpoint := ce\<rparr>)\<rparr>) names = ToConfigEntries J c names) \<and>
   (\<forall>k. k \<in> set (map fst (ToConfigEntries J c names)) \<longrightarrow>
      k \<notin> (\<lambda>s. ''health_exporter.'' @ s) ` set sensitive_keys)"
proof (intro conjI allI impI)
  fix he
  assume h: "c_HealthExporter c = Some he"
  have "extractHealthExporterEntries (he\<lparr>he_AuthToken := tok, he_MetricsEndpoint := m, he_LogsEndpoint := l,
      he_CollectorEndpoint := ce\<rparr>) = extractHealthExporterEntries he"
    by (simp add: extractHealthExporterEntries_def exporter_fields_def sensitive_keys_def)
  moreover have "component_on (c\<lparr>c_HealthExporter := x\<rparr>) = component_on c" for x
    by (rule ext) (simp add: component_on_def)
  ultimately show "ToConfigEntries J (c\<lparr>c_HealthExporter := Some (he\<lparr>he_AuthToken := tok, he_MetricsEndpoint := m,
      he_LogsEndpoint := l, he_CollectorEndpoint := ce\<rparr>)\<rparr>) names = ToConfigEntries J c names"
    using h by (simp add: ToConfigEntries_def getComponentLists_eq)
next
  fix k
  assume "k \<in> set (map fst (ToConfigEntries J c names))"
  then have "k \<in> {''api_version'', ''address'', ''state'', ''retention_period'', ''enabled_components'', ''disabled_components''} \<or>
      (\<exists>s. k = ''health_exporter.'' @ s \<and> s \<notin> set sensitive_keys)"
    by (auto simp: ToConfigEntries_def extractHealthExporterEntries_def split: option.splits prod.splits)
  then show "k \<notin> (\<lambda>s. ''health_exporter.'' @ s) ` set sensitive_keys" by auto
qed

theorem config_export_hides_secrets_witness:
  "ToConfigEntries (\<lambda>_. []) ((sample_config [])\<lparr>c_HealthExporter := Some (default_exporter\<lparr>he_AuthToken := ''secret''\<rparr>)\<rparr>) [] =
   ToConfigEntries (\<lambda>_. []) ((sample_config [])\<lparr>c_HealthExporter := Some default_exporter\<rparr>) []"
  using config_export_hides_secrets [where c = "(sample_config [])\<lparr>c_HealthExporter := Some default_exporter\<rparr>"
      and J = "\<lambda>_. []" and tok = "''secret''" and m = "[]" and l = "[]" and ce = "[]" and names = "[]"]
  by (simp add: default_exporter_def)

end
