(* ===== verification/Backend_Client.thy ===== *)
theory Backend_Client
  imports Endpoint
begin

text \<open>
  \<open>internal/backendclient\<close>: the HTTP client of the enrollment, inventory and attestation workflows.
  The network is the field \<open>hc_roundtrip\<close> of the client, the JSON codec is the record \<open>codec\<close>; both are
  arguments.  Every operation returns its result together with the list of requests it sent, so that
  what is never sent can be stated.
\<close>

section \<open>Definitions\<close>

subsection \<open>Wire types\<close>

record agent_config =
  ac_TotalComponents :: int
  ac_RetentionPeriodSeconds :: int
  ac_MetricScrapeIntervalSeconds :: int
  ac_EnabledComponents :: "string list"
  ac_DisabledComponents :: "string list"
  ac_InventoryEnabled :: bool
  ac_InventoryIntervalSeconds :: int
  ac_AttestationEnabled :: bool
  ac_AttestationIntervalSeconds :: int

record cpu_info =
  cpu_Type :: string
  cpu_Manufacturer :: string
  cpu_Architecture :: string
  cpu_LogicalCores :: string

record memory_info =
  mem_TotalBytes :: string

record gpu_device =
  gd_UUID :: string
  gd_BusID :: string
  gd_ClusterUUID :: string
  gd_CliqueID :: "32 word option"
  gd_SN :: string
  gd_MinorID :: string
  gd_BoardID :: int
  gd_VBIOSVersion :: string
  gd_ChassisSN :: string
  gd_GPUIndex :: string

record gpu_info =
  gpu_Product :: string
  gpu_Manufacturer :: string
  gpu_Architecture :: string
  gpu_Memory :: string
  gpu_GPUs :: "gpu_device list"

record block_device =
  bd_Name :: string
  bd_Type :: string
  bd_Size :: int
  bd_WWN :: string
  bd_MountPoint :: string
  bd_FSType :: string
  bd_PartUUID :: string
  bd_Parents :: "string list"

record disk_info =
  di_ContainerRootDisk :: string
  di_BlockDevices :: "block_device list"

record nic_interface =
  ni_Interface :: string
  ni_MAC :: string
  ni_IP :: string

record nic_info =
  nic_PrivateIPInterfaces :: "nic_interface list"

record node_resources =
  nr_CPUInfo :: cpu_info
  nr_MemoryInfo :: memory_info
  nr_GPUInfo :: gpu_info
  nr_DiskInfo :: disk_info
  nr_NICInfo :: nic_info

record node_upsert_request =
  nu_Hostname :: string
  nu_AgentConfig :: agent_config
  nu_Resources :: node_resources
  nu_AgentVersion :: string
  nu_GPUDriverVersion :: string
  nu_CUDAVersion :: string
  nu_DCGMVersion :: string
  nu_ContainerRuntimeVersion :: string
  nu_KernelVersion :: string
  nu_OSImage :: string
  nu_OperatingSystem :: string
  nu_SystemUUID :: string
  nu_BootID :: string
  nu_Uptime :: "gotime option"
  nu_EnrolledAt :: "gotime option"
  nu_NetPrivateIP :: string
  nu_NodeGroup :: string
  nu_ComputeZone :: string
  nu_MachineID :: string

record node_upsert_response =
  nur_ComputeZone :: string
  nur_NodeGroup :: string

record nonce_response =
  no_Nonce :: string
  no_JWTAssertion :: string
  no_NonceRefreshTimestamp :: gotime

record evidence_item =
  ev_Arch :: string
  ev_Certificate :: string
  ev_DriverVersion :: string
  ev_Evidence :: string
  ev_Nonce :: string
  ev_VBIOSVersion :: string
  ev_Version :: string

record attestation_sdk_response =
  sr_Evidences :: "evidence_item list"
  sr_ResultCode :: int
  sr_ResultMessage :: string

record attestation_data =
  ad_SDKResponse :: attestation_sdk_response
  ad_NonceRefreshTimestamp :: gotime
  ad_Success :: bool
  ad_ErrorMessage :: string

record attestation_request =
  ar_AttestationData :: attestation_data

subsection \<open>HTTP\<close>

record http_request =
  rq_method :: string
  rq_url :: string
  rq_user_agent :: string
  rq_content_type :: "string option"
  rq_authorization :: "string option"
  rq_body :: "string option"

text \<open>A response body is \<open>None\<close> when reading it fails.\<close>

datatype http_outcome =
    RoundTripError string
  | RedirectTo int string
  | HTTPResponse int "string option"

text \<open>
  \<open>hc_check_redirect\<close> is the redirect policy (\<open>None\<close>: the nil policy of package \<open>http\<close>); a policy that
  returns no error lets the client follow, and \<open>hc_follow\<close> is what following yields.
\<close>

record http_client =
  hc_timeout :: duration
  hc_check_redirect :: "(string \<Rightarrow> string option) option"
  hc_roundtrip :: "http_request \<Rightarrow> http_outcome"
  hc_follow :: "http_request \<Rightarrow> string \<Rightarrow> http_outcome"

definition http_Do :: "http_client \<Rightarrow> http_request \<Rightarrow> http_outcome" where
  "http_Do hc rq =
     (case hc_roundtrip hc rq of
        RedirectTo status loc \<Rightarrow>
          (case hc_check_redirect hc of
             None \<Rightarrow> hc_follow hc rq loc
           | Some policy \<Rightarrow> (case policy loc of Some e \<Rightarrow> RoundTripError e | None \<Rightarrow> hc_follow hc rq loc))
      | r \<Rightarrow> r)"

definition userAgent :: string where "userAgent = ''fleet-intelligence-agent''"
definition maxResponseBodyBytes :: nat where "maxResponseBodyBytes = 2 ^ 20"
definition errRedirectNotAllowed :: string where "errRedirectNotAllowed = ''backend redirects are not allowed''"

datatype client_error =
    NilBaseURL
  | ConstructURL
  | MarshalBody
  | CreateRequest
  | BackendRequest string
  | ReadResponse
  | ResponseTooLarge
  | HTTPStatusError int string
  | ParseResponse
  | InvalidBaseURL endpoint_error
  | SakTokenEmpty
  | MissingJWTAssertion
  | AgentUUIDArgEmpty
  | JWTArgEmpty
  | RequestNil
  | MissingNodeGroup
  | MissingComputeZone
  | MissingNonce
  | EnrollTokenFormat
  | EnrollTokenIncorrect
  | EnrollTokenExpired
  | EnrollEndpointNotFound
  | EnrollRetryLater
  | EnrollTemporary
  | EnrollUnavailable
  | EnrollSlow

record client =
  cl_http :: http_client
  cl_baseURL :: "url option"

definition NewWithHTTPClient :: "url option \<Rightarrow> http_client option \<Rightarrow> http_client \<Rightarrow> client" where
  "NewWithHTTPClient baseURL hc fresh =
     (let h = (case hc of None \<Rightarrow> fresh\<lparr>hc_timeout := 30 * time_Second, hc_check_redirect := None\<rparr> | Some x \<Rightarrow> x);
          h1 = (if hc_check_redirect h = None
                then h\<lparr>hc_check_redirect := Some (\<lambda>_. Some errRedirectNotAllowed)\<rparr> else h)
      in \<lparr>cl_http = h1, cl_baseURL = baseURL\<rparr>)"

definition New :: "netlib \<Rightarrow> http_client \<Rightarrow> string \<Rightarrow> (client_error, client) result" where
  "New L fresh raw =
     (case ValidateBackendEndpoint L raw of
        Inl e \<Rightarrow> Error (InvalidBaseURL e)
      | Inr u \<Rightarrow> Ok (NewWithHTTPClient (Some u)
          (Some (fresh\<lparr>hc_timeout := 30 * time_Second, hc_check_redirect := None\<rparr>)) fresh))"

text \<open>
  The response half of \<open>doJSON\<close>.  The response target is \<open>None\<close> for nil and otherwise the decoder with
  the target's zero value, which is what the caller sees for an empty response.
\<close>

definition handle_response :: "((string \<Rightarrow> 'b option) \<times> 'b) option \<Rightarrow> http_outcome \<Rightarrow> (client_error, 'b option) result" where
  "handle_response respBody outcome =
     (case outcome of
        RoundTripError e \<Rightarrow> Error (BackendRequest e)
      | RedirectTo status loc \<Rightarrow> Error (HTTPStatusError status [])
      | HTTPResponse status None \<Rightarrow> Error ReadResponse
      | HTTPResponse status (Some full) \<Rightarrow>
          let data = take (maxResponseBodyBytes + 1) full in
          if length data > maxResponseBodyBytes then Error ResponseTooLarge
          else if status < 200 \<or> status \<ge> 300 then Error (HTTPStatusError status (TrimSpace data))
          else (case respBody of
              None \<Rightarrow> Ok None
            | Some (dec, zero) \<Rightarrow>
                if TrimSpace data = [] then Ok (Some zero)
                else (case dec data of None \<Rightarrow> Error ParseResponse | Some x \<Rightarrow> Ok (Some x))))"

text \<open>The request body is \<open>None\<close> for a nil body and otherwise the result of marshalling it.\<close>

definition build_request :: "string \<Rightarrow> string \<Rightarrow> string \<Rightarrow> string option option \<Rightarrow> http_request" where
  "build_request method requestURL token reqBody =
     \<lparr>rq_method = method, rq_url = requestURL, rq_user_agent = userAgent,
      rq_content_type = (if reqBody \<noteq> None then Some ''application/json'' else None),
      rq_authorization = (if token \<noteq> [] then Some (''Bearer '' @ token) else None),
      rq_body = (case reqBody of None \<Rightarrow> None | Some p \<Rightarrow> p)\<rparr>"

definition doJSON :: "netlib \<Rightarrow> client \<Rightarrow> string \<Rightarrow> string list \<Rightarrow> string \<Rightarrow> string option option
    \<Rightarrow> ((string \<Rightarrow> 'b option) \<times> 'b) option \<Rightarrow> (client_error, 'b option) result \<times> http_request list" where
  "doJSON L c method path token reqBody respBody =
     (case cl_baseURL c of
        None \<Rightarrow> (Error NilBaseURL, [])
      | Some base \<Rightarrow> (case JoinPath L base path of
          None \<Rightarrow> (Error ConstructURL, [])
        | Some requestURL \<Rightarrow>
            if reqBody = Some None then (Error MarshalBody, [])
            else if url_Parse L requestURL = None then (Error CreateRequest, [])
            else let rq = build_request method requestURL token reqBody
                 in (handle_response respBody (http_Do (cl_http c) rq), [rq])))"

definition mapEnrollError :: "client_error \<Rightarrow> client_error" where
  "mapEnrollError err =
     (case err of
        HTTPStatusError status body \<Rightarrow>
          if status = 400 then EnrollTokenFormat
          else if status = 401 then EnrollTokenIncorrect
          else if status = 403 then EnrollTokenExpired
          else if status = 404 then EnrollEndpointNotFound
          else if status = 429 then EnrollRetryLater
          else if status = 502 then EnrollTemporary
          else if status = 503 then EnrollUnavailable
          else if status = 504 then EnrollSlow
          else err
      | _ \<Rightarrow> err)"

record codec =
  enc_node :: "node_upsert_request \<Rightarrow> string option"
  enc_attestation :: "attestation_request \<Rightarrow> string option"
  dec_enroll :: "string \<Rightarrow> string option"
  dec_upsert :: "string \<Rightarrow> (string option \<times> string option) option"
  dec_nonce :: "string \<Rightarrow> nonce_response option"

definition zero_nonce :: nonce_response where
  "zero_nonce = \<lparr>no_Nonce = [], no_JWTAssertion = [], no_NonceRefreshTimestamp = zero_time\<rparr>"

definition Enroll :: "netlib \<Rightarrow> codec \<Rightarrow> client \<Rightarrow> string \<Rightarrow> (client_error, string) result \<times> http_request list" where
  "Enroll L K c sakToken =
     (if sakToken = [] then (Error SakTokenEmpty, [])
      else case doJSON L c ''POST'' [''v1'', ''agent'', ''enroll''] sakToken None (Some (dec_enroll K, [])) of
        (Inl e, rqs) \<Rightarrow> (Error (mapEnrollError e), rqs)
      | (Inr r, rqs) \<Rightarrow>
          (let jwt = (case r of None \<Rightarrow> [] | Some j \<Rightarrow> j)
           in if jwt = [] then (Error MissingJWTAssertion, rqs) else (Ok jwt, rqs)))"

definition UpsertNode :: "netlib \<Rightarrow> codec \<Rightarrow> client \<Rightarrow> string \<Rightarrow> node_upsert_request option \<Rightarrow> string
    \<Rightarrow> (client_error, node_upsert_response) result \<times> http_request list" where
  "UpsertNode L K c agentUUID req jwt =
     (if agentUUID = [] then (Error AgentUUIDArgEmpty, [])
      else if jwt = [] then (Error JWTArgEmpty, [])
      else case req of
        None \<Rightarrow> (Error RequestNil, [])
      | Some r \<Rightarrow>
          (case doJSON L c ''PUT'' [''v1'', ''agent'', ''nodes'', agentUUID] jwt (Some (enc_node K r))
                  (Some (dec_upsert K, (None, None))) of
             (Inl e, rqs) \<Rightarrow> (Error e, rqs)
           | (Inr w, rqs) \<Rightarrow>
               (let (zone, group) = (case w of None \<Rightarrow> (None, None) | Some p \<Rightarrow> p)
                in case group of
                     None \<Rightarrow> (Error MissingNodeGroup, rqs)
                   | Some g \<Rightarrow> (case zone of
                         None \<Rightarrow> (Error MissingComputeZone, rqs)
                       | Some z \<Rightarrow> (Ok \<lparr>nur_ComputeZone = z, nur_NodeGroup = g\<rparr>, rqs)))))"

definition GetNonce :: "netlib \<Rightarrow> codec \<Rightarrow> client \<Rightarrow> string \<Rightarrow> string
    \<Rightarrow> (client_error, nonce_response) result \<times> http_request list" where
  "GetNonce L K c agentUUID jwt =
     (if agentUUID = [] then (Error AgentUUIDArgEmpty, [])
      else if jwt = [] then (Error JWTArgEmpty, [])
      else case doJSON L c ''POST'' [''v1'', ''agent'', ''nodes'', agentUUID, ''nonce''] jwt None (Some (dec_nonce K, zero_nonce)) of
        (Inl e, rqs) \<Rightarrow> (Error e, rqs)
      | (Inr r, rqs) \<Rightarrow>
          (let n = (case r of None \<Rightarrow> zero_nonce | Some x \<Rightarrow> x)
           in if no_Nonce n = [] then (Error MissingNonce, rqs) else (Ok n, rqs)))"

definition SubmitAttestation :: "netlib \<Rightarrow> codec \<Rightarrow> client \<Rightarrow> string \<Rightarrow> attestation_request option \<Rightarrow> string
    \<Rightarrow> (client_error, unit) result \<times> http_request list" where
  "SubmitAttestation L K c agentUUID req jwt =
     (if agentUUID = [] then (Error AgentUUIDArgEmpty, [])
      else if jwt = [] then (Error JWTArgEmpty, [])
      else case req of
        None \<Rightarrow> (Error RequestNil, [])
      | Some r \<Rightarrow>
          (case doJSON L c ''POST'' [''v1'', ''agent'', ''nodes'', agentUUID, ''attestation''] jwt
                  (Some (enc_attestation K r)) (None :: ((string \<Rightarrow> unit option) \<times> unit) option) of
             (Inl e, rqs) \<Rightarrow> (Error e, rqs)
           | (Inr _, rqs) \<Rightarrow> (Ok (), rqs)))"

subsection \<open>Error text\<close>

definition sanitizeErrorBody :: "string \<Rightarrow> string" where
  "sanitizeErrorBody raw =
     (let b0 = TrimSpace raw in
      if b0 = [] then []
      else let b1 = ReplaceAllChar b0 CHR 0x0A '' '';
               b2 = ReplaceAllChar b1 CHR 0x0D '' '';
               b3 = Join (Fields b2) '' ''
           in if length b3 \<le> 200 then b3 else take 200 b3 @ ''...(truncated)'')"

definition HTTPStatusError_Error :: "int \<Rightarrow> string \<Rightarrow> string" where
  "HTTPStatusError_Error status raw =
     (let body = sanitizeErrorBody raw in
      if body \<noteq> [] then ''backend request failed with status '' @ FormatInt status @ '': '' @ body
      else ''backend request failed with status '' @ FormatInt status)"

section \<open>Lemmas\<close>

lemma fields_from_set: "c \<in> set p \<Longrightarrow> p \<in> set (fields_from acc s) \<Longrightarrow> c \<in> set acc \<union> set s"
proof (induction acc s rule: fields_from.induct)
  case (1 acc s)
  show ?case
  proof (cases "lead_word space_runes s")
    case (Some w)
    have "p = rev acc \<or> p \<in> set (fields_from [] (drop (length w) s))"
      using "1.prems"(2) Some by (auto simp: fields_from.simps [of acc s] split: if_splits)
    with "1.IH"(2) [OF Some "1.prems"(1)] "1.prems"(1) show ?thesis by (auto dest: in_set_dropD)
  next
    case None
    show ?thesis
    proof (cases s)
      case Nil
      with "1.prems" None show ?thesis by (auto simp: fields_from.simps [of acc "[]"] split: if_splits)
    next
      case (Cons x xs)
      with "1.IH"(1) [OF None Cons "1.prems"(1)] "1.prems"(2) None show ?thesis
        by (auto simp: fields_from.simps [of acc "x # xs"])
    qed
  qed
qed

lemma Join_set: "c \<in> set (Join ps sep) \<Longrightarrow> c \<in> set sep \<or> (\<exists>p \<in> set ps. c \<in> set p)"
  by (induction ps sep rule: Join.induct) auto

lemma ReplaceAllChar_set: "c \<in> set (ReplaceAllChar s x t) \<Longrightarrow> c \<in> set t \<or> (c \<in> set s \<and> c \<noteq> x)"
  by (auto simp: ReplaceAllChar_def split: if_splits)

text \<open>What a call of \<open>doJSON\<close> sends: nothing, or one request to the joined URL with the token as bearer.\<close>

definition request_ok :: "netlib \<Rightarrow> client \<Rightarrow> string \<Rightarrow> string list \<Rightarrow> string \<Rightarrow> http_request \<Rightarrow> bool" where
  "request_ok L c method path token rq \<longleftrightarrow>
     (\<exists>base. cl_baseURL c = Some base \<and> JoinPath L base path = Some (rq_url rq)) \<and>
     rq_method rq = method \<and> rq_authorization rq = Some (''Bearer '' @ token)"

lemma doJSON_requests:
  assumes "doJSON L c method path token rb dec = (r, rqs)" "token \<noteq> []"
  shows "length rqs \<le> 1 \<and> (\<forall>rq \<in> set rqs. request_ok L c method path token rq)"
  using assms by (auto simp: doJSON_def build_request_def request_ok_def Let_def split: option.splits if_splits)

text \<open>A result comes from a 2xx response within the size limit.\<close>

lemma handle_response_Ok:
  "handle_response target outcome = Inr x \<longleftrightarrow>
     (\<exists>status body. outcome = HTTPResponse status (Some body) \<and> 200 \<le> status \<and> status < 300 \<and>
        length body \<le> maxResponseBodyBytes \<and>
        (case target of None \<Rightarrow> x = None
         | Some (dec, zero) \<Rightarrow> if TrimSpace body = [] then x = Some zero else x = dec body \<and> x \<noteq> None))"
proof (cases "\<exists>status body. outcome = HTTPResponse status (Some body) \<and> length body \<le> maxResponseBodyBytes")
  case True
  then obtain status body where o: "outcome = HTTPResponse status (Some body)" "length body \<le> maxResponseBodyBytes"
    by blast
  then show ?thesis
    by (auto simp: handle_response_def split: option.splits)
next
  case False
  then show ?thesis
    by (auto simp: handle_response_def Let_def split: http_outcome.splits option.splits if_splits)
qed

lemma doJSON_Ok:
  assumes "doJSON L c method path token rb dec = (Inr x, rqs)"
  obtains rq where "rqs = [rq]" "handle_response dec (http_Do (cl_http c) rq) = Inr x"
  using assms by (auto simp: doJSON_def Let_def split: option.splits if_splits)

lemma New_refuses_redirects:
  assumes "New L fresh raw = Inr c"
  shows "hc_check_redirect (cl_http c) = Some (\<lambda>_. Some errRedirectNotAllowed)"
    "\<exists>u. ValidateBackendEndpoint L raw = Inr u \<and> cl_baseURL c = Some u" "hc_timeout (cl_http c) = 30 * time_Second"
  using assms by (auto simp: New_def NewWithHTTPClient_def Let_def split: sum.splits)

text \<open>With the refusing policy no response of another location is ever accepted.\<close>

lemma http_Do_direct:
  assumes "hc_check_redirect hc = Some (\<lambda>_. Some e)" "http_Do hc rq = HTTPResponse status body"
  shows "hc_roundtrip hc rq = HTTPResponse status body"
  using assms by (auto simp: http_Do_def split: http_outcome.splits)

text \<open>Which results and requests an operation has, in terms of \<open>doJSON\<close>.\<close>

lemma Enroll_Ok:
  assumes "Enroll L K c tok = (Inr jwt, rqs)"
  obtains "tok \<noteq> []" "jwt \<noteq> []"
    "doJSON L c ''POST'' [''v1'', ''agent'', ''enroll''] tok None (Some (dec_enroll K, [])) = (Inr (Some jwt), rqs)"
  using assms
  by (cases "doJSON L c ''POST'' [''v1'', ''agent'', ''enroll''] tok None (Some (dec_enroll K, []))")
     (auto simp: Enroll_def Let_def split: if_splits sum.splits option.splits)

lemma UpsertNode_Ok:
  assumes "UpsertNode L K c uuid req jwt = (Inr resp, rqs)"
  obtains r where "uuid \<noteq> []" "jwt \<noteq> []" "req = Some r"
    "doJSON L c ''PUT'' [''v1'', ''agent'', ''nodes'', uuid] jwt (Some (enc_node K r)) (Some (dec_upsert K, (None, None))) =
       (Inr (Some (Some (nur_ComputeZone resp), Some (nur_NodeGroup resp))), rqs)"
proof -
  from assms obtain r where r: "uuid \<noteq> []" "jwt \<noteq> []" "req = Some r"
    by (auto simp: UpsertNode_def split: if_splits option.splits)
  let ?d = "doJSON L c ''PUT'' [''v1'', ''agent'', ''nodes'', uuid] jwt (Some (enc_node K r)) (Some (dec_upsert K, (None, None)))"
  from assms r have "?d = (Inr (Some (Some (nur_ComputeZone resp), Some (nur_NodeGroup resp))), rqs)"
    by (cases ?d) (auto simp: UpsertNode_def Let_def split: sum.splits option.splits prod.splits)
  with r show ?thesis by (intro that)
qed

lemma GetNonce_Ok:
  assumes "GetNonce L K c uuid jwt = (Inr n, rqs)"
  shows "uuid \<noteq> [] \<and> jwt \<noteq> [] \<and> no_Nonce n \<noteq> []"
  using assms
  by (auto simp: GetNonce_def Let_def zero_nonce_def split: if_splits prod.splits sum.splits option.splits)

lemma Enroll_requests:
  "Enroll L K c tok = (r, rqs) \<Longrightarrow> length rqs \<le> 1 \<and>
     (\<forall>rq. rq \<in> set rqs \<longrightarrow> tok \<noteq> [] \<and> request_ok L c ''POST'' [''v1'', ''agent'', ''enroll''] tok rq)"
  using doJSON_requests [of L c "''POST''" "[''v1'', ''agent'', ''enroll'']" tok None "Some (dec_enroll K, [])"]
  by (auto simp: Enroll_def Let_def split: prod.splits sum.splits option.splits if_splits)

section \<open>Properties\<close>

text \<open>No unauthenticated or misdirected request leaves the client.  Each of the four operations sends
  at most one request; it goes to the URL joined from the client's own base URL and the operation's path,
  and carries the given non-empty token as bearer.  With an empty token, an empty agent UUID or a nil
  request, nothing is sent.\<close>

theorem client_requests_authenticated:
  "(case Enroll L K c tok of (_, rqs) \<Rightarrow> length rqs \<le> 1 \<and>
      (\<forall>rq. rq \<in> set rqs \<longrightarrow> tok \<noteq> [] \<and> request_ok L c ''POST'' [''v1'', ''agent'', ''enroll''] tok rq)) \<and>
   (case UpsertNode L K c uuid nreq tok of (_, rqs) \<Rightarrow> length rqs \<le> 1 \<and>
      (\<forall>rq. rq \<in> set rqs \<longrightarrow> tok \<noteq> [] \<and> uuid \<noteq> [] \<and> nreq \<noteq> None \<and>
         request_ok L c ''PUT'' [''v1'', ''agent'', ''nodes'', uuid] tok rq)) \<and>
   (case GetNonce L K c uuid tok of (_, rqs) \<Rightarrow> length rqs \<le> 1 \<and>
      (\<forall>rq. rq \<in> set rqs \<longrightarrow> tok \<noteq> [] \<and> uuid \<noteq> [] \<and>
         request_ok L c ''POST'' [''v1'', ''agent'', ''nodes'', uuid, ''nonce''] tok rq)) \<and>
   (case SubmitAttestation L K c uuid areq tok of (_, rqs) \<Rightarrow> length rqs \<le> 1 \<and>
      (\<forall>rq. rq \<in> set rqs \<longrightarrow> tok \<noteq> [] \<and> uuid \<noteq> [] \<and> areq \<noteq> None \<and>
         request_ok L c ''POST'' [''v1'', ''agent'', ''nodes'', uuid, ''attestation''] tok rq))"
  (is "?e \<and> ?u \<and> ?n \<and> ?a")
proof (intro conjI)
  show ?e using Enroll_requests [of L K c tok] by (simp split: prod.split)
  show ?u
    using doJSON_requests [of L c "''PUT''" "[''v1'', ''agent'', ''nodes'', uuid]" tok _ "Some (dec_upsert K, (None, None))"]
    by (auto simp: UpsertNode_def Let_def split: prod.splits sum.splits option.splits)
  show ?n
    using doJSON_requests [of L c "''POST''" "[''v1'', ''agent'', ''nodes'', uuid, ''nonce'']" tok None "Some (dec_nonce K, zero_nonce)"]
    by (auto simp: GetNonce_def Let_def split: prod.splits sum.splits option.splits)
  show ?a
    using doJSON_requests [of L c "''POST''" "[''v1'', ''agent'', ''nodes'', uuid, ''attestation'']" tok _ "None :: ((string \<Rightarrow> unit option) \<times> unit) option"]
    by (auto simp: SubmitAttestation_def Let_def split: prod.splits sum.splits option.splits)
qed

text \<open>A backend that answers every request with the JWT \<open>j\<close>.\<close>

definition sample_http :: http_client where
  "sample_http = \<lparr>hc_timeout = 0, hc_check_redirect = None, hc_roundtrip = (\<lambda>_. HTTPResponse 200 (Some ''j'')),
     hc_follow = (\<lambda>_ _. RoundTripError [])\<rparr>"

definition sample_codec :: codec where
  "sample_codec = \<lparr>enc_node = (\<lambda>_. Some ''n''), enc_attestation = (\<lambda>_. Some ''a''), dec_enroll = Some,
     dec_upsert = (\<lambda>s. Some (Some s, Some s)), dec_nonce = (\<lambda>s. Some (zero_nonce\<lparr>no_Nonce := s\<rparr>))\<rparr>"

definition sample_client :: client where
  "sample_client = NewWithHTTPClient (Some (empty_url\<lparr>u_scheme := ''https'', u_host := ''b.example''\<rparr>)) (Some sample_http) sample_http"

theorem client_requests_authenticated_witness:
  "(\<exists>rq. snd (Enroll plain_netlib sample_codec sample_client ''sak'') = [rq] \<and>
      request_ok plain_netlib sample_client ''POST'' [''v1'', ''agent'', ''enroll''] ''sak'' rq \<and>
      rq_url rq = ''https://b.example/v1/agent/enroll'') \<and>
   snd (Enroll plain_netlib sample_codec sample_client []) = []"
proof -
  have "map rq_url (snd (Enroll plain_netlib sample_codec sample_client ''sak'')) = [''https://b.example/v1/agent/enroll'']"
    by code_simp
  then obtain rq where "snd (Enroll plain_netlib sample_codec sample_client ''sak'') = [rq]"
    "rq_url rq = ''https://b.example/v1/agent/enroll''" by auto
  with client_requests_authenticated [where L = plain_netlib and K = sample_codec and c = sample_client and tok = "''sak''"]
  show ?thesis by (auto simp: case_prod_unfold Enroll_def)
qed

text \<open>An enrollment token is accepted only from the backend itself.  When \<open>Enroll\<close> on a client made by
  \<open>New\<close> returns a JWT, the JWT is not empty and is what decodes from a 2xx response of at most 1 MiB that
  the configured backend gave directly to a request sent to the validated base URL: no redirect was
  followed.\<close>

theorem enroll_jwt_from_backend:
  assumes "New L fresh raw = Ok c" "Enroll L K c tok = (Ok jwt, rqs)"
  shows "\<exists>rq u status body. rqs = [rq] \<and> ValidateBackendEndpoint L raw = Ok u \<and>
           JoinPath L u [''v1'', ''agent'', ''enroll''] = Some (rq_url rq) \<and>
           hc_roundtrip (cl_http c) rq = HTTPResponse status (Some body) \<and> 200 \<le> status \<and> status < 300 \<and>
           length body \<le> maxResponseBodyBytes \<and> dec_enroll K body = Some jwt \<and> jwt \<noteq> []"
proof -
  from assms(2) obtain t: "tok \<noteq> []" "jwt \<noteq> []" and
    d: "doJSON L c ''POST'' [''v1'', ''agent'', ''enroll''] tok None (Some (dec_enroll K, [])) = (Inr (Some jwt), rqs)"
    by (rule Enroll_Ok)
  from d obtain rq where rq: "rqs = [rq]" and h: "handle_response (Some (dec_enroll K, [])) (http_Do (cl_http c) rq) = Inr (Some jwt)"
    by (rule doJSON_Ok)
  from h t obtain status body where o: "http_Do (cl_http c) rq = HTTPResponse status (Some body)" "200 \<le> status"
    "status < 300" "length body \<le> maxResponseBodyBytes" "dec_enroll K body = Some jwt"
    by (auto simp: handle_response_Ok split: if_splits)
  have "hc_roundtrip (cl_http c) rq = HTTPResponse status (Some body)"
    using http_Do_direct [OF New_refuses_redirects(1) [OF assms(1)] o(1)] .
  moreover have "request_ok L c ''POST'' [''v1'', ''agent'', ''enroll''] tok rq"
    using doJSON_requests [OF d t(1)] rq by simp
  ultimately show ?thesis
    using rq o t New_refuses_redirects(2) [OF assms(1)] by (auto simp: request_ok_def)
qed

theorem enroll_jwt_from_backend_witness:
  "\<exists>c rqs. New plain_netlib sample_http ''https://b.example'' = Ok c \<and>
     Enroll plain_netlib sample_codec c ''sak'' = (Ok ''j'', rqs) \<and>
     (\<exists>rq status body. rqs = [rq] \<and> hc_roundtrip (cl_http c) rq = HTTPResponse status (Some body) \<and> status < 300)"
proof -
  have n: "is_ok (New plain_netlib sample_http ''https://b.example'')" by code_simp
  have e: "(case New plain_netlib sample_http ''https://b.example'' of
      Inl _ \<Rightarrow> False | Inr c \<Rightarrow> fst (Enroll plain_netlib sample_codec c ''sak'') = Inr ''j'')" by code_simp
  from n obtain c where c: "New plain_netlib sample_http ''https://b.example'' = Ok c" by (auto simp: is_ok_iff)
  with e obtain rqs where "Enroll plain_netlib sample_codec c ''sak'' = (Ok ''j'', rqs)"
    by (cases "Enroll plain_netlib sample_codec c ''sak''") auto
  with enroll_jwt_from_backend [OF c this] c show ?thesis by blast
qed

text \<open>The text of a backend error is safe to log: whatever the backend put in the body, the sanitised
  body has at most 214 bytes and holds no line break.\<close>

theorem error_body_sanitized:
  "length (sanitizeErrorBody raw) \<le> 214 \<and> CHR 0x0A \<notin> set (sanitizeErrorBody raw) \<and> CHR 0x0D \<notin> set (sanitizeErrorBody raw)"
proof -
  define b2 where "b2 = ReplaceAllChar (ReplaceAllChar (TrimSpace raw) CHR 0x0A '' '') CHR 0x0D '' ''"
  have b2: "CHR 0x0A \<notin> set b2" "CHR 0x0D \<notin> set b2"
    unfolding b2_def by (auto dest!: ReplaceAllChar_set)
  have j: "c \<in> set (Join (Fields b2) '' '') \<Longrightarrow> c = CHR '' '' \<or> c \<in> set b2" for c
    using fields_from_set [of c _ "[]" b2] by (auto simp: Fields_def dest!: Join_set)
  have "sanitizeErrorBody raw = (if TrimSpace raw = [] then []
      else if length (Join (Fields b2) '' '') \<le> 200 then Join (Fields b2) '' ''
      else take 200 (Join (Fields b2) '' '') @ ''...(truncated)'')"
    by (simp add: sanitizeErrorBody_def Let_def b2_def)
  then show ?thesis using b2 j by (auto dest: in_set_takeD)
qed

end
