(* ===== verification/Otlp.thy ===== *)
theory Otlp
  imports Prelude
begin

text \<open>
  The OTLP messages the agent builds, validates and sends (\<open>go.opentelemetry.io/proto/otlp\<close>): attribute
  values, number data points, metrics, log records and the two payloads.  A protobuf message that may be
  nil is an option, a repeated field a list, a 64-bit timestamp a word.

  The second part is the arithmetic of \<open>float64\<close> the agent needs: rounding a quotient to the nearest
  binary64 number, and \<open>time.Duration.Seconds\<close>.
\<close>

section \<open>Messages\<close>

text \<open>A \<open>float64\<close>: not a number, an infinity with its sign, or a finite \<open>m * 2 ^ e\<close>.\<close>

datatype go_float = FNaN | FInf bool | FNum int int

datatype any_value =
    StringValue string
  | BoolValue bool
  | IntValue int
  | DoubleValue go_float
  | ArrayValue "any_value list"
  | KvlistValue "(string \<times> any_value) list"

type_synonym key_value = "string \<times> any_value"
type_synonym attributes = "key_value list"

text \<open>The generated getter: empty unless the value is a string.\<close>

definition GetStringValue :: "any_value \<Rightarrow> string" where
  "GetStringValue v = (case v of StringValue s \<Rightarrow> s | _ \<Rightarrow> [])"

datatype point_value = AsDouble go_float | AsInt int | NoValue

record number_data_point =
  dp_TimeUnixNano :: "64 word"
  dp_Value :: point_value
  dp_Attributes :: attributes

datatype temporality = Unspecified | Delta | Cumulative

datatype metric_data =
    GaugeData "number_data_point list"
  | SumData temporality bool "number_data_point list"
  | OtherData

record otlp_metric =
  om_Name :: string
  om_Description :: string
  om_Unit :: string
  om_Data :: metric_data

record scope_metrics =
  sm_Scope :: "string \<times> string"
  sm_Metrics :: "otlp_metric list"

record resource_metrics =
  rm_Attributes :: attributes
  rm_ScopeMetrics :: "scope_metrics list"

record log_record =
  lr_TimeUnixNano :: "64 word"
  lr_Severity :: "int \<times> string"
  lr_Body :: "any_value option"
  lr_Attributes :: attributes

record scope_logs =
  sl_Scope :: "string \<times> string"
  sl_LogRecords :: "log_record list"

record resource_logs =
  rl_Attributes :: attributes
  rl_ScopeLogs :: "scope_logs list"

record otlp_data =
  od_Metrics :: "resource_metrics list option"
  od_Logs :: "resource_logs list option"

section \<open>Floating point\<close>

fun bit_len :: "nat \<Rightarrow> nat" where
  "bit_len n = (if n = 0 then 0 else Suc (bit_len (n div 2)))"

declare bit_len.simps [simp del]

text \<open>\<open>n / d\<close> to the nearest integer, ties to the even one.\<close>

definition div_half_even :: "nat \<Rightarrow> nat \<Rightarrow> nat" where
  "div_half_even n d =
     (let q = n div d; r = n mod d in
      if 2 * r > d \<or> (2 * r = d \<and> odd q) then q + 1 else q)"

definition scaled :: "nat \<Rightarrow> nat \<Rightarrow> int \<Rightarrow> nat \<times> nat" where
  "scaled n d e = (if e \<ge> 0 then (n, d * 2 ^ nat e) else (n * 2 ^ nat (- e), d))"

text \<open>The binary64 number nearest to \<open>n / d\<close>, for magnitudes far from overflow and underflow.\<close>

definition float_quotient :: "nat \<Rightarrow> nat \<Rightarrow> go_float" where
  "float_quotient n d =
     (if n = 0 then FNum 0 0
      else let e0 = int (bit_len n) - int (bit_len d) - 53;
               (a, b) = scaled n d e0;
               e = (if a div b \<ge> 2 ^ 53 then e0 + 1 else e0);
               (a, b) = scaled n d e
           in FNum (int (div_half_even a b)) e)"

text \<open>\<open>x + y\<close> of two finite non-negative numbers, rounded once.\<close>

fun float_add :: "go_float \<Rightarrow> go_float \<Rightarrow> go_float" where
  "float_add (FNum m e) (FNum m' e') =
     (let f = min e e' in
      let total = nat m * 2 ^ nat (e - f) + nat m' * 2 ^ nat (e' - f) in
      if f \<ge> 0 then float_quotient (total * 2 ^ nat f) 1 else float_quotient total (2 ^ nat (- f)))"
| "float_add x y = FNaN"

text \<open>
  \<open>time.Duration.Seconds\<close> of a non-negative duration: whole seconds plus the quotient of the rest, each
  step rounded.
\<close>

definition duration_seconds :: "duration \<Rightarrow> go_float" where
  "duration_seconds d =
     float_add (float_quotient (nat (d div time_Second)) 1) (float_quotient (nat (d mod time_Second)) 1000000000)"

definition finite_float :: "go_float \<Rightarrow> bool" where
  "finite_float x = (case x of FNum _ _ \<Rightarrow> True | _ \<Rightarrow> False)"

lemma finite_float_quotient [simp]: "finite_float (float_quotient n d)"
  by (simp add: float_quotient_def finite_float_def Let_def split: prod.split)

lemma finite_float_add: "finite_float x \<Longrightarrow> finite_float y \<Longrightarrow> finite_float (float_add x y)"
  by (cases x; cases y) (simp_all add: Let_def, simp_all add: finite_float_def)

lemma finite_duration_seconds [simp]: "finite_float (duration_seconds d)"
  by (simp add: duration_seconds_def finite_float_add)

lemma finite_float_iff: "finite_float x \<longleftrightarrow> x \<noteq> FNaN \<and> (\<forall>b. x \<noteq> FInf b)"
  by (cases x) (auto simp: finite_float_def)

end
