(* ===== verification/Outbound_Validation.thy ===== *)
theory Outbound_Validation
  imports Backend_Client Otlp
begin

text \<open>
  \<open>internal/validation/outbound/validator.go\<close>: the checks run on every payload before it leaves the
  agent.  A validator returns its issues in the order the code appends them; \<open>net.ParseIP\<close>,
  \<open>uuid.Parse\<close> and the current time are arguments (record \<open>check_env\<close>).  OTLP payloads are those of \<open>Otlp\<close>.
\<close>

section \<open>Definitions\<close>

datatype severity = SeverityWarning | SeverityCritical

record issue =
  is_Severity :: severity
  is_Category :: string
  is_Field :: string
  is_Message :: string

definition newIssue :: "severity \<Rightarrow> string \<Rightarrow> string \<Rightarrow> string \<Rightarrow> issue" where
  "newIssue sev category field msg = \<lparr>is_Severity = sev, is_Category = category, is_Field = field, is_Message = msg\<rparr>"

record check_env =
  ce_parse_ip :: "string \<Rightarrow> ip option"
  ce_uuid_ok :: "string \<Rightarrow> bool"
  ce_now :: int

subsection \<open>Single checks\<close>

definition requireNonEmpty :: "string \<Rightarrow> string \<Rightarrow> string \<Rightarrow> severity \<Rightarrow> issue list" where
  "requireNonEmpty category field v sev =
     (if TrimSpace v = [] then [newIssue sev category field ''field is required''] else [])"

definition validateNonNegative :: "string \<Rightarrow> string \<Rightarrow> int \<Rightarrow> issue list" where
  "validateNonNegative category field v =
     (if v < 0 then [newIssue SeverityWarning category field ''value is negative''] else [])"

definition validateLen :: "string \<Rightarrow> string \<Rightarrow> string \<Rightarrow> nat \<Rightarrow> issue list" where
  "validateLen category field v mx =
     (if mx = 0 then []
      else if length v > mx
      then [newIssue SeverityWarning category field (''length '' @ FormatNat (length v) @ '' exceeds max '' @ FormatNat mx)]
      else [])"

definition validateSliceLimit :: "string \<Rightarrow> string \<Rightarrow> nat \<Rightarrow> nat \<Rightarrow> issue list" where
  "validateSliceLimit category field sz mx =
     (if mx = 0 then []
      else if sz > mx
      then [newIssue SeverityWarning category field (''size '' @ FormatNat sz @ '' exceeds max '' @ FormatNat mx)]
      else [])"

definition validateIP :: "check_env \<Rightarrow> string \<Rightarrow> string \<Rightarrow> string \<Rightarrow> issue list" where
  "validateIP V category field v =
     (if TrimSpace v = [] then []
      else if ce_parse_ip V (TrimSpace v) = None
      then [newIssue SeverityWarning category field ''invalid IP format''] else [])"

definition validateGPUUUID :: "check_env \<Rightarrow> string \<Rightarrow> string \<Rightarrow> string \<Rightarrow> issue list" where
  "validateGPUUUID V category field raw =
     (let v = TrimSpace raw in
      if v = [] then []
      else let uuidPart = (if HasPrefix v ''GPU-'' then TrimPrefix v ''GPU-'' else v)
           in if ce_uuid_ok V uuidPart then []
              else [newIssue SeverityWarning category field ''invalid GPU UUID format''])"

definition validateTimeSanity :: "check_env \<Rightarrow> string \<Rightarrow> string \<Rightarrow> gotime option \<Rightarrow> issue list" where
  "validateTimeSanity V category field t =
     (case t of
        None \<Rightarrow> []
      | Some x \<Rightarrow>
          if is_zero_time x then []
          else (if \<not> t_utc x then [newIssue SeverityWarning category field ''timestamp is not UTC''] else []) @
               (if t_nanos x > ce_now V + 24 * time_Hour
                then [newIssue SeverityWarning category field ''timestamp is too far in future''] else []) @
               (if t_nanos x < ce_now V - 100 * 365 * 24 * time_Hour
                then [newIssue SeverityWarning category field ''timestamp is too far in past''] else []))"

definition at_index :: "string \<Rightarrow> nat \<Rightarrow> string" where
  "at_index base i = base @ ''['' @ FormatNat i @ '']''"

subsection \<open>Node upsert requests\<close>

fun gpu_issues :: "check_env \<Rightarrow> nat \<Rightarrow> string list \<Rightarrow> gpu_device list \<Rightarrow> issue list" where
  "gpu_issues V i seen [] = []"
| "gpu_issues V i seen (g # gs) =
     (let prefix = at_index ''resources.gpuInfo.gpus'' i in
      validateLen ''length'' (prefix @ ''.uuid'') (gd_UUID g) 255 @
      validateLen ''length'' (prefix @ ''.gpuIndex'') (gd_GPUIndex g) 64 @
      validateLen ''length'' (prefix @ ''.clusterUUID'') (gd_ClusterUUID g) 255 @
      validateGPUUUID V ''format'' (prefix @ ''.uuid'') (gd_UUID g) @
      (if gd_UUID g \<noteq> [] \<and> gd_UUID g \<in> set seen
       then [newIssue SeverityWarning ''dedup'' (prefix @ ''.uuid'') ''duplicate GPU UUID in payload''] else []) @
      gpu_issues V (Suc i) (if gd_UUID g \<noteq> [] then gd_UUID g # seen else seen) gs)"

definition disk_issues :: "nat \<times> block_device \<Rightarrow> issue list" where
  "disk_issues = (\<lambda>(i, d).
     let prefix = at_index ''resources.diskInfo.blockDevices'' i in
     validateLen ''length'' (prefix @ ''.name'') (bd_Name d) 2048 @
     validateLen ''length'' (prefix @ ''.mountPoint'') (bd_MountPoint d) 1024 @
     validateLen ''length'' (prefix @ ''.type'') (bd_Type d) 64 @
     validateLen ''length'' (prefix @ ''.fsType'') (bd_FSType d) 64 @
     (if bd_Size d < 0 then [newIssue SeverityCritical ''numeric'' (prefix @ ''.size'') ''disk size cannot be negative''] else []) @
     validateSliceLimit ''cardinality'' (prefix @ ''.parents'') (length (bd_Parents d)) 64)"

definition nic_issues :: "check_env \<Rightarrow> nat \<times> nic_interface \<Rightarrow> issue list" where
  "nic_issues V = (\<lambda>(i, c).
     let prefix = at_index ''resources.nicInfo.privateIPInterfaces'' i in
     validateLen ''length'' (prefix @ ''.interface'') (ni_Interface c) 255 @
     validateLen ''length'' (prefix @ ''.mac'') (ni_MAC c) 64 @
     validateIP V ''format'' (prefix @ ''.ip'') (ni_IP c))"

definition cores_issues :: "string \<Rightarrow> issue list" where
  "cores_issues s =
     (if s \<noteq> [] \<and> (case ParseInt s of None \<Rightarrow> True | Some n \<Rightarrow> n < 0)
      then [newIssue SeverityCritical ''numeric'' ''resources.cpuInfo.logicalCores'' ''logicalCores must be a non-negative integer string'']
      else [])"

definition memory_issues :: "string \<Rightarrow> issue list" where
  "memory_issues s =
     (if s \<noteq> [] \<and> ParseUint 64 s = None
      then [newIssue SeverityCritical ''numeric'' ''resources.memoryInfo.totalBytes'' ''totalBytes must be an unsigned integer string'']
      else [])"

definition ValidateNodeUpsertRequest :: "check_env \<Rightarrow> node_upsert_request option \<Rightarrow> issue list" where
  "ValidateNodeUpsertRequest V request =
     (case request of
        None \<Rightarrow> [newIssue SeverityCritical ''required'' ''payload'' ''node upsert request is nil'']
      | Some r \<Rightarrow>
          requireNonEmpty ''identity'' ''hostname'' (nu_Hostname r) SeverityCritical @
          requireNonEmpty ''identity'' ''machineId'' (nu_MachineID r) SeverityCritical @
          requireNonEmpty ''identity'' ''systemUUID'' (nu_SystemUUID r) SeverityWarning @
          validateTimeSanity V ''time'' ''uptime'' (nu_Uptime r) @
          validateTimeSanity V ''time'' ''enrolledAt'' (nu_EnrolledAt r) @
          validateLen ''length'' ''hostname'' (nu_Hostname r) 255 @
          validateLen ''length'' ''machineId'' (nu_MachineID r) 255 @
          validateLen ''length'' ''systemUUID'' (nu_SystemUUID r) 255 @
          validateLen ''length'' ''bootID'' (nu_BootID r) 255 @
          validateLen ''length'' ''kernelVersion'' (nu_KernelVersion r) 255 @
          validateLen ''length'' ''osImage'' (nu_OSImage r) 1024 @
          validateLen ''length'' ''agentVersion'' (nu_AgentVersion r) 255 @
          validateIP V ''format'' ''netPrivateIP'' (nu_NetPrivateIP r) @
          validateLen ''length'' ''nodeGroup'' (nu_NodeGroup r) 255 @
          validateLen ''length'' ''computeZone'' (nu_ComputeZone r) 255 @
          validateNonNegative ''numeric'' ''agentConfig.totalComponents'' (ac_TotalComponents (nu_AgentConfig r)) @
          validateNonNegative ''numeric'' ''agentConfig.retentionPeriodSeconds'' (ac_RetentionPeriodSeconds (nu_AgentConfig r)) @
          validateNonNegative ''numeric'' ''agentConfig.metricScrapeIntervalSeconds'' (ac_MetricScrapeIntervalSeconds (nu_AgentConfig r)) @
          validateNonNegative ''numeric'' ''agentConfig.inventoryIntervalSeconds'' (ac_InventoryIntervalSeconds (nu_AgentConfig r)) @
          validateNonNegative ''numeric'' ''agentConfig.attestationIntervalSeconds'' (ac_AttestationIntervalSeconds (nu_AgentConfig r)) @
          validateSliceLimit ''cardinality'' ''resources.gpuInfo.gpus'' (length (gpu_GPUs (nr_GPUInfo (nu_Resources r)))) 64 @
          validateSliceLimit ''cardinality'' ''resources.diskInfo.blockDevices'' (length (di_BlockDevices (nr_DiskInfo (nu_Resources r)))) 512 @
          validateSliceLimit ''cardinality'' ''resources.nicInfo.privateIPInterfaces'' (length (nic_PrivateIPInterfaces (nr_NICInfo (nu_Resources r)))) 128 @
          gpu_issues V 0 [] (gpu_GPUs (nr_GPUInfo (nu_Resources r))) @
          concat (map disk_issues (enumerate 0 (di_BlockDevices (nr_DiskInfo (nu_Resources r))))) @
          concat (map (nic_issues V) (enumerate 0 (nic_PrivateIPInterfaces (nr_NICInfo (nu_Resources r))))) @
          cores_issues (cpu_LogicalCores (nr_CPUInfo (nu_Resources r))) @
          memory_issues (mem_TotalBytes (nr_MemoryInfo (nu_Resources r))))"

subsection \<open>Attestation requests\<close>

definition evidence_issues :: "nat \<times> evidence_item \<Rightarrow> issue list" where
  "evidence_issues = (\<lambda>(i, e).
     let prefix = at_index ''attestationData.sdkResponse.evidences'' i in
     validateLen ''length'' (prefix @ ''.arch'') (ev_Arch e) 64 @
     validateLen ''length'' (prefix @ ''.driverVersion'') (ev_DriverVersion e) 64 @
     validateLen ''length'' (prefix @ ''.nonce'') (ev_Nonce e) 512 @
     validateLen ''length'' (prefix @ ''.version'') (ev_Version e) 64 @
     validateLen ''length'' (prefix @ ''.certificate'') (ev_Certificate e) (4 * 1024 * 1024) @
     validateLen ''length'' (prefix @ ''.evidence'') (ev_Evidence e) (4 * 1024 * 1024))"

definition ValidateAttestationRequest :: "attestation_request option \<Rightarrow> issue list" where
  "ValidateAttestationRequest request =
     (case request of
        None \<Rightarrow> [newIssue SeverityWarning ''required'' ''payload'' ''attestation request is nil'']
      | Some r \<Rightarrow>
          (let d = ar_AttestationData r; evs = sr_Evidences (ad_SDKResponse d) in
           (if is_zero_time (ad_NonceRefreshTimestamp d)
            then [newIssue SeverityWarning ''required'' ''attestationData.nonceRefreshTimestamp'' ''nonce refresh timestamp is required'']
            else []) @
           validateLen ''length'' ''attestationData.errorMessage'' (ad_ErrorMessage d) 4096 @
           validateLen ''length'' ''attestationData.sdkResponse.resultMessage'' (sr_ResultMessage (ad_SDKResponse d)) 2048 @
           (if ad_Success d \<and> evs = []
            then [newIssue SeverityWarning ''required'' ''attestationData.sdkResponse.evidences'' ''evidence is required when success=true'']
            else []) @
           validateSliceLimit ''cardinality'' ''attestationData.sdkResponse.evidences'' (length evs) 128 @
           concat (map evidence_issues (enumerate 0 evs))))"

subsection \<open>OTLP payloads\<close>

definition lookupAttr :: "attributes \<Rightarrow> string \<Rightarrow> string" where
  "lookupAttr attrs key = (case find (\<lambda>(k, v). k = key) attrs of None \<Rightarrow> [] | Some (k, v) \<Rightarrow> GetStringValue v)"

definition validateOTLPResourceAttrs :: "string \<Rightarrow> attributes \<Rightarrow> issue list" where
  "validateOTLPResourceAttrs field attrs =
     (if TrimSpace (lookupAttr attrs ''service.name'') = []
      then [newIssue SeverityCritical ''required'' (field @ ''.service.name'') ''service.name is required''] else []) @
     (if TrimSpace (lookupAttr attrs ''machine.id'') = []
      then [newIssue SeverityCritical ''required'' (field @ ''.machine.id'') ''machine.id is required''] else [])"

definition validateNumberDataPoint :: "string \<Rightarrow> number_data_point \<Rightarrow> issue list" where
  "validateNumberDataPoint pre dp =
     (if dp_TimeUnixNano dp = 0
      then [newIssue SeverityWarning ''time'' (pre @ ''.timeUnixNano'') ''metric timestamp is zero''] else []) @
     (case dp_Value dp of
        AsDouble FNaN \<Rightarrow> [newIssue SeverityCritical ''numeric'' (pre @ ''.value'') ''metric value is NaN or Inf'']
      | AsDouble (FInf _) \<Rightarrow> [newIssue SeverityCritical ''numeric'' (pre @ ''.value'') ''metric value is NaN or Inf'']
      | _ \<Rightarrow> [])"

definition points_issues :: "string \<Rightarrow> number_data_point list \<Rightarrow> issue list" where
  "points_issues base dps = concat (map (\<lambda>(d, dp). validateNumberDataPoint (at_index base d) dp) (enumerate 0 dps))"

definition metric_issues :: "string \<Rightarrow> otlp_metric \<Rightarrow> issue list" where
  "metric_issues pre m =
     (case om_Data m of
        GaugeData dps \<Rightarrow> points_issues (pre @ ''.gauge.dataPoints'') dps
      | SumData _ _ dps \<Rightarrow> points_issues (pre @ ''.sum.dataPoints'') dps
      | OtherData \<Rightarrow> [])"

definition validateOTLPMetrics :: "resource_metrics list \<Rightarrow> issue list" where
  "validateOTLPMetrics rms = concat (map (\<lambda>(i, rm).
     let base = at_index ''metrics.resourceMetrics'' i in
     validateOTLPResourceAttrs (base @ ''.resource'') (rm_Attributes rm) @
     concat (map (\<lambda>(j, sm). concat (map (\<lambda>(k, m).
        metric_issues (at_index (at_index (base @ ''.scopeMetrics'') j @ ''.metrics'') k) m) (enumerate 0 (sm_Metrics sm))))
       (enumerate 0 (rm_ScopeMetrics rm)))) (enumerate 0 rms))"

definition log_issues :: "string \<Rightarrow> log_record \<Rightarrow> issue list" where
  "log_issues pre r =
     (if lr_TimeUnixNano r = 0 then [newIssue SeverityWarning ''time'' (pre @ ''.timeUnixNano'') ''log timestamp is zero''] else []) @
     (if lr_Body r = None then [newIssue SeverityWarning ''required'' (pre @ ''.body'') ''log body is empty''] else [])"

definition validateOTLPLogs :: "resource_logs list \<Rightarrow> issue list" where
  "validateOTLPLogs rls = concat (map (\<lambda>(i, rl).
     let base = at_index ''logs.resourceLogs'' i in
     validateOTLPResourceAttrs (base @ ''.resource'') (rl_Attributes rl) @
     concat (map (\<lambda>(j, sl). concat (map (\<lambda>(k, r).
        log_issues (at_index (at_index (base @ ''.scopeLogs'') j @ ''.logRecords'') k) r) (enumerate 0 (sl_LogRecords sl))))
       (enumerate 0 (rl_ScopeLogs rl)))) (enumerate 0 rls))"

definition ValidateOTLPPayload :: "otlp_data option \<Rightarrow> issue list" where
  "ValidateOTLPPayload data =
     (case data of
        None \<Rightarrow> [newIssue SeverityCritical ''required'' ''payload'' ''otlp payload is nil'']
      | Some d \<Rightarrow>
          (case od_Metrics d of None \<Rightarrow> [] | Some m \<Rightarrow> validateOTLPMetrics m) @
          (case od_Logs d of None \<Rightarrow> [] | Some l \<Rightarrow> validateOTLPLogs l) @
          (if od_Metrics d = None \<and> od_Logs d = None
           then [newIssue SeverityWarning ''required'' ''payload'' ''otlp payload has neither metrics nor logs''] else []))"

section \<open>Lemmas\<close>

text \<open>When each check is silent.\<close>

definition time_ok :: "check_env \<Rightarrow> gotime option \<Rightarrow> bool" where
  "time_ok V t \<longleftrightarrow> (case t of None \<Rightarrow> True | Some x \<Rightarrow>
     is_zero_time x \<or> (t_utc x \<and> t_nanos x \<le> ce_now V + 24 * time_Hour \<and> ce_now V - 100 * 365 * 24 * time_Hour \<le> t_nanos x))"

definition ip_ok :: "check_env \<Rightarrow> string \<Rightarrow> bool" where
  "ip_ok V s \<longleftrightarrow> TrimSpace s = [] \<or> ce_parse_ip V (TrimSpace s) \<noteq> None"

definition gpu_uuid_ok :: "check_env \<Rightarrow> string \<Rightarrow> bool" where
  "gpu_uuid_ok V s \<longleftrightarrow> TrimSpace s = [] \<or> ce_uuid_ok V (TrimPrefix (TrimSpace s) ''GPU-'')"

lemma TrimPrefix_not: "\<not> HasPrefix s p \<Longrightarrow> TrimPrefix s p = s"
  by (simp add: HasPrefix_def TrimPrefix_def)

lemma silent_iff:
  "requireNonEmpty cat f v sev = [] \<longleftrightarrow> TrimSpace v \<noteq> []"
  "validateNonNegative cat f i = [] \<longleftrightarrow> 0 \<le> i"
  "validateLen cat f v (Suc n) = [] \<longleftrightarrow> length v \<le> Suc n"
  "0 < m \<Longrightarrow> validateLen cat f v m = [] \<longleftrightarrow> length v \<le> m"
  "0 < m \<Longrightarrow> validateSliceLimit cat f k m = [] \<longleftrightarrow> k \<le> m"
  "validateIP V cat f v = [] \<longleftrightarrow> ip_ok V v"
  "validateGPUUUID V cat f v = [] \<longleftrightarrow> gpu_uuid_ok V v"
  "validateTimeSanity V cat f t = [] \<longleftrightarrow> time_ok V t"
  by (auto simp: requireNonEmpty_def validateNonNegative_def validateLen_def validateSliceLimit_def validateIP_def
        validateGPUUUID_def validateTimeSanity_def ip_ok_def gpu_uuid_ok_def time_ok_def Let_def TrimPrefix_not
        split: option.splits)

definition gpu_ok :: "check_env \<Rightarrow> gpu_device \<Rightarrow> bool" where
  "gpu_ok V g \<longleftrightarrow> length (gd_UUID g) \<le> 255 \<and> length (gd_GPUIndex g) \<le> 64 \<and> length (gd_ClusterUUID g) \<le> 255 \<and>
     gpu_uuid_ok V (gd_UUID g)"

definition disk_ok :: "block_device \<Rightarrow> bool" where
  "disk_ok d \<longleftrightarrow> length (bd_Name d) \<le> 2048 \<and> length (bd_MountPoint d) \<le> 1024 \<and> length (bd_Type d) \<le> 64 \<and>
     length (bd_FSType d) \<le> 64 \<and> 0 \<le> bd_Size d \<and> length (bd_Parents d) \<le> 64"

definition nic_ok :: "check_env \<Rightarrow> nic_interface \<Rightarrow> bool" where
  "nic_ok V c \<longleftrightarrow> length (ni_Interface c) \<le> 255 \<and> length (ni_MAC c) \<le> 64 \<and> ip_ok V (ni_IP c)"

definition nonempty_uuids :: "gpu_device list \<Rightarrow> string list" where
  "nonempty_uuids gs = filter (\<lambda>u. u \<noteq> []) (map gd_UUID gs)"

lemma gpu_issues_Nil:
  "gpu_issues V i seen gs = [] \<longleftrightarrow>
     list_all (gpu_ok V) gs \<and> distinct (nonempty_uuids gs) \<and> set (nonempty_uuids gs) \<inter> set seen = {}"
  by (induction V i seen gs rule: gpu_issues.induct)
     (auto simp: Let_def silent_iff gpu_ok_def nonempty_uuids_def)

lemma concat_enumerate_Nil: "concat (map f (enumerate n xs)) = [] \<longleftrightarrow> (\<forall>(i, x) \<in> set (enumerate n xs). f (i, x) = [])"
  by auto

lemma disk_issues_Nil: "disk_issues (i, d) = [] \<longleftrightarrow> disk_ok d"
  by (auto simp: disk_issues_def Let_def silent_iff disk_ok_def)

lemma nic_issues_Nil: "nic_issues V (i, c) = [] \<longleftrightarrow> nic_ok V c"
  by (auto simp: nic_issues_def Let_def silent_iff nic_ok_def)

lemma enumerate_all: "(\<forall>(i, x) \<in> set (enumerate n xs). P x) \<longleftrightarrow> list_all P xs"
  by (induction xs arbitrary: n) (auto simp: enumerate_simps)

lemma cores_issues_Nil: "cores_issues s = [] \<longleftrightarrow> s = [] \<or> (\<exists>n. ParseInt s = Some n \<and> 0 \<le> n)"
  by (auto simp: cores_issues_def split: option.splits)

lemma memory_issues_Nil: "memory_issues s = [] \<longleftrightarrow> s = [] \<or> (\<exists>n. ParseUint 64 s = Some n)"
  by (auto simp: memory_issues_def)

text \<open>The declarative reading of an acceptable node upsert request.\<close>

definition node_request_ok :: "check_env \<Rightarrow> node_upsert_request \<Rightarrow> bool" where
  "node_request_ok V r \<longleftrightarrow>
     TrimSpace (nu_Hostname r) \<noteq> [] \<and> TrimSpace (nu_MachineID r) \<noteq> [] \<and> TrimSpace (nu_SystemUUID r) \<noteq> [] \<and>
     time_ok V (nu_Uptime r) \<and> time_ok V (nu_EnrolledAt r) \<and>
     list_all (\<lambda>f. length (f r) \<le> 255)
       [nu_Hostname, nu_MachineID, nu_SystemUUID, nu_BootID, nu_KernelVersion, nu_AgentVersion, nu_NodeGroup, nu_ComputeZone] \<and>
     length (nu_OSImage r) \<le> 1024 \<and> ip_ok V (nu_NetPrivateIP r) \<and>
     list_all (\<lambda>f. 0 \<le> f (nu_AgentConfig r))
       [ac_TotalComponents, ac_RetentionPeriodSeconds, ac_MetricScrapeIntervalSeconds, ac_InventoryIntervalSeconds,
        ac_AttestationIntervalSeconds] \<and>
     (let gpus = gpu_GPUs (nr_GPUInfo (nu_Resources r)); disks = di_BlockDevices (nr_DiskInfo (nu_Resources r));
          nics = nic_PrivateIPInterfaces (nr_NICInfo (nu_Resources r)) in
      length gpus \<le> 64 \<and> list_all (gpu_ok V) gpus \<and> distinct (nonempty_uuids gpus) \<and>
      length disks \<le> 512 \<and> list_all disk_ok disks \<and> length nics \<le> 128 \<and> list_all (nic_ok V) nics) \<and>
     (cpu_LogicalCores (nr_CPUInfo (nu_Resources r)) = [] \<or>
      (\<exists>n. ParseInt (cpu_LogicalCores (nr_CPUInfo (nu_Resources r))) = Some n \<and> 0 \<le> n)) \<and>
     (mem_TotalBytes (nr_MemoryInfo (nu_Resources r)) = [] \<or>
      (\<exists>n. ParseUint 64 (mem_TotalBytes (nr_MemoryInfo (nu_Resources r))) = Some n))"

lemma lists_Nil:
  "concat (map disk_issues (enumerate n ds)) = [] \<longleftrightarrow> list_all disk_ok ds"
  "concat (map (nic_issues V) (enumerate n cs)) = [] \<longleftrightarrow> list_all (nic_ok V) cs"
  unfolding concat_enumerate_Nil disk_issues_Nil nic_issues_Nil by (rule enumerate_all)+

lemma node_issues_Nil: "ValidateNodeUpsertRequest V (Some r) = [] \<longleftrightarrow> node_request_ok V r"
  unfolding ValidateNodeUpsertRequest_def option.case append_is_Nil_conv gpu_issues_Nil lists_Nil
    cores_issues_Nil memory_issues_Nil node_request_ok_def Let_def
  by (simp add: silent_iff) blast

text \<open>OTLP payloads.\<close>

definition attrs_ok :: "attributes \<Rightarrow> bool" where
  "attrs_ok attrs \<longleftrightarrow> TrimSpace (lookupAttr attrs ''service.name'') \<noteq> [] \<and> TrimSpace (lookupAttr attrs ''machine.id'') \<noteq> []"

definition point_ok :: "number_data_point \<Rightarrow> bool" where
  "point_ok dp \<longleftrightarrow> dp_TimeUnixNano dp \<noteq> 0 \<and> (\<forall>b. dp_Value dp \<notin> {AsDouble FNaN, AsDouble (FInf b)})"

definition metric_ok :: "otlp_metric \<Rightarrow> bool" where
  "metric_ok m \<longleftrightarrow> (case om_Data m of GaugeData dps \<Rightarrow> list_all point_ok dps | SumData _ _ dps \<Rightarrow> list_all point_ok dps | OtherData \<Rightarrow> True)"

definition otlp_ok :: "otlp_data \<Rightarrow> bool" where
  "otlp_ok d \<longleftrightarrow> (od_Metrics d \<noteq> None \<or> od_Logs d \<noteq> None) \<and>
     (case od_Metrics d of None \<Rightarrow> True
      | Some rms \<Rightarrow> list_all (\<lambda>rm. attrs_ok (rm_Attributes rm) \<and> list_all (\<lambda>sm. list_all metric_ok (sm_Metrics sm)) (rm_ScopeMetrics rm)) rms) \<and>
     (case od_Logs d of None \<Rightarrow> True
      | Some rls \<Rightarrow> list_all (\<lambda>rl. attrs_ok (rl_Attributes rl) \<and>
          list_all (\<lambda>sl. list_all (\<lambda>r. lr_TimeUnixNano r \<noteq> 0 \<and> lr_Body r \<noteq> None) (sl_LogRecords sl)) (rl_ScopeLogs rl)) rls)"

lemma concat_map_enumerate_Nil:
  "(\<And>i x. f (i, x) = [] \<longleftrightarrow> P x) \<Longrightarrow> concat (map f (enumerate n xs)) = [] \<longleftrightarrow> list_all P xs"
  unfolding concat_enumerate_Nil by (simp add: enumerate_all)

lemma attrs_Nil: "validateOTLPResourceAttrs f attrs = [] \<longleftrightarrow> attrs_ok attrs"
  by (simp add: validateOTLPResourceAttrs_def attrs_ok_def)

lemma point_Nil: "validateNumberDataPoint p dp = [] \<longleftrightarrow> point_ok dp"
  by (auto simp: validateNumberDataPoint_def point_ok_def split: point_value.splits go_float.splits)

lemma metric_Nil: "metric_issues p m = [] \<longleftrightarrow> metric_ok m"
proof -
  have "points_issues b dps = [] \<longleftrightarrow> list_all point_ok dps" for b dps
    unfolding points_issues_def by (rule concat_map_enumerate_Nil) (simp add: point_Nil)
  then show ?thesis by (simp add: metric_issues_def metric_ok_def split: metric_data.split)
qed

lemma metrics_Nil:
  "validateOTLPMetrics rms = [] \<longleftrightarrow>
     list_all (\<lambda>rm. attrs_ok (rm_Attributes rm) \<and> list_all (\<lambda>sm. list_all metric_ok (sm_Metrics sm)) (rm_ScopeMetrics rm)) rms"
  unfolding validateOTLPMetrics_def
  by (rule concat_map_enumerate_Nil)
     (simp only: prod.case Let_def append_is_Nil_conv attrs_Nil, subst concat_map_enumerate_Nil [where P = "\<lambda>sm. list_all metric_ok (sm_Metrics sm)"],
      simp only: prod.case, rule concat_map_enumerate_Nil, simp_all add: metric_Nil)

lemma logs_Nil:
  "validateOTLPLogs rls = [] \<longleftrightarrow>
     list_all (\<lambda>rl. attrs_ok (rl_Attributes rl) \<and>
       list_all (\<lambda>sl. list_all (\<lambda>r. lr_TimeUnixNano r \<noteq> 0 \<and> lr_Body r \<noteq> None) (sl_LogRecords sl)) (rl_ScopeLogs rl)) rls"
  unfolding validateOTLPLogs_def
  by (rule concat_map_enumerate_Nil)
     (simp only: prod.case Let_def append_is_Nil_conv attrs_Nil,
      subst concat_map_enumerate_Nil [where P = "\<lambda>sl. list_all (\<lambda>r. lr_TimeUnixNano r \<noteq> 0 \<and> lr_Body r \<noteq> None) (sl_LogRecords sl)"],
      simp only: prod.case, rule concat_map_enumerate_Nil, simp_all add: log_issues_def)

lemma otlp_issues_Nil: "ValidateOTLPPayload (Some d) = [] \<longleftrightarrow> otlp_ok d"
  by (auto simp: ValidateOTLPPayload_def otlp_ok_def metrics_Nil logs_Nil split: option.splits)

section \<open>Properties\<close>

text \<open>The node-request validator reports exactly the ill-formed requests: it is silent if and only if
  hostname, machine ID and system UUID are present, every length, cardinality and numeric bound holds,
  times are in UTC and plausible, addresses and GPU UUIDs parse, no two GPUs share a non-empty UUID, and
  the CPU and memory counts are decimal numbers in range; a nil request is always reported.\<close>

theorem node_request_silent_iff_ok:
  "(ValidateNodeUpsertRequest V (Some r) = [] \<longleftrightarrow> node_request_ok V r) \<and> ValidateNodeUpsertRequest V None \<noteq> []"
  using node_issues_Nil [of V r] by (simp add: ValidateNodeUpsertRequest_def [of V None])

text \<open>The OTLP validator is silent exactly on payloads with metrics or logs in which every resource
  has a non-blank \<open>service.name\<close> and \<open>machine.id\<close>, every gauge and sum point has a timestamp and a finite
  value, and every log record has a timestamp and a body.\<close>

theorem otlp_payload_silent_iff_ok:
  "ValidateOTLPPayload (Some d) = [] \<longleftrightarrow> otlp_ok d"
  by (rule otlp_issues_Nil)

end
