(* ===== verification/Machine_Info.thy ===== *)
theory Machine_Info
  imports Backend_Client
begin

text \<open>
  The machine information the agent collects: the record \<open>machineinfo.MachineInfo\<close> and the functions of
  \<open>internal/machineinfo/machineinfo.go\<close>.  What the SDK reports is the record \<open>sdk_machine_info\<close>, which
  \<open>machine_info\<close> extends by the agent's own fields; a slice that is only iterated is a list.  The records
  of a disk and of a network interface extend those of the backend contract by the fields that stay on
  the node.
\<close>

section \<open>Data\<close>

record machine_gpu =
  mg_UUID :: string
  mg_GPUIndex :: string
  mg_BusID :: string
  mg_ModelName :: string
  mg_ClusterUUID :: string
  mg_CliqueID :: "32 word option"
  mg_SN :: string
  mg_MinorID :: string
  mg_BoardID :: "32 word"
  mg_VBIOSVersion :: string
  mg_ChassisSN :: string

record machine_gpu_info =
  mgi_Product :: string
  mgi_Manufacturer :: string
  mgi_Architecture :: string
  mgi_Memory :: string
  mgi_GPUs :: "machine_gpu list"

record inv_cpu_info =
  ic_Type :: string
  ic_Manufacturer :: string
  ic_Architecture :: string
  ic_LogicalCores :: "64 word"

record machine_disk_device = block_device +
  mdd_Used :: int
  mdd_Serial :: string
  mdd_Model :: string

record machine_disk_info =
  md_ContainerRootDisk :: string
  md_BlockDevices :: "machine_disk_device list"

text \<open>A \<open>netip.Addr\<close>: the zero value, four bytes, or sixteen bytes.\<close>

datatype netip_addr = NoAddr | Addr4 "8 word list" | Addr6 "8 word list"

record machine_nic = nic_interface +
  mn_Addr :: netip_addr

record sdk_machine_info =
  mi_GPUDriverVersion :: string
  mi_CUDAVersion :: string
  mi_ContainerRuntimeVersion :: string
  mi_KernelVersion :: string
  mi_OSImage :: string
  mi_OperatingSystem :: string
  mi_SystemUUID :: string
  mi_MachineID :: string
  mi_BootID :: string
  mi_Hostname :: string
  mi_Uptime :: gotime
  mi_CPUInfo :: "inv_cpu_info option"
  mi_MemoryInfo :: "64 word option"
  mi_GPUInfo :: "machine_gpu_info option"
  mi_DiskInfo :: "machine_disk_info option"
  mi_NICInfo :: "machine_nic list option"

record machine_info = sdk_machine_info +
  mi_AgentVersion :: string
  mi_DCGMVersion :: string

section \<open>Operations\<close>

text \<open>
  \<open>GetMachineInfo\<close>: \<open>hostname_env\<close> is the variable \<open>HOSTNAME\<close>, \<open>dcgm\<close> the result of the version probe,
  whose error is dropped with an empty version.
\<close>

definition GetMachineInfo :: "string \<Rightarrow> string \<Rightarrow> (string, string) result \<Rightarrow> (string, sdk_machine_info) result
    \<Rightarrow> (string, machine_info) result" where
  "GetMachineInfo agent_version hostname_env dcgm sdk = (case sdk of
      Inl e \<Rightarrow> Error e
    | Inr gpudInfo0 \<Rightarrow>
        (let gpudInfo = (if TrimSpace hostname_env \<noteq> [] then gpudInfo0\<lparr>mi_Hostname := TrimSpace hostname_env\<rparr> else gpudInfo0);
             dcgmVersion = (case dcgm of Inl _ \<Rightarrow> [] | Inr v \<Rightarrow> v)
         in Ok \<lparr>mi_GPUDriverVersion = mi_GPUDriverVersion gpudInfo, mi_CUDAVersion = mi_CUDAVersion gpudInfo,
                mi_ContainerRuntimeVersion = mi_ContainerRuntimeVersion gpudInfo, mi_KernelVersion = mi_KernelVersion gpudInfo,
                mi_OSImage = mi_OSImage gpudInfo, mi_OperatingSystem = mi_OperatingSystem gpudInfo,
                mi_SystemUUID = mi_SystemUUID gpudInfo, mi_MachineID = mi_MachineID gpudInfo,
                mi_BootID = mi_BootID gpudInfo, mi_Hostname = mi_Hostname gpudInfo, mi_Uptime = mi_Uptime gpudInfo,
                mi_CPUInfo = mi_CPUInfo gpudInfo, mi_MemoryInfo = mi_MemoryInfo gpudInfo, mi_GPUInfo = mi_GPUInfo gpudInfo,
                mi_DiskInfo = mi_DiskInfo gpudInfo, mi_NICInfo = mi_NICInfo gpudInfo,
                mi_AgentVersion = agent_version, mi_DCGMVersion = dcgmVersion\<rparr>))"

definition Is4 :: "netip_addr \<Rightarrow> bool" where
  "Is4 a = (case a of Addr4 _ \<Rightarrow> True | _ \<Rightarrow> False)"

definition byte_at :: "8 word list \<Rightarrow> nat \<Rightarrow> nat" where
  "byte_at bs i = (if i < length bs then unat (bs ! i) else 0)"

definition IsPrivate :: "netip_addr \<Rightarrow> bool" where
  "IsPrivate a = (case a of
      NoAddr \<Rightarrow> False
    | Addr4 b \<Rightarrow> byte_at b 0 = 10 \<or> byte_at b 0 = 172 \<and> byte_at b 1 div 16 = 1 \<or> byte_at b 0 = 192 \<and> byte_at b 1 = 168
    | Addr6 b \<Rightarrow> byte_at b 0 div 2 = 126)"

fun first_private_ip :: "machine_nic list \<Rightarrow> string option" where
  "first_private_ip [] = None"
| "first_private_ip (n # ns) =
     (if ni_IP n = [] then first_private_ip ns
      else if IsPrivate (mn_Addr n) \<and> Is4 (mn_Addr n) then Some (ni_IP n)
      else first_private_ip ns)"

text \<open>\<open>PopulatePrivateIPFromMachineInfo\<close> on the private IP of the provider (\<^const>\<open>None\<close>: no provider).\<close>

definition PopulatePrivateIPFromMachineInfo :: "string option \<Rightarrow> machine_info option \<Rightarrow> string option" where
  "PopulatePrivateIPFromMachineInfo provider info = (case provider of
      None \<Rightarrow> None
    | Some ip \<Rightarrow>
        if ip \<noteq> [] then Some ip
        else (case info of
            None \<Rightarrow> Some ip
          | Some i \<Rightarrow> (case mi_NICInfo i of
              None \<Rightarrow> Some ip
            | Some nics \<Rightarrow> (case first_private_ip nics of None \<Rightarrow> Some ip | Some p \<Rightarrow> Some p))))"

text \<open>
  The rows \<open>RenderTable\<close> appends; drawing the table, and the tables of the disks and GPUs, are the table
  library's and the SDK's.  \<open>ibytes\<close> is \<open>humanize.IBytes\<close>.
\<close>

definition nic_rows :: "machine_nic list \<Rightarrow> string list list" where
  "nic_rows nics = map (\<lambda>(idx, nic). [''Private IP Interface '' @ FormatNat (idx + 1),
     ni_Interface nic @ '' ('' @ ni_MAC nic @ '', '' @ ni_IP nic @ '')'']) (enumerate 0 nics)"

definition RenderTable_rows :: "(64 word \<Rightarrow> string) \<Rightarrow> machine_info \<Rightarrow> string list list" where
  "RenderTable_rows ibytes i =
     [[''Agent Version'', mi_AgentVersion i],
      [''Container Runtime Version'', mi_ContainerRuntimeVersion i],
      [''OS Image'', mi_OSImage i],
      [''Kernel Version'', mi_KernelVersion i]] @
     (case mi_CPUInfo i of None \<Rightarrow> [] | Some c \<Rightarrow>
        [[''CPU Type'', ic_Type c], [''CPU Manufacturer'', ic_Manufacturer c],
         [''CPU Architecture'', ic_Architecture c], [''CPU Logical Cores'', FormatInt (sint (ic_LogicalCores c))]]) @
     (case mi_MemoryInfo i of None \<Rightarrow> [] | Some m \<Rightarrow> [[''Memory Total'', ibytes m]]) @
     [[''CUDA Version'', mi_CUDAVersion i], [''DCGM Version'', mi_DCGMVersion i]] @
     (case mi_GPUInfo i of None \<Rightarrow> [] | Some g \<Rightarrow>
        [[''GPU Driver Version'', mi_GPUDriverVersion i], [''GPU Product'', mgi_Product g],
         [''GPU Manufacturer'', mgi_Manufacturer g], [''GPU Architecture'', mgi_Architecture g],
         [''GPU Memory'', mgi_Memory g]]) @
     (case mi_NICInfo i of None \<Rightarrow> [] | Some nics \<Rightarrow> nic_rows nics) @
     (case mi_DiskInfo i of None \<Rightarrow> [] | Some d \<Rightarrow> [[''Container Root Disk'', md_ContainerRootDisk d]])"

section \<open>Properties\<close>

lemma first_private_ip_Some:
  "first_private_ip ns = Some ip \<Longrightarrow>
     \<exists>n \<in> set ns. ni_IP n = ip \<and> ip \<noteq> [] \<and> IsPrivate (mn_Addr n) \<and> Is4 (mn_Addr n)"
  by (induction ns) (auto split: if_splits)

lemma GetMachineInfo_Ok:
  "GetMachineInfo v h dcgm (Inr sdk) = Inr i \<Longrightarrow>
     mi_AgentVersion i = v \<and> mi_Hostname i = (if TrimSpace h \<noteq> [] then TrimSpace h else mi_Hostname sdk)
     \<and> mi_GPUInfo i = mi_GPUInfo sdk \<and> mi_GPUDriverVersion i = mi_GPUDriverVersion sdk"
  by (auto simp: GetMachineInfo_def Let_def)

end
