(* ===== verification/Inventory.thy ===== *)
theory Inventory
  imports Agent_State Machine_Info Outbound_Validation Config
begin

text \<open>
  \<open>internal/inventory\<close> with its \<open>source\<close>, \<open>mapper\<close> and \<open>sink\<close>: collecting machine information into a
  snapshot, hashing it, mapping it to the backend contract, exporting it, and the manager's loop.

  A slice that may be nil is an option, because JSON encoding tells nil and empty apart.  The JSON
  encoder and SHA-256 are the record \<open>hashlib\<close>; as \<open>json.Marshal\<close> builds the text of a struct from the
  texts of its parts, \<open>hl_frame\<close> takes the snapshot with its three device lists removed and the lists of
  their encoded elements.  The agent state is the database of \<open>Agent_State\<close>, the backend the client of
  \<open>Backend_Client\<close>.  \<open>run_step\<close> is the step relation of the mutex that keeps attempts apart.
\<close>

section \<open>Definitions\<close>

subsection \<open>Machine information and snapshots\<close>

record inv_agent_config =
  ia_TotalComponents :: int
  ia_RetentionPeriodSeconds :: int
  ia_MetricScrapeIntervalSeconds :: int
  ia_EnabledComponents :: "string list option"
  ia_DisabledComponents :: "string list option"
  ia_InventoryEnabled :: bool
  ia_InventoryIntervalSeconds :: int
  ia_AttestationEnabled :: bool
  ia_AttestationIntervalSeconds :: int

record inv_gpu_info =
  ig_Product :: string
  ig_Manufacturer :: string
  ig_Architecture :: string
  ig_Memory :: string
  ig_GPUs :: "gpu_device list option"

record inv_block_device =
  ib_Name :: string
  ib_Type :: string
  ib_Size :: int
  ib_WWN :: string
  ib_MountPoint :: string
  ib_FSType :: string
  ib_PartUUID :: string
  ib_Parents :: "string list option"

record inv_disk_info =
  id_ContainerRootDisk :: string
  id_BlockDevices :: "inv_block_device list option"

record inv_resources =
  ir_CPUInfo :: inv_cpu_info
  ir_MemoryInfo :: "64 word"
  ir_GPUInfo :: inv_gpu_info
  ir_DiskInfo :: inv_disk_info
  ir_NICInfo :: "nic_interface list option"

record snapshot =
  sn_CollectedAt :: gotime
  sn_InventoryHash :: string
  sn_Hostname :: string
  sn_MachineID :: string
  sn_SystemUUID :: string
  sn_BootID :: string
  sn_Uptime :: gotime
  sn_OperatingSystem :: string
  sn_OSImage :: string
  sn_KernelVersion :: string
  sn_AgentVersion :: string
  sn_GPUDriverVersion :: string
  sn_CUDAVersion :: string
  sn_DCGMVersion :: string
  sn_ContainerRuntimeVersion :: string
  sn_NetPrivateIP :: string
  sn_AgentConfig :: inv_agent_config
  sn_Resources :: inv_resources

subsection \<open>Source\<close>

datatype inventory_error =
    ErrNotReady
  | CollectorRequired
  | CollectorFailed string
  | NilMachineInfo
  | SourceRequired
  | NilSnapshot
  | HashSnapshotNil
  | CanonicalizeFailed
  | MarshalSnapshot
  | SinkStateRequired
  | SinkFactoryRequired
  | SinkSnapshotRequired
  | SinkState state_error
  | SinkClient client_error
  | SinkUpsert client_error
  | PersistPlacement state_error
  | StillRunning
  | ContextDone

text \<open>A non-empty list makes a non-nil slice; the code leaves the slice nil otherwise.\<close>

definition slice_of :: "('a \<Rightarrow> 'b) \<Rightarrow> 'a list \<Rightarrow> 'b list option" where
  "slice_of f xs = (if xs = [] then None else Some (map f xs))"

definition collect_gpu :: "machine_gpu \<Rightarrow> gpu_device" where
  "collect_gpu g = \<lparr>gd_UUID = mg_UUID g, gd_BusID = mg_BusID g, gd_ClusterUUID = mg_ClusterUUID g,
     gd_CliqueID = (case mg_CliqueID g of None \<Rightarrow> None | Some i \<Rightarrow> Some i), gd_SN = mg_SN g, gd_MinorID = mg_MinorID g,
     gd_BoardID = int (unat (mg_BoardID g)), gd_VBIOSVersion = mg_VBIOSVersion g, gd_ChassisSN = mg_ChassisSN g,
     gd_GPUIndex = mg_GPUIndex g\<rparr>"

definition collect_disk :: "machine_disk_device \<Rightarrow> inv_block_device" where
  "collect_disk d = \<lparr>ib_Name = bd_Name d, ib_Type = bd_Type d, ib_Size = bd_Size d, ib_WWN = bd_WWN d,
     ib_MountPoint = bd_MountPoint d, ib_FSType = bd_FSType d, ib_PartUUID = bd_PartUUID d,
     ib_Parents = slice_of (\<lambda>p. p) (bd_Parents d)\<rparr>"

definition empty_cpu :: inv_cpu_info where
  "empty_cpu = \<lparr>ic_Type = [], ic_Manufacturer = [], ic_Architecture = [], ic_LogicalCores = 0\<rparr>"

text \<open>\<open>machineInfoSource.Collect\<close>: the collector (\<open>None\<close> is nil) returns an error or a possibly nil info.\<close>

definition source_Collect :: "gotime \<Rightarrow> inv_agent_config \<Rightarrow> (string, machine_info option) result option
    \<Rightarrow> (inventory_error, snapshot) result" where
  "source_Collect now cfg collector =
     (case collector of
        None \<Rightarrow> Error CollectorRequired
      | Some (Inl e) \<Rightarrow> Error (CollectorFailed e)
      | Some (Inr None) \<Rightarrow> Error NilMachineInfo
      | Some (Inr (Some info)) \<Rightarrow> Ok
         \<lparr>sn_CollectedAt = to_utc now, sn_InventoryHash = [], sn_Hostname = mi_Hostname info,
          sn_MachineID = mi_MachineID info, sn_SystemUUID = mi_SystemUUID info, sn_BootID = mi_BootID info,
          sn_Uptime = mi_Uptime info, sn_OperatingSystem = mi_OperatingSystem info, sn_OSImage = mi_OSImage info,
          sn_KernelVersion = mi_KernelVersion info, sn_AgentVersion = mi_AgentVersion info,
          sn_GPUDriverVersion = mi_GPUDriverVersion info, sn_CUDAVersion = mi_CUDAVersion info,
          sn_DCGMVersion = mi_DCGMVersion info, sn_ContainerRuntimeVersion = mi_ContainerRuntimeVersion info,
          sn_NetPrivateIP = (case mi_NICInfo info of Some (nic # _) \<Rightarrow> ni_IP nic | _ \<Rightarrow> []),
          sn_AgentConfig = cfg,
          sn_Resources = \<lparr>
            ir_CPUInfo = (case mi_CPUInfo info of None \<Rightarrow> empty_cpu | Some c \<Rightarrow> c),
            ir_MemoryInfo = (case mi_MemoryInfo info of None \<Rightarrow> 0 | Some m \<Rightarrow> m),
            ir_GPUInfo = (case mi_GPUInfo info of
                None \<Rightarrow> \<lparr>ig_Product = [], ig_Manufacturer = [], ig_Architecture = [], ig_Memory = [], ig_GPUs = None\<rparr>
              | Some g \<Rightarrow> \<lparr>ig_Product = mgi_Product g, ig_Manufacturer = mgi_Manufacturer g, ig_Architecture = mgi_Architecture g,
                    ig_Memory = mgi_Memory g, ig_GPUs = slice_of collect_gpu (mgi_GPUs g)\<rparr>),
            ir_DiskInfo = (case mi_DiskInfo info of
                None \<Rightarrow> \<lparr>id_ContainerRootDisk = [], id_BlockDevices = None\<rparr>
              | Some d \<Rightarrow> \<lparr>id_ContainerRootDisk = md_ContainerRootDisk d, id_BlockDevices = slice_of collect_disk (md_BlockDevices d)\<rparr>),
            ir_NICInfo = (case mi_NICInfo info of
                None \<Rightarrow> None
              | Some nics \<Rightarrow> slice_of (\<lambda>c. \<lparr>ni_Interface = ni_Interface c, ni_MAC = ni_MAC c, ni_IP = ni_IP c\<rparr>) nics)\<rparr>\<rparr>)"

subsection \<open>Hash\<close>

record hashlib =
  hl_gpu :: "gpu_device \<Rightarrow> string option"
  hl_disk :: "inv_block_device \<Rightarrow> string option"
  hl_nic :: "nic_interface \<Rightarrow> string option"
  hl_frame :: "snapshot \<Rightarrow> string list option \<Rightarrow> string list option \<Rightarrow> string list option \<Rightarrow> string option"
  hl_sha256_hex :: "string \<Rightarrow> string"

definition sortedStrings :: "string list option \<Rightarrow> string list option" where
  "sortedStrings values = (case values of None \<Rightarrow> None | Some xs \<Rightarrow> Some (sort_Strings xs))"

fun encode_all :: "('a \<Rightarrow> string option) \<Rightarrow> 'a list \<Rightarrow> ('a \<times> string) list option" where
  "encode_all enc [] = Some []"
| "encode_all enc (x # xs) =
     (case enc x of
        None \<Rightarrow> None
      | Some s \<Rightarrow> (case encode_all enc xs of None \<Rightarrow> None | Some ys \<Rightarrow> Some ((x, s) # ys)))"

text \<open>The items with their encodings, stably sorted by encoding.\<close>

definition sortedByCanonicalJSON :: "('a \<Rightarrow> string option) \<Rightarrow> 'a list option \<Rightarrow> (inventory_error, ('a \<times> string) list option) result" where
  "sortedByCanonicalJSON enc values =
     (case values of
        None \<Rightarrow> Ok None
      | Some xs \<Rightarrow> (case encode_all enc xs of
            None \<Rightarrow> Error CanonicalizeFailed
          | Some items \<Rightarrow> Ok (Some (sort_key snd items))))"

definition normalizedBlockDevices :: "(inv_block_device \<Rightarrow> string option) \<Rightarrow> inv_block_device list option
    \<Rightarrow> (inventory_error, (inv_block_device \<times> string) list option) result" where
  "normalizedBlockDevices enc values =
     (case values of
        None \<Rightarrow> Ok None
      | Some xs \<Rightarrow> sortedByCanonicalJSON enc (Some (map (\<lambda>d. d\<lparr>ib_Parents := sortedStrings (ib_Parents d)\<rparr>) xs)))"

text \<open>The snapshot without its device lists, time of collection and hash, with sorted component lists.\<close>

definition hash_frame :: "snapshot \<Rightarrow> snapshot" where
  "hash_frame s = s\<lparr>sn_CollectedAt := zero_time, sn_InventoryHash := [],
     sn_AgentConfig := (sn_AgentConfig s)\<lparr>
       ia_EnabledComponents := sortedStrings (ia_EnabledComponents (sn_AgentConfig s)),
       ia_DisabledComponents := sortedStrings (ia_DisabledComponents (sn_AgentConfig s))\<rparr>,
     sn_Resources := (sn_Resources s)\<lparr>
       ir_GPUInfo := (ir_GPUInfo (sn_Resources s))\<lparr>ig_GPUs := None\<rparr>,
       ir_DiskInfo := (ir_DiskInfo (sn_Resources s))\<lparr>id_BlockDevices := None\<rparr>,
       ir_NICInfo := None\<rparr>\<rparr>"

definition ComputeHash :: "hashlib \<Rightarrow> snapshot option \<Rightarrow> (inventory_error, string) result" where
  "ComputeHash H snap =
     (case snap of
        None \<Rightarrow> Error HashSnapshotNil
      | Some s \<Rightarrow>
          (case sortedByCanonicalJSON (hl_gpu H) (ig_GPUs (ir_GPUInfo (sn_Resources s))) of
             Inl e \<Rightarrow> Error e
           | Inr gpus \<Rightarrow> (case normalizedBlockDevices (hl_disk H) (id_BlockDevices (ir_DiskInfo (sn_Resources s))) of
               Inl e \<Rightarrow> Error e
             | Inr disks \<Rightarrow> (case sortedByCanonicalJSON (hl_nic H) (ir_NICInfo (sn_Resources s)) of
                 Inl e \<Rightarrow> Error e
               | Inr nics \<Rightarrow>
                   (case hl_frame H (hash_frame s) (map_option (map snd) gpus) (map_option (map snd) disks)
                          (map_option (map snd) nics) of
                      None \<Rightarrow> Error MarshalSnapshot
                    | Some payload \<Rightarrow> Ok (hl_sha256_hex H payload))))))"

subsection \<open>Mapper\<close>

definition slice_list :: "'a list option \<Rightarrow> 'a list" where
  "slice_list s = (case s of None \<Rightarrow> [] | Some xs \<Rightarrow> xs)"

definition map_gpu :: "gpu_device \<Rightarrow> gpu_device" where
  "map_gpu g = \<lparr>gd_UUID = gd_UUID g, gd_BusID = gd_BusID g, gd_ClusterUUID = gd_ClusterUUID g,
     gd_CliqueID = (case gd_CliqueID g of None \<Rightarrow> None | Some i \<Rightarrow> Some i), gd_SN = gd_SN g, gd_MinorID = gd_MinorID g,
     gd_BoardID = gd_BoardID g, gd_VBIOSVersion = gd_VBIOSVersion g, gd_ChassisSN = gd_ChassisSN g,
     gd_GPUIndex = gd_GPUIndex g\<rparr>"

definition map_disk :: "inv_block_device \<Rightarrow> block_device" where
  "map_disk d = \<lparr>bd_Name = ib_Name d, bd_Type = ib_Type d, bd_Size = ib_Size d, bd_WWN = ib_WWN d,
     bd_MountPoint = ib_MountPoint d, bd_FSType = ib_FSType d, bd_PartUUID = ib_PartUUID d,
     bd_Parents = slice_list (ib_Parents d)\<rparr>"

definition map_nic :: "nic_interface \<Rightarrow> nic_interface" where
  "map_nic c = \<lparr>ni_Interface = ni_Interface c, ni_MAC = ni_MAC c, ni_IP = ni_IP c\<rparr>"

definition map_agent_config :: "inv_agent_config \<Rightarrow> agent_config" where
  "map_agent_config a = \<lparr>ac_TotalComponents = ia_TotalComponents a, ac_RetentionPeriodSeconds = ia_RetentionPeriodSeconds a,
     ac_MetricScrapeIntervalSeconds = ia_MetricScrapeIntervalSeconds a,
     ac_EnabledComponents = slice_list (ia_EnabledComponents a), ac_DisabledComponents = slice_list (ia_DisabledComponents a),
     ac_InventoryEnabled = ia_InventoryEnabled a, ac_InventoryIntervalSeconds = ia_InventoryIntervalSeconds a,
     ac_AttestationEnabled = ia_AttestationEnabled a, ac_AttestationIntervalSeconds = ia_AttestationIntervalSeconds a\<rparr>"

definition map_resources :: "inv_resources \<Rightarrow> node_resources" where
  "map_resources r = \<lparr>
     nr_CPUInfo = \<lparr>cpu_Type = ic_Type (ir_CPUInfo r), cpu_Manufacturer = ic_Manufacturer (ir_CPUInfo r),
       cpu_Architecture = ic_Architecture (ir_CPUInfo r), cpu_LogicalCores = FormatInt (sint (ic_LogicalCores (ir_CPUInfo r)))\<rparr>,
     nr_MemoryInfo = \<lparr>mem_TotalBytes = FormatNat (unat (ir_MemoryInfo r))\<rparr>,
     nr_GPUInfo = \<lparr>gpu_Product = ig_Product (ir_GPUInfo r), gpu_Manufacturer = ig_Manufacturer (ir_GPUInfo r),
       gpu_Architecture = ig_Architecture (ir_GPUInfo r), gpu_Memory = ig_Memory (ir_GPUInfo r),
       gpu_GPUs = map map_gpu (slice_list (ig_GPUs (ir_GPUInfo r)))\<rparr>,
     nr_DiskInfo = \<lparr>di_ContainerRootDisk = id_ContainerRootDisk (ir_DiskInfo r),
       di_BlockDevices = map map_disk (slice_list (id_BlockDevices (ir_DiskInfo r)))\<rparr>,
     nr_NICInfo = \<lparr>nic_PrivateIPInterfaces = map map_nic (slice_list (ir_NICInfo r))\<rparr>\<rparr>"

definition ToNodeUpsertRequest :: "snapshot option \<Rightarrow> node_upsert_request option" where
  "ToNodeUpsertRequest snap =
     (case snap of
        None \<Rightarrow> None
      | Some s \<Rightarrow> Some
         \<lparr>nu_Hostname = sn_Hostname s, nu_AgentConfig = map_agent_config (sn_AgentConfig s),
          nu_Resources = map_resources (sn_Resources s), nu_AgentVersion = sn_AgentVersion s,
          nu_GPUDriverVersion = sn_GPUDriverVersion s, nu_CUDAVersion = sn_CUDAVersion s, nu_DCGMVersion = sn_DCGMVersion s,
          nu_ContainerRuntimeVersion = sn_ContainerRuntimeVersion s, nu_KernelVersion = sn_KernelVersion s,
          nu_OSImage = sn_OSImage s, nu_OperatingSystem = sn_OperatingSystem s, nu_SystemUUID = sn_SystemUUID s,
          nu_BootID = sn_BootID s,
          nu_Uptime = (if is_zero_time (sn_Uptime s) then None else Some (to_utc (sn_Uptime s))),
          nu_EnrolledAt = None, nu_NetPrivateIP = sn_NetPrivateIP s, nu_NodeGroup = [], nu_ComputeZone = [],
          nu_MachineID = sn_MachineID s\<rparr>)"

subsection \<open>Backend sink\<close>

text \<open>The libraries and services the sink works with; the state and the client factory may be nil.\<close>

record sink_env =
  sk_net :: netlib
  sk_time :: timelib
  sk_codec :: codec
  sk_state :: "sqlite_env option"
  sk_factory :: "(string \<Rightarrow> (client_error, client) result) option"

definition with_placement :: "(state_error, string option \<times> string option) result \<Rightarrow> node_upsert_request \<Rightarrow> node_upsert_request" where
  "with_placement placement req =
     (case placement of
        Inl _ \<Rightarrow> req
      | Inr (ng, cz) \<Rightarrow>
          (let r1 = (case ng of None \<Rightarrow> req | Some g \<Rightarrow> req\<lparr>nu_NodeGroup := g\<rparr>)
           in case cz of None \<Rightarrow> r1 | Some z \<Rightarrow> r1\<lparr>nu_ComputeZone := z\<rparr>))"

definition with_enrolled_at :: "(state_error, gotime option) result \<Rightarrow> node_upsert_request \<Rightarrow> node_upsert_request" where
  "with_enrolled_at t req =
     (case t of
        Inr (Some x) \<Rightarrow> if is_zero_time x then req else req\<lparr>nu_EnrolledAt := Some (to_utc x)\<rparr>
      | _ \<Rightarrow> req)"

definition or_empty :: "string option \<Rightarrow> string" where
  "or_empty v = (case v of None \<Rightarrow> [] | Some s \<Rightarrow> s)"

definition placement_differs :: "(state_error, string option \<times> string option) result \<Rightarrow> node_upsert_response \<Rightarrow> bool" where
  "placement_differs placement resp =
     (case placement of
        Inl _ \<Rightarrow> False
      | Inr (ng, cz) \<Rightarrow> nur_NodeGroup resp \<noteq> or_empty ng \<or> nur_ComputeZone resp \<noteq> or_empty cz)"

text \<open>What the sink needs of the agent state to send anything: base URL, JWT and agent UUID.\<close>

definition sink_credentials :: "sink_env \<Rightarrow> sqlite_env \<Rightarrow> database \<Rightarrow> (inventory_error, string \<times> string \<times> string) result" where
  "sink_credentials K E db =
     (case GetBackendBaseURL (sk_net K) E db of
        Inl e \<Rightarrow> Error (SinkState e)
      | Inr None \<Rightarrow> Error ErrNotReady
      | Inr (Some baseURL) \<Rightarrow>
          if baseURL = [] then Error ErrNotReady
          else (case GetJWT E db of
              Inl e \<Rightarrow> Error (SinkState e)
            | Inr None \<Rightarrow> Error ErrNotReady
            | Inr (Some jwt) \<Rightarrow>
                if jwt = [] then Error ErrNotReady
                else (case GetAgentUUID E db of
                    Inl e \<Rightarrow> Error (SinkState e)
                  | Inr None \<Rightarrow> Error ErrNotReady
                  | Inr (Some agentUUID) \<Rightarrow>
                      if agentUUID = [] then Error ErrNotReady else Ok (baseURL, jwt, agentUUID))))"

definition sink_Export :: "sink_env \<Rightarrow> snapshot option \<Rightarrow> database
    \<Rightarrow> (inventory_error, unit) result \<times> database \<times> http_request list" where
  "sink_Export K snap db =
     (case sk_state K of
        None \<Rightarrow> (Error SinkStateRequired, db, [])
      | Some E \<Rightarrow> (case sk_factory K of
          None \<Rightarrow> (Error SinkFactoryRequired, db, [])
        | Some factory \<Rightarrow> (case ToNodeUpsertRequest snap of
            None \<Rightarrow> (Error SinkSnapshotRequired, db, [])
          | Some req0 \<Rightarrow> (case sink_credentials K E db of
              Inl e \<Rightarrow> (Error e, db, [])
            | Inr (baseURL, jwt, agentUUID) \<Rightarrow> (case factory baseURL of
                Inl e \<Rightarrow> (Error (SinkClient e), db, [])
              | Inr client \<Rightarrow>
                 (let placement = GetNodePlacement E db;
                      req = with_enrolled_at (GetEnrollmentTime (sk_time K) E db) (with_placement placement req0)
                  in case UpsertNode (sk_net K) (sk_codec K) client agentUUID (Some req) jwt of
                       (Inl e, rqs) \<Rightarrow> (Error (SinkUpsert e), db, rqs)
                     | (Inr resp, rqs) \<Rightarrow>
                         if placement_differs placement resp then
                           (case SetNodePlacement E (nur_NodeGroup resp) (nur_ComputeZone resp) db of
                              (Inl e, db1) \<Rightarrow> (Error (PersistPlacement e), db1, rqs)
                            | (Inr _, db1) \<Rightarrow> (Ok (), db1, rqs))
                         else (Ok (), db, rqs)))))))"

definition NewBackendSink :: "netlib \<Rightarrow> timelib \<Rightarrow> codec \<Rightarrow> http_client \<Rightarrow> sqlite_env \<Rightarrow> sink_env" where
  "NewBackendSink L T C fresh E = \<lparr>sk_net = L, sk_time = T, sk_codec = C, sk_state = Some E, sk_factory = Some (New L fresh)\<rparr>"

subsection \<open>Manager\<close>

record inventory_loop_config =
  il_Interval :: duration
  il_RetryInterval :: duration
  il_Timeout :: duration
  il_StartupJitter :: duration

text \<open>
  One collection.  The source (\<open>None\<close> is nil) yields an error or a possibly nil snapshot; the sink
  (\<open>None\<close> is nil) maps a snapshot and the world to its result and the next world.
\<close>

definition CollectOnce :: "hashlib \<Rightarrow> (inventory_error, snapshot option) result option
    \<Rightarrow> (snapshot \<Rightarrow> 'w \<Rightarrow> (inventory_error, unit) result \<times> 'w) option
    \<Rightarrow> snapshot option \<Rightarrow> 'w \<Rightarrow> (inventory_error \<times> snapshot option, snapshot) result \<times> snapshot option \<times> 'w" where
  "CollectOnce H source sink lastSnapshot w =
     (case source of
        None \<Rightarrow> (Error (SourceRequired, None), lastSnapshot, w)
      | Some (Inl e) \<Rightarrow> (Error (e, None), lastSnapshot, w)
      | Some (Inr None) \<Rightarrow> (Error (NilSnapshot, None), lastSnapshot, w)
      | Some (Inr (Some s)) \<Rightarrow> (case ComputeHash H (Some s) of
          Inl e \<Rightarrow> (Error (e, None), lastSnapshot, w)
        | Inr hash \<Rightarrow>
           (let snap = s\<lparr>sn_InventoryHash := hash\<rparr> in
            case sink of
              None \<Rightarrow> (Ok snap, Some snap, w)
            | Some export \<Rightarrow> (case export snap w of
                (Inl e, w1) \<Rightarrow> (Error (e, if e = ErrNotReady then Some snap else None), Some snap, w1)
              | (Inr _, w1) \<Rightarrow> (Ok snap, Some snap, w1)))))"

text \<open>The sink as the manager sees it: the world is the database with the requests sent so far.\<close>

definition sink_world :: "sink_env \<Rightarrow> snapshot \<Rightarrow> database \<times> http_request list
    \<Rightarrow> (inventory_error, unit) result \<times> (database \<times> http_request list)" where
  "sink_world K snap w = (case sink_Export K (Some snap) (fst w) of (r, db1, rqs) \<Rightarrow> (r, db1, snd w @ rqs))"

definition nextInterval :: "inventory_loop_config \<Rightarrow> inventory_error option \<Rightarrow> duration" where
  "nextInterval cfg err = (if err \<noteq> None \<and> il_RetryInterval cfg > 0 then il_RetryInterval cfg else il_Interval cfg)"

text \<open>The random draw of \<open>crypto/rand\<close> is \<open>None\<close> when it fails; then the clock supplies the jitter.\<close>

definition calculateJitter :: "int option \<Rightarrow> int \<Rightarrow> duration \<Rightarrow> duration" where
  "calculateJitter draw unixNano maxJitter =
     (if maxJitter \<le> 0 then 0
      else let maxMs = maxJitter div time_Millisecond in
           if maxMs \<le> 0 then 0
           else (case draw of None \<Rightarrow> unixNano mod maxMs | Some r \<Rightarrow> r) * time_Millisecond)"

text \<open>
  \<open>Run\<close>: what happens, for the results of the attempts and the outcomes of the sleeps (\<open>False\<close> when the
  context is done before the timer fires).  The loop has no other exit, so it runs as long as the sleeps do.
\<close>

datatype run_event = Slept duration | Attempted "inventory_error option" | Stopped

fun run_loop :: "inventory_loop_config \<Rightarrow> (nat \<Rightarrow> inventory_error option) \<Rightarrow> nat \<Rightarrow> duration \<Rightarrow> bool list \<Rightarrow> run_event list" where
  "run_loop cfg attempt n next [] = []"
| "run_loop cfg attempt n next (fired # rest) =
     (if \<not> fired then [Stopped]
      else Slept next # Attempted (attempt n) # run_loop cfg attempt (Suc n) (nextInterval cfg (attempt n)) rest)"

definition Run :: "inventory_loop_config \<Rightarrow> int option \<Rightarrow> int \<Rightarrow> (nat \<Rightarrow> inventory_error option) \<Rightarrow> bool list \<Rightarrow> run_event list" where
  "Run cfg draw unixNano attempt sleeps =
     (let body = (\<lambda>rest. Attempted (attempt 0) #
            (if il_Interval cfg \<le> 0 then [Stopped]
             else run_loop cfg attempt 1 (nextInterval cfg (attempt 0)) rest))
      in if il_StartupJitter cfg > 0 then
           (case sleeps of
              [] \<Rightarrow> []
            | fired # rest \<Rightarrow>
                if \<not> fired then [Stopped]
                else Slept (calculateJitter draw unixNano (il_StartupJitter cfg)) # body rest)
         else body sleeps)"

text \<open>
  \<open>runAttempt\<close> with a timeout: the run mutex, the goroutines that collect and those that have sent their
  result but not yet unlocked, the buffered result channel of the current attempt, whether its caller
  still waits, and what the last attempt returned.
\<close>

record run_sys =
  rs_locked :: bool
  rs_collecting :: nat
  rs_unlocking :: nat
  rs_channel :: "inventory_error option option"
  rs_waiting :: bool
  rs_result :: "inventory_error option option"

inductive run_step :: "run_sys \<Rightarrow> run_sys \<Rightarrow> bool" where
  TryLockFails: "\<not> rs_waiting s \<Longrightarrow> rs_locked s \<Longrightarrow>
     run_step s (s\<lparr>rs_result := Some (Some StillRunning)\<rparr>)"
| TryLockOk: "\<not> rs_waiting s \<Longrightarrow> \<not> rs_locked s \<Longrightarrow>
     run_step s (s\<lparr>rs_locked := True, rs_collecting := Suc (rs_collecting s), rs_channel := None, rs_waiting := True,
        rs_result := None\<rparr>)"
| CollectDone: "rs_collecting s > 0 \<Longrightarrow>
     run_step s (s\<lparr>rs_collecting := rs_collecting s - 1, rs_unlocking := Suc (rs_unlocking s), rs_channel := Some r\<rparr>)"
| Unlock: "rs_unlocking s > 0 \<Longrightarrow>
     run_step s (s\<lparr>rs_unlocking := rs_unlocking s - 1, rs_locked := False\<rparr>)"
| Receive: "rs_waiting s \<Longrightarrow> rs_channel s = Some r \<Longrightarrow>
     run_step s (s\<lparr>rs_waiting := False, rs_result := Some r\<rparr>)"
| TimedOut: "rs_waiting s \<Longrightarrow>
     run_step s (s\<lparr>rs_waiting := False, rs_result := Some (Some ContextDone)\<rparr>)"

definition run_init :: run_sys where
  "run_init = \<lparr>rs_locked = False, rs_collecting = 0, rs_unlocking = 0, rs_channel = None, rs_waiting = False, rs_result = None\<rparr>"

inductive_cases run_stepE: "run_step s s'"

section \<open>Lemmas\<close>

lemma sortedStrings_perm:
  "map_option mset a = map_option mset b \<Longrightarrow> sortedStrings a = sortedStrings b"
  by (cases a; cases b) (auto simp: sortedStrings_def intro: sort_Strings_perm)

lemma encode_all_SomeD:
  "encode_all enc xs = Some ys \<Longrightarrow> map fst ys = xs \<and> (\<forall>(x, s) \<in> set ys. enc x = Some s)"
  by (induction xs arbitrary: ys) (auto split: option.splits)

lemma encode_all_None_iff: "encode_all enc xs = None \<longleftrightarrow> (\<exists>x \<in> set xs. enc x = None)"
  by (induction xs) (auto split: option.splits)

lemma map_key_sort_key: "map f (sort_key f xs) = sort (map f xs)"
  by (rule properties_for_sort [symmetric]) simp_all

text \<open>The sorted list of encodings depends on the multiset of encodings only.\<close>

definition encodings :: "('a \<Rightarrow> string option) \<Rightarrow> 'a list \<Rightarrow> string option multiset" where
  "encodings enc xs = image_mset enc (mset xs)"

lemma encode_all_mset:
  assumes "encodings enc xs = encodings enc ys" "encode_all enc xs = Some a" "encode_all enc ys = Some b"
  shows "sort (map snd a) = sort (map snd b)"
proof -
  have e: "image_mset Some (mset (map snd c)) = encodings enc zs" if "encode_all enc zs = Some c" for zs c
  proof -
    from that have z: "zs = map fst c" and h: "\<forall>(x, s) \<in> set c. enc x = Some s"
      by (auto dest: encode_all_SomeD)
    have "map (\<lambda>p. Some (snd p)) c = map (\<lambda>p. enc (fst p)) c" using h by auto
    then show ?thesis unfolding z encodings_def by (metis (no_types, lifting) comp_apply list.map_cong map_map mset_map)
  qed
  from e [OF assms(2)] e [OF assms(3)] assms(1)
  have "image_mset Some (mset (map snd a)) = image_mset Some (mset (map snd b))" by simp
  then have "image_mset the (image_mset Some (mset (map snd a))) = image_mset the (image_mset Some (mset (map snd b)))"
    by simp
  then have "mset (map snd a) = mset (map snd b)"
    by (simp add: image_mset.compositionality comp_def)
  then show ?thesis by (intro properties_for_sort) auto
qed

lemma encode_all_None_mset:
  assumes "encodings enc xs = encodings enc ys"
  shows "encode_all enc xs = None \<longleftrightarrow> encode_all enc ys = None"
proof -
  have "(\<exists>x \<in> set zs. enc x = None) \<longleftrightarrow> None \<in># encodings enc zs" for zs
    by (force simp: encodings_def)
  then show ?thesis using assms by (simp add: encode_all_None_iff)
qed

definition canon :: "(inventory_error, ('a \<times> string) list option) result \<Rightarrow> (inventory_error, string list option) result" where
  "canon r = (case r of Inl e \<Rightarrow> Inl e | Inr x \<Rightarrow> Inr (map_option (map snd) x))"

lemma sortedByCanonicalJSON_perm:
  assumes "map_option (encodings enc) a = map_option (encodings enc) b"
  shows "canon (sortedByCanonicalJSON enc a) = canon (sortedByCanonicalJSON enc b)"
proof (cases a)
  case None
  with assms show ?thesis by (simp add: sortedByCanonicalJSON_def canon_def)
next
  case (Some xs)
  with assms obtain ys where ys: "b = Some ys" "encodings enc xs = encodings enc ys" by (cases b) auto
  show ?thesis
  proof (cases "encode_all enc xs")
    case None
    then have "encode_all enc ys = None" using encode_all_None_mset [OF ys(2)] by simp
    with None show ?thesis by (simp add: sortedByCanonicalJSON_def canon_def Some ys)
  next
    case some: (Some xe)
    then obtain ye where "encode_all enc ys = Some ye"
      using encode_all_None_mset [OF ys(2)] by (cases "encode_all enc ys") auto
    with some encode_all_mset [OF ys(2) some this] show ?thesis
      by (simp add: sortedByCanonicalJSON_def canon_def Some ys map_key_sort_key)
  qed
qed

lemma normalizedBlockDevices_perm:
  assumes "map_option (image_mset (\<lambda>d. d\<lparr>ib_Parents := sortedStrings (ib_Parents d)\<rparr>)) (map_option mset a) =
      map_option (image_mset (\<lambda>d. d\<lparr>ib_Parents := sortedStrings (ib_Parents d)\<rparr>)) (map_option mset b)"
  shows "canon (normalizedBlockDevices enc a) = canon (normalizedBlockDevices enc b)"
proof (cases a)
  case None
  with assms show ?thesis by (simp add: normalizedBlockDevices_def)
next
  case (Some xs)
  with assms obtain ys where ys: "b = Some ys" by (cases b) auto
  let ?n = "\<lambda>d. d\<lparr>ib_Parents := sortedStrings (ib_Parents d)\<rparr>"
  have "mset (map ?n xs) = mset (map ?n ys)" using assms by (simp add: Some ys)
  then have "map_option (encodings enc) (Some (map ?n xs)) = map_option (encodings enc) (Some (map ?n ys))"
    by (simp only: option.map encodings_def)
  then show ?thesis
    unfolding normalizedBlockDevices_def Some ys option.case by (rule sortedByCanonicalJSON_perm)
qed

text \<open>The hash only sees the canonical encodings.\<close>

lemma ComputeHash_canon:
  "ComputeHash H (Some s) =
     (case canon (sortedByCanonicalJSON (hl_gpu H) (ig_GPUs (ir_GPUInfo (sn_Resources s)))) of
        Inl e \<Rightarrow> Inl e
      | Inr gs \<Rightarrow> (case canon (normalizedBlockDevices (hl_disk H) (id_BlockDevices (ir_DiskInfo (sn_Resources s)))) of
          Inl e \<Rightarrow> Inl e
        | Inr ds \<Rightarrow> (case canon (sortedByCanonicalJSON (hl_nic H) (ir_NICInfo (sn_Resources s))) of
            Inl e \<Rightarrow> Inl e
          | Inr ns \<Rightarrow> (case hl_frame H (hash_frame s) gs ds ns of
              None \<Rightarrow> Inl MarshalSnapshot
            | Some payload \<Rightarrow> Inr (hl_sha256_hex H payload)))))"
  by (simp add: ComputeHash_def canon_def split: sum.split)

text \<open>Two snapshots that differ in the order of their lists, the collection time and the stored hash only.\<close>

definition same_inventory :: "snapshot \<Rightarrow> snapshot \<Rightarrow> bool" where
  "same_inventory s t \<longleftrightarrow>
     hash_frame s = hash_frame t \<and>
     map_option mset (ig_GPUs (ir_GPUInfo (sn_Resources s))) = map_option mset (ig_GPUs (ir_GPUInfo (sn_Resources t))) \<and>
     map_option (image_mset (\<lambda>d. d\<lparr>ib_Parents := sortedStrings (ib_Parents d)\<rparr>)) (map_option mset (id_BlockDevices (ir_DiskInfo (sn_Resources s)))) =
     map_option (image_mset (\<lambda>d. d\<lparr>ib_Parents := sortedStrings (ib_Parents d)\<rparr>)) (map_option mset (id_BlockDevices (ir_DiskInfo (sn_Resources t)))) \<and>
     map_option mset (ir_NICInfo (sn_Resources s)) = map_option mset (ir_NICInfo (sn_Resources t))"

lemma encodings_perm: "map_option mset a = map_option mset b \<Longrightarrow> map_option (encodings enc) a = map_option (encodings enc) b"
  by (cases a; cases b) (auto simp: encodings_def)

lemma ComputeHash_same:
  assumes "same_inventory s t"
  shows "ComputeHash H (Some s) = ComputeHash H (Some t)"
proof -
  have lists: "canon (sortedByCanonicalJSON (hl_gpu H) (ig_GPUs (ir_GPUInfo (sn_Resources s)))) =
        canon (sortedByCanonicalJSON (hl_gpu H) (ig_GPUs (ir_GPUInfo (sn_Resources t))))"
    "canon (sortedByCanonicalJSON (hl_nic H) (ir_NICInfo (sn_Resources s))) =
        canon (sortedByCanonicalJSON (hl_nic H) (ir_NICInfo (sn_Resources t)))"
    using assms by (auto simp: same_inventory_def intro!: sortedByCanonicalJSON_perm encodings_perm)
  have disks: "canon (normalizedBlockDevices (hl_disk H) (id_BlockDevices (ir_DiskInfo (sn_Resources s)))) =
        canon (normalizedBlockDevices (hl_disk H) (id_BlockDevices (ir_DiskInfo (sn_Resources t))))"
    using assms by (intro normalizedBlockDevices_perm) (simp add: same_inventory_def)
  have frame: "hash_frame s = hash_frame t" using assms by (simp add: same_inventory_def)
  show ?thesis unfolding ComputeHash_canon lists disks frame ..
qed

subsection \<open>Numbers on the wire\<close>

lemma FormatNat_unat: "ParseUint 64 (FormatNat (unat (w :: 64 word))) = Some (unat w)"
  by (rule ParseUint_FormatNat) (use unsigned_less [of w] in simp)

lemma FormatInt_sint: "ParseInt (FormatInt (sint (w :: 64 word))) = Some (sint w)"
proof (rule ParseInt_FormatInt)
  show "- (2 ^ 63) \<le> sint w" using sint_ge [of w] by simp
  show "sint w < 2 ^ 63" using sint_lt [of w] by simp
qed

lemma map_gpu_id [simp]: "map_gpu g = g" "map_nic c = c"
  by (cases g, simp add: map_gpu_def split: option.split) (cases c, simp add: map_nic_def)

subsection \<open>Sink\<close>

lemma sink_credentials_Ok:
  assumes "sink_credentials K E db = Inr (base, jwt, uuid)"
  shows "GetBackendBaseURL (sk_net K) E db = Inr (Some base)" "GetJWT E db = Inr (Some jwt)"
    "GetAgentUUID E db = Inr (Some uuid)" "jwt \<noteq> []" "uuid \<noteq> []"
  using assms
  by (auto simp: sink_credentials_def split: sum.splits option.splits if_splits)

lemma UpsertNode_requests:
  "UpsertNode L K c uuid req jwt = (r, rqs) \<Longrightarrow> length rqs \<le> 1 \<and>
     (\<forall>rq \<in> set rqs. request_ok L c ''PUT'' [''v1'', ''agent'', ''nodes'', uuid] jwt rq)"
  using doJSON_requests [of L c "''PUT''" "[''v1'', ''agent'', ''nodes'', uuid]" jwt _ "Some (dec_upsert K, (None, None))"]
  by (auto simp: UpsertNode_def Let_def split: prod.splits sum.splits option.splits if_splits)

text \<open>The shape of every run of the sink that reaches the backend.\<close>

lemma sink_Export_cases:
  assumes "sink_Export K snap db = (r, db1, rqs)" "sk_state K = Some E" "sk_factory K = Some factory"
  obtains (quiet) "rqs = []" "db1 = db" "\<not> is_ok r"
  | (sent) base jwt uuid client req ur where "sink_credentials K E db = Inr (base, jwt, uuid)" "factory base = Inr client"
      "UpsertNode (sk_net K) (sk_codec K) client uuid (Some req) jwt = (ur, rqs)"
      "case ur of Inl e \<Rightarrow> db1 = db \<and> \<not> is_ok r
       | Inr resp \<Rightarrow> if placement_differs (GetNodePlacement E db) resp
           then (\<exists>sr. SetNodePlacement E (nur_NodeGroup resp) (nur_ComputeZone resp) db = (sr, db1) \<and> is_ok r = is_ok sr)
           else db1 = db \<and> is_ok r"
proof (cases "ToNodeUpsertRequest snap")
  case None
  with assms quiet show ?thesis by (auto simp: sink_Export_def)
next
  case (Some req0)
  show ?thesis
  proof (cases "sink_credentials K E db")
    case (Inl e)
    with assms Some quiet show ?thesis by (auto simp: sink_Export_def)
  next
    case (Inr c)
    obtain base jwt uuid where c: "c = (base, jwt, uuid)" by (cases c)
    show ?thesis
    proof (cases "factory base")
      case (Inl e)
      with assms Some Inr c quiet show ?thesis by (auto simp: sink_Export_def)
    next
      case cl: (Inr client)
      let ?req = "with_enrolled_at (GetEnrollmentTime (sk_time K) E db) (with_placement (GetNodePlacement E db) req0)"
      obtain ur rq2 where u: "UpsertNode (sk_net K) (sk_codec K) client uuid (Some ?req) jwt = (ur, rq2)" by fastforce
      have "rq2 = rqs" "case ur of Inl e \<Rightarrow> db1 = db \<and> \<not> is_ok r
       | Inr resp \<Rightarrow> if placement_differs (GetNodePlacement E db) resp
           then (\<exists>sr. SetNodePlacement E (nur_NodeGroup resp) (nur_ComputeZone resp) db = (sr, db1) \<and> is_ok r = is_ok sr)
           else db1 = db \<and> is_ok r"
        using assms Some Inr c cl u
        by (auto simp: sink_Export_def Let_def split: sum.splits prod.splits if_splits)
      with Inr c cl u sent show ?thesis by simp
    qed
  qed
qed

abbreviation placement_keys :: "string set" where
  "placement_keys \<equiv> {MetadataKeyNodeGroup, MetadataKeyComputeZone}"

lemma sink_Export_frame:
  assumes "sink_Export (NewBackendSink L T C fresh E) snap db = (r, db1, rqs)" "k \<notin> placement_keys"
  shows "view db1 k = view db k"
proof -
  let ?K = "NewBackendSink L T C fresh E"
  have K: "sk_state ?K = Some E" "sk_factory ?K = Some (New L fresh)" by (simp_all add: NewBackendSink_def)
  from assms(1) K show ?thesis
  proof (cases rule: sink_Export_cases)
    case (sent base jwt uuid client req ur)
    with assms(2) show ?thesis by (auto split: sum.splits if_splits dest: SetNodePlacement_frame)
  qed simp
qed

lemma placement_keep:
  assumes "can_read E MetadataKeyNodeGroup" "\<not> placement_differs (GetNodePlacement E db) resp"
  shows "view db MetadataKeyNodeGroup = ok_if_nonempty (nur_NodeGroup resp) \<and>
         view db MetadataKeyComputeZone = ok_if_nonempty (nur_ComputeZone resp)"
proof -
  have "GetNodePlacement E db = Ok (view db MetadataKeyNodeGroup, view db MetadataKeyComputeZone)"
    using assms(1) by (auto simp: GetNodePlacement_def openReadOnly_def can_read_def is_ok_iff ReadNodePlacement_view)
  moreover have "or_empty (view db k) = v \<Longrightarrow> view db k = ok_if_nonempty v" for k v
    by (cases "view db k") (auto simp: or_empty_def ok_if_nonempty_def view_Some_iff)
  ultimately show ?thesis using assms(2) by (auto simp: placement_differs_def)
qed

text \<open>The stored placement is the one of an answer; a write of it that succeeds makes it so.\<close>

definition placement_stored :: "node_upsert_response \<Rightarrow> database \<Rightarrow> bool" where
  "placement_stored resp db \<longleftrightarrow> view db MetadataKeyNodeGroup = ok_if_nonempty (nur_NodeGroup resp) \<and>
     view db MetadataKeyComputeZone = ok_if_nonempty (nur_ComputeZone resp)"

lemma placement_outcome:
  assumes "if placement_differs p resp
      then (\<exists>sr. SetNodePlacement E (nur_NodeGroup resp) (nur_ComputeZone resp) db = (sr, db1) \<and> is_ok r = is_ok sr)
      else db1 = db \<and> is_ok r" "is_ok r"
  shows "if placement_differs p resp then placement_stored resp db1 else db1 = db"
  using assms by (auto simp: is_ok_iff placement_stored_def split: if_splits dest!: SetNodePlacement_Ok)

subsection \<open>The sink contract\<close>

text \<open>What the manager may assume of a sink: an export keeps a part of the world, so a collection keeps it too.\<close>

locale keeping_sink =
  fixes export :: "snapshot \<Rightarrow> 'w \<Rightarrow> (inventory_error, unit) result \<times> 'w"
    and kept :: "'w \<Rightarrow> 'k"
  assumes export_keeps: "export snap w = (r, w1) \<Longrightarrow> kept w1 = kept w"
begin

lemma CollectOnce_keeps: "CollectOnce H source (Some export) lastSnap w = (r, snap, w1) \<Longrightarrow> kept w1 = kept w"
  by (auto simp: CollectOnce_def Let_def dest: export_keeps split: option.splits sum.splits prod.splits)

text \<open>Every collection that hashes keeps its snapshot, whatever the sink says; one that does not is invisible.\<close>

lemma CollectOnce_snapshot:
  "CollectOnce H source (Some export) lastSnap w = (r, snap, w1) \<Longrightarrow>
     (snap = lastSnap \<and> w1 = w \<and> \<not> is_ok r) \<or>
     (\<exists>s hash. source = Some (Inr (Some s)) \<and> ComputeHash H (Some s) = Inr hash \<and> snap = Some (s\<lparr>sn_InventoryHash := hash\<rparr>))"
  by (auto simp: CollectOnce_def Let_def split: option.splits sum.splits prod.splits)

end

definition outside_placement :: "database \<times> http_request list \<Rightarrow> string \<Rightarrow> string option" where
  "outside_placement w = (\<lambda>k. if k \<in> placement_keys then None else view (fst w) k)"

interpretation bs: keeping_sink "sink_world (NewBackendSink L T C fresh E)" outside_placement for L T C fresh E
  by unfold_locales (auto simp: sink_world_def outside_placement_def fun_eq_iff dest: sink_Export_frame split: prod.splits)

subsection \<open>Mutual exclusion of attempts\<close>

definition run_inv :: "run_sys \<Rightarrow> bool" where
  "run_inv s \<longleftrightarrow> rs_collecting s + rs_unlocking s \<le> 1 \<and> (rs_locked s \<longleftrightarrow> rs_collecting s + rs_unlocking s = 1) \<and>
     (rs_waiting s \<longrightarrow> rs_collecting s = 1 \<or> rs_channel s \<noteq> None)"

lemma run_step_inv: "run_step s s' \<Longrightarrow> run_inv s \<Longrightarrow> run_inv s'"
  by (erule run_stepE) (auto simp: run_inv_def)

interpretation attempts: invariant_system run_step "\<lambda>s. s = run_init" run_inv
proof unfold_locales
  show "s = run_init \<Longrightarrow> run_inv s" for s by (simp add: run_inv_def run_init_def)
qed (rule run_step_inv)

lemmas run_reach_inv = attempts.reachable_invariant [OF _ refl]

subsection \<open>Pacing of the loop\<close>

fun spaced :: "run_event list \<Rightarrow> bool" where
  "spaced (Attempted a # Attempted b # es) = False"
| "spaced (e # es) = spaced es"
| "spaced [] = True"

lemma run_loop_spaced: "spaced (run_loop cfg attempt n nxt fs)" "spaced (Attempted a # run_loop cfg attempt n nxt fs)"
proof (induction fs arbitrary: n nxt a)
  case (Cons f fs)
  { case 1 show ?case using Cons.IH(2) by (cases f) auto }
  { case 2 show ?case using Cons.IH(2) by (cases f) auto }
qed auto

lemma run_loop_delays:
  "Slept d \<in> set (run_loop cfg attempt n nxt fs) \<Longrightarrow> d = nxt \<or>
     d = il_Interval cfg \<or> (d = il_RetryInterval cfg \<and> 0 < il_RetryInterval cfg)"
  by (induction fs arbitrary: n nxt) (auto simp: nextInterval_def split: if_splits)

lemma calculateJitter_bounds:
  assumes "0 < mx" "0 \<le> unixNano" "\<forall>r. draw = Some r \<longrightarrow> 0 \<le> r \<and> r < mx div time_Millisecond"
  shows "0 \<le> calculateJitter draw unixNano mx \<and> calculateJitter draw unixNano mx < mx"
proof (cases "mx div time_Millisecond \<le> 0")
  case True
  with assms show ?thesis by (simp add: calculateJitter_def)
next
  case False
  let ?r = "case draw of None \<Rightarrow> unixNano mod (mx div time_Millisecond) | Some r \<Rightarrow> r"
  have r: "0 \<le> ?r" "?r < mx div time_Millisecond" using assms False by (auto split: option.split)
  then have "(?r + 1) * time_Millisecond \<le> mx div time_Millisecond * time_Millisecond"
    by (intro mult_right_mono) (auto simp: time_Millisecond_def)
  also have "\<dots> \<le> mx" by (simp add: time_Millisecond_def)
  finally have "?r * time_Millisecond < mx" by (simp add: time_Millisecond_def)
  moreover have "0 \<le> ?r * time_Millisecond" using r(1) by (simp add: time_Millisecond_def)
  ultimately show ?thesis using False assms(1) by (simp add: calculateJitter_def Let_def)
qed

section \<open>Properties\<close>

text \<open>The inventory hash identifies content, not presentation: two snapshots that differ only in the
  order of GPUs, disks, disk parents, network interfaces or component lists, in the time of collection
  or in a previously stored hash have the same hash (or fail the same way).\<close>

theorem inventory_hash_order_free:
  assumes "same_inventory s t"
  shows "ComputeHash H (Some s) = ComputeHash H (Some t)"
  by (rule ComputeHash_same [OF assms])

definition sample_gpu :: "string \<Rightarrow> gpu_device" where
  "sample_gpu u = \<lparr>gd_UUID = u, gd_BusID = [], gd_ClusterUUID = [], gd_CliqueID = None, gd_SN = [], gd_MinorID = [],
     gd_BoardID = 0, gd_VBIOSVersion = [], gd_ChassisSN = [], gd_GPUIndex = []\<rparr>"

definition sample_snapshot :: "string list \<Rightarrow> gotime \<Rightarrow> snapshot" where
  "sample_snapshot gpus t = \<lparr>sn_CollectedAt = t, sn_InventoryHash = [], sn_Hostname = ''h'', sn_MachineID = ''m'',
     sn_SystemUUID = ''u'', sn_BootID = [], sn_Uptime = zero_time, sn_OperatingSystem = [], sn_OSImage = [],
     sn_KernelVersion = [], sn_AgentVersion = [], sn_GPUDriverVersion = [], sn_CUDAVersion = [], sn_DCGMVersion = [],
     sn_ContainerRuntimeVersion = [], sn_NetPrivateIP = [],
     sn_AgentConfig = \<lparr>ia_TotalComponents = 0, ia_RetentionPeriodSeconds = 0, ia_MetricScrapeIntervalSeconds = 0,
        ia_EnabledComponents = None, ia_DisabledComponents = None, ia_InventoryEnabled = False, ia_InventoryIntervalSeconds = 0,
        ia_AttestationEnabled = False, ia_AttestationIntervalSeconds = 0\<rparr>,
     sn_Resources = \<lparr>ir_CPUInfo = empty_cpu, ir_MemoryInfo = 0,
        ir_GPUInfo = \<lparr>ig_Product = [], ig_Manufacturer = [], ig_Architecture = [], ig_Memory = [], ig_GPUs = Some (map sample_gpu gpus)\<rparr>,
        ir_DiskInfo = \<lparr>id_ContainerRootDisk = [], id_BlockDevices = None\<rparr>, ir_NICInfo = None\<rparr>\<rparr>"

definition sample_hashlib :: hashlib where
  "sample_hashlib = \<lparr>hl_gpu = (\<lambda>g. Some (gd_UUID g)), hl_disk = (\<lambda>d. Some (ib_Name d)), hl_nic = (\<lambda>c. Some (ni_IP c)),
     hl_frame = (\<lambda>s gs ds ns. Some (sn_Hostname s @ concat (slice_list gs))), hl_sha256_hex = (\<lambda>s. s)\<rparr>"

theorem inventory_hash_order_free_witness:
  "ComputeHash sample_hashlib (Some (sample_snapshot [''b'', ''a''] zero_time)) = Ok ''hab'' \<and>
   ComputeHash sample_hashlib (Some (sample_snapshot [''a'', ''b''] \<lparr>t_nanos = 5, t_utc = True\<rparr>)) = Ok ''hab''"
proof -
  have h: "ComputeHash sample_hashlib (Some (sample_snapshot [''b'', ''a''] zero_time)) = Ok ''hab''" by code_simp
  have "same_inventory (sample_snapshot [''b'', ''a''] zero_time) (sample_snapshot [''a'', ''b''] \<lparr>t_nanos = 5, t_utc = True\<rparr>)"
    by (simp add: same_inventory_def hash_frame_def sample_snapshot_def sample_gpu_def add_mset_commute)
  from inventory_hash_order_free [OF this, of sample_hashlib] h show ?thesis by simp
qed

text \<open>The mapped request carries the snapshot's numbers intact and never trips the numeric checks on
  them: core count and memory size print to decimals that parse back to the same machine words, the
  memory check is always silent, and the core check is silent exactly when the core count is not
  negative; every GPU of the machine appears once, in order, with its UUID.\<close>

theorem inventory_request_faithful:
  assumes "ToNodeUpsertRequest (Some s) = Some r"
  shows "ParseInt (cpu_LogicalCores (nr_CPUInfo (nu_Resources r))) = Some (sint (ic_LogicalCores (ir_CPUInfo (sn_Resources s)))) \<and>
         ParseUint 64 (mem_TotalBytes (nr_MemoryInfo (nu_Resources r))) = Some (unat (ir_MemoryInfo (sn_Resources s))) \<and>
         memory_issues (mem_TotalBytes (nr_MemoryInfo (nu_Resources r))) = [] \<and>
         (cores_issues (cpu_LogicalCores (nr_CPUInfo (nu_Resources r))) = [] \<longleftrightarrow>
            0 \<le> sint (ic_LogicalCores (ir_CPUInfo (sn_Resources s)))) \<and>
         gpu_GPUs (nr_GPUInfo (nu_Resources r)) = slice_list (ig_GPUs (ir_GPUInfo (sn_Resources s)))"
proof -
  have r: "nu_Resources r = map_resources (sn_Resources s)"
    using assms by (auto simp: ToNodeUpsertRequest_def)
  have ne: "FormatInt i \<noteq> []" for i
    using FormatNat_digits by (simp add: FormatInt_def)
  show ?thesis
    by (auto simp: r map_resources_def FormatInt_sint FormatNat_unat memory_issues_Nil cores_issues_Nil ne map_idI)
qed

theorem inventory_request_faithful_witness:
  "\<exists>r. ToNodeUpsertRequest (Some (sample_snapshot [''g''] zero_time)) = Some r \<and>
     map gd_UUID (gpu_GPUs (nr_GPUInfo (nu_Resources r))) = [''g''] \<and> memory_issues (mem_TotalBytes (nr_MemoryInfo (nu_Resources r))) = []"
proof -
  obtain r where r: "ToNodeUpsertRequest (Some (sample_snapshot [''g''] zero_time)) = Some r"
    by (simp add: ToNodeUpsertRequest_def)
  from inventory_request_faithful [OF r] r show ?thesis
    by (auto simp: sample_snapshot_def slice_list_def sample_gpu_def)
qed

text \<open>C14: inventory leaves the agent only after enrollment, and the backend decides the placement.  The
  sink sends at most one request, and only when base URL, JWT and agent UUID are all stored; that request
  is the authenticated upsert of this agent's node.  On success the placement of the answer is stored when
  the stored placement could be read and is a different one, and otherwise the database is as it was: so
  after a success with a readable database the stored node group and compute zone are those of the answer,
  while a failed read of the placement leaves the stored one alone.  No other key ever changes, and a run
  that sends nothing changes nothing.\<close>

theorem inventory_export_contract:
  assumes "sink_Export (NewBackendSink L T C fresh E) snap db = (r, db1, rqs)"
  shows "(rqs = [] \<longrightarrow> db1 = db \<and> \<not> is_ok r) \<and>
         (rqs \<noteq> [] \<longrightarrow> (\<exists>base jwt uuid c. GetBackendBaseURL L E db = Ok (Some base) \<and> GetJWT E db = Ok (Some jwt) \<and>
            GetAgentUUID E db = Ok (Some uuid) \<and> New L fresh base = Ok c \<and>
            (\<exists>rq. rqs = [rq] \<and> request_ok L c ''PUT'' [''v1'', ''agent'', ''nodes'', uuid] jwt rq) \<and>
            (is_ok r \<longrightarrow> (\<exists>req resp. UpsertNode L C c uuid (Some req) jwt = (Ok resp, rqs) \<and>
               (let stored = (view db1 MetadataKeyNodeGroup = ok_if_nonempty (nur_NodeGroup resp) \<and>
                              view db1 MetadataKeyComputeZone = ok_if_nonempty (nur_ComputeZone resp))
                in (case GetNodePlacement E db of
                      Inl _ \<Rightarrow> db1 = db
                    | Inr (ng, cz) \<Rightarrow> if or_empty ng = nur_NodeGroup resp \<and> or_empty cz = nur_ComputeZone resp then db1 = db else stored) \<and>
                   (can_read E MetadataKeyNodeGroup \<longrightarrow> stored)))))) \<and>
         (\<forall>k. k \<noteq> MetadataKeyNodeGroup \<and> k \<noteq> MetadataKeyComputeZone \<longrightarrow> view db1 k = view db k)"
proof -
  let ?K = "NewBackendSink L T C fresh E"
  have K: "sk_state ?K = Some E" "sk_factory ?K = Some (New L fresh)" "sk_net ?K = L" "sk_codec ?K = C"
    by (simp_all add: NewBackendSink_def)
  from assms K(1,2) show ?thesis
  proof (cases rule: sink_Export_cases)
    case quiet
    then show ?thesis by simp
  next
    case (sent base jwt uuid client req ur)
    note cr = sink_credentials_Ok [OF sent(1)]
    note rq = UpsertNode_requests [OF sent(3)]
    have frame: "\<forall>k. k \<noteq> MetadataKeyNodeGroup \<and> k \<noteq> MetadataKeyComputeZone \<longrightarrow> view db1 k = view db k"
      using sent(4) by (auto split: sum.splits if_splits dest: SetNodePlacement_frame)
    have none: "db1 = db \<and> \<not> is_ok r" if "rqs = []"
    proof -
      have "\<not> is_ok ur" using sent(3) that by (auto simp: is_ok_iff elim!: UpsertNode_Ok doJSON_Ok)
      with sent(4) show ?thesis by (cases ur) auto
    qed
    have some: "\<exists>rq. rqs = [rq] \<and> request_ok L client ''PUT'' [''v1'', ''agent'', ''nodes'', uuid] jwt rq" if "rqs \<noteq> []"
      using rq that K(3) by (cases rqs) auto
    obtain resp where upd: "is_ok r \<Longrightarrow> UpsertNode L C client uuid (Some req) jwt = (Ok resp, rqs) \<and>
        (if placement_differs (GetNodePlacement E db) resp then placement_stored resp db1 else db1 = db)"
      using sent(3,4) K(3,4) placement_outcome by (cases ur) fastforce+
    then have "is_ok r \<Longrightarrow> (case GetNodePlacement E db of
        Inl _ \<Rightarrow> db1 = db
      | Inr (ng, cz) \<Rightarrow> if or_empty ng = nur_NodeGroup resp \<and> or_empty cz = nur_ComputeZone resp then db1 = db else placement_stored resp db1) \<and>
       (can_read E MetadataKeyNodeGroup \<longrightarrow> placement_stored resp db1)"
      using placement_keep [of E db resp] by (auto simp: placement_differs_def placement_stored_def split: sum.splits if_splits)
    then show ?thesis
      using none some upd frame cr(1-3) sent(2) K(3) unfolding placement_stored_def Let_def
      by (intro conjI impI exI [of _ base] exI [of _ jwt] exI [of _ uuid] exI [of _ client] exI [of _ req] exI [of _ resp]) auto
  qed
qed

definition sample_db :: database where
  "sample_db = Some [''backend_base_url'' \<mapsto> ''https://b.example'', ''token'' \<mapsto> ''jwt'', ''machine_id'' \<mapsto> ''uuid'']"

theorem inventory_export_contract_witness:
  "(case sink_Export (NewBackendSink plain_netlib plain_timelib sample_codec sample_http healthy)
          (Some (sample_snapshot [''g''] zero_time)) sample_db of
      (r, db1, rqs) \<Rightarrow> is_ok r \<and> map rq_url rqs = [''https://b.example/v1/agent/nodes/uuid''] \<and>
         view db1 MetadataKeyComputeZone = Some ''j'' \<and> view db1 MetadataKeyToken = view sample_db MetadataKeyToken)"
proof -
  let ?x = "sink_Export (NewBackendSink plain_netlib plain_timelib sample_codec sample_http healthy)
          (Some (sample_snapshot [''g''] zero_time)) sample_db"
  have c: "is_ok (fst ?x)" "map rq_url (snd (snd ?x)) = [''https://b.example/v1/agent/nodes/uuid'']"
    "view (fst (snd ?x)) MetadataKeyComputeZone = Some ''j''"
    by code_simp+
  obtain r db1 rqs where x: "?x = (r, db1, rqs)" by (metis prod_cases3)
  have "view db1 MetadataKeyToken = view sample_db MetadataKeyToken"
    using inventory_export_contract [OF x] by (simp add: metadata_keys)
  with c x show ?thesis by simp
qed

text \<open>At most one inventory collection runs at a time, even when attempts time out.  In every state
  reachable by starting, finishing, timing out and retrying attempts in any order, at most one goroutine
  is collecting, the mutex is held exactly while one is collecting or about to unlock, and a caller that
  waits has its own collection running or its result ready.\<close>

theorem inventory_attempts_exclusive:
  assumes "run_step\<^sup>*\<^sup>* run_init s"
  shows "rs_collecting s \<le> 1 \<and> (rs_locked s \<longleftrightarrow> rs_collecting s + rs_unlocking s = 1) \<and>
         (rs_waiting s \<longrightarrow> rs_collecting s = 1 \<or> rs_channel s \<noteq> None)"
  using run_reach_inv [OF assms] by (auto simp: run_inv_def)

theorem inventory_attempts_exclusive_witness:
  "\<exists>s. run_step\<^sup>*\<^sup>* run_init s \<and> rs_collecting s = 1 \<and> \<not> rs_waiting s \<and> rs_result s = Some (Some StillRunning) \<and> rs_locked s"
proof -
  let ?s1 = "run_init\<lparr>rs_locked := True, rs_collecting := 1, rs_channel := None, rs_waiting := True, rs_result := None\<rparr>"
  let ?s2 = "?s1\<lparr>rs_waiting := False, rs_result := Some (Some ContextDone)\<rparr>"
  let ?s3 = "?s2\<lparr>rs_result := Some (Some StillRunning)\<rparr>"
  have a: "run_step run_init ?s1" using run_step.TryLockOk [of run_init] by (simp add: run_init_def)
  have b: "run_step ?s1 ?s2" by (rule run_step.TimedOut) simp
  have c: "run_step ?s2 ?s3" by (rule run_step.TryLockFails) simp_all
  have reach: "run_step\<^sup>*\<^sup>* run_init ?s3"
    using a b c by (meson rtranclp.rtrancl_into_rtrancl rtranclp.rtrancl_refl)
  with inventory_attempts_exclusive [OF reach] show ?thesis by (intro exI [of _ ?s3]) simp
qed

text \<open>The loop never spins.  With a positive interval, every attempt after the first is preceded by a
  sleep of the retry interval (after a failure, when one is configured) or of the regular interval, so no
  two attempts are adjacent; and a startup jitter drawn from the promised range is at least zero and
  below its maximum.\<close>

theorem inventory_loop_paced:
  assumes "0 < il_Interval cfg" "0 \<le> unixNano"
    "\<forall>r. draw = Some r \<longrightarrow> 0 \<le> r \<and> r < il_StartupJitter cfg div time_Millisecond"
  shows "spaced (Run cfg draw unixNano attempt sleeps) \<and>
         (\<forall>d. Slept d \<in> set (tl (Run cfg draw unixNano attempt sleeps)) \<longrightarrow>
            0 < d \<and> d \<in> {il_Interval cfg, il_RetryInterval cfg}) \<and>
         (0 < il_StartupJitter cfg \<longrightarrow>
            0 \<le> calculateJitter draw unixNano (il_StartupJitter cfg) \<and>
            calculateJitter draw unixNano (il_StartupJitter cfg) < il_StartupJitter cfg)"
proof (intro conjI allI impI)
  show "spaced (Run cfg draw unixNano attempt sleeps)"
    using run_loop_spaced by (auto simp: Run_def Let_def split: list.split)
next
  fix d
  assume "Slept d \<in> set (tl (Run cfg draw unixNano attempt sleeps))"
  then obtain rest where "Slept d \<in> set (run_loop cfg attempt 1 (nextInterval cfg (attempt 0)) rest)"
    using assms(1) by (auto simp: Run_def Let_def simp del: run_loop.simps split: list.splits if_splits)
  then show "0 < d" "d \<in> {il_Interval cfg, il_RetryInterval cfg}"
    using assms(1) run_loop_delays [of d cfg attempt 1 "nextInterval cfg (attempt 0)" rest]
    by (auto simp: nextInterval_def split: if_splits)
next
  assume "0 < il_StartupJitter cfg"
  from calculateJitter_bounds [OF this assms(2,3)]
  show "0 \<le> calculateJitter draw unixNano (il_StartupJitter cfg)"
    "calculateJitter draw unixNano (il_StartupJitter cfg) < il_StartupJitter cfg" by auto
qed

theorem inventory_loop_paced_witness:
  "let cfg = \<lparr>il_Interval = 3600, il_RetryInterval = 300, il_Timeout = 60, il_StartupJitter = 0\<rparr>;
       tr = Run cfg None 0 (\<lambda>n. if n = 0 then Some ErrNotReady else None) [True, True, False]
   in tr = [Attempted (Some ErrNotReady), Slept 300, Attempted None, Slept 3600, Attempted None, Stopped] \<and> spaced tr"
proof -
  let ?cfg = "\<lparr>il_Interval = 3600, il_RetryInterval = 300, il_Timeout = 60, il_StartupJitter = 0\<rparr>"
  let ?tr = "Run ?cfg None 0 (\<lambda>n. if n = 0 then Some ErrNotReady else None) [True, True, False]"
  have "?tr = [Attempted (Some ErrNotReady), Slept 300, Attempted None, Slept 3600, Attempted None, Stopped]"
    by (simp add: Run_def nextInterval_def)
  moreover have "spaced ?tr"
    using inventory_loop_paced [of ?cfg 0 None "\<lambda>n. if n = 0 then Some ErrNotReady else None" "[True, True, False]"]
    by simp
  ultimately show ?thesis by (simp add: Let_def)
qed

end
