(* ===== verification/Attestation.thy ===== *)
theory Attestation
  imports Inventory
begin

text \<open>
  \<open>internal/attestation\<close>: the nonce check, the evidence collector that runs the \<open>nvattest\<close> command, the
  mapping of a result to the backend contract, the providers that work on the agent state, and the
  manager that ties them together.

  The world holds the agent's database and the log of what the workflow did outside the process: requests
  sent and commands run, in order.  An interface value that may be nil is an option; a Go pair of result
  and error is a pair of options.  The command (its exit error, standard output and standard error), the
  JSON decoder and the \<open>%q\<close> verb on the first rune of a string are the record \<open>cli_env\<close>.
  The goroutines of \<open>runAttempt\<close> are in \<open>Attestation_Attempts\<close>.
\<close>

section \<open>Definitions\<close>

subsection \<open>Types\<close>

record att_evidence_item =
  ae_Arch :: string
  ae_Certificate :: string
  ae_DriverVersion :: string
  ae_Evidence :: string
  ae_Nonce :: string
  ae_VBIOSVersion :: string
  ae_Version :: string

record sdk_response =
  sdk_Evidences :: "att_evidence_item list"
  sdk_ResultCode :: int
  sdk_ResultMessage :: string

record att_result =
  re_CollectedAt :: gotime
  re_AgentUUID :: string
  re_NonceRefreshTimestamp :: gotime
  re_Success :: bool
  re_ErrorMessage :: string
  re_SDKResponse :: sdk_response

record attestation_config =
  at_Interval :: duration
  at_RetryInterval :: duration
  at_Timeout :: duration
  at_StartupJitter :: duration

datatype nonce_error = NonceEmpty | NonceTooLong nat | NonceBadChar string nat

datatype collect_error =
    InvalidNonce nonce_error
  | CLIExecutionFailed string string
  | ParseCLIResponse string string string string

datatype att_error =
    ErrNotEnrolled
  | DependenciesIncomplete
  | FactoryStateRequired
  | JWTStateRequired
  | AgentUUIDStateRequired
  | NonceClientRequired
  | NonceResponseNil
  | SubmitClientRequired
  | SubmitResultRequired
  | AttState state_error
  | AttClient client_error
  | CollectFailed collect_error

datatype att_event = Sent http_request | Ran "string list"

record att_world =
  aw_db :: database
  aw_log :: "att_event list"

definition emit :: "att_event list \<Rightarrow> att_world \<Rightarrow> att_world" where
  "emit evs w = w\<lparr>aw_log := aw_log w @ evs\<rparr>"

subsection \<open>Nonce\<close>

definition maxLen :: nat where "maxLen = 512"

definition nonce_char :: "char \<Rightarrow> bool" where
  "nonce_char c \<longleftrightarrow>
     (CHR ''0'' \<le> c \<and> c \<le> CHR ''9'') \<or> (CHR ''a'' \<le> c \<and> c \<le> CHR ''z'') \<or> (CHR ''A'' \<le> c \<and> c \<le> CHR ''Z'') \<or>
     c = CHR ''-'' \<or> c = CHR ''_'' \<or> c = CHR ''='' \<or> c = CHR ''+'' \<or> c = CHR ''/''"

text \<open>
  The loop over the runes of the nonce.  Every accepted rune is one byte, so the loop stops at the first
  byte that is not accepted, and the position of its rune is the position of that byte.
\<close>

fun nonce_loop :: "(string \<Rightarrow> string) \<Rightarrow> nat \<Rightarrow> string \<Rightarrow> nonce_error option" where
  "nonce_loop quote i [] = None"
| "nonce_loop quote i (c # cs) =
     (if nonce_char c then nonce_loop quote (Suc i) cs else Some (NonceBadChar (quote (c # cs)) i))"

definition validateNonce :: "(string \<Rightarrow> string) \<Rightarrow> string \<Rightarrow> nonce_error option" where
  "validateNonce quote nonce =
     (if nonce = [] then Some NonceEmpty
      else if length nonce > maxLen then Some (NonceTooLong (length nonce))
      else nonce_loop quote 0 nonce)"

subsection \<open>Evidence collector\<close>

record cli_env =
  ce_run :: "duration \<Rightarrow> string list \<Rightarrow> string option \<times> string \<times> string"
  ce_decode :: "string \<Rightarrow> (string, sdk_response) result"
  ce_quote :: "string \<Rightarrow> string"

definition NewCLIEvidenceCollector :: "duration \<Rightarrow> duration" where
  "NewCLIEvidenceCollector timeout = (if timeout \<le> 0 then 60 * time_Second else timeout)"

definition nvattest_args :: "string \<Rightarrow> string list" where
  "nvattest_args nonce =
     [''nvattest'', ''collect-evidence'', ''--gpu-evidence-source=corelib'', ''--nonce'', nonce,
      ''--gpu-architecture'', ''blackwell'', ''--format'', ''json'']"

definition Collect :: "cli_env \<Rightarrow> duration \<Rightarrow> string \<Rightarrow> att_world \<Rightarrow> (collect_error, sdk_response) result \<times> att_world" where
  "Collect C timeout nonce w =
     (case validateNonce (ce_quote C) nonce of
        Some e \<Rightarrow> (Error (InvalidNonce e), w)
      | None \<Rightarrow>
         (let args = nvattest_args nonce; w1 = emit [Ran args] w in
          case ce_run C timeout args of (err, stdout, stderr) \<Rightarrow>
            if err \<noteq> None \<and> stdout = [] then (Error (CLIExecutionFailed (or_empty err) stderr), w1)
            else (case ce_decode C stdout of
                Inl parseErr \<Rightarrow> (Error (ParseCLIResponse parseErr stderr stdout (or_empty err)), w1)
              | Inr response \<Rightarrow>
                  (Ok (response\<lparr>sdk_ResultMessage := sdk_ResultMessage response @ '' | raw_stderr: '' @ stderr\<rparr>), w1))))"

fun nonce_error_text :: "nonce_error \<Rightarrow> string" where
  "nonce_error_text NonceEmpty = ''nonce is empty''"
| "nonce_error_text (NonceTooLong n) =
     ''nonce length '' @ FormatNat n @ '' exceeds maximum of '' @ FormatNat maxLen @ '' characters''"
| "nonce_error_text (NonceBadChar q i) = ''nonce contains invalid character '' @ q @ '' at position '' @ FormatNat i"

fun collect_error_text :: "collect_error \<Rightarrow> string" where
  "collect_error_text (InvalidNonce e) = ''invalid nonce received from backend: '' @ nonce_error_text e"
| "collect_error_text (CLIExecutionFailed err stderr) =
     ''attestation CLI execution failed: '' @ err @ '' (stderr: '' @ stderr @ '')''"
| "collect_error_text (ParseCLIResponse parseErr stderr stdout err) =
     ''failed to parse CLI response: '' @ parseErr @ '' (stderr: '' @ stderr @ ''), stdout: '' @ stdout @ '', error: '' @ err"

subsection \<open>Mapping to the backend contract\<close>

definition map_evidence :: "att_evidence_item \<Rightarrow> evidence_item" where
  "map_evidence ev = \<lparr>ev_Arch = ae_Arch ev, ev_Certificate = ae_Certificate ev, ev_DriverVersion = ae_DriverVersion ev,
     ev_Evidence = ae_Evidence ev, ev_Nonce = ae_Nonce ev, ev_VBIOSVersion = ae_VBIOSVersion ev, ev_Version = ae_Version ev\<rparr>"

text \<open>The evidences of the request are nil, the empty list, unless there is evidence: an empty slice is never made.\<close>

definition toAttestationRequest :: "att_result option \<Rightarrow> attestation_request option" where
  "toAttestationRequest r =
     (case r of
        None \<Rightarrow> None
      | Some x \<Rightarrow> Some \<lparr>ar_AttestationData = \<lparr>
          ad_SDKResponse = \<lparr>
            sr_Evidences = (if length (sdk_Evidences (re_SDKResponse x)) > 0
                            then map map_evidence (sdk_Evidences (re_SDKResponse x)) else []),
            sr_ResultCode = sdk_ResultCode (re_SDKResponse x),
            sr_ResultMessage = sdk_ResultMessage (re_SDKResponse x)\<rparr>,
          ad_NonceRefreshTimestamp = re_NonceRefreshTimestamp x,
          ad_Success = re_Success x,
          ad_ErrorMessage = re_ErrorMessage x\<rparr>\<rparr>)"

subsection \<open>Providers on the agent state\<close>

text \<open>The libraries the providers work with; the state may be nil.\<close>

record att_env =
  an_net :: netlib
  an_codec :: codec
  an_http :: http_client
  an_state :: "sqlite_env option"

definition factory_client :: "att_env \<Rightarrow> database \<Rightarrow> (att_error, client) result" where
  "factory_client N db =
     (case an_state N of
        None \<Rightarrow> Error FactoryStateRequired
      | Some E \<Rightarrow> (case GetBackendBaseURL (an_net N) E db of
          Inl e \<Rightarrow> Error (AttState e)
        | Inr None \<Rightarrow> Error ErrNotEnrolled
        | Inr (Some baseURL) \<Rightarrow>
            if baseURL = [] then Error ErrNotEnrolled
            else (case New (an_net N) (an_http N) baseURL of Inl e \<Rightarrow> Error (AttClient e) | Inr c \<Rightarrow> Ok c)))"

text \<open>A nonce client answers a UUID and a JWT with an error or a possibly nil response.\<close>

definition backend_GetNonce :: "(string \<Rightarrow> string \<Rightarrow> (client_error, nonce_response option) result \<times> http_request list) option
    \<Rightarrow> string \<Rightarrow> string \<Rightarrow> att_world \<Rightarrow> (att_error, string \<times> gotime \<times> string) result \<times> att_world" where
  "backend_GetNonce client agentUUID jwt w =
     (case client of
        None \<Rightarrow> (Error NonceClientRequired, w)
      | Some get \<Rightarrow> (case get agentUUID jwt of (r, rqs) \<Rightarrow>
          (case r of
             Inl e \<Rightarrow> Error (AttClient e)
           | Inr None \<Rightarrow> Error NonceResponseNil
           | Inr (Some resp) \<Rightarrow> Ok (no_Nonce resp, no_NonceRefreshTimestamp resp, no_JWTAssertion resp),
           emit (map Sent rqs) w)))"

definition nonce_client :: "att_env \<Rightarrow> client \<Rightarrow> string \<Rightarrow> string \<Rightarrow> (client_error, nonce_response option) result \<times> http_request list" where
  "nonce_client N c uuid jwt =
     (case GetNonce (an_net N) (an_codec N) c uuid jwt of
        (Inl e, rqs) \<Rightarrow> (Inl e, rqs)
      | (Inr n, rqs) \<Rightarrow> (Inr (Some n), rqs))"

definition state_GetNonce :: "att_env \<Rightarrow> string \<Rightarrow> string \<Rightarrow> att_world
    \<Rightarrow> (att_error, string \<times> gotime \<times> string) result \<times> att_world" where
  "state_GetNonce N agentUUID jwt w =
     (case factory_client N (aw_db w) of
        Inl e \<Rightarrow> (Error e, w)
      | Inr c \<Rightarrow> backend_GetNonce (Some (nonce_client N c)) agentUUID jwt w)"

text \<open>The submitter also logs the issues of \<open>ValidateAttestationRequest\<close>, which changes nothing.\<close>

definition backend_Submit :: "att_env \<Rightarrow> client option \<Rightarrow> att_result option \<Rightarrow> string \<Rightarrow> att_world
    \<Rightarrow> (att_error, unit) result \<times> att_world" where
  "backend_Submit N client result jwt w =
     (case client of
        None \<Rightarrow> (Error SubmitClientRequired, w)
      | Some c \<Rightarrow> (case result of
          None \<Rightarrow> (Error SubmitResultRequired, w)
        | Some r \<Rightarrow>
            (case SubmitAttestation (an_net N) (an_codec N) c (re_AgentUUID r) (toAttestationRequest result) jwt of
               (Inl e, rqs) \<Rightarrow> (Error (AttClient e), emit (map Sent rqs) w)
             | (Inr _, rqs) \<Rightarrow> (Ok (), emit (map Sent rqs) w))))"

text \<open>The agent UUID a submission goes under: that of the result, or the stored one.\<close>

definition submit_uuid :: "att_env \<Rightarrow> database \<Rightarrow> string \<Rightarrow> (att_error, string) result" where
  "submit_uuid N db agentUUID =
     (if agentUUID \<noteq> [] then Ok agentUUID
      else case an_state N of
        None \<Rightarrow> Error ErrNotEnrolled
      | Some E \<Rightarrow> (case GetAgentUUID E db of
          Inl e \<Rightarrow> Error (AttState e)
        | Inr None \<Rightarrow> Error ErrNotEnrolled
        | Inr (Some u) \<Rightarrow> if u = [] then Error ErrNotEnrolled else Ok u))"

definition state_Submit :: "att_env \<Rightarrow> att_result option \<Rightarrow> string \<Rightarrow> att_world \<Rightarrow> (att_error, unit) result \<times> att_world" where
  "state_Submit N result jwt w =
     (case result of
        None \<Rightarrow> (Error SubmitResultRequired, w)
      | Some r \<Rightarrow> (case submit_uuid N (aw_db w) (re_AgentUUID r) of
          Inl e \<Rightarrow> (Error e, w)
        | Inr u \<Rightarrow> (case factory_client N (aw_db w) of
            Inl e \<Rightarrow> (Error e, w)
          | Inr c \<Rightarrow> backend_Submit N (Some c) (Some (r\<lparr>re_AgentUUID := u\<rparr>)) jwt w)))"

definition provider_GetJWT :: "sqlite_env option \<Rightarrow> att_world \<Rightarrow> (att_error, string) result" where
  "provider_GetJWT state w =
     (case state of
        None \<Rightarrow> Error JWTStateRequired
      | Some E \<Rightarrow> (case GetJWT E (aw_db w) of
          Inl e \<Rightarrow> Error (AttState e)
        | Inr None \<Rightarrow> Error ErrNotEnrolled
        | Inr (Some v) \<Rightarrow> if v = [] then Error ErrNotEnrolled else Ok v))"

definition provider_SetJWT :: "sqlite_env option \<Rightarrow> string \<Rightarrow> att_world \<Rightarrow> (att_error, unit) result \<times> att_world" where
  "provider_SetJWT state value w =
     (case state of
        None \<Rightarrow> (Error JWTStateRequired, w)
      | Some E \<Rightarrow> (case SetJWT E value (aw_db w) of
          (Inl e, db1) \<Rightarrow> (Error (AttState e), w\<lparr>aw_db := db1\<rparr>)
        | (Inr _, db1) \<Rightarrow> (Ok (), w\<lparr>aw_db := db1\<rparr>)))"

definition NewStateAgentUUIDProvider :: "sqlite_env option \<Rightarrow> att_world \<Rightarrow> (att_error, string) result" where
  "NewStateAgentUUIDProvider state w =
     (case state of
        None \<Rightarrow> Error AgentUUIDStateRequired
      | Some E \<Rightarrow> (case GetAgentUUID E (aw_db w) of
          Inl e \<Rightarrow> Error (AttState e)
        | Inr None \<Rightarrow> Error ErrNotEnrolled
        | Inr (Some v) \<Rightarrow> if v = [] then Error ErrNotEnrolled else Ok v))"

subsection \<open>Manager\<close>

record att_manager =
  am_agentUUIDProvider :: "(att_world \<Rightarrow> (att_error, string) result) option"
  am_jwtProvider :: "((att_world \<Rightarrow> (att_error, string) result) \<times> (string \<Rightarrow> att_world \<Rightarrow> (att_error, unit) result \<times> att_world)) option"
  am_nonceProvider :: "(string \<Rightarrow> string \<Rightarrow> att_world \<Rightarrow> (att_error, string \<times> gotime \<times> string) result \<times> att_world) option"
  am_collector :: "(string \<Rightarrow> att_world \<Rightarrow> (sdk_response option \<times> collect_error option) \<times> att_world) option"
  am_submitter :: "(att_result option \<Rightarrow> string \<Rightarrow> att_world \<Rightarrow> (att_error, unit) result \<times> att_world) option"
  am_config :: attestation_config
  am_lastResult :: "att_result option"
  am_lastUpdated :: gotime

definition NewManager where
  "NewManager uuidp jwtp noncep collector submitter cfg =
     \<lparr>am_agentUUIDProvider = uuidp, am_jwtProvider = jwtp, am_nonceProvider = noncep, am_collector = collector,
      am_submitter = submitter, am_config = cfg, am_lastResult = None, am_lastUpdated = zero_time\<rparr>"

text \<open>The steps of \<open>CollectOnce\<close> up to the nonce: agent UUID, JWT, nonce, and storing a refreshed JWT.\<close>

definition obtain_nonce where
  "obtain_nonce uuidp getJWT setJWT nonceOf w =
     (case uuidp w of
        Inl e \<Rightarrow> (Error e, w)
      | Inr agentUUID \<Rightarrow> (case getJWT w of
          Inl e \<Rightarrow> (Error e, w)
        | Inr jwt \<Rightarrow> (case nonceOf agentUUID jwt w of
            (Inl e, w1) \<Rightarrow> (Error e, w1)
          | (Inr (nonce, refreshTS, refreshedJWT), w1) \<Rightarrow>
              if refreshedJWT \<noteq> [] \<and> refreshedJWT \<noteq> jwt then
                (case setJWT refreshedJWT w1 of
                   (Inl e, w2) \<Rightarrow> (Error e, w2)
                 | (Inr _, w2) \<Rightarrow> (Ok (agentUUID, refreshedJWT, nonce, refreshTS), w2))
              else (Ok (agentUUID, jwt, nonce, refreshTS), w1))))"

definition zero_sdk_response :: sdk_response where
  "zero_sdk_response = \<lparr>sdk_Evidences = [], sdk_ResultCode = 0, sdk_ResultMessage = []\<rparr>"

definition make_result :: "gotime \<Rightarrow> string \<Rightarrow> gotime \<Rightarrow> sdk_response option \<Rightarrow> collect_error option \<Rightarrow> att_result" where
  "make_result now agentUUID refreshTS sdkResp err =
     \<lparr>re_CollectedAt = to_utc now, re_AgentUUID = agentUUID, re_NonceRefreshTimestamp = refreshTS,
      re_Success = (err = None),
      re_ErrorMessage = (case err of Some e \<Rightarrow> collect_error_text e | None \<Rightarrow> []),
      re_SDKResponse = (case sdkResp of None \<Rightarrow> zero_sdk_response | Some s \<Rightarrow> s)\<rparr>"

text \<open>The clock is read twice: for the result and for the time of the update.\<close>

definition att_CollectOnce :: "gotime \<times> gotime \<Rightarrow> att_manager \<Rightarrow> att_world
    \<Rightarrow> (att_result option \<times> att_error option) \<times> att_manager \<times> att_world" where
  "att_CollectOnce clock m w =
     (case (am_agentUUIDProvider m, am_jwtProvider m, am_nonceProvider m, am_collector m, am_submitter m) of
        (Some uuidp, Some (getJWT, setJWT), Some nonceOf, Some collect, Some submit) \<Rightarrow>
          (case obtain_nonce uuidp getJWT setJWT nonceOf w of
             (Inl e, w1) \<Rightarrow> ((None, Some e), m, w1)
           | (Inr (agentUUID, jwt, nonce, refreshTS), w1) \<Rightarrow>
              (case collect nonce w1 of ((sdkResp, collectErr), w2) \<Rightarrow>
                (let result = make_result (fst clock) agentUUID refreshTS sdkResp collectErr;
                     m1 = m\<lparr>am_lastResult := Some result, am_lastUpdated := to_utc (snd clock)\<rparr>
                 in case submit (Some result) jwt w2 of
                      (Inl e, w3) \<Rightarrow> ((None, Some e), m1, w3)
                    | (Inr _, w3) \<Rightarrow> ((Some result, map_option CollectFailed collectErr), m1, w3))))
      | _ \<Rightarrow> ((None, Some DependenciesIncomplete), m, w))"

definition LastResult :: "att_manager \<Rightarrow> att_result option" where
  "LastResult m = am_lastResult m"

definition IsResultUpdated :: "att_manager \<Rightarrow> gotime \<Rightarrow> bool" where
  "IsResultUpdated m since \<longleftrightarrow> t_nanos (am_lastUpdated m) > t_nanos since"

definition att_nextInterval :: "attestation_config \<Rightarrow> bool \<Rightarrow> duration" where
  "att_nextInterval cfg failed = (if failed \<and> at_RetryInterval cfg > 0 then at_RetryInterval cfg else at_Interval cfg)"

definition att_calculateJitter :: "int option \<Rightarrow> int \<Rightarrow> duration \<Rightarrow> duration" where
  "att_calculateJitter draw unixNano maxJitter =
     (if maxJitter \<le> 0 then 0
      else let maxMs = maxJitter div time_Millisecond in
           if maxMs \<le> 0 then 0
           else (case draw of None \<Rightarrow> unixNano mod maxMs | Some r \<Rightarrow> r) * time_Millisecond)"

text \<open>
  \<open>Run\<close>, for the outcomes of the attempts (\<open>True\<close>: failed) and of the sleeps (\<open>False\<close>: the context is
  done first).
\<close>

datatype att_run_event = AttSlept duration | AttAttempted bool | AttStopped | AttRefused

fun att_run_loop :: "attestation_config \<Rightarrow> (nat \<Rightarrow> bool) \<Rightarrow> nat \<Rightarrow> bool list \<Rightarrow> att_run_event list" where
  "att_run_loop cfg failed n [] = [AttAttempted (failed n)]"
| "att_run_loop cfg failed n (fired # rest) =
     AttAttempted (failed n) #
       (if fired then AttSlept (att_nextInterval cfg (failed n)) # att_run_loop cfg failed (Suc n) rest else [AttStopped])"

definition att_Run :: "att_manager \<Rightarrow> int option \<Rightarrow> int \<Rightarrow> (nat \<Rightarrow> bool) \<Rightarrow> bool list \<Rightarrow> att_run_event list" where
  "att_Run m draw unixNano failed sleeps =
     (let cfg = am_config m in
      if am_agentUUIDProvider m = None \<or> am_jwtProvider m = None \<or> am_nonceProvider m = None \<or>
         am_collector m = None \<or> am_submitter m = None then [AttRefused]
      else if at_Interval cfg \<le> 0 then [AttStopped]
      else if at_StartupJitter cfg > 0 then
        (case sleeps of
           [] \<Rightarrow> []
         | fired # rest \<Rightarrow>
             if fired then AttSlept (att_calculateJitter draw unixNano (at_StartupJitter cfg)) # att_run_loop cfg failed 0 rest
             else [AttStopped])
      else att_run_loop cfg failed 0 sleeps)"

text \<open>The manager as the agent assembles it: every provider on one agent state.  The result of \<open>Collect\<close> as the
  Go pair of response and error.\<close>

definition go_pair :: "('e, 'a) result \<times> 'w \<Rightarrow> ('a option \<times> 'e option) \<times> 'w" where
  "go_pair rw = (case rw of (Inl e, w) \<Rightarrow> ((None, Some e), w) | (Inr x, w) \<Rightarrow> ((Some x, None), w))"

definition state_manager :: "att_env \<Rightarrow> cli_env \<Rightarrow> duration \<Rightarrow> attestation_config \<Rightarrow> att_manager" where
  "state_manager N C timeout cfg =
     NewManager (Some (NewStateAgentUUIDProvider (an_state N)))
       (Some (provider_GetJWT (an_state N), provider_SetJWT (an_state N)))
       (Some (state_GetNonce N))
       (Some (\<lambda>nonce w. go_pair (Collect C (NewCLIEvidenceCollector timeout) nonce w)))
       (Some (state_Submit N)) cfg"

section \<open>Lemmas\<close>

lemma nonce_loop_None: "nonce_loop quote i s = None \<longleftrightarrow> list_all nonce_char s"
  by (induction s arbitrary: i) auto

text \<open>The specification of an acceptable nonce.\<close>

definition nonce_ok :: "string \<Rightarrow> bool" where
  "nonce_ok s \<longleftrightarrow> 1 \<le> length s \<and> length s \<le> 512 \<and>
     set s \<subseteq> set ''0123456789abcdefghijklmnopqrstuvwxyzABCDEFGHIJKLMNOPQRSTUVWXYZ-_=+/''"

lemma char_interval:
  assumes "lo \<le> (of_char c :: nat)" "(of_char c :: nat) \<le> hi"
  shows "c \<in> set (map char_of [lo..<Suc hi])"
proof -
  from assms have "of_char c \<in> set [lo..<Suc hi]" by (simp only: set_upt atLeastLessThan_iff less_Suc_eq_le conj_absorb)
  then have "char_of (of_char c :: nat) \<in> char_of ` set [lo..<Suc hi]" by (rule imageI)
  then show ?thesis by simp
qed

lemma char_range:
  "CHR ''0'' \<le> c \<and> c \<le> CHR ''9'' \<longleftrightarrow> c \<in> set ''0123456789''"
  "CHR ''a'' \<le> c \<and> c \<le> CHR ''z'' \<longleftrightarrow> c \<in> set ''abcdefghijklmnopqrstuvwxyz''"
  "CHR ''A'' \<le> c \<and> c \<le> CHR ''Z'' \<longleftrightarrow> c \<in> set ''ABCDEFGHIJKLMNOPQRSTUVWXYZ''"
proof -
  have tables: "map char_of [48..<Suc 57] = ''0123456789''" "map char_of [97..<Suc 122] = ''abcdefghijklmnopqrstuvwxyz''"
    "map char_of [65..<Suc 90] = ''ABCDEFGHIJKLMNOPQRSTUVWXYZ''"
    by code_simp+
  have bounds: "\<forall>c \<in> set ''0123456789''. CHR ''0'' \<le> c \<and> c \<le> CHR ''9''"
    "\<forall>c \<in> set ''abcdefghijklmnopqrstuvwxyz''. CHR ''a'' \<le> c \<and> c \<le> CHR ''z''"
    "\<forall>c \<in> set ''ABCDEFGHIJKLMNOPQRSTUVWXYZ''. CHR ''A'' \<le> c \<and> c \<le> CHR ''Z''"
    by code_simp+
  have num: "(of_char CHR ''0'' :: nat) = 48" "(of_char CHR ''9'' :: nat) = 57" "(of_char CHR ''a'' :: nat) = 97"
    "(of_char CHR ''z'' :: nat) = 122" "(of_char CHR ''A'' :: nat) = 65" "(of_char CHR ''Z'' :: nat) = 90"
    by simp_all
  show "CHR ''0'' \<le> c \<and> c \<le> CHR ''9'' \<longleftrightarrow> c \<in> set ''0123456789''"
    using char_interval [of 48 c 57, unfolded tables] bounds(1) unfolding less_eq_char_def num by blast
  show "CHR ''a'' \<le> c \<and> c \<le> CHR ''z'' \<longleftrightarrow> c \<in> set ''abcdefghijklmnopqrstuvwxyz''"
    using char_interval [of 97 c 122, unfolded tables] bounds(2) unfolding less_eq_char_def num by blast
  show "CHR ''A'' \<le> c \<and> c \<le> CHR ''Z'' \<longleftrightarrow> c \<in> set ''ABCDEFGHIJKLMNOPQRSTUVWXYZ''"
    using char_interval [of 65 c 90, unfolded tables] bounds(3) unfolding less_eq_char_def num by blast
qed

lemma nonce_char_alphabet:
  "nonce_char c \<longleftrightarrow> c \<in> set ''0123456789abcdefghijklmnopqrstuvwxyzABCDEFGHIJKLMNOPQRSTUVWXYZ-_=+/''"
  unfolding nonce_char_def char_range by auto

lemma validateNonce_None: "validateNonce quote s = None \<longleftrightarrow> nonce_ok s"
proof -
  have "list_all nonce_char s \<longleftrightarrow>
      set s \<subseteq> set ''0123456789abcdefghijklmnopqrstuvwxyzABCDEFGHIJKLMNOPQRSTUVWXYZ-_=+/''"
    unfolding list_all_iff nonce_char_alphabet by blast
  then show ?thesis
    unfolding validateNonce_def nonce_ok_def nonce_loop_None maxLen_def
    by (cases "s = []"; cases "length s > 512") (auto simp add: Suc_le_eq nonce_loop_None simp del: list.set)
qed

lemma emit_simps [simp]: "aw_db (emit evs w) = aw_db w" "aw_log (emit evs w) = aw_log w @ evs"
  by (simp_all add: emit_def)

lemma Collect_world:
  assumes "Collect C timeout nonce w = (r, w1)"
  shows "aw_db w1 = aw_db w \<and> aw_log w1 = aw_log w @ (if nonce_ok nonce then [Ran (nvattest_args nonce)] else []) \<and>
         (is_ok r \<longrightarrow> nonce_ok nonce)"
  using assms validateNonce_None [of "ce_quote C" nonce]
  by (auto simp: Collect_def Let_def split: option.splits prod.splits if_splits sum.splits)

lemma GetNonce_requests:
  assumes "GetNonce L K c uuid jwt = (r, rqs)"
  shows "length rqs \<le> 1 \<and> (is_ok r \<longrightarrow> rqs \<noteq> []) \<and>
     (\<forall>rq \<in> set rqs. request_ok L c ''POST'' [''v1'', ''agent'', ''nodes'', uuid, ''nonce''] jwt rq)"
proof (cases "uuid = [] \<or> jwt = []")
  case True
  with assms show ?thesis by (auto simp: GetNonce_def split: if_splits)
next
  case False
  let ?path = "[''v1'', ''agent'', ''nodes'', uuid, ''nonce'']"
  obtain d ds where d: "doJSON L c ''POST'' ?path jwt None (Some (dec_nonce K, zero_nonce)) = (d, ds)" by fastforce
  have "rqs = ds" "is_ok r \<longrightarrow> is_ok d"
    using assms False d by (auto simp: GetNonce_def Let_def split: sum.splits option.splits if_splits)
  with doJSON_requests [OF d] False d show ?thesis by (auto simp: is_ok_iff elim: doJSON_Ok)
qed

lemma SubmitAttestation_requests:
  assumes "SubmitAttestation L K c uuid (Some req) jwt = (r, rqs)"
  shows "length rqs \<le> 1 \<and> (is_ok r \<longrightarrow> rqs \<noteq> []) \<and>
     (\<forall>rq \<in> set rqs. request_ok L c ''POST'' [''v1'', ''agent'', ''nodes'', uuid, ''attestation''] jwt rq \<and>
        rq_body rq = enc_attestation K req)"
proof -
  let ?path = "[''v1'', ''agent'', ''nodes'', uuid, ''attestation'']"
  let ?none = "None :: ((string \<Rightarrow> unit option) \<times> unit) option"
  obtain d ds where d: "doJSON L c ''POST'' ?path jwt (Some (enc_attestation K req)) ?none = (d, ds)" by fastforce
  have body: "\<forall>rq \<in> set ds. rq_body rq = enc_attestation K req"
    using d by (auto simp: doJSON_def build_request_def Let_def split: option.splits if_splits)
  show ?thesis
    using assms d body doJSON_requests [OF d] doJSON_Ok [of L c "''POST''" ?path jwt "Some (enc_attestation K req)" ?none _ ds]
    by (auto simp: SubmitAttestation_def split: if_splits sum.splits)
qed

text \<open>The base URL depends on the values of its keys only.\<close>

lemma ReadMetadata_view_cong:
  assumes "view db k = view db' k"
  shows "(case ReadMetadata E db k of Inl e \<Rightarrow> Inl (if isMetadataAbsentErr e then None else Some e) | Inr v \<Rightarrow> if v = [] then Inl None else Inr v)
       = (case ReadMetadata E db' k of Inl e \<Rightarrow> Inl (if isMetadataAbsentErr e then None else Some e) | Inr v \<Rightarrow> if v = [] then Inl None else Inr v)"
  using assms
  by (cases db; cases db')
     (auto simp: ReadMetadata_def sql_select_def view_def ok_if_nonempty_def coalesce_value_def split: option.splits if_splits)

lemma legacy_lookup_view_cong:
  "(\<And>k. k \<in> set ks \<Longrightarrow> view db k = view db' k) \<Longrightarrow> legacy_lookup L E db ks = legacy_lookup L E db' ks"
proof (induction ks)
  case (Cons k ks)
  then have "view db k = view db' k" by simp
  from ReadMetadata_view_cong [OF this, of E] Cons show ?case
    by (auto split: sum.splits if_splits)
qed simp

lemma GetBackendBaseURL_view_cong:
  assumes "\<And>k. k \<in> set url_keys \<Longrightarrow> view db k = view db' k"
  shows "GetBackendBaseURL L E db = GetBackendBaseURL L E db'"
proof -
  have leg: "legacy_lookup L E db legacy_endpoint_keys = legacy_lookup L E db' legacy_endpoint_keys"
    by (rule legacy_lookup_view_cong) (simp add: assms url_keys_def)
  have "view db MetadataKeyBackendBaseURL = view db' MetadataKeyBackendBaseURL" by (simp add: assms url_keys_def)
  from ReadMetadata_view_cong [OF this, of E] leg show ?thesis
    by (auto simp: GetBackendBaseURL_def openReadOnly_def split: sum.splits option.splits if_splits)
qed

lemma token_not_url_key: "MetadataKeyToken \<notin> set url_keys"
  by (simp add: url_keys_def legacy_endpoint_keys_def metadata_keys)

lemma factory_client_Ok:
  assumes "factory_client N db = Inr c" "an_state N = Some E"
  obtains base where "GetBackendBaseURL (an_net N) E db = Inr (Some base)" "New (an_net N) (an_http N) base = Inr c"
  using assms by (auto simp: factory_client_def split: sum.splits option.splits if_splits)

lemma factory_client_cong:
  assumes "\<And>k. k \<noteq> MetadataKeyToken \<Longrightarrow> view db k = view db' k"
  shows "factory_client N db = factory_client N db'"
proof -
  have "GetBackendBaseURL L E db = GetBackendBaseURL L E db'" for L E
    by (rule GetBackendBaseURL_view_cong) (metis assms token_not_url_key)
  then show ?thesis by (cases "an_state N") (simp_all add: factory_client_def)
qed

lemma state_GetNonce_world:
  assumes "state_GetNonce N uuid jwt w = (r, w1)"
  shows "(w1 = w \<and> \<not> is_ok r) \<or>
    (\<exists>c n rqs. factory_client N (aw_db w) = Inr c \<and> GetNonce (an_net N) (an_codec N) c uuid jwt = (n, rqs) \<and>
       w1 = emit (map Sent rqs) w \<and>
       (case n of Inl e \<Rightarrow> r = Inl (AttClient e)
        | Inr x \<Rightarrow> r = Inr (no_Nonce x, no_NonceRefreshTimestamp x, no_JWTAssertion x)))"
  using assms
  by (auto simp: state_GetNonce_def backend_GetNonce_def nonce_client_def split: sum.splits prod.splits)

lemma provider_SetJWT_view:
  assumes "provider_SetJWT (Some E) v w = (r, w1)"
  shows "aw_log w1 = aw_log w \<and> (\<forall>k. k \<noteq> MetadataKeyToken \<longrightarrow> view (aw_db w1) k = view (aw_db w) k) \<and>
    (is_ok r \<longrightarrow> view (aw_db w1) MetadataKeyToken = ok_if_nonempty v)"
  using assms setMetadata_cases [of E MetadataKeyToken v "aw_db w"]
  by (cases "setMetadata E MetadataKeyToken v (aw_db w)")
     (auto simp: provider_SetJWT_def SetJWT_def split: sum.splits)

lemma state_Submit_world:
  assumes "state_Submit N (Some x) jwt w = (r, w1)" "re_AgentUUID x \<noteq> []"
  shows "(w1 = w \<and> \<not> is_ok r) \<or>
    (\<exists>c s rqs. factory_client N (aw_db w) = Inr c \<and>
       SubmitAttestation (an_net N) (an_codec N) c (re_AgentUUID x) (toAttestationRequest (Some x)) jwt = (s, rqs) \<and>
       w1 = emit (map Sent rqs) w \<and> is_ok r = is_ok s)"
  using assms
  by (auto simp: state_Submit_def submit_uuid_def backend_Submit_def split: sum.splits prod.splits)

lemma getMetadata_SomeD: "getMetadata E db k = Inr (Some v) \<Longrightarrow> view db k = Some v"
  by (cases db)
     (auto simp: getMetadata_def ReadMetadata_def sql_select_def openReadOnly_def view_def ok_if_nonempty_def
        coalesce_value_def split: sum.splits option.splits if_splits)

lemma providers_Ok:
  "NewStateAgentUUIDProvider (Some E) w = Inr u \<Longrightarrow> GetAgentUUID E (aw_db w) = Inr (Some u) \<and> u \<noteq> []"
  "provider_GetJWT (Some E) w = Inr j \<Longrightarrow> GetJWT E (aw_db w) = Inr (Some j) \<and> j \<noteq> []"
  by (auto simp: NewStateAgentUUIDProvider_def provider_GetJWT_def split: sum.splits option.splits if_splits)

section \<open>The provider contracts\<close>

text \<open>
  What the manager needs of its interfaces.  A \<open>JWTProvider\<close> returns the stored JWT and replaces nothing but
  the stored JWT; \<open>rest\<close> is everything else a world holds.  A \<open>NonceProvider\<close> leaves the stored JWT alone.
\<close>

locale jwt_provider =
  fixes getJWT :: "'w \<Rightarrow> ('e, string) result"
    and setJWT :: "string \<Rightarrow> 'w \<Rightarrow> ('e, unit) result \<times> 'w"
    and stored :: "'w \<Rightarrow> string option"
    and rest :: "'w \<Rightarrow> 'f"
  assumes get_stored: "getJWT w = Inr j \<Longrightarrow> stored w = Some j \<and> j \<noteq> []"
    and set_rest: "setJWT v w = (r, w1) \<Longrightarrow> rest w1 = rest w"
    and set_stored: "setJWT v w = (Inr u, w1) \<Longrightarrow> v \<noteq> [] \<Longrightarrow> stored w1 = Some v"

locale nonce_workflow = jwt_provider getJWT setJWT stored rest
  for getJWT :: "'w \<Rightarrow> ('e, string) result" and setJWT :: "string \<Rightarrow> 'w \<Rightarrow> ('e, unit) result \<times> 'w"
    and stored :: "'w \<Rightarrow> string option" and rest :: "'w \<Rightarrow> 'f" +
  fixes uuidOf :: "'w \<Rightarrow> ('e, string) result"
    and nonceOf :: "string \<Rightarrow> string \<Rightarrow> 'w \<Rightarrow> ('e, string \<times> 't \<times> string) result \<times> 'w"
  assumes nonce_stored: "nonceOf u j w = (r, w1) \<Longrightarrow> stored w1 = stored w"
begin

text \<open>Either nothing happened, or the nonce was asked for with the stored JWT, and on success the JWT in force
  is the stored one.\<close>

lemma obtain_cases:
  assumes "obtain_nonce uuidOf getJWT setJWT nonceOf w = (r, w1)"
  obtains (idle) "w1 = w" "\<not> is_ok r"
  | (asked) uuid jwt nr wn where "uuidOf w = Inr uuid" "getJWT w = Inr jwt" "nonceOf uuid jwt w = (nr, wn)" "rest w1 = rest wn"
      "is_ok r \<longrightarrow> is_ok nr"
      "\<And>u j n ts. r = Inr (u, j, n, ts) \<Longrightarrow> u = uuid \<and> stored w1 = Some j \<and>
         (\<exists>refreshed. nr = Inr (n, ts, refreshed) \<and> j = (if refreshed = [] then jwt else refreshed))"
proof (cases "\<exists>uuid jwt. uuidOf w = Inr uuid \<and> getJWT w = Inr jwt")
  case False
  with assms idle show ?thesis by (auto simp: obtain_nonce_def split: sum.splits)
next
  case True
  then obtain uuid jwt where uj: "uuidOf w = Inr uuid" "getJWT w = Inr jwt" by blast
  obtain nr wn where n: "nonceOf uuid jwt w = (nr, wn)" by fastforce
  have st: "stored wn = Some jwt" using nonce_stored [OF n] get_stored [OF uj(2)] by simp
  show ?thesis
  proof (cases nr)
    case (Inl e)
    with assms uj n show ?thesis by (intro asked [of uuid jwt nr wn]) (auto simp: obtain_nonce_def)
  next
    case (Inr q)
    obtain nonce ts ref where q: "q = (nonce, ts, ref)" by (cases q) auto
    show ?thesis
    proof (cases "ref \<noteq> [] \<and> ref \<noteq> jwt")
      case True
      obtain sr ws where s: "setJWT ref wn = (sr, ws)" by fastforce
      with assms uj n Inr q True have "w1 = ws" "r = (case sr of Inl e \<Rightarrow> Inl e | Inr _ \<Rightarrow> Inr (uuid, ref, nonce, ts))"
        by (auto simp: obtain_nonce_def split: sum.splits)
      with uj n Inr q True set_rest [OF s] set_stored [of ref wn _ ws] s show ?thesis
        by (intro asked [of uuid jwt nr wn]) (auto split: sum.splits)
    next
      case False
      with assms uj n Inr q have "w1 = wn" "r = Inr (uuid, jwt, nonce, ts)" by (auto simp: obtain_nonce_def)
      with uj n Inr q False st show ?thesis by (intro asked [of uuid jwt nr wn]) auto
    qed
  qed
qed

end

definition world_rest :: "att_world \<Rightarrow> (string \<Rightarrow> string option) \<times> att_event list" where
  "world_rest w = ((view (aw_db w))(MetadataKeyToken := None), aw_log w)"

interpretation sp: nonce_workflow "provider_GetJWT (Some E)" "provider_SetJWT (Some E)"
    "\<lambda>w. view (aw_db w) MetadataKeyToken" world_rest "NewStateAgentUUIDProvider (Some E)" "state_GetNonce N"
  for E N
proof
  fix w j
  assume "provider_GetJWT (Some E) w = Inr j"
  then show "view (aw_db w) MetadataKeyToken = Some j \<and> j \<noteq> []"
    by (auto simp: GetJWT_def dest!: providers_Ok getMetadata_SomeD)
next
  fix v w r w1
  assume s: "provider_SetJWT (Some E) v w = (r, w1)"
  show "world_rest w1 = world_rest w" using provider_SetJWT_view [OF s] by (auto simp: world_rest_def fun_eq_iff)
next
  fix v w u w1
  assume s: "provider_SetJWT (Some E) v w = (Inr u, w1)" and "v \<noteq> []"
  then show "view (aw_db w1) MetadataKeyToken = Some v" using provider_SetJWT_view [OF s] by (simp add: ok_if_nonempty_def)
next
  fix u j w r w1
  assume "state_GetNonce N u j w = (r, w1)"
  then show "view (aw_db w1) MetadataKeyToken = view (aw_db w) MetadataKeyToken" by (auto dest: state_GetNonce_world)
qed

text \<open>The JWT in force after a nonce response: the refreshed one when there is one.\<close>

definition jwt_in_force :: "string \<Rightarrow> nonce_response \<Rightarrow> string" where
  "jwt_in_force jwt x = (if no_JWTAssertion x = [] then jwt else no_JWTAssertion x)"

text \<open>What the first half of the workflow does: at most the nonce request, and on success the JWT in force is stored.\<close>

lemma obtain_nonce_world:
  assumes "obtain_nonce (NewStateAgentUUIDProvider (Some E)) (provider_GetJWT (Some E)) (provider_SetJWT (Some E))
      (state_GetNonce N) w = (r, w1)"
  shows "(\<forall>k. k \<noteq> MetadataKeyToken \<longrightarrow> view (aw_db w1) k = view (aw_db w) k) \<and>
    ((aw_log w1 = aw_log w \<and> \<not> is_ok r) \<or>
     (\<exists>uuid jwt c rq. GetAgentUUID E (aw_db w) = Inr (Some uuid) \<and> uuid \<noteq> [] \<and> GetJWT E (aw_db w) = Inr (Some jwt) \<and>
        factory_client N (aw_db w) = Inr c \<and> aw_log w1 = aw_log w @ [Sent rq] \<and>
        request_ok (an_net N) c ''POST'' [''v1'', ''agent'', ''nodes'', uuid, ''nonce''] jwt rq \<and>
        (\<forall>u j n ts. r = Inr (u, j, n, ts) \<longrightarrow> u = uuid \<and>
           (\<exists>x. GetNonce (an_net N) (an_codec N) c uuid jwt = (Inr x, [rq]) \<and> n = no_Nonce x \<and> j = jwt_in_force jwt x \<and>
              view (aw_db w1) MetadataKeyToken = Some j))))"
  using assms
proof (cases rule: sp.obtain_cases)
  case idle
  then show ?thesis by simp
next
  case (asked uuid jwt nr wn)
  note stored = providers_Ok(1) [OF asked(1)] providers_Ok(2) [OF asked(2)]
  from asked(4) have wr: "aw_log w1 = aw_log wn" "\<And>k. k \<noteq> MetadataKeyToken \<Longrightarrow> view (aw_db w1) k = view (aw_db wn) k"
    by (auto simp: world_rest_def fun_eq_iff split: if_splits)
  show ?thesis
  proof (cases "wn = w \<and> \<not> is_ok nr")
    case True
    with wr asked(5) show ?thesis by auto
  next
    case False
    then obtain c g rqs where g: "factory_client N (aw_db w) = Inr c"
      "GetNonce (an_net N) (an_codec N) c uuid jwt = (g, rqs)" "wn = emit (map Sent rqs) w"
      "case g of Inl e \<Rightarrow> nr = Inl (AttClient e)
       | Inr x \<Rightarrow> nr = Inr (no_Nonce x, no_NonceRefreshTimestamp x, no_JWTAssertion x)"
      using state_GetNonce_world [OF asked(3)] by blast
    note rq = GetNonce_requests [OF g(2)]
    show ?thesis
    proof (cases rqs)
      case Nil
      with rq g wr asked(5) show ?thesis by (cases g) auto
    next
      case (Cons rq0 more)
      then have one: "rqs = [rq0]" using rq by simp
      have res: "u = uuid \<and> (\<exists>x. GetNonce (an_net N) (an_codec N) c uuid jwt = (Inr x, [rq0]) \<and> n = no_Nonce x \<and>
          j = jwt_in_force jwt x \<and> view (aw_db w1) MetadataKeyToken = Some j)" if "r = Inr (u, j, n, ts)" for u j n ts
        using asked(6) [OF that] g(2,4) one by (cases g) (auto simp: jwt_in_force_def)
      have "aw_log w1 = aw_log w @ [Sent rq0]" "\<forall>k. k \<noteq> MetadataKeyToken \<longrightarrow> view (aw_db w1) k = view (aw_db w) k"
        using wr g(3) one by simp_all
      with stored g(1) rq one res show ?thesis by auto
    qed
  qed
qed

abbreviation state_obtain :: "att_env \<Rightarrow> sqlite_env \<Rightarrow> att_world \<Rightarrow> (att_error, string \<times> string \<times> string \<times> gotime) result \<times> att_world" where
  "state_obtain N E \<equiv> obtain_nonce (NewStateAgentUUIDProvider (Some E)) (provider_GetJWT (Some E)) (provider_SetJWT (Some E)) (state_GetNonce N)"

abbreviation pair_result :: "gotime \<Rightarrow> string \<Rightarrow> gotime \<Rightarrow> (collect_error, sdk_response) result \<Rightarrow> att_result" where
  "pair_result now uuid ts r \<equiv>
     make_result now uuid ts (case r of Inl _ \<Rightarrow> None | Inr x \<Rightarrow> Some x) (case r of Inl e \<Rightarrow> Some e | Inr _ \<Rightarrow> None)"

text \<open>The two ways an attempt of the assembled manager goes.\<close>

lemma state_CollectOnce_cases:
  assumes "att_CollectOnce clock (state_manager N C timeout cfg) w = ((res, err), m1, w1)" "an_state N = Some E"
  obtains (early) e where "state_obtain N E w = (Inl e, w1)" "res = None" "err = Some e" "am_lastResult m1 = None"
  | (late) uuid jwt nonce ts wa r wb sr where
      "state_obtain N E w = (Inr (uuid, jwt, nonce, ts), wa)"
      "Collect C (NewCLIEvidenceCollector timeout) nonce wa = (r, wb)"
      "state_Submit N (Some (pair_result (fst clock) uuid ts r)) jwt wb = (sr, w1)"
      "am_lastResult m1 = Some (pair_result (fst clock) uuid ts r)"
      "case sr of Inl e \<Rightarrow> res = None \<and> err = Some e
       | Inr _ \<Rightarrow> res = am_lastResult m1 \<and> err = (case r of Inl e \<Rightarrow> Some (CollectFailed e) | Inr _ \<Rightarrow> None)"
proof -
  obtain o1 wa where o: "state_obtain N E w = (o1, wa)" by fastforce
  show ?thesis
  proof (cases o1)
    case (Inl e)
    with assms o show ?thesis by (intro early [of e]) (auto simp: att_CollectOnce_def state_manager_def NewManager_def)
  next
    case (Inr q)
    obtain uuid jwt nonce ts where q: "q = (uuid, jwt, nonce, ts)" by (cases q) auto
    obtain r wb where r: "Collect C (NewCLIEvidenceCollector timeout) nonce wa = (r, wb)" by fastforce
    obtain sr w3 where s: "state_Submit N (Some (pair_result (fst clock) uuid ts r)) jwt wb = (sr, w3)" by fastforce
    show ?thesis
      using assms o Inr q r s
      by (intro late [of uuid jwt nonce ts wa r wb sr])
         (auto simp: att_CollectOnce_def state_manager_def NewManager_def go_pair_def Let_def split: sum.splits)
  qed
qed

section \<open>Properties\<close>

text \<open>C23: nothing but a harmless token from the backend reaches a command line.  Whatever nonce it is given,
  the collector runs at most the one fixed \<open>nvattest\<close> command, and it runs it exactly when the nonce has 1
  to 512 characters that are all letters, digits or one of \<open>- _ = + /\<close>; otherwise it fails without running
  anything.  It never touches the agent's database.\<close>

theorem nonce_on_command_line_safe:
  assumes "Collect C timeout nonce w = (r, w1)"
  shows "aw_log w1 = aw_log w @ (if nonce_ok nonce then [Ran (nvattest_args nonce)] else []) \<and>
         aw_db w1 = aw_db w \<and> (\<not> nonce_ok nonce \<longrightarrow> (\<exists>e. r = Error (InvalidNonce e)))"
  using Collect_world [OF assms] assms validateNonce_None [of "ce_quote C" nonce]
  by (auto simp: Collect_def split: option.splits)

definition sample_cli :: cli_env where
  "sample_cli = \<lparr>ce_run = (\<lambda>_ _. (None, ''{}'', ''warn'')),
     ce_decode = (\<lambda>_. Ok \<lparr>sdk_Evidences = [], sdk_ResultCode = 0, sdk_ResultMessage = ''ok''\<rparr>), ce_quote = (\<lambda>_. [])\<rparr>"

theorem nonce_on_command_line_safe_witness:
  "(\<exists>r. Collect sample_cli 1 ''ab+/='' \<lparr>aw_db = None, aw_log = []\<rparr> =
      (r, \<lparr>aw_db = None, aw_log = [Ran (nvattest_args ''ab+/='')]\<rparr>)) \<and>
   (\<exists>e. Collect sample_cli 1 ''a;b'' \<lparr>aw_db = None, aw_log = []\<rparr> = (Error (InvalidNonce e), \<lparr>aw_db = None, aw_log = []\<rparr>))"
proof -
  let ?w = "\<lparr>aw_db = None, aw_log = []\<rparr>"
  obtain r w1 where g: "Collect sample_cli 1 ''ab+/='' ?w = (r, w1)" by fastforce
  have "nonce_ok ''ab+/=''" "\<not> nonce_ok ''a;b''" by (simp_all add: nonce_ok_def)
  then have "w1 = \<lparr>aw_db = None, aw_log = [Ran (nvattest_args ''ab+/='')]\<rparr>"
    using nonce_on_command_line_safe [OF g] by (cases w1) simp
  moreover obtain r2 w2 where b: "Collect sample_cli 1 ''a;b'' ?w = (r2, w2)" by fastforce
  moreover have "w2 = ?w" "\<exists>e. r2 = Error (InvalidNonce e)"
    using nonce_on_command_line_safe [OF b] \<open>\<not> nonce_ok ''a;b''\<close> by (cases w2, simp_all)
  ultimately show ?thesis using g by auto
qed

text \<open>C4: the order of an attestation attempt, over everything it does outside the process.  An attempt
  either does nothing, or first sends the nonce request authenticated with the stored JWT for the stored
  agent UUID; it goes on only after that request gave a nonce and the JWT in force (the refreshed one if the
  response carries one) is stored; then it runs the command for that very nonce, if acceptable, and sends at
  most one submission, to the same backend, authenticated with the JWT in force.  No other key of the
  agent's database ever changes.\<close>

theorem attestation_workflow_order:
  assumes "att_CollectOnce clock (state_manager N C timeout cfg) w = ((res, err), m1, w1)" "an_state N = Some E"
  shows "(\<forall>k. k \<noteq> MetadataKeyToken \<longrightarrow> view (aw_db w1) k = view (aw_db w) k) \<and>
    (aw_log w1 = aw_log w \<or>
     (\<exists>uuid jwt base c rq rest. GetAgentUUID E (aw_db w) = Ok (Some uuid) \<and> GetJWT E (aw_db w) = Ok (Some jwt) \<and>
        GetBackendBaseURL (an_net N) E (aw_db w) = Ok (Some base) \<and> New (an_net N) (an_http N) base = Ok c \<and>
        aw_log w1 = aw_log w @ Sent rq # rest \<and>
        request_ok (an_net N) c ''POST'' [''v1'', ''agent'', ''nodes'', uuid, ''nonce''] jwt rq \<and>
        (rest \<noteq> [] \<longrightarrow> (\<exists>x subs. GetNonce (an_net N) (an_codec N) c uuid jwt = (Ok x, [rq]) \<and>
           view (aw_db w1) MetadataKeyToken = Some (jwt_in_force jwt x) \<and>
           rest = (if nonce_ok (no_Nonce x) then [Ran (nvattest_args (no_Nonce x))] else []) @ map Sent subs \<and>
           length subs \<le> 1 \<and>
           (\<forall>s \<in> set subs. request_ok (an_net N) c ''POST'' [''v1'', ''agent'', ''nodes'', uuid, ''attestation'']
               (jwt_in_force jwt x) s)))))"
  using assms
proof (cases rule: state_CollectOnce_cases)
  case (early e)
  from obtain_nonce_world [OF early(1)] show ?thesis
    using assms(2) by (fastforce elim!: factory_client_Ok)
next
  case (late uuid jwt nonce ts wa r wb sr)
  note ob = obtain_nonce_world [OF late(1)]
  from ob obtain jwt0 c rq x where a: "GetAgentUUID E (aw_db w) = Inr (Some uuid)" "uuid \<noteq> []"
    "GetJWT E (aw_db w) = Inr (Some jwt0)" "factory_client N (aw_db w) = Inr c" "aw_log wa = aw_log w @ [Sent rq]"
    "request_ok (an_net N) c ''POST'' [''v1'', ''agent'', ''nodes'', uuid, ''nonce''] jwt0 rq"
    "GetNonce (an_net N) (an_codec N) c uuid jwt0 = (Inr x, [rq])" "nonce = no_Nonce x" "jwt = jwt_in_force jwt0 x"
    "view (aw_db wa) MetadataKeyToken = Some jwt" by auto
  from a(4) assms(2) obtain base where base: "GetBackendBaseURL (an_net N) E (aw_db w) = Inr (Some base)"
    "New (an_net N) (an_http N) base = Inr c" by (rule factory_client_Ok)
  note col = Collect_world [OF late(2)]
  let ?res = "pair_result (fst clock) uuid ts r"
  have u: "re_AgentUUID ?res = uuid" by (simp add: make_result_def)
  have fc: "factory_client N (aw_db wb) = Inr c"
    using factory_client_cong [of "aw_db wb" "aw_db w" N] col ob a(4) by auto
  have "\<exists>subs. w1 = emit (map Sent subs) wb \<and> length subs \<le> 1 \<and>
      (\<forall>s \<in> set subs. request_ok (an_net N) c ''POST'' [''v1'', ''agent'', ''nodes'', uuid, ''attestation''] jwt s)"
  proof (cases "w1 = wb")
    case True
    then show ?thesis by (intro exI [of _ "[]"]) (simp add: emit_def)
  next
    case False
    with state_Submit_world [OF late(3)] u a(2) fc obtain s rqs where
      "SubmitAttestation (an_net N) (an_codec N) c uuid (toAttestationRequest (Some ?res)) jwt = (s, rqs)"
      "w1 = emit (map Sent rqs) wb" by auto
    then show ?thesis
      using SubmitAttestation_requests [of "an_net N" "an_codec N" c uuid _ jwt s rqs]
      by (auto simp: toAttestationRequest_def)
  qed
  then obtain subs where subs: "w1 = emit (map Sent subs) wb" "length subs \<le> 1"
    "\<forall>s \<in> set subs. request_ok (an_net N) c ''POST'' [''v1'', ''agent'', ''nodes'', uuid, ''attestation''] jwt s" by blast
  let ?rest = "(if nonce_ok nonce then [Ran (nvattest_args nonce)] else []) @ map Sent subs"
  have "aw_log w1 = aw_log w @ Sent rq # ?rest" using subs(1) col a(5) by simp
  moreover have "aw_db w1 = aw_db wa" using subs(1) col by simp
  ultimately show ?thesis
    using a base subs ob by (intro conjI disjI2 exI [of _ uuid] exI [of _ jwt0] exI [of _ base] exI [of _ c] exI [of _ rq]
        exI [of _ ?rest] impI exI [of _ x] exI [of _ subs]) auto
qed

text \<open>A backend whose nonce response refreshes the JWT.\<close>

definition sample_att_env :: att_env where
  "sample_att_env = \<lparr>an_net = plain_netlib,
     an_codec = sample_codec\<lparr>dec_nonce := \<lambda>s. Some (zero_nonce\<lparr>no_Nonce := s, no_JWTAssertion := ''fresh''\<rparr>)\<rparr>,
     an_http = sample_http, an_state = Some healthy\<rparr>"

definition sample_att_config :: attestation_config where
  "sample_att_config = \<lparr>at_Interval = 1, at_RetryInterval = 1, at_Timeout = 0, at_StartupJitter = 0\<rparr>"

definition sample_attempt where
  "sample_attempt = att_CollectOnce (zero_time, zero_time) (state_manager sample_att_env sample_cli 0 sample_att_config)
     \<lparr>aw_db = sample_db, aw_log = []\<rparr>"

fun event_summary :: "att_event \<Rightarrow> string \<times> string option" where
  "event_summary (Sent rq) = (rq_url rq, rq_authorization rq)"
| "event_summary (Ran args) = (hd args, None)"

lemma sample_attempt_log:
  "map event_summary (aw_log (snd (snd sample_attempt))) =
     [(''https://b.example/v1/agent/nodes/uuid/nonce'', Some ''Bearer jwt''), (''nvattest'', None),
      (''https://b.example/v1/agent/nodes/uuid/attestation'', Some ''Bearer fresh'')]"
  by code_simp

theorem attestation_workflow_order_witness:
  "\<exists>w1. snd (snd sample_attempt) = w1 \<and> view (aw_db w1) MetadataKeyToken = Some ''fresh'' \<and>
     view (aw_db w1) MetadataKeyMachineID = Some ''uuid'' \<and> length (aw_log w1) = 3"
proof -
  obtain res err m1 w1 where x: "sample_attempt = ((res, err), m1, w1)" by (metis prod.exhaust)
  have "view (aw_db w1) MetadataKeyMachineID = view sample_db MetadataKeyMachineID"
    using attestation_workflow_order [OF x [unfolded sample_attempt_def], of healthy]
    by (simp add: sample_att_env_def metadata_keys)
  moreover have "view sample_db MetadataKeyMachineID = Some ''uuid''" by code_simp
  moreover have "view (aw_db (snd (snd sample_attempt))) MetadataKeyToken = Some ''fresh''" by code_simp
  moreover have "length (map event_summary (aw_log (snd (snd sample_attempt)))) = 3" by (simp add: sample_attempt_log)
  ultimately show ?thesis unfolding x by simp
qed

text \<open>What the backend is told is what happened.  When an attempt returns a result, that result is the
  one kept as the last result and the one whose encoding is the body of the last request; it is marked
  successful exactly when the attempt returns no error, and otherwise carries the text of the collection
  error that the attempt returns.  An attempt without error always has a result, and one that leaves no last
  result has run no command.\<close>

theorem attestation_outcome_reported:
  assumes "att_CollectOnce clock (state_manager N C timeout cfg) w = ((res, err), m1, w1)" "an_state N = Some E"
  shows "(err = None \<longrightarrow> res \<noteq> None) \<and>
    (\<forall>r. res = Some r \<longrightarrow> LastResult m1 = Some r \<and> (re_Success r \<longleftrightarrow> err = None) \<and>
       (\<not> re_Success r \<longrightarrow> (\<exists>e. err = Some (CollectFailed e) \<and> re_ErrorMessage r = collect_error_text e)) \<and>
       (\<exists>before rq req. aw_log w1 = before @ [Sent rq] \<and> toAttestationRequest (Some r) = Some req \<and>
          rq_body rq = enc_attestation (an_codec N) req)) \<and>
    (LastResult m1 = None \<longrightarrow> (\<forall>args. Ran args \<in> set (aw_log w1) \<longrightarrow> Ran args \<in> set (aw_log w)))"
  using assms
proof (cases rule: state_CollectOnce_cases)
  case (early e)
  from obtain_nonce_world [OF early(1)] early show ?thesis by (auto simp: LastResult_def)
next
  case (late uuid jwt nonce ts wa r wb sr)
  let ?res = "pair_result (fst clock) uuid ts r"
  obtain req where req: "toAttestationRequest (Some ?res) = Some req" by (simp add: toAttestationRequest_def)
  have u: "re_AgentUUID ?res \<noteq> []" using obtain_nonce_world [OF late(1)] by (auto simp: make_result_def)
  have sent: "\<exists>before rq. aw_log w1 = before @ [Sent rq] \<and> rq_body rq = enc_attestation (an_codec N) req" if "is_ok sr"
  proof -
    from state_Submit_world [OF late(3) u] that obtain c s rqs where
      s: "SubmitAttestation (an_net N) (an_codec N) c (re_AgentUUID ?res) (Some req) jwt = (s, rqs)"
        "w1 = emit (map Sent rqs) wb" "is_ok s" unfolding req by auto
    from SubmitAttestation_requests [OF s(1)] s(3) obtain rq where
      "rqs = [rq]" "rq_body rq = enc_attestation (an_codec N) req" by (cases rqs) auto
    with s(2) show ?thesis by auto
  qed
  show ?thesis
  proof (cases sr)
    case (Inl e)
    with late show ?thesis by (simp add: LastResult_def)
  next
    case (Inr v)
    with late sent req show ?thesis
      by (cases r) (auto simp: LastResult_def make_result_def)
  qed
qed

theorem attestation_outcome_reported_witness:
  "\<exists>r m1 w1. sample_attempt = ((Some r, None), m1, w1) \<and> LastResult m1 = Some r \<and> re_Success r"
proof -
  have c: "snd (fst sample_attempt) = None" by code_simp
  obtain res err m1 w1 where x: "sample_attempt = ((res, err), m1, w1)" by (metis prod.exhaust)
  note p = attestation_outcome_reported [OF x [unfolded sample_attempt_def], of healthy]
  from c have "err = None" unfolding x by simp
  with p obtain r where "res = Some r" by (auto simp: sample_att_env_def)
  with \<open>err = None\<close> p x show ?thesis by (auto simp: sample_att_env_def)
qed

end
