(* ===== verification/Run_Command.thy ===== *)
theory Run_Command
  imports Config
begin

text \<open>
  \<open>cmd/fleetint/run.go\<close>: how the command line and the process environment become the configuration the
  server is started with, and the check of the offline output path.

  The environment is a map.  \<open>time.ParseDuration\<close> is an argument of the definitions that use it.  The two
  system calls of the path check, \<open>os.Lstat\<close> and \<open>filepath.EvalSymlinks\<close>, are the record \<open>path_env\<close>.  A
  function that updates the configuration in place returns the updated one; where it fails the caller drops
  the configuration, so only the error is returned.  Starting and stopping the server is not part of this
  theory.
\<close>

section \<open>Definitions\<close>

subsection \<open>Offline output path\<close>

datatype eval_symlinks = EvalOk string | EvalNotExist | EvalError string

record path_env =
  pe_is_symlink :: "string \<Rightarrow> bool"
  pe_eval :: "string \<Rightarrow> eval_symlinks"

definition restrictedOfflinePaths :: "string list" where
  "restrictedOfflinePaths =
     [''/bin'', ''/boot'', ''/dev'', ''/etc'', ''/lib'', ''/lib64'', ''/proc'', ''/run'', ''/sbin'', ''/sys'', ''/usr'']"

text \<open>\<open>filepath.Dir\<close> on Unix: everything up to the last slash, cleaned.\<close>

definition filepath_Dir :: "string \<Rightarrow> string" where
  "filepath_Dir p = filepath_Clean (rev (dropWhile (\<lambda>c. c \<noteq> CHR ''/'') (rev p)))"

datatype path_error =
    PathEmpty
  | PathNotAbsolute string
  | PathIsSymlink string
  | PathResolveFailed string string
  | PathRestricted string string string
  | PathLoopOutOfFuel

text \<open>
  The loop that resolves the deepest existing ancestor.  The fuel is the length of the path, which is
  enough for an absolute clean path because every parent is shorter.
\<close>

fun resolve_path :: "path_env \<Rightarrow> string \<Rightarrow> nat \<Rightarrow> string \<Rightarrow> (path_error, string) result" where
  "resolve_path P clean 0 cur = Error PathLoopOutOfFuel"
| "resolve_path P clean (Suc n) cur =
     (case pe_eval P cur of
        EvalOk rp \<Rightarrow> Ok (filepath_Clean (filepath_Join rp (TrimPrefix clean cur)))
      | EvalError e \<Rightarrow> Error (PathResolveFailed cur e)
      | EvalNotExist \<Rightarrow>
          (let parent = filepath_Dir cur in
           if parent = cur then Ok clean else resolve_path P clean n parent))"

definition restricted_by :: "string \<Rightarrow> string option" where
  "restricted_by resolved = find (\<lambda>r. resolved = r \<or> HasPrefix resolved (r @ ''/'')) restrictedOfflinePaths"

definition validateOfflinePath :: "path_env \<Rightarrow> string \<Rightarrow> (path_error, unit) result" where
  "validateOfflinePath P p =
     (if p = [] then Error PathEmpty
      else if \<not> filepath_IsAbs p then Error (PathNotAbsolute p)
      else let clean = filepath_Clean p in
        if pe_is_symlink P clean then Error (PathIsSymlink p)
        else (case resolve_path P clean (length clean) clean of
            Inl e \<Rightarrow> Error e
          | Inr resolved \<Rightarrow> (case restricted_by resolved of
              Some r \<Rightarrow> Error (PathRestricted p resolved r)
            | None \<Rightarrow> Ok ())))"

subsection \<open>Duration flag\<close>

datatype duration_error = DurationFormat | DurationParts

text \<open>The groups of \<open>^(\d{1,2}):(\d{2}):(\d{2})$\<close>.\<close>

definition match_hms :: "string \<Rightarrow> (string \<times> string \<times> string) option" where
  "match_hms s =
     (case Split s CHR '':'' of
        [h, m, t] \<Rightarrow>
          if (length h = 1 \<or> length h = 2) \<and> length m = 2 \<and> length t = 2 \<and>
             list_all is_digit h \<and> list_all is_digit m \<and> list_all is_digit t
          then Some (h, m, t) else None
      | _ \<Rightarrow> None)"

definition parseDuration :: "string \<Rightarrow> (duration_error, duration) result" where
  "parseDuration s =
     (case match_hms s of
        None \<Rightarrow> Error DurationFormat
      | Some (h, m, t) \<Rightarrow>
          (case (ParseInt h, ParseInt m, ParseInt t) of
             (Some hours, Some minutes, Some seconds) \<Rightarrow>
               if minutes \<ge> 60 \<or> seconds \<ge> 60 then Error DurationParts
               else Ok (hours * time_Hour + minutes * time_Minute + seconds * time_Second)
           | _ \<Rightarrow> Error DurationFormat))"

subsection \<open>Environment variables\<close>

datatype run_env_error =
    EnvInvalid string string
  | EnvAtLeast string
  | EnvAtMost string
  | ExporterConfigNil
  | EnvFieldProfiles profile_error

type_synonym environ = "string \<rightharpoonup> string"

definition Getenv :: "environ \<Rightarrow> string \<Rightarrow> string" where
  "Getenv env key = (case env key of None \<Rightarrow> [] | Some v \<Rightarrow> v)"

definition ParseBool :: "string \<Rightarrow> bool option" where
  "ParseBool s =
     (if s \<in> set [''1'', ''t'', ''T'', ''TRUE'', ''true'', ''True''] then Some True
      else if s \<in> set [''0'', ''f'', ''F'', ''FALSE'', ''false'', ''False''] then Some False
      else None)"

text \<open>Each setter takes the present value of its target and returns the new one.\<close>

definition setBoolFromEnv :: "environ \<Rightarrow> string \<Rightarrow> bool \<Rightarrow> (run_env_error, bool) result" where
  "setBoolFromEnv env key target =
     (let val = Getenv env key in
      if val \<noteq> [] then (case ParseBool val of None \<Rightarrow> Error (EnvInvalid key val) | Some b \<Rightarrow> Ok b) else Ok target)"

definition setDurationFromEnv :: "(string \<Rightarrow> duration option) \<Rightarrow> environ \<Rightarrow> string \<Rightarrow> duration \<Rightarrow> duration \<Rightarrow> duration
    \<Rightarrow> (run_env_error, duration) result" where
  "setDurationFromEnv PD env key target mn mx =
     (let val = Getenv env key in
      if val \<noteq> [] then
        (case PD val of
           None \<Rightarrow> Error (EnvInvalid key val)
         | Some d \<Rightarrow>
             if mn > 0 \<and> d < mn then Error (EnvAtLeast key)
             else if mx > 0 \<and> d > mx then Error (EnvAtMost key)
             else Ok d)
      else Ok target)"

definition setIntFromEnv :: "environ \<Rightarrow> string \<Rightarrow> int \<Rightarrow> int \<Rightarrow> (run_env_error, int) result" where
  "setIntFromEnv env key target mn =
     (let val = Getenv env key in
      if val \<noteq> [] then
        (case ParseInt val of
           None \<Rightarrow> Error (EnvInvalid key val)
         | Some i \<Rightarrow> if i < mn then Error (EnvAtLeast key) else Ok i)
      else Ok target)"

text \<open>One statement of a configuration function: set one field or fail; and a sequence of them.\<close>

definition assign :: "('c \<Rightarrow> 'v) \<Rightarrow> (('v \<Rightarrow> 'v) \<Rightarrow> 'c \<Rightarrow> 'c) \<Rightarrow> ('v \<Rightarrow> ('e, 'v) result) \<Rightarrow> 'c \<Rightarrow> ('e, 'c) result" where
  "assign get upd f c = (case f (get c) of Inl e \<Rightarrow> Error e | Inr v \<Rightarrow> Ok (upd (\<lambda>_. v) c))"

fun run_all :: "('c \<Rightarrow> ('e, 'c) result) list \<Rightarrow> 'c \<Rightarrow> ('e, 'c) result" where
  "run_all [] c = Ok c"
| "run_all (f # fs) c = (case f c of Inl e \<Rightarrow> Error e | Inr c1 \<Rightarrow> run_all fs c1)"

definition setFieldProfiles :: "environ \<Rightarrow> string \<Rightarrow> (run_env_error, string) result" where
  "setFieldProfiles env target =
     (case env ''FLEETINT_DCGM_FIELD_PROFILES'' of
        None \<Rightarrow> Ok target
      | Some v \<Rightarrow> (case ParseFieldProfiles v of Inl e \<Rightarrow> Error (EnvFieldProfiles e) | Inr _ \<Rightarrow> Ok v))"

definition setCollectorEndpoint :: "environ \<Rightarrow> string \<Rightarrow> (run_env_error, string) result" where
  "setCollectorEndpoint env target =
     (let val = Getenv env ''FLEETINT_COLLECTOR_ENDPOINT'' in Ok (if val \<noteq> [] then val else target))"

definition exporter_setters :: "(string \<Rightarrow> duration option) \<Rightarrow> environ
    \<Rightarrow> (health_exporter_config \<Rightarrow> (run_env_error, health_exporter_config) result) list" where
  "exporter_setters PD env =
     (let dur = (\<lambda>key mn mx t. setDurationFromEnv PD env key t mn mx) in
     [assign he_DCGMExtendedInterval he_DCGMExtendedInterval_update
        (dur ''FLEETINT_DCGM_EXTENDED_INTERVAL'' time_Second (24 * time_Hour)),
      assign he_DCGMFieldProfiles he_DCGMFieldProfiles_update (setFieldProfiles env),
      assign he_IncludeMetrics he_IncludeMetrics_update (setBoolFromEnv env ''FLEETINT_INCLUDE_METRICS''),
      assign he_IncludeEvents he_IncludeEvents_update (setBoolFromEnv env ''FLEETINT_INCLUDE_EVENTS''),
      assign he_IncludeMachineInfo he_IncludeMachineInfo_update (setBoolFromEnv env ''FLEETINT_INCLUDE_MACHINEINFO''),
      assign he_IncludeComponentData he_IncludeComponentData_update (setBoolFromEnv env ''FLEETINT_INCLUDE_HEALTHCHECKS''),
      assign he_Interval he_Interval_update (dur ''FLEETINT_COLLECT_INTERVAL'' time_Second (24 * time_Hour)),
      assign he_MetricsLookback he_MetricsLookback_update (dur ''FLEETINT_METRICS_LOOKBACK'' 0 0),
      assign he_EventsLookback he_EventsLookback_update (dur ''FLEETINT_EVENTS_LOOKBACK'' 0 0),
      assign he_HealthCheckInterval he_HealthCheckInterval_update
        (dur ''FLEETINT_CHECK_INTERVAL'' time_Second (24 * time_Hour)),
      assign he_DCGMHealthCheckInterval he_DCGMHealthCheckInterval_update
        (dur ''FLEETINT_DCGM_HEALTH_CHECK_INTERVAL'' time_Minute (24 * time_Hour)),
      assign he_RetryMaxAttempts he_RetryMaxAttempts_update (\<lambda>t. setIntFromEnv env ''FLEETINT_RETRY_MAX_ATTEMPTS'' t 0),
      assign he_CollectorEndpoint he_CollectorEndpoint_update (setCollectorEndpoint env)])"

definition configureHealthExporterFromEnv :: "(string \<Rightarrow> duration option) \<Rightarrow> environ \<Rightarrow> config \<Rightarrow> (run_env_error, config) result" where
  "configureHealthExporterFromEnv PD env cfg =
     (case c_HealthExporter cfg of
        None \<Rightarrow> Error ExporterConfigNil
      | Some he \<Rightarrow> (case run_all (exporter_setters PD env) he of
          Inl e \<Rightarrow> Error e
        | Inr he1 \<Rightarrow> Ok (cfg\<lparr>c_HealthExporter := Some he1\<rparr>)))"

definition loop_setters :: "(string \<Rightarrow> duration option) \<Rightarrow> environ \<Rightarrow> string \<Rightarrow> string \<Rightarrow> duration
    \<Rightarrow> (loop_config \<Rightarrow> (run_env_error, loop_config) result) list" where
  "loop_setters PD env enabledKey intervalKey mn =
     [assign lc_Enabled lc_Enabled_update (setBoolFromEnv env enabledKey),
      assign lc_Interval lc_Interval_update (\<lambda>t. setDurationFromEnv PD env intervalKey t mn 0)]"

definition configure_loop :: "(string \<Rightarrow> duration option) \<Rightarrow> environ \<Rightarrow> string \<Rightarrow> string \<Rightarrow> duration \<Rightarrow> loop_config option
    \<Rightarrow> (run_env_error, loop_config option) result" where
  "configure_loop PD env enabledKey intervalKey mn l =
     (case l of
        None \<Rightarrow> Ok None
      | Some x \<Rightarrow> (case run_all (loop_setters PD env enabledKey intervalKey mn) x of Inl e \<Rightarrow> Error e | Inr y \<Rightarrow> Ok (Some y)))"

definition configureLoopConfigFromEnv :: "(string \<Rightarrow> duration option) \<Rightarrow> environ \<Rightarrow> config \<Rightarrow> (run_env_error, config) result" where
  "configureLoopConfigFromEnv PD env cfg = run_all
     [assign c_Inventory c_Inventory_update
        (configure_loop PD env ''FLEETINT_INVENTORY_ENABLED'' ''FLEETINT_INVENTORY_INTERVAL'' MinInventoryInterval),
      assign c_Attestation c_Attestation_update
        (configure_loop PD env ''FLEETINT_ATTESTATION_ENABLED'' ''FLEETINT_ATTESTATION_INTERVAL'' MinAttestationInterval)] cfg"

definition configureWorkloadAttribution :: "string \<Rightarrow> string \<Rightarrow> string \<Rightarrow> config \<Rightarrow> config" where
  "configureWorkloadAttribution source hpcJobMappingDir hpcGPUIdentifier cfg =
     (if source = [] \<and> hpcJobMappingDir = [] then cfg
      else cfg\<lparr>c_WorkloadAttribution := Some \<lparr>wa_Source = source,
        wa_HPC = (if hpcJobMappingDir \<noteq> []
                  then Some \<lparr>hw_JobMappingDir = filepath_Clean hpcJobMappingDir, hw_GPUIdentifier = hpcGPUIdentifier\<rparr>
                  else None)\<rparr>\<rparr>)"

subsection \<open>The run command up to starting the server\<close>

record run_flags =
  rf_listen_address :: string
  rf_retention_period :: duration
  rf_workload_source :: string
  rf_hpc_dir :: string
  rf_hpc_gpu_identifier :: string
  rf_ib_class_root_dir :: string
  rf_components :: string
  rf_ib_port_states :: string
  rf_enable_fault_injection :: bool
  rf_offline_mode :: bool
  rf_path :: string
  rf_duration :: string
  rf_format :: string

datatype run_error =
    RunPathRequired
  | RunDurationRequired
  | RunInvalidDuration duration_error
  | RunPortStates
  | RunDefaultConfig fs_error
  | RunExporterEnv run_env_error
  | RunLoopEnv run_env_error
  | RunOfflinePath path_error
  | RunMkdir string
  | RunInvalidConfig config_error

definition offline_duration :: "run_flags \<Rightarrow> (run_error, duration) result" where
  "offline_duration f =
     (if rf_offline_mode f then
        (if rf_path f = [] then Error RunPathRequired
         else if rf_duration f = [] then Error RunDurationRequired
         else (case parseDuration (rf_duration f) of Inl e \<Rightarrow> Error (RunInvalidDuration e) | Inr d \<Rightarrow> Ok d))
      else Ok 0)"

definition offline_exporter :: "run_flags \<Rightarrow> duration \<Rightarrow> health_exporter_config \<Rightarrow> health_exporter_config" where
  "offline_exporter f d he =
     \<lparr>he_DCGMExtendedInterval = he_DCGMExtendedInterval he, he_DCGMFieldProfiles = he_DCGMFieldProfiles he,
      he_MetricsEndpoint = [], he_LogsEndpoint = [], he_AuthToken = [],
      he_Interval = he_Interval he, he_Timeout = he_Timeout he,
      he_IncludeMetrics = he_IncludeMetrics he, he_IncludeEvents = he_IncludeEvents he,
      he_IncludeMachineInfo = he_IncludeMachineInfo he, he_IncludeComponentData = he_IncludeComponentData he,
      he_MetricsLookback = he_MetricsLookback he, he_EventsLookback = he_EventsLookback he,
      he_HealthCheckInterval = he_HealthCheckInterval he, he_DCGMHealthCheckInterval = he_DCGMHealthCheckInterval he,
      he_RetryMaxAttempts = 0, he_CollectorEndpoint = [], he_OfflineMode = True, he_OutputPath = rf_path f,
      he_OutputFormat = rf_format f, he_Duration = d\<rparr>"

definition apply_flags :: "run_flags \<Rightarrow> config \<Rightarrow> config" where
  "apply_flags f cfg =
     (let c1 = (if rf_listen_address f \<noteq> [] then cfg\<lparr>c_Address := rf_listen_address f\<rparr> else cfg);
          c2 = (if rf_retention_period f > 0 then c1\<lparr>c_RetentionPeriod := rf_retention_period f\<rparr> else c1);
          c3 = configureWorkloadAttribution (rf_workload_source f) (rf_hpc_dir f) (rf_hpc_gpu_identifier f) c2;
          c4 = (if rf_components f \<noteq> [] then c3\<lparr>c_Components := Split (rf_components f) CHR '',''\<rparr> else c3)
      in if rf_enable_fault_injection f then c4\<lparr>c_EnableFaultInjection := True\<rparr> else c4)"

definition apply_offline :: "path_env \<Rightarrow> (string \<Rightarrow> string option) \<Rightarrow> run_flags \<Rightarrow> duration \<Rightarrow> config \<Rightarrow> (run_error, config) result" where
  "apply_offline P mkdir f d cfg =
     (if rf_offline_mode f then
        (case validateOfflinePath P (rf_path f) of
           Inl e \<Rightarrow> Error (RunOfflinePath e)
         | Inr _ \<Rightarrow> (case mkdir (rf_path f) of
             Some e \<Rightarrow> Error (RunMkdir e)
           | None \<Rightarrow> Ok (cfg\<lparr>c_HealthExporter := map_option (offline_exporter f d) (c_HealthExporter cfg)\<rparr>)))
      else Ok cfg)"

text \<open>
  The libraries and services of the command: URL parser, duration parser, decoder of the port states,
  operating system, path queries, \<open>os.MkdirAll\<close> of the output directory, environment and files.
\<close>

record run_env =
  re_net :: netlib
  re_parse_duration :: "string \<Rightarrow> duration option"
  re_port_states_ok :: "string \<Rightarrow> bool"
  re_os :: os_env
  re_path :: path_env
  re_mkdir :: "string \<Rightarrow> string option"
  re_environ :: environ

definition runCommand_config :: "run_env \<Rightarrow> run_flags \<Rightarrow> files \<Rightarrow> (run_error, config) result" where
  "runCommand_config R f fs =
     (case offline_duration f of
        Inl e \<Rightarrow> Error e
      | Inr d \<Rightarrow>
         if rf_ib_port_states f \<noteq> [] \<and> \<not> re_port_states_ok R (rf_ib_port_states f) then Error RunPortStates
         else (case fst (Default (re_os R) [rf_ib_class_root_dir f] fs) of
             Inl e \<Rightarrow> Error (RunDefaultConfig e)
           | Inr c0 \<Rightarrow> (case configureHealthExporterFromEnv (re_parse_duration R) (re_environ R) c0 of
               Inl e \<Rightarrow> Error (RunExporterEnv e)
             | Inr c1 \<Rightarrow> (case configureLoopConfigFromEnv (re_parse_duration R) (re_environ R) c1 of
                 Inl e \<Rightarrow> Error (RunLoopEnv e)
               | Inr c2 \<Rightarrow> (case apply_offline (re_path R) (re_mkdir R) f d (apply_flags f c2) of
                   Inl e \<Rightarrow> Error e
                 | Inr c3 \<Rightarrow> (case Config_Validate (re_net R) c3 of
                     Inl e \<Rightarrow> Error (RunInvalidConfig e)
                   | Inr _ \<Rightarrow> Ok c3))))))"

section \<open>Lemmas\<close>

subsection \<open>Paths get shorter\<close>

definition weight :: "string list \<Rightarrow> nat" where
  "weight ps = sum_list (map (\<lambda>p. Suc (length p)) ps)"

lemma weight_simps [simp]: "weight [] = 0" "weight (p # ps) = Suc (length p) + weight ps"
  "weight (ps @ qs) = weight ps + weight qs" "weight (rev ps) = weight ps"
  by (simp_all add: weight_def rev_map [symmetric])

lemma length_Join: "ps \<noteq> [] \<Longrightarrow> Suc (length (Join ps [c])) = weight ps"
  by (induction ps "[c]" rule: Join.induct) auto

lemma weight_Split: "weight (Split s c) = Suc (length s)"
  using length_Join [of "Split s c" c] by (simp add: Join_Split)

lemma weight_clean_parts: "weight (clean_parts rooted out ps) \<le> weight out + weight ps"
  by (induction rooted out ps rule: clean_parts.induct) (auto split: list.split)

lemma clean_parts_trailing: "clean_parts rooted out (ps @ [[]]) = clean_parts rooted out ps"
  by (induction rooted out ps rule: clean_parts.induct) (auto split: list.split)

lemma Split_snoc: "Split (s @ [c]) c = Split s c @ [[]]"
  by (induction s) (auto split: list.split)

lemma length_Join_le: "length (Join ps [c]) \<le> weight ps - 1"
  by (cases "ps = []") (simp, use length_Join [of ps c] in linarith)

lemma Clean_abs:
  "filepath_Clean (CHR ''/'' # q) = CHR ''/'' # Join (clean_parts True [] (Split q CHR ''/'')) ''/''"
  by (simp add: filepath_Clean_def HasPrefix_def)

lemma length_Clean_abs: "length (filepath_Clean (CHR ''/'' # q)) \<le> Suc (length q)"
  using length_Join_le [of "clean_parts True [] (Split q CHR ''/'')" "CHR ''/''"]
    weight_clean_parts [of True "[]" "Split q CHR ''/''"] by (simp add: Clean_abs weight_Split)

lemma length_Clean_slash: "length (filepath_Clean (CHR ''/'' # q @ ''/'')) \<le> Suc (length q)"
  using length_Join_le [of "clean_parts True [] (Split q CHR ''/'')" "CHR ''/''"]
    weight_clean_parts [of True "[]" "Split q CHR ''/''"]
  by (simp add: Clean_abs Split_snoc clean_parts_trailing weight_Split)

text \<open>The parent of an absolute path is absolute, and shorter unless it is the path itself.\<close>

lemma Dir_abs:
  assumes "cur = CHR ''/'' # q"
  shows "(\<exists>q'. filepath_Dir cur = CHR ''/'' # q') \<and> (filepath_Dir cur = cur \<or> length (filepath_Dir cur) < length cur)"
proof -
  let ?pre = "rev (dropWhile (\<lambda>c. c \<noteq> CHR ''/'') (rev cur))"
  have pre: "cur = ?pre @ rev (takeWhile (\<lambda>c. c \<noteq> CHR ''/'') (rev cur))"
    by (metis rev_append rev_rev_ident takeWhile_dropWhile_id)
  have "dropWhile (\<lambda>c. c \<noteq> CHR ''/'') (rev cur) \<noteq> []" using assms by (simp add: dropWhile_eq_Nil_conv)
  then have ne: "?pre \<noteq> []" and lst: "last ?pre = CHR ''/''"
    using hd_dropWhile [of "\<lambda>c. c \<noteq> CHR ''/''" "rev cur"] by (simp_all add: last_rev)
  from pre ne assms obtain a where a: "?pre = CHR ''/'' # a" by (cases ?pre) auto
  have abs: "\<exists>q'. filepath_Dir cur = CHR ''/'' # q'" by (simp add: filepath_Dir_def a Clean_abs)
  show ?thesis
  proof (cases "?pre = cur")
    case True
    show ?thesis
    proof (cases "a = []")
      case True
      with \<open>?pre = cur\<close> a have c: "cur = ''/''" by simp
      have "filepath_Dir ''/'' = ''/''" by code_simp
      with abs c show ?thesis by simp
    next
      case False
      with a lst obtain b where b: "a = b @ ''/''" by (cases a rule: rev_cases) auto
      have "length (filepath_Dir cur) \<le> Suc (length b)"
        using length_Clean_slash [of b] by (simp add: filepath_Dir_def a b)
      with True a b abs show ?thesis by (metis add.right_neutral add_Suc_right le_imp_less_Suc length_Cons length_append list.size(3))
    qed
  next
    case False
    have "length (filepath_Dir cur) \<le> length ?pre"
      using length_Clean_abs [of a] by (simp add: filepath_Dir_def a)
    moreover have "length ?pre < length cur" using pre False by (metis append.right_neutral length_append length_greater_0_conv less_add_same_cancel1)
    ultimately show ?thesis using abs by simp
  qed
qed

subsection \<open>The ancestor loop\<close>

text \<open>What the loop resolves: the deepest ancestor that exists, or the path itself when none does.\<close>

definition resolves :: "path_env \<Rightarrow> string \<Rightarrow> string \<Rightarrow> bool" where
  "resolves P clean r \<longleftrightarrow> (\<exists>i. (\<forall>j < i. pe_eval P ((filepath_Dir ^^ j) clean) = EvalNotExist) \<and>
     ((\<exists>rp. pe_eval P ((filepath_Dir ^^ i) clean) = EvalOk rp \<and>
         r = filepath_Clean (filepath_Join rp (TrimPrefix clean ((filepath_Dir ^^ i) clean)))) \<or>
      (pe_eval P ((filepath_Dir ^^ i) clean) = EvalNotExist \<and> filepath_Dir ((filepath_Dir ^^ i) clean) = (filepath_Dir ^^ i) clean \<and>
         r = clean)))"

lemma resolve_path_spec:
  assumes "resolve_path P clean n ((filepath_Dir ^^ i) clean) = Inr r"
    "\<forall>j < i. pe_eval P ((filepath_Dir ^^ j) clean) = EvalNotExist"
  shows "resolves P clean r"
  using assms
proof (induction n arbitrary: i)
  case (Suc n)
  let ?cur = "(filepath_Dir ^^ i) clean"
  show ?case
  proof (cases "pe_eval P ?cur")
    case (EvalOk rp)
    with Suc.prems show ?thesis by (auto simp: resolves_def)
  next
    case EvalNotExist
    show ?thesis
    proof (cases "filepath_Dir ?cur = ?cur")
      case True
      with EvalNotExist Suc.prems show ?thesis by (auto simp: resolves_def)
    next
      case False
      have "\<forall>j < Suc i. pe_eval P ((filepath_Dir ^^ j) clean) = EvalNotExist"
        using Suc.prems(2) EvalNotExist less_Suc_eq by auto
      with EvalNotExist False Suc.prems(1) Suc.IH [of "Suc i"] show ?thesis by simp
    qed
  next
    case (EvalError e)
    with Suc.prems show ?thesis by simp
  qed
qed simp

lemma resolve_path_fuel:
  "cur = CHR ''/'' # q \<Longrightarrow> length cur \<le> n \<Longrightarrow> resolve_path P clean n cur \<noteq> Inl PathLoopOutOfFuel"
proof (induction n arbitrary: cur q)
  case (Suc n)
  from Dir_abs [OF Suc.prems(1)] obtain q' where d: "filepath_Dir cur = CHR ''/'' # q'"
    "filepath_Dir cur = cur \<or> length (filepath_Dir cur) < length cur" by auto
  show ?case
  proof (cases "filepath_Dir cur = cur")
    case True
    then show ?thesis by (auto simp: Let_def split: eval_symlinks.splits)
  next
    case False
    with d Suc.prems(2) have "length (filepath_Dir cur) \<le> n" by simp
    from Suc.IH [OF d(1) this] show ?thesis by (auto simp: Let_def split: eval_symlinks.splits)
  qed
qed simp

subsection \<open>Environment settings\<close>

lemma run_all_inv:
  assumes "run_all fs c = Inr c'" "Q c" "\<And>f x y. f \<in> set fs \<Longrightarrow> f x = Inr y \<Longrightarrow> Q x \<Longrightarrow> Q y"
  shows "Q c'"
  using assms
proof (induction fs arbitrary: c)
  case (Cons f fs)
  from Cons.prems(1) obtain c1 where c1: "f c = Inr c1" "run_all fs c1 = Inr c'" by (auto split: sum.splits)
  have "Q c1" using Cons.prems(3) [where f = f and x = c and y = c1] c1(1) Cons.prems(2) by simp
  then show ?case by (rule Cons.IH [OF c1(2)]) (metis Cons.prems(3) list.set_intros(2))
qed simp

lemma setDuration_Ok:
  "setDurationFromEnv PD env key t mn mx = Inr d \<Longrightarrow> d = t \<or> ((0 < mn \<longrightarrow> mn \<le> d) \<and> (0 < mx \<longrightarrow> d \<le> mx))"
  by (auto simp: setDurationFromEnv_def Let_def split: option.splits if_splits)

lemma setDuration_within:
  assumes "setDurationFromEnv PD env key t mn (24 * time_Hour) = Inr d" "within mn t" "0 < mn"
  shows "within mn d"
  using setDuration_Ok [OF assms(1)] assms(2,3) by (auto simp: within_def time_Hour_def)

text \<open>What the checks of the configuration ask of the exporter, except for the collector endpoint.\<close>

definition intervals_ok :: "health_exporter_config \<Rightarrow> bool" where
  "intervals_ok he \<longleftrightarrow> within time_Second (he_DCGMExtendedInterval he) \<and> is_ok (ParseFieldProfiles (he_DCGMFieldProfiles he)) \<and>
     within time_Second (he_HealthCheckInterval he) \<and> within time_Minute (he_DCGMHealthCheckInterval he) \<and> \<not> he_OfflineMode he"

lemma exporter_setters_ok:
  assumes "f \<in> set (exporter_setters PD env)" "f x = Inr y" "intervals_ok x"
  shows "intervals_ok y"
proof -
  have pos: "0 < time_Second" "0 < time_Minute" by (simp_all add: duration_defs)
  have prof: "setFieldProfiles env t = Inr v \<Longrightarrow> is_ok (ParseFieldProfiles t) \<Longrightarrow> is_ok (ParseFieldProfiles v)" for t v
    by (auto simp: setFieldProfiles_def split: option.splits sum.splits)
  from assms show ?thesis
    unfolding exporter_setters_def Let_def
    by (auto simp: assign_def intervals_ok_def split: sum.splits)
       (blast intro: setDuration_within [OF _ _ pos(1)] setDuration_within [OF _ _ pos(2)] prof)+
qed

lemma exporter_collector:
  assumes "run_all (exporter_setters PD env) he = Inr he1"
  shows "he_CollectorEndpoint he1 =
    (if Getenv env ''FLEETINT_COLLECTOR_ENDPOINT'' \<noteq> [] then Getenv env ''FLEETINT_COLLECTOR_ENDPOINT'' else he_CollectorEndpoint he)"
  using assms
  by (auto simp: exporter_setters_def assign_def setCollectorEndpoint_def Let_def split: sum.splits)

lemma configure_loop_ok:
  assumes "configure_loop PD env ek ik mn l = Inr l1" "loop_ok mn l" "0 < mn" "\<And>x. l = Some x \<Longrightarrow> mn \<le> lc_Interval x"
  shows "loop_ok mn l1"
  using assms
  by (cases l)
     (auto simp: configure_loop_def loop_setters_def assign_def loop_ok_def dest!: setDuration_Ok split: sum.splits)

lemma Default_fields:
  assumes "Default W opts fs = (Inr c, fs1)"
  shows "c_HealthExporter c = Some default_exporter" "c_WorkloadAttribution c = None" "c_Address c = DefaultListenAddress"
    "c_RetentionPeriod c = 24 * time_Hour" "c_Inventory c = Some \<lparr>lc_Enabled = True, lc_Interval = time_Hour\<rparr>"
    "c_Attestation c = Some \<lparr>lc_Enabled = True, lc_Interval = 24 * time_Hour\<rparr>" "\<not> c_EnableFaultInjection c"
  using assms by (auto simp: Default_def split: prod.splits sum.splits)

lemma configureHealthExporter_Ok:
  assumes "configureHealthExporterFromEnv PD env c = Inr c1" "c_HealthExporter c = Some he"
  obtains he1 where "run_all (exporter_setters PD env) he = Inr he1" "c1 = c\<lparr>c_HealthExporter := Some he1\<rparr>"
  using assms by (auto simp: configureHealthExporterFromEnv_def split: sum.splits)

lemma configureLoop_Ok:
  assumes "configureLoopConfigFromEnv PD env c = Inr c1"
  obtains i a where
    "configure_loop PD env ''FLEETINT_INVENTORY_ENABLED'' ''FLEETINT_INVENTORY_INTERVAL'' MinInventoryInterval (c_Inventory c) = Inr i"
    "configure_loop PD env ''FLEETINT_ATTESTATION_ENABLED'' ''FLEETINT_ATTESTATION_INTERVAL'' MinAttestationInterval (c_Attestation c) = Inr a"
    "c1 = c\<lparr>c_Inventory := i, c_Attestation := a\<rparr>"
  using assms by (auto simp: configureLoopConfigFromEnv_def assign_def split: sum.splits)

lemma default_intervals_ok: "intervals_ok default_exporter"
proof -
  have "is_ok (ParseFieldProfiles [])" by code_simp
  then show ?thesis
    by (simp add: intervals_ok_def default_exporter_def within_def duration_defs)
qed

subsection \<open>Durations\<close>

lemma digit_val_le: "is_digit c \<Longrightarrow> digit_val c \<le> 9"
  by (auto simp: is_digit_iff digit_val_def)

lemma ParseInt_two_digits:
  assumes "list_all is_digit s" "length s = 1 \<or> length s = 2"
  shows "\<exists>n. ParseInt s = Some (int n) \<and> n \<le> 99"
proof -
  from assms obtain c r where s: "s = c # r" "is_digit c" by (cases s) auto
  then have "c \<noteq> CHR ''-''" "c \<noteq> CHR ''+''" by auto
  moreover have v: "digits_value s \<le> 99"
    using assms s by (cases r) (auto simp: digits_value_def digit_val_le dest!: digit_val_le)
  moreover have "parse_digits s = Some (digits_value s)" using assms s by (simp add: parse_digits_def)
  ultimately have "ParseInt s = Some (int (digits_value s))" using s by (simp add: ParseInt_def)
  with v show ?thesis by blast
qed

lemma parseDuration_bound:
  assumes "parseDuration s = Inr d"
  shows "0 \<le> d \<and> d < 100 * time_Hour"
proof -
  from assms obtain h m t where g: "match_hms s = Some (h, m, t)"
    by (auto simp: parseDuration_def split: option.splits)
  then have parts: "list_all is_digit h" "length h = 1 \<or> length h = 2" "list_all is_digit m" "length m = 2"
    "list_all is_digit t" "length t = 2"
    by (auto simp: match_hms_def split: list.splits if_splits)
  obtain a b c where abc: "ParseInt h = Some (int a)" "a \<le> 99" "ParseInt m = Some (int b)" "ParseInt t = Some (int c)"
    using ParseInt_two_digits [OF parts(1,2)] ParseInt_two_digits [OF parts(3)] ParseInt_two_digits [OF parts(5)] parts by auto
  with assms g have "d = int a * time_Hour + int b * time_Minute + int c * time_Second" "b < 60" "c < 60"
    by (auto simp: parseDuration_def split: if_splits)
  with abc(2) show ?thesis by (simp add: duration_defs)
qed

section \<open>Properties\<close>

text \<open>C33: offline output never lands in a protected system directory.  The path check always returns, and
  what it accepts is an absolute path that is not itself a symbolic link and whose resolution (the deepest
  existing ancestor with its links followed, and the rest of the path below it) is neither one of the
  restricted directories nor inside one.\<close>

theorem offline_path_safe:
  assumes "validateOfflinePath P p = r"
  shows "r \<noteq> Error PathLoopOutOfFuel \<and>
    (r = Ok () \<longrightarrow> filepath_IsAbs p \<and> \<not> pe_is_symlink P (filepath_Clean p) \<and>
       (\<exists>resolved. resolves P (filepath_Clean p) resolved \<and>
          (\<forall>d \<in> set restrictedOfflinePaths. resolved \<noteq> d \<and> \<not> HasPrefix resolved (d @ ''/''))))"
proof (cases "p \<noteq> [] \<and> filepath_IsAbs p")
  case False
  with assms show ?thesis by (auto simp: validateOfflinePath_def split: if_splits)
next
  case True
  then obtain q where q: "p = CHR ''/'' # q" by (cases p) (auto simp: filepath_IsAbs_def HasPrefix_def)
  let ?clean = "filepath_Clean p"
  have abs: "?clean = CHR ''/'' # Join (clean_parts True [] (Split q CHR ''/'')) ''/''" by (simp add: q Clean_abs)
  have fuel: "resolve_path P ?clean (length ?clean) ?clean \<noteq> Inl PathLoopOutOfFuel"
    by (rule resolve_path_fuel [OF abs]) simp
  have res: "resolves P ?clean x" if "resolve_path P ?clean (length ?clean) ?clean = Inr x" for x
    using resolve_path_spec [of P ?clean "length ?clean" 0 x] that by simp
  show ?thesis
    using True assms fuel res
    by (auto simp: validateOfflinePath_def restricted_by_def Let_def find_None_iff split: sum.splits option.splits if_splits)
qed

definition sample_paths :: path_env where
  "sample_paths = \<lparr>pe_is_symlink = (\<lambda>_. False),
     pe_eval = (\<lambda>p. if p = ''/data'' then EvalOk ''/etc/x'' else if p = ''/'' then EvalOk ''/'' else EvalNotExist)\<rparr>"

theorem offline_path_safe_witness:
  "validateOfflinePath sample_paths ''/srv/out'' = Ok () \<and>
   (\<exists>resolved. resolves sample_paths ''/srv/out'' resolved \<and> resolved \<noteq> ''/etc'') \<and>
   validateOfflinePath sample_paths ''/data/out'' = Error (PathRestricted ''/data/out'' ''/etc/x/out'' ''/etc'')"
proof -
  have ok: "validateOfflinePath sample_paths ''/srv/out'' = Ok ()" by code_simp
  have c: "filepath_Clean ''/srv/out'' = ''/srv/out''" by code_simp
  have "''/etc'' \<in> set restrictedOfflinePaths" by (simp add: restrictedOfflinePaths_def)
  then have "\<exists>resolved. resolves sample_paths ''/srv/out'' resolved \<and> resolved \<noteq> ''/etc''"
    using offline_path_safe [OF ok] c by auto
  moreover have "validateOfflinePath sample_paths ''/data/out'' = Error (PathRestricted ''/data/out'' ''/etc/x/out'' ''/etc'')"
    by code_simp
  ultimately show ?thesis using ok by simp
qed

text \<open>The limits enforced on environment variables fit the limits of the configuration check.  When the
  default configuration takes its settings from any environment without an error, the result is valid
  exactly when the collector endpoint named by the environment is empty or a bare absolute HTTP(S) URL.\<close>

theorem env_config_valid:
  assumes "Default W opts fs = (Ok c0, fs1)" "configureHealthExporterFromEnv PD env c0 = Ok c1"
    "configureLoopConfigFromEnv PD env c1 = Ok c2"
  shows "Config_Validate L c2 = Ok () \<longleftrightarrow> collector_ok L (Getenv env ''FLEETINT_COLLECTOR_ENDPOINT'')"
proof -
  note d = Default_fields [OF assms(1)]
  from assms(2) d(1) obtain he where he: "run_all (exporter_setters PD env) default_exporter = Inr he"
    and c1: "c1 = c0\<lparr>c_HealthExporter := Some he\<rparr>" by (rule configureHealthExporter_Ok)
  from assms(3) obtain i a where
    i: "configure_loop PD env ''FLEETINT_INVENTORY_ENABLED'' ''FLEETINT_INVENTORY_INTERVAL'' MinInventoryInterval (c_Inventory c1) = Inr i"
    and a: "configure_loop PD env ''FLEETINT_ATTESTATION_ENABLED'' ''FLEETINT_ATTESTATION_INTERVAL'' MinAttestationInterval (c_Attestation c1) = Inr a"
    and c2: "c2 = c1\<lparr>c_Inventory := i, c_Attestation := a\<rparr>" by (rule configureLoop_Ok)
  have loops: "loop_ok MinInventoryInterval i"
    by (rule configure_loop_ok [OF i]) (simp_all add: c1 d loop_ok_def MinInventoryInterval_def duration_defs)
  have loopa: "loop_ok MinAttestationInterval a"
    by (rule configure_loop_ok [OF a]) (simp_all add: c1 d loop_ok_def MinAttestationInterval_def duration_defs)
  have ok: "intervals_ok he"
    by (rule run_all_inv [where Q = intervals_ok, OF he default_intervals_ok]) (rule exporter_setters_ok)
  have col: "he_CollectorEndpoint he = Getenv env ''FLEETINT_COLLECTOR_ENDPOINT''"
    using exporter_collector [OF he] by (simp add: default_exporter_def)
  have "exporter_ok L he \<longleftrightarrow> collector_ok L (Getenv env ''FLEETINT_COLLECTOR_ENDPOINT'')"
    using ok col by (auto simp: exporter_ok_def intervals_ok_def)
  moreover have "c_Address c2 \<noteq> []" "time_Minute \<le> c_RetentionPeriod c2"
    by (simp_all add: c1 c2 d DefaultListenAddress_def DefaultUnixSocketPath_def duration_defs)
  ultimately show ?thesis
    using loops loopa unfolding Config_Validate_iff
    by (simp add: config_ok_def c1 c2 d workload_ok_def MinInventoryInterval_def MinAttestationInterval_def)
qed

text \<open>A duration parser for witnesses: a decimal number of seconds.\<close>

definition seconds_parser :: "string \<Rightarrow> duration option" where
  "seconds_parser s = map_option (\<lambda>i. i * time_Second) (ParseInt s)"

definition sample_environ :: environ where
  "sample_environ = [''FLEETINT_CHECK_INTERVAL'' \<mapsto> ''45'', ''FLEETINT_ATTESTATION_ENABLED'' \<mapsto> ''false'']"

definition sample_default :: "config" where
  "sample_default = (case fst (Default root_env [] [''/var/lib'' \<mapsto> \<lparr>fn_dir = True, fn_mode = 493\<rparr>]) of
     Inr c \<Rightarrow> c | Inl _ \<Rightarrow> sample_config [])"

theorem env_config_valid_witness:
  "\<exists>c1 c2. configureHealthExporterFromEnv seconds_parser sample_environ sample_default = Ok c1 \<and>
     configureLoopConfigFromEnv seconds_parser sample_environ c1 = Ok c2 \<and>
     map_option he_HealthCheckInterval (c_HealthExporter c2) = Some (45 * time_Second) \<and>
     Config_Validate plain_netlib c2 = Ok ()"
proof -
  let ?fs = "[''/var/lib'' \<mapsto> \<lparr>fn_dir = True, fn_mode = 493\<rparr>]"
  have "is_ok (fst (Default root_env [] ?fs))" by code_simp
  then obtain fs1 where d: "Default root_env [] ?fs = (Ok sample_default, fs1)"
    by (cases "Default root_env [] ?fs") (auto simp: is_ok_iff sample_default_def)
  have k: "is_ok (configureHealthExporterFromEnv seconds_parser sample_environ sample_default)"
    "(case configureHealthExporterFromEnv seconds_parser sample_environ sample_default of Inl _ \<Rightarrow> False | Inr c1 \<Rightarrow>
       (case configureLoopConfigFromEnv seconds_parser sample_environ c1 of Inl _ \<Rightarrow> False | Inr c2 \<Rightarrow>
          map_option he_HealthCheckInterval (c_HealthExporter c2) = Some (45 * time_Second)))"
    by code_simp+
  from k obtain c1 c2 where c: "configureHealthExporterFromEnv seconds_parser sample_environ sample_default = Ok c1"
    "configureLoopConfigFromEnv seconds_parser sample_environ c1 = Ok c2"
    "map_option he_HealthCheckInterval (c_HealthExporter c2) = Some (45 * time_Second)"
    by (auto simp: is_ok_iff split: sum.splits)
  have "Getenv sample_environ ''FLEETINT_COLLECTOR_ENDPOINT'' = []" by code_simp
  then have "Config_Validate plain_netlib c2 = Ok ()"
    using env_config_valid [OF d c(1,2), of plain_netlib] by (simp add: collector_ok_def)
  with c show ?thesis by blast
qed

lemma runCommand_config_Ok:
  assumes "runCommand_config R f fs = Ok c"
  obtains d c0 c1 c2 where "offline_duration f = Inr d" "fst (Default (re_os R) [rf_ib_class_root_dir f] fs) = Inr c0"
    "configureHealthExporterFromEnv (re_parse_duration R) (re_environ R) c0 = Inr c1"
    "configureLoopConfigFromEnv (re_parse_duration R) (re_environ R) c1 = Inr c2"
    "apply_offline (re_path R) (re_mkdir R) f d (apply_flags f c2) = Inr c" "Config_Validate (re_net R) c = Inr ()"
  using assms by (auto simp: runCommand_config_def split: sum.splits if_splits)

text \<open>A server is only ever started on a valid configuration, and the dangerous features are opt-in.
  Whatever the flags and the environment, a configuration that reaches the server passes the configuration
  check, enables fault injection exactly when the flag asked for it, and is offline exactly when the flag
  asked for it; an offline configuration names no network endpoint and no token, writes to a path the path
  check accepted and runs for a positive time of less than 100 hours.\<close>

theorem run_config_opt_in:
  assumes "runCommand_config R f fs = Ok c"
  shows "Config_Validate (re_net R) c = Ok () \<and>
    (c_EnableFaultInjection c \<longleftrightarrow> rf_enable_fault_injection f) \<and>
    (isOfflineMode c \<longleftrightarrow> rf_offline_mode f) \<and>
    (rf_offline_mode f \<longrightarrow> validateOfflinePath (re_path R) (rf_path f) = Ok () \<and>
       (\<exists>he. c_HealthExporter c = Some he \<and> he_MetricsEndpoint he = [] \<and> he_LogsEndpoint he = [] \<and> he_AuthToken he = [] \<and>
          he_CollectorEndpoint he = [] \<and> he_OutputPath he = rf_path f \<and> 0 < he_Duration he \<and> he_Duration he < 100 * time_Hour))"
proof -
  from assms obtain d c0 c1 c2 where od: "offline_duration f = Inr d"
    and c0: "fst (Default (re_os R) [rf_ib_class_root_dir f] fs) = Inr c0"
    and c1: "configureHealthExporterFromEnv (re_parse_duration R) (re_environ R) c0 = Inr c1"
    and c2: "configureLoopConfigFromEnv (re_parse_duration R) (re_environ R) c1 = Inr c2"
    and c3: "apply_offline (re_path R) (re_mkdir R) f d (apply_flags f c2) = Inr c"
    and v: "Config_Validate (re_net R) c = Inr ()"
    by (rule runCommand_config_Ok)
  from c0 obtain fs1 where d0: "Default (re_os R) [rf_ib_class_root_dir f] fs = (Inr c0, fs1)" by (metis prod.collapse)
  note df = Default_fields [OF d0]
  from c1 df(1) obtain he where he: "run_all (exporter_setters (re_parse_duration R) (re_environ R)) default_exporter = Inr he"
    and c1': "c1 = c0\<lparr>c_HealthExporter := Some he\<rparr>" by (rule configureHealthExporter_Ok)
  have "intervals_ok he" by (rule run_all_inv [where Q = intervals_ok, OF he default_intervals_ok]) (rule exporter_setters_ok)
  then have online: "\<not> he_OfflineMode he" by (simp add: intervals_ok_def)
  from c2 have x2: "c_HealthExporter c2 = Some he" "c_EnableFaultInjection c2 = c_EnableFaultInjection c0"
    using c1' by (auto elim!: configureLoop_Ok)
  have af: "c_HealthExporter (apply_flags f c2) = Some he"
    "c_EnableFaultInjection (apply_flags f c2) \<longleftrightarrow> rf_enable_fault_injection f"
    using x2 df(7) by (auto simp: apply_flags_def configureWorkloadAttribution_def Let_def)
  show ?thesis
  proof (cases "rf_offline_mode f")
    case False
    with c3 af online v show ?thesis by (auto simp: apply_offline_def isOfflineMode_def)
  next
    case True
    from c3 True af have p: "validateOfflinePath (re_path R) (rf_path f) = Inr ()"
      and x3: "c_HealthExporter c = Some (offline_exporter f d he)" "c_EnableFaultInjection c \<longleftrightarrow> rf_enable_fault_injection f"
      by (auto simp: apply_offline_def split: sum.splits option.splits)
    from v x3(1) have "0 < d" by (auto simp: Config_Validate_iff config_ok_def exporter_ok_def offline_exporter_def)
    moreover have "d < 100 * time_Hour"
      using od True parseDuration_bound [of "rf_duration f" d]
      by (auto simp: offline_duration_def split: sum.splits if_splits)
    ultimately show ?thesis using True p x3 v by (simp add: isOfflineMode_def offline_exporter_def)
  qed
qed

definition sample_run_env :: run_env where
  "sample_run_env = \<lparr>re_net = plain_netlib, re_parse_duration = seconds_parser, re_port_states_ok = (\<lambda>_. True),
     re_os = root_env, re_path = sample_paths, re_mkdir = (\<lambda>_. None), re_environ = sample_environ\<rparr>"

definition sample_flags :: run_flags where
  "sample_flags = \<lparr>rf_listen_address = [], rf_retention_period = 0, rf_workload_source = [], rf_hpc_dir = [],
     rf_hpc_gpu_identifier = [], rf_ib_class_root_dir = [], rf_components = ''cpu,disk'', rf_ib_port_states = [],
     rf_enable_fault_injection = False, rf_offline_mode = True, rf_path = ''/srv/out'', rf_duration = ''01:30:00'',
     rf_format = ''csv''\<rparr>"

theorem run_config_opt_in_witness:
  "\<exists>c he. runCommand_config sample_run_env sample_flags [''/var/lib'' \<mapsto> \<lparr>fn_dir = True, fn_mode = 493\<rparr>] = Ok c \<and>
     \<not> c_EnableFaultInjection c \<and> c_HealthExporter c = Some he \<and> he_Duration he = 90 * time_Minute \<and> he_OutputPath he = ''/srv/out''"
proof -
  let ?r = "runCommand_config sample_run_env sample_flags [''/var/lib'' \<mapsto> \<lparr>fn_dir = True, fn_mode = 493\<rparr>]"
  have k: "is_ok ?r" "(case ?r of Inl _ \<Rightarrow> False | Inr c \<Rightarrow> map_option he_Duration (c_HealthExporter c) = Some (90 * time_Minute))"
    by code_simp+
  from k(1) obtain c where c: "?r = Ok c" by (auto simp: is_ok_iff)
  from run_config_opt_in [OF c] k(2) c show ?thesis by (auto simp: sample_flags_def)
qed

end
