(* ===== verification/Enrollment.thy ===== *)
theory Enrollment
  imports Attestation Run_Command
begin

text \<open>
  \<open>internal/enrollment\<close> and the commands of \<open>cmd/fleetint\<close> that change the stored identity and
  credentials: \<open>enroll\<close>, \<open>unenroll\<close> and \<open>metadata\<close>.

  The state is the database of \<open>Agent_State\<close>; every definition that may talk to the backend also returns
  the requests it sent.  The precheck, the collector of machine information and the clock are arguments.
\<close>

section \<open>Definitions\<close>

subsection \<open>Enrollment workflow\<close>

record enroll_metadata =
  em_NodeGroup :: "string option"
  em_ComputeZone :: "string option"

datatype enroll_error =
    InvalidEnrollmentEndpoint endpoint_error
  | CreateBackendClient client_error
  | EnrollFailed client_error
  | InitAgentUUID identity_error
  | StoreConfig state_error
  | StoreKey string sql_error

record enroll_env =
  en_net :: netlib
  en_time :: timelib
  en_codec :: codec
  en_http :: http_client
  en_sqlite :: sqlite_env
  en_identity :: identity_env

definition normalizeBackendBaseURL :: "netlib \<Rightarrow> string \<Rightarrow> (endpoint_error, url) result" where
  "normalizeBackendBaseURL L raw =
     (case ValidateBackendEndpoint L raw of
        Inl e \<Rightarrow> Error e
      | Inr baseURL \<Rightarrow>
          if u_path baseURL = [] \<or> u_path baseURL = ''/'' then Ok baseURL
          else (case DeriveBackendBaseURL L raw of
              Inl e \<Rightarrow> Error e
            | Inr normalized \<Rightarrow> ValidateBackendEndpoint L normalized))"

definition trimmedOptionalString :: "string option \<Rightarrow> string option" where
  "trimmedOptionalString v = (case v of None \<Rightarrow> None | Some s \<Rightarrow> Some (TrimSpace s))"

definition normalizedEnrollMetadata :: "enroll_metadata option \<Rightarrow> enroll_metadata" where
  "normalizedEnrollMetadata m =
     (case m of
        None \<Rightarrow> \<lparr>em_NodeGroup = None, em_ComputeZone = None\<rparr>
      | Some x \<Rightarrow> \<lparr>em_NodeGroup = trimmedOptionalString (em_NodeGroup x), em_ComputeZone = trimmedOptionalString (em_ComputeZone x)\<rparr>)"

text \<open>The successive \<open>SetMetadata\<close> calls; the first failure stops them.\<close>

fun set_keys :: "sqlite_env \<Rightarrow> (string \<times> string) list \<Rightarrow> database \<Rightarrow> (enroll_error, unit) result \<times> database" where
  "set_keys E [] db = (Ok (), db)"
| "set_keys E ((k, v) # kvs) db =
     (case SetMetadata E k v db of
        (Inl e, db1) \<Rightarrow> (Error (StoreKey k e), db1)
      | (Inr _, db1) \<Rightarrow> set_keys E kvs db1)"

definition storeConfigInMetadata :: "timelib \<Rightarrow> sqlite_env \<Rightarrow> string \<Rightarrow> string \<Rightarrow> string \<Rightarrow> gotime \<Rightarrow> enroll_metadata \<Rightarrow> database
    \<Rightarrow> (enroll_error, unit) result \<times> database" where
  "storeConfigInMetadata T E baseURL jwtToken sakToken enrolledAt m db =
     (case prepareReadWrite E db of
        (Inl e, db1) \<Rightarrow> (Error (StoreConfig e), db1)
      | (Inr _, db1) \<Rightarrow>
          (case set_keys E [(MetadataKeySAKToken, sakToken), (MetadataKeyToken, jwtToken),
                            (MetadataKeyBackendBaseURL, baseURL), (MetadataKeyEnrolledAt, rfc3339_format T enrolledAt)] db1 of
             (Inl e, db2) \<Rightarrow> (Error e, db2)
           | (Inr _, db2) \<Rightarrow>
               (case UpdateNodePlacementMetadata E (em_NodeGroup m) (em_ComputeZone m) (Some db2) of
                  (Inl e, h) \<Rightarrow> (Error (StoreConfig e), case h of None \<Rightarrow> db2 | Some db3 \<Rightarrow> db3)
                | (Inr _, h) \<Rightarrow> (Ok (), case h of None \<Rightarrow> db2 | Some db3 \<Rightarrow> db3))))"

text \<open>
  \<open>runWithContext\<close>: nothing runs when the context is already done; otherwise the function runs in a
  goroutine to its end, and its result counts unless the context ends first.
\<close>

definition runWithContext :: "bool \<Rightarrow> bool \<Rightarrow> ('w \<Rightarrow> ('e, unit) result \<times> 'w) \<Rightarrow> 'w \<Rightarrow> ('e option, unit) result \<times> 'w" where
  "runWithContext ctxDone ctxEndsFirst fn w =
     (if ctxDone then (Error None, w)
      else case fn w of (r, w1) \<Rightarrow>
        (if ctxEndsFirst then Error None else (case r of Inl e \<Rightarrow> Error (Some e) | Inr u \<Rightarrow> Ok u), w1))"

text \<open>
  One inventory export with the agent's configuration: \<open>cfg\<close> is \<open>None\<close> for nil, in which case the default
  configuration (the argument \<open>default_cfg\<close>, an error when it cannot be loaded) is used.
\<close>

definition inventory_agent_config :: "string list \<Rightarrow> config \<Rightarrow> inv_agent_config" where
  "inventory_agent_config allComponents cfg =
     (case InventoryAgentConfig (Some cfg) allComponents of (retention, enabled, disabled) \<Rightarrow>
        \<lparr>ia_TotalComponents = int (length allComponents), ia_RetentionPeriodSeconds = retention,
         ia_MetricScrapeIntervalSeconds = MetricScrapeIntervalSeconds (Some cfg),
         ia_EnabledComponents = Some enabled, ia_DisabledComponents = Some disabled,
         ia_InventoryEnabled = fst (InventoryLoopAgentConfig (Some cfg)),
         ia_InventoryIntervalSeconds = snd (InventoryLoopAgentConfig (Some cfg)),
         ia_AttestationEnabled = fst (AttestationLoopAgentConfig (Some cfg)),
         ia_AttestationIntervalSeconds = snd (AttestationLoopAgentConfig (Some cfg))\<rparr>)"

datatype sync_error = SyncLoadConfig fs_error | SyncInventory inventory_error

definition syncInventoryOnce :: "enroll_env \<Rightarrow> hashlib \<Rightarrow> string list \<Rightarrow> (string, machine_info option) result \<Rightarrow> gotime
    \<Rightarrow> (fs_error, config) result \<Rightarrow> config option \<Rightarrow> database \<times> http_request list
    \<Rightarrow> (sync_error, unit) result \<times> (database \<times> http_request list)" where
  "syncInventoryOnce V H allComponents collected now default_cfg cfg w =
     (case (case cfg of Some c \<Rightarrow> Inr c | None \<Rightarrow> default_cfg) of
        Inl e \<Rightarrow> (Error (SyncLoadConfig e), w)
      | Inr c \<Rightarrow>
         (let src = map_sum (\<lambda>e. e) Some (source_Collect now (inventory_agent_config allComponents c) (Some collected));
              sink = sink_world (NewBackendSink (en_net V) (en_time V) (en_codec V) (en_http V) (en_sqlite V))
          in case CollectOnce H (Some src) (Some sink) None w of
               (Inl (e, _), _, w1) \<Rightarrow> (Error (SyncInventory e), w1)
             | (Inr _, _, w1) \<Rightarrow> (Ok (), w1)))"

text \<open>
  The workflow.  \<open>sync\<close> is the best-effort inventory export after enrollment, whose failure is only
  logged; \<open>ctxDone\<close> and \<open>ctxEndsFirst\<close> are the two races of its context.
\<close>

definition persist_enrollment :: "enroll_env \<Rightarrow> gotime \<Rightarrow> bool \<times> bool
    \<Rightarrow> (database \<times> http_request list \<Rightarrow> (sync_error, unit) result \<times> (database \<times> http_request list))
    \<Rightarrow> string \<Rightarrow> string \<Rightarrow> string \<Rightarrow> enroll_metadata option \<Rightarrow> database \<times> http_request list
    \<Rightarrow> (enroll_error, unit) result \<times> database \<times> http_request list" where
  "persist_enrollment V now ctx sync base jwtToken sakToken m w =
     (case EnsureAgentUUID (en_identity V) (Some (en_sqlite V)) (fst w) of
        (Inl e, db1) \<Rightarrow> (Error (InitAgentUUID e), db1, snd w)
      | (Inr _, db1) \<Rightarrow>
          (case storeConfigInMetadata (en_time V) (en_sqlite V) base jwtToken sakToken (to_utc now)
                  (normalizedEnrollMetadata m) db1 of
             (Inl e, db2) \<Rightarrow> (Error e, db2, snd w)
           | (Inr _, db2) \<Rightarrow>
               (case runWithContext (fst ctx) (snd ctx) sync (db2, snd w) of
                  (_, w3) \<Rightarrow> (Ok (), w3))))"

definition EnrollWithConfigAndMetadata :: "enroll_env \<Rightarrow> gotime \<Rightarrow> bool \<times> bool
    \<Rightarrow> (database \<times> http_request list \<Rightarrow> (sync_error, unit) result \<times> (database \<times> http_request list))
    \<Rightarrow> string \<Rightarrow> string \<Rightarrow> enroll_metadata option \<Rightarrow> database \<Rightarrow> (enroll_error, unit) result \<times> database \<times> http_request list" where
  "EnrollWithConfigAndMetadata V now ctx sync baseEndpoint sakToken m db =
     (case normalizeBackendBaseURL (en_net V) baseEndpoint of
        Inl e \<Rightarrow> (Error (InvalidEnrollmentEndpoint e), db, [])
      | Inr baseURL \<Rightarrow>
         (let base = url_String (en_net V) baseURL in
          case New (en_net V) (en_http V) base of
            Inl e \<Rightarrow> (Error (CreateBackendClient e), db, [])
          | Inr client \<Rightarrow> (case Enroll (en_net V) (en_codec V) client sakToken of
              (Inl e, rqs) \<Rightarrow> (Error (EnrollFailed e), db, rqs)
            | (Inr jwtToken, rqs) \<Rightarrow> persist_enrollment V now ctx sync base jwtToken sakToken m (db, rqs))))"

subsection \<open>The enroll command\<close>

datatype enroll_command_error =
    FlagReserved string
  | FlagTooLong string
  | FlagPattern string
  | TokenFlagsExclusive
  | TokenFileTooLarge
  | TokenFileUnreadable
  | TokenRequired
  | PrecheckError string
  | PrecheckFailed
  | CommandDefaultConfig fs_error
  | CommandEnvFile env_error
  | CommandLoopEnv run_env_error
  | CommandEnroll enroll_error

definition reservedUnassignedName :: string where "reservedUnassignedName = ''Unassigned''"

definition ascii_letter :: "char \<Rightarrow> bool" where
  "ascii_letter c \<longleftrightarrow> (CHR ''a'' \<le> c \<and> c \<le> CHR ''z'') \<or> (CHR ''A'' \<le> c \<and> c \<le> CHR ''Z'')"

text \<open>\<open>^[a-zA-Z][a-zA-Z0-9 ._-]*$\<close>\<close>

definition enrollMetadataNamePattern :: "string \<Rightarrow> bool" where
  "enrollMetadataNamePattern s =
     (case s of
        [] \<Rightarrow> False
      | c # cs \<Rightarrow> ascii_letter c \<and>
          list_all (\<lambda>x. ascii_letter x \<or> is_digit x \<or> x \<in> set '' ._-'') cs)"

text \<open>The flag is \<open>None\<close> when it is not set.\<close>

definition validatedOptionalMetadataFlagValue :: "string option \<Rightarrow> string \<Rightarrow> (enroll_command_error, string option) result" where
  "validatedOptionalMetadataFlagValue flag fieldName =
     (case flag of
        None \<Rightarrow> Ok None
      | Some raw \<Rightarrow>
         (let v = TrimSpace raw in
          if v = [] then Ok (Some v)
          else if EqualFold v reservedUnassignedName then Error (FlagReserved fieldName)
          else if length v > 255 then Error (FlagTooLong fieldName)
          else if \<not> enrollMetadataNamePattern v then Error (FlagPattern fieldName)
          else Ok (Some v)))"

definition maxTokenFileSize :: nat where "maxTokenFileSize = 2 ^ 20"

text \<open>
  What reading the token file or standard input yields: \<open>None\<close> on an error, otherwise the size \<open>Stat\<close>
  reports (\<open>None\<close> for standard input, which is not asked) and the whole content.
\<close>

definition resolveToken :: "string \<Rightarrow> string \<Rightarrow> (string \<Rightarrow> (nat option \<times> string) option) \<Rightarrow> (enroll_command_error, string) result" where
  "resolveToken tokenFlag tokenFile readFile =
     (let token = TrimSpace tokenFlag in
      if token \<noteq> [] \<and> tokenFile \<noteq> [] then Error TokenFlagsExclusive
      else if tokenFile \<noteq> [] then
        (case readFile tokenFile of
           None \<Rightarrow> Error TokenFileUnreadable
         | Some (statSize, content) \<Rightarrow>
             if tokenFile \<noteq> ''-'' \<and> (case statSize of None \<Rightarrow> False | Some n \<Rightarrow> n \<ge> maxTokenFileSize) then Error TokenFileTooLarge
             else (let raw = take maxTokenFileSize content in
               if length raw \<ge> maxTokenFileSize then Error TokenFileTooLarge
               else if TrimSpace raw = [] then Error TokenRequired else Ok (TrimSpace raw)))
      else if token = [] then Error TokenRequired else Ok token)"

record enroll_flags =
  ef_endpoint :: string
  ef_force :: bool
  ef_node_group :: "string option"
  ef_compute_zone :: "string option"
  ef_token :: string
  ef_token_file :: string

text \<open>
  The command: the precheck yields an error or whether it passed; \<open>workflow\<close> is the enrollment workflow on
  an endpoint, a token, a configuration and the metadata.
\<close>

definition enrollCommand :: "(string \<Rightarrow> (nat option \<times> string) option) \<Rightarrow> (string, bool) result \<Rightarrow> (fs_error, config) result \<Rightarrow> file_open
    \<Rightarrow> (string \<Rightarrow> duration option) \<Rightarrow> environ
    \<Rightarrow> (string \<Rightarrow> string \<Rightarrow> config \<Rightarrow> enroll_metadata \<Rightarrow> 'w \<Rightarrow> (enroll_error, unit) result \<times> 'w)
    \<Rightarrow> enroll_flags \<Rightarrow> 'w \<Rightarrow> (enroll_command_error, unit) result \<times> 'w" where
  "enrollCommand readFile precheck default_cfg envFile PD env workflow f w =
     (case validatedOptionalMetadataFlagValue (ef_node_group f) ''Node group'' of
        Inl e \<Rightarrow> (Error e, w)
      | Inr nodeGroup \<Rightarrow> (case validatedOptionalMetadataFlagValue (ef_compute_zone f) ''Compute zone'' of
          Inl e \<Rightarrow> (Error e, w)
        | Inr computeZone \<Rightarrow> (case resolveToken (ef_token f) (ef_token_file f) readFile of
            Inl e \<Rightarrow> (Error e, w)
          | Inr sakToken \<Rightarrow> (case precheck of
              Inl e \<Rightarrow> (Error (PrecheckError e), w)
            | Inr passed \<Rightarrow>
                if \<not> passed \<and> \<not> ef_force f then (Error PrecheckFailed, w)
                else (case default_cfg of
                    Inl e \<Rightarrow> (Error (CommandDefaultConfig e), w)
                  | Inr cfg \<Rightarrow> (case LoadEnvFileDefaults envFile env of
                      (Inl e, _) \<Rightarrow> (Error (CommandEnvFile e), w)
                    | (Inr _, env1) \<Rightarrow> (case configureLoopConfigFromEnv PD env1 cfg of
                        Inl e \<Rightarrow> (Error (CommandLoopEnv e), w)
                      | Inr cfg1 \<Rightarrow>
                          (case workflow (ef_endpoint f) sakToken cfg1 \<lparr>em_NodeGroup = nodeGroup, em_ComputeZone = computeZone\<rparr> w of
                             (Inl e, w1) \<Rightarrow> (Error (CommandEnroll e), w1)
                           | (Inr _, w1) \<Rightarrow> (Ok (), w1)))))))))"

subsection \<open>The unenroll command\<close>

definition keysToDelete :: "string list" where
  "keysToDelete =
     [MetadataKeyToken, MetadataKeySAKToken, MetadataKeyBackendBaseURL, MetadataKeyEnrolledAt, MetadataKeyNodeGroup,
      MetadataKeyComputeZone, ''enroll_endpoint'', ''metrics_endpoint'', ''logs_endpoint'', ''nonce_endpoint'']"

text \<open>One \<open>DELETE ... WHERE key IN (...)\<close> statement.\<close>

definition removeEnrollmentMetadata :: "sqlite_env \<Rightarrow> database \<Rightarrow> (sql_error, unit) result \<times> database" where
  "removeEnrollmentMetadata E db =
     sql_exec E (hd keysToDelete) (\<lambda>t k. if k \<in> set keysToDelete then None else t k) db"

definition unenrollCommand :: "sqlite_env \<Rightarrow> database \<Rightarrow> (state_error, unit) result \<times> database" where
  "unenrollCommand E db =
     (case openReadWrite E db of
        Inl e \<Rightarrow> (Error e, db)
      | Inr _ \<Rightarrow> (case CreateTableMetadata E db of
          (Inl e, db1) \<Rightarrow> (Error (CreateTableFailed e), db1)
        | (Inr _, db1) \<Rightarrow> (case removeEnrollmentMetadata E db1 of
            (Inl e, db2) \<Rightarrow> (Error (SetMetadataFailed [] e), db2)
          | (Inr _, db2) \<Rightarrow> (case se_secure E of
              Some e \<Rightarrow> (Error (SecurePermissions e), db2)
            | None \<Rightarrow> (Ok (), db2)))))"

subsection \<open>The metadata command\<close>

definition MaskToken :: "string \<Rightarrow> string" where
  "MaskToken token =
     (let n = (if HasPrefix token ''nvapi-stg-'' then 10 else if HasPrefix token ''nvapi-'' then 6 else 0);
          pre = take n token; trimmed = drop n token
      in if length trimmed < 10 then pre @ ''...''
         else pre @ take 4 trimmed @ ''...'' @ drop (length token - 4) token)"

definition maskMetadataValue :: "string \<Rightarrow> string \<Rightarrow> string" where
  "maskMetadataValue key v = (if key = MetadataKeyToken \<or> key = ''sak_token'' then MaskToken v else v)"

text \<open>The printed lines, for a table given as its rows.\<close>

definition writeMetadata :: "(string \<times> string) list \<Rightarrow> string list" where
  "writeMetadata rows =
     (let t = map_of (rev rows);
          vals = (case t MetadataKeyMachineID of None \<Rightarrow> t | Some v \<Rightarrow> t(''agent_uuid'' \<mapsto> v));
          keys = sort_Strings (remdups (map fst rows @ (if t MetadataKeyMachineID = None then [] else [''agent_uuid''])))
      in map (\<lambda>k. k @ '': '' @ maskMetadataValue k (case vals k of None \<Rightarrow> [] | Some v \<Rightarrow> v)) keys)"

definition metadataCommand_set :: "sqlite_env \<Rightarrow> string \<Rightarrow> string \<Rightarrow> database \<Rightarrow> (state_error, unit) result \<times> database" where
  "metadataCommand_set E setKey setValue db =
     (if setKey = [] \<or> setValue = [] then (Ok (), db)
      else let key = (if setKey = ''agent_uuid'' then MetadataKeyMachineID else setKey) in
        (case openReadWrite E db of
           Inl e \<Rightarrow> (Error e, db)
         | Inr _ \<Rightarrow> (case SetMetadata E key setValue db of
             (Inl e, db1) \<Rightarrow> (Error (SetMetadataFailed key e), db1)
           | (Inr _, db1) \<Rightarrow> (case se_secure E of
               Some e \<Rightarrow> (Error (SecurePermissions e), db1)
             | None \<Rightarrow> (Ok (), db1)))))"

section \<open>Lemmas\<close>

text \<open>The writes that took place are a prefix of the list, all of them on success.\<close>

lemma set_keys_prefix:
  assumes "set_keys E kvs (Some t) = (r, db1)"
  shows "\<exists>n \<le> length kvs. db1 = fold (\<lambda>(k, v). store k v) (take n kvs) (Some t) \<and> (is_ok r \<longleftrightarrow> n = length kvs)"
  using assms
proof (induction kvs arbitrary: t)
  case Nil
  then show ?case by auto
next
  case (Cons kv kvs)
  obtain k v where kv: "kv = (k, v)" by (cases kv)
  show ?case
  proof (cases "se_exec E k")
    case (Some e)
    with Cons.prems kv show ?thesis by (auto simp: SetMetadata_def sql_exec_def intro: exI [of _ 0])
  next
    case None
    with Cons.prems kv have "set_keys E kvs (Some (t(k \<mapsto> v))) = (r, db1)"
      by (simp add: SetMetadata_def sql_exec_def)
    from Cons.IH [OF this] obtain n where n: "n \<le> length kvs" "is_ok r \<longleftrightarrow> n = length kvs"
      "db1 = fold (\<lambda>(k, v). store k v) (take n kvs) (Some (t(k \<mapsto> v)))" by blast
    moreover have "store k v (Some t) = Some (t(k \<mapsto> v))" by (simp add: store_def)
    ultimately show ?thesis by (intro exI [of _ "Suc n"]) (simp add: kv)
  qed
qed

lemma UpdateNodePlacement_frame:
  assumes "UpdateNodePlacementMetadata E ng cz (Some db) = (r, h)"
  shows "\<exists>db1. h = Some db1 \<and> (\<forall>k. k \<noteq> MetadataKeyNodeGroup \<longrightarrow> k \<noteq> MetadataKeyComputeZone \<longrightarrow> view db1 k = view db k)"
  using assms
  by (auto simp: UpdateNodePlacementMetadata_def sql_exec_def view_def coalesce_value_def split: if_splits option.splits)

text \<open>The four credentials in the order in which they are written.\<close>

definition enroll_kvs :: "timelib \<Rightarrow> string \<Rightarrow> string \<Rightarrow> string \<Rightarrow> gotime \<Rightarrow> (string \<times> string) list" where
  "enroll_kvs T base jwt sak at =
     [(MetadataKeySAKToken, sak), (MetadataKeyToken, jwt), (MetadataKeyBackendBaseURL, base), (MetadataKeyEnrolledAt, rfc3339_format T at)]"

lemma storeConfig_view:
  assumes "storeConfigInMetadata T E base jwt sak at m db = (r, db1)"
  shows "\<exists>n \<le> 4. (is_ok r \<longrightarrow> n = 4) \<and> (\<forall>k. k \<notin> placement_keys \<longrightarrow>
     view db1 k = (case map_of (rev (take n (enroll_kvs T base jwt sak at))) k of None \<Rightarrow> view db k | Some v \<Rightarrow> ok_if_nonempty v))"
proof -
  obtain pr db0 where p: "prepareReadWrite E db = (pr, db0)" by fastforce
  show ?thesis
  proof (cases pr)
    case (Inl e)
    with assms p prepare_view [of E db] show ?thesis
      by (intro exI [of _ 0]) (auto simp: storeConfigInMetadata_def)
  next
    case (Inr u)
    with p obtain t where t: "db0 = Some t" "view db0 = view db" using prepare_Ok_db [of E db db0] by auto
    obtain sr db2 where s: "set_keys E (enroll_kvs T base jwt sak at) (Some t) = (sr, db2)" by fastforce
    have four: "length (enroll_kvs T base jwt sak at) = 4" by (simp add: enroll_kvs_def)
    from set_keys_prefix [OF s] obtain n where n: "n \<le> 4" "is_ok sr \<longleftrightarrow> n = 4"
      "db2 = fold (\<lambda>(k, v). store k v) (take n (enroll_kvs T base jwt sak at)) (Some t)" unfolding four by blast
    have v2: "view db2 k = (case map_of (rev (take n (enroll_kvs T base jwt sak at))) k of None \<Rightarrow> view db k | Some v \<Rightarrow> ok_if_nonempty v)" for k
      using n(3) t meta.get_puts [of "take n (enroll_kvs T base jwt sak at)" "Some t" k]
      by (simp add: ok_if_nonempty_def split: option.split)
    show ?thesis
    proof (cases sr)
      case (Inl e)
      with assms p Inr t s have "db1 = db2" "r = Inl e" by (auto simp: storeConfigInMetadata_def enroll_kvs_def)
      with n v2 show ?thesis by auto
    next
      case so: (Inr v)
      obtain ur h where u: "UpdateNodePlacementMetadata E (em_NodeGroup m) (em_ComputeZone m) (Some db2) = (ur, h)" by fastforce
      from UpdateNodePlacement_frame [OF u] obtain db3 where h: "h = Some db3"
        "\<forall>k. k \<noteq> MetadataKeyNodeGroup \<longrightarrow> k \<noteq> MetadataKeyComputeZone \<longrightarrow> view db3 k = view db2 k" by auto
      have "db1 = db3" using assms p Inr t s so u h(1) by (auto simp: storeConfigInMetadata_def enroll_kvs_def split: sum.splits)
      with n so h(2) v2 show ?thesis by (intro exI [of _ n]) auto
    qed
  qed
qed

lemma syncInventoryOnce_frame:
  assumes "syncInventoryOnce V H comps collected now dcfg cfg w = (r, w1)" "k \<notin> placement_keys"
  shows "view (fst w1) k = view (fst w) k"
proof -
  have "outside_placement w1 = outside_placement w"
    using assms(1) bs.CollectOnce_keeps
    by (auto simp: syncInventoryOnce_def Let_def split: sum.splits option.splits prod.splits)
  then show ?thesis using assms(2) by (auto simp: outside_placement_def fun_eq_iff split: if_splits)
qed

lemma EnsureAgentUUID_frame:
  assumes "EnsureAgentUUID I (Some E) db = (r, db1)" "k \<noteq> MetadataKeyMachineID"
  shows "view db1 k = view db k"
proof -
  have ins: "view (Some (insert_if_blank MetadataKeyMachineID c t)) k = view (Some t) k" for c t
    using assms(2) by (auto simp: insert_if_blank_def view_def coalesce_value_def split: option.split)
  have meta: "GetOrCreateAgentUUIDMetadata E create d = (x, d1) \<Longrightarrow> view d1 k = view d k" for create d x d1
    using ins
    by (auto simp: GetOrCreateAgentUUIDMetadata_def sql_exec_def split: option.splits sum.splits prod.splits if_splits)
  obtain p db0 where p: "prepareReadWrite E db = (p, db0)" by fastforce
  then have v: "view db0 k = view db k" using prepare_view [of E db] by simp
  obtain x d1 where x: "GetOrCreateAgentUUID E (Some (createAgentUUID I)) db = (x, d1)" by fastforce
  then have "view d1 k = view db k"
    using p v meta by (auto simp: GetOrCreateAgentUUID_def split: sum.splits)
  moreover have "d1 = db1" using assms(1) x by (auto simp: EnsureAgentUUID_def split: sum.splits prod.splits)
  ultimately show ?thesis by simp
qed

lemma EnsureAgentUUID_Ok:
  assumes "EnsureAgentUUID I (Some E) db = (Inr u, db1)"
  shows "view db1 MetadataKeyMachineID = Some u \<and> (\<forall>old. view db MetadataKeyMachineID = Some old \<longrightarrow> u = old)"
  using assms getOrCreateAgent_Ok [of E "Some (createAgentUUID I)" db u _ db1]
  by (auto simp: EnsureAgentUUID_def split: sum.splits prod.splits)

text \<open>The workflow with the inventory export of the code.\<close>

abbreviation enroll where
  "enroll V H comps collected now2 dcfg cfg now ctx \<equiv>
     EnrollWithConfigAndMetadata V now ctx (syncInventoryOnce V H comps collected now2 dcfg cfg)"

text \<open>What the second half does to the keys other than the placement: the UUID, then a prefix of the credentials.\<close>

lemma persist_view:
  assumes "persist_enrollment V now ctx (syncInventoryOnce V H comps collected now2 dcfg cfg) base jwt sak m w = (r, db1, rqs)"
  shows "\<exists>n \<le> 4. (is_ok r \<longrightarrow> n = 4 \<and>
       (\<exists>uuid. view db1 MetadataKeyMachineID = Some uuid \<and> (\<forall>old. view (fst w) MetadataKeyMachineID = Some old \<longrightarrow> uuid = old))) \<and>
     (\<forall>k. k \<notin> placement_keys \<longrightarrow> k \<noteq> MetadataKeyMachineID \<longrightarrow>
        view db1 k = (case map_of (rev (take n (enroll_kvs (en_time V) base jwt sak (to_utc now)))) k of
          None \<Rightarrow> view (fst w) k | Some v \<Rightarrow> ok_if_nonempty v))"
proof -
  obtain ir da where ia: "EnsureAgentUUID (en_identity V) (Some (en_sqlite V)) (fst w) = (ir, da)" by fastforce
  note frame = EnsureAgentUUID_frame [OF ia]
  show ?thesis
  proof (cases ir)
    case (Inl e)
    with assms ia have "db1 = da" "\<not> is_ok r" by (auto simp: persist_enrollment_def)
    with frame show ?thesis by (intro exI [of _ 0]) auto
  next
    case id: (Inr uuid)
    obtain sr d2 where st: "storeConfigInMetadata (en_time V) (en_sqlite V) base jwt sak (to_utc now) (normalizedEnrollMetadata m) da = (sr, d2)"
      by fastforce
    from storeConfig_view [OF st] obtain n where n: "n \<le> 4" "is_ok sr \<longrightarrow> n = 4"
      "\<forall>k. k \<notin> placement_keys \<longrightarrow> view d2 k =
         (case map_of (rev (take n (enroll_kvs (en_time V) base jwt sak (to_utc now)))) k of None \<Rightarrow> view da k | Some v \<Rightarrow> ok_if_nonempty v)"
      by blast
    obtain x w1 where x: "runWithContext (fst ctx) (snd ctx) (syncInventoryOnce V H comps collected now2 dcfg cfg) (d2, snd w) = (x, w1)"
      by (meson surj_pair)
    have sync: "view (fst w1) k = view d2 k" if "k \<notin> placement_keys" for k
      using x syncInventoryOnce_frame [OF _ that, of V H comps collected now2 dcfg cfg "(d2, snd w)"]
      by (auto simp: runWithContext_def split: if_splits prod.splits)
    have fin: "is_ok r = is_ok sr" "k \<notin> placement_keys \<Longrightarrow> view db1 k = view d2 k" for k
      using assms ia id st x sync by (cases sr; force simp: persist_enrollment_def)+
    have "map_of (rev (take n (enroll_kvs (en_time V) base jwt sak (to_utc now)))) MetadataKeyMachineID = None"
      by (auto simp: enroll_kvs_def map_of_eq_None_iff metadata_keys dest!: in_set_takeD)
    moreover have "MetadataKeyMachineID \<notin> placement_keys" by (simp add: metadata_keys)
    ultimately have "view db1 MetadataKeyMachineID = Some uuid" using fin(2) n(3) EnsureAgentUUID_Ok ia id by simp
    then show ?thesis
      using n fin frame EnsureAgentUUID_Ok ia id by (intro exI [of _ n]) (auto split: option.split)
  qed
qed

text \<open>Before the second half nothing is stored.\<close>

lemma enroll_cases:
  assumes "EnrollWithConfigAndMetadata V now ctx sync ep sak m db = (r, db1, rqs)"
  obtains (refused) "db1 = db" "\<not> is_ok r"
  | (accepted) u c jwt rq0 where "normalizeBackendBaseURL (en_net V) ep = Inr u"
      "New (en_net V) (en_http V) (url_String (en_net V) u) = Inr c"
      "Enroll (en_net V) (en_codec V) c sak = (Inr jwt, rq0)"
      "persist_enrollment V now ctx sync (url_String (en_net V) u) jwt sak m (db, rq0) = (r, db1, rqs)"
  using assms
  by (auto simp: EnrollWithConfigAndMetadata_def Let_def split: sum.splits prod.splits)

lemma enroll_kvs_lookup:
  "map_of (rev (take 4 (enroll_kvs T base jwt sak at))) MetadataKeySAKToken = Some sak"
  "map_of (rev (take 4 (enroll_kvs T base jwt sak at))) MetadataKeyToken = Some jwt"
  "map_of (rev (take 4 (enroll_kvs T base jwt sak at))) MetadataKeyBackendBaseURL = Some base"
  "map_of (rev (take 4 (enroll_kvs T base jwt sak at))) MetadataKeyEnrolledAt = Some (rfc3339_format T at)"
  by (simp_all add: enroll_kvs_def metadata_keys)

text \<open>A prefix of the credentials that holds the base URL holds both tokens.\<close>

lemma enroll_kvs_order:
  assumes "map_of (rev (take n (enroll_kvs T base jwt sak at))) MetadataKeyBackendBaseURL \<noteq> None"
  shows "map_of (rev (take n (enroll_kvs T base jwt sak at))) MetadataKeySAKToken = Some sak \<and>
         map_of (rev (take n (enroll_kvs T base jwt sak at))) MetadataKeyToken = Some jwt"
proof (cases "n \<le> 2")
  case True
  then consider "n = 0" | "n = 1" | "n = 2" by linarith
  then show ?thesis using assms by cases (simp_all add: enroll_kvs_def metadata_keys)
next
  case False
  then obtain i where "n = Suc (Suc (Suc i))" by (metis Suc_le_D not_less_eq_eq numeral_2_eq_2)
  then show ?thesis by (cases i) (simp_all add: enroll_kvs_def metadata_keys)
qed

lemma credential_keys [simp]:
  "MetadataKeySAKToken \<notin> placement_keys" "MetadataKeyToken \<notin> placement_keys" "MetadataKeyBackendBaseURL \<notin> placement_keys"
  "MetadataKeyEnrolledAt \<notin> placement_keys" "MetadataKeySAKToken \<noteq> MetadataKeyMachineID" "MetadataKeyToken \<noteq> MetadataKeyMachineID"
  "MetadataKeyBackendBaseURL \<noteq> MetadataKeyMachineID" "MetadataKeyEnrolledAt \<noteq> MetadataKeyMachineID"
  by (simp_all add: metadata_keys)

section \<open>Properties\<close>

text \<open>A successful enrollment leaves the agent fully enrolled.  The database then holds the access key
  the operator gave, the JWT the backend issued for it, the normalised base URL it was issued by, the time
  of enrollment in UTC and an agent UUID, which is the old one if there was one; this holds whatever the
  best-effort inventory export afterwards does.\<close>

theorem enroll_success_state:
  assumes "enroll V H comps collected now2 dcfg cfg now ctx ep sak m db = (Ok (), db1, rqs)"
  shows "\<exists>u c jwt uuid. normalizeBackendBaseURL (en_net V) ep = Ok u \<and> New (en_net V) (en_http V) (url_String (en_net V) u) = Ok c \<and>
    fst (Enroll (en_net V) (en_codec V) c sak) = Ok jwt \<and>
    view db1 MetadataKeySAKToken = Some sak \<and> view db1 MetadataKeyToken = Some jwt \<and>
    view db1 MetadataKeyBackendBaseURL = ok_if_nonempty (url_String (en_net V) u) \<and>
    view db1 MetadataKeyEnrolledAt = ok_if_nonempty (rfc3339_format (en_time V) (to_utc now)) \<and>
    view db1 MetadataKeyMachineID = Some uuid \<and> (\<forall>old. view db MetadataKeyMachineID = Some old \<longrightarrow> uuid = old)"
  using assms
proof (cases rule: enroll_cases)
  case (accepted u c jwt rq0)
  from accepted(3) have ne: "sak \<noteq> []" "jwt \<noteq> []" by (auto elim: Enroll_Ok)
  from persist_view [OF accepted(4), unfolded fst_conv] obtain uuid where
    uuid: "view db1 MetadataKeyMachineID = Some uuid" "\<forall>old. view db MetadataKeyMachineID = Some old \<longrightarrow> uuid = old"
    and v: "\<forall>k. k \<notin> placement_keys \<longrightarrow> k \<noteq> MetadataKeyMachineID \<longrightarrow>
        view db1 k = (case map_of (rev (take 4 (enroll_kvs (en_time V) (url_String (en_net V) u) jwt sak (to_utc now)))) k of
          None \<Rightarrow> view db k | Some v \<Rightarrow> ok_if_nonempty v)"
    by auto
  have "view db1 MetadataKeySAKToken = Some sak" "view db1 MetadataKeyToken = Some jwt"
    "view db1 MetadataKeyBackendBaseURL = ok_if_nonempty (url_String (en_net V) u)"
    "view db1 MetadataKeyEnrolledAt = ok_if_nonempty (rfc3339_format (en_time V) (to_utc now))"
    using v ne by (simp_all only: credential_keys enroll_kvs_lookup option.case simp_thms ok_if_nonempty_def if_False not_False_eq_True)
  with accepted uuid show ?thesis by (intro exI [of _ u] exI [of _ c] exI [of _ jwt] exI [of _ uuid]) simp
qed simp

definition sample_enroll_env :: enroll_env where
  "sample_enroll_env = \<lparr>en_net = plain_netlib, en_time = plain_timelib, en_codec = sample_codec, en_http = sample_http,
     en_sqlite = healthy, en_identity = sample_identity\<rparr>"

definition sample_enroll where
  "sample_enroll db = enroll sample_enroll_env sample_hashlib [''cpu''] (Inl ''no machine info'') zero_time (Inl (OsError []))
     (Some (sample_config [])) \<lparr>t_nanos = 5, t_utc = False\<rparr> (False, False) ''https://b.example/ui'' ''sak''
     (Some \<lparr>em_NodeGroup = Some '' rack1 '', em_ComputeZone = None\<rparr>) db"

theorem enroll_success_state_witness:
  "\<exists>db1 rqs. sample_enroll (Some [''machine_id'' \<mapsto> ''old'']) = (Ok (), db1, rqs) \<and> view db1 MetadataKeySAKToken = Some ''sak'' \<and>
     view db1 MetadataKeyMachineID = Some ''old'' \<and> view db1 MetadataKeyBackendBaseURL = Some ''https://b.example'' \<and>
     view db1 MetadataKeyNodeGroup = Some ''rack1''"
proof -
  let ?db = "Some [''machine_id'' \<mapsto> ''old'']"
  have k: "is_ok (fst (sample_enroll ?db))" "view (fst (snd (sample_enroll ?db))) MetadataKeyNodeGroup = Some ''rack1''"
    "view (fst (snd (sample_enroll ?db))) MetadataKeyBackendBaseURL = Some ''https://b.example''"
    "view ?db MetadataKeyMachineID = Some ''old''"
    by code_simp+
  obtain r db1 rqs where x: "sample_enroll ?db = (r, db1, rqs)" by (metis prod_cases3)
  with k(1) have r: "sample_enroll ?db = (Ok (), db1, rqs)" by (cases r) auto
  from enroll_success_state [OF r [unfolded sample_enroll_def]] k r show ?thesis by auto
qed

text \<open>C3: no partial trust in a new backend.  On every path, failures of any write included: when any stored
  value changes, the backend at the validated URL has issued a JWT for the given access key; only the
  identity, the credentials and the placement can change; and when the stored base URL changes, the access
  key and the JWT stored with it are those of this enrollment, so credentials of an earlier backend are never
  paired with the URL of a new one.\<close>

theorem enroll_no_partial_trust:
  assumes "enroll V H comps collected now2 dcfg cfg now ctx ep sak m db = (r, db1, rqs)" "view db1 k \<noteq> view db k"
  shows "k \<in> {MetadataKeyMachineID, MetadataKeySAKToken, MetadataKeyToken, MetadataKeyBackendBaseURL, MetadataKeyEnrolledAt,
           MetadataKeyNodeGroup, MetadataKeyComputeZone} \<and>
    (\<exists>u c jwt. normalizeBackendBaseURL (en_net V) ep = Ok u \<and> New (en_net V) (en_http V) (url_String (en_net V) u) = Ok c \<and>
       fst (Enroll (en_net V) (en_codec V) c sak) = Ok jwt \<and>
       (k = MetadataKeyBackendBaseURL \<longrightarrow> view db1 MetadataKeySAKToken = Some sak \<and> view db1 MetadataKeyToken = Some jwt))"
  using assms(1)
proof (cases rule: enroll_cases)
  case refused
  with assms(2) show ?thesis by simp
next
  case (accepted u c jwt rq0)
  from accepted(3) have ne: "sak \<noteq> []" "jwt \<noteq> []" by (auto elim: Enroll_Ok)
  let ?m = "\<lambda>n. map_of (rev (take n (enroll_kvs (en_time V) (url_String (en_net V) u) jwt sak (to_utc now))))"
  from persist_view [OF accepted(4), unfolded fst_conv] obtain n where n: "\<forall>k. k \<notin> placement_keys \<longrightarrow> k \<noteq> MetadataKeyMachineID \<longrightarrow>
      view db1 k = (case ?m n k of None \<Rightarrow> view db k | Some v \<Rightarrow> ok_if_nonempty v)" by auto
  have sub: "?m n k \<noteq> None \<Longrightarrow> k \<in> {MetadataKeySAKToken, MetadataKeyToken, MetadataKeyBackendBaseURL, MetadataKeyEnrolledAt}"
    by (auto simp: map_of_eq_None_iff enroll_kvs_def dest!: in_set_takeD)
  have "k \<in> placement_keys \<or> k = MetadataKeyMachineID \<or> ?m n k \<noteq> None"
    using n assms(2) by (cases "?m n k") auto
  then have keys: "k \<in> {MetadataKeyMachineID, MetadataKeySAKToken, MetadataKeyToken, MetadataKeyBackendBaseURL, MetadataKeyEnrolledAt,
      MetadataKeyNodeGroup, MetadataKeyComputeZone}" using sub by auto
  have "view db1 MetadataKeySAKToken = Some sak \<and> view db1 MetadataKeyToken = Some jwt" if b: "k = MetadataKeyBackendBaseURL"
  proof -
    note at = n [rule_format]
    have "?m n MetadataKeyBackendBaseURL \<noteq> None"
      using at [OF credential_keys(3,7)] assms(2) unfolding b by (auto split: option.splits)
    from enroll_kvs_order [OF this] ne show ?thesis
      unfolding at [OF credential_keys(1,5)] at [OF credential_keys(2,6)] by (simp add: ok_if_nonempty_def)
  qed
  with accepted keys show ?thesis by (intro conjI exI [of _ u] exI [of _ c] exI [of _ jwt]) auto
qed

text \<open>A database that refuses to store the enrollment time, so that the base URL is written last.\<close>

definition failing_enroll where
  "failing_enroll db = enroll (sample_enroll_env\<lparr>en_sqlite := healthy\<lparr>se_exec := (\<lambda>k. if k = ''enrolled_at'' then Some (OtherSqlError ''disk full'') else None)\<rparr>\<rparr>)
     sample_hashlib [''cpu''] (Inl ''no machine info'') zero_time (Inl (OsError []))
     (Some (sample_config [])) \<lparr>t_nanos = 5, t_utc = False\<rparr> (False, False) ''https://b.example'' ''sak'' None db"

theorem enroll_no_partial_trust_witness:
  "\<exists>db1 rqs e. failing_enroll (Some [''backend_base_url'' \<mapsto> ''https://old.example'', ''token'' \<mapsto> ''oldjwt'']) = (Error e, db1, rqs) \<and>
     view db1 MetadataKeyBackendBaseURL = Some ''https://b.example'' \<and> view db1 MetadataKeySAKToken = Some ''sak'' \<and>
     view db1 MetadataKeyToken = Some ''j''"
proof -
  let ?db = "Some [''backend_base_url'' \<mapsto> ''https://old.example'', ''token'' \<mapsto> ''oldjwt'']"
  have k: "\<not> is_ok (fst (failing_enroll ?db))" "view (fst (snd (failing_enroll ?db))) MetadataKeyBackendBaseURL = Some ''https://b.example''"
    "view ?db MetadataKeyBackendBaseURL = Some ''https://old.example''" "view (fst (snd (failing_enroll ?db))) MetadataKeyToken = Some ''j''"
    by code_simp+
  obtain r db1 rqs where x: "failing_enroll ?db = (r, db1, rqs)" by (metis prod_cases3)
  with k have ch: "view db1 MetadataKeyBackendBaseURL \<noteq> view ?db MetadataKeyBackendBaseURL" by simp
  from x k(1) obtain e where e: "r = Error e" by (cases r) auto
  from enroll_no_partial_trust [OF x [unfolded failing_enroll_def] ch] have "view db1 MetadataKeySAKToken = Some ''sak''" by auto
  with x e k show ?thesis by auto
qed

end
