(* ===== verification/Precheck.thy ===== *)
theory Precheck
  imports Machine_Info
begin

text \<open>
  The prerequisite checks of enrollment and installation: \<open>internal/precheck/precheck.go\<close>,
  \<open>internal/dcgmversion/dcgmversion.go\<close> and \<open>cmd/fleetint/precheck.go\<close>.  What the SDK, the DCGM
  bindings, \<open>lspci\<close> and \<open>exec.LookPath\<close> answer are fields of the environment record; everything the
  package computes from the answers, the messages included, is modelled.

  The lemmas show that the version comparison is the lexicographic order on the parsed components,
  that a result passes exactly on the nodes described by \<open>node_qualified\<close>, and that every DCGM
  connection opened while probing the version is closed again.
\<close>

section \<open>Standard library\<close>

text \<open>\<open>strconv.Quote\<close> (and \<open>%q\<close>), exact on ASCII; the bytes of other runes are left as they are.\<close>

definition hex_digit :: "nat \<Rightarrow> char" where
  "hex_digit d = (if d < 10 then char_of (48 + d) else char_of (87 + d))"

definition quote_char :: "char \<Rightarrow> string" where
  "quote_char c =
     (let n = (of_char c :: nat) in
      if c = CHR 0x22 \<or> c = CHR 0x5C then [CHR 0x5C, c]
      else if n = 7 then [CHR 0x5C, CHR ''a''] else if n = 8 then [CHR 0x5C, CHR ''b'']
      else if n = 9 then [CHR 0x5C, CHR ''t''] else if n = 10 then [CHR 0x5C, CHR ''n'']
      else if n = 11 then [CHR 0x5C, CHR ''v''] else if n = 12 then [CHR 0x5C, CHR ''f'']
      else if n = 13 then [CHR 0x5C, CHR ''r'']
      else if n < 32 \<or> n = 127 then [CHR 0x5C, CHR ''x'', hex_digit (n div 16), hex_digit (n mod 16)]
      else [c])"

definition Quote :: "string \<Rightarrow> string" where
  "Quote s = CHR 0x22 # concat (map quote_char s) @ [CHR 0x22]"

text \<open>
  The text of the error of \<open>strconv.Atoi\<close> on a string it refuses.  The digits are read from the left, so
  a value beyond 64 bits is a range error even when a later character is not a digit.
\<close>

definition atoi_body :: "string \<Rightarrow> string" where
  "atoi_body s = (case s of [] \<Rightarrow> [] | c # r \<Rightarrow> if c = CHR ''-'' \<or> c = CHR ''+'' then r else s)"

definition atoi_error :: "string \<Rightarrow> string" where
  "atoi_error s =
     (let body = atoi_body s; ds = takeWhile is_digit body in
      ''strconv.Atoi: parsing '' @ Quote s @
      (if body \<noteq> [] \<and> (ds = body \<or> digits_value ds \<ge> 2 ^ 64) then '': value out of range''
       else '': invalid syntax''))"

section \<open>Data\<close>

record input =
  GPUHardwarePresent :: bool
  GPUHardwareErr :: "string option"
  GPUInfo :: "machine_gpu_info option"
  GPUInfoErr :: "string option"
  GPUDriverVersion :: string
  NVAttestPresent :: "bool option"
  DCGMReachable :: "bool option"
  DCGMVersion :: string

definition zero_input :: input where
  "zero_input = \<lparr>GPUHardwarePresent = False, GPUHardwareErr = None, GPUInfo = None, GPUInfoErr = None,
     GPUDriverVersion = [], NVAttestPresent = None, DCGMReachable = None, DCGMVersion = []\<rparr>"

record check =
  c_Name :: string
  c_Passed :: bool
  c_Message :: string

record precheck_result =
  Checks :: "check list"

definition supportedArchitectures :: "string list" where
  "supportedArchitectures = [''Hopper'', ''Blackwell'', ''Rubin'', ''Ampere'', ''Ada Lovelace'']"

definition minimumDCGMVersion :: string where "minimumDCGMVersion = ''4.2.3''"

definition minimumDriverMajorVersion :: int where "minimumDriverMajorVersion = 510"

fun all_passed :: "check list \<Rightarrow> bool" where
  "all_passed [] = True"
| "all_passed (c # cs) = (if \<not> c_Passed c then False else all_passed cs)"

definition Passed :: "precheck_result \<Rightarrow> bool" where "Passed r = all_passed (Checks r)"

fun failed_from :: "check list \<Rightarrow> check list \<Rightarrow> check list" where
  "failed_from failed [] = failed"
| "failed_from failed (c # cs) = failed_from (if \<not> c_Passed c then failed @ [c] else failed) cs"

definition FailedChecks :: "precheck_result \<Rightarrow> check list" where
  "FailedChecks r = failed_from [] (Checks r)"

definition passed_check :: "string \<Rightarrow> string \<Rightarrow> check" where
  "passed_check n m = \<lparr>c_Name = n, c_Passed = True, c_Message = m\<rparr>"

definition failed_check :: "string \<Rightarrow> string \<Rightarrow> check" where
  "failed_check n m = \<lparr>c_Name = n, c_Passed = False, c_Message = m\<rparr>"

section \<open>The five checks\<close>

definition hasDetectedGPUInfo :: "machine_gpu_info option \<Rightarrow> bool" where
  "hasDetectedGPUInfo gi = (case gi of None \<Rightarrow> False | Some m \<Rightarrow> length (mgi_GPUs m) > 0)"

definition gpuHardwareDetected :: "input option \<Rightarrow> bool" where
  "gpuHardwareDetected inp = (case inp of
      None \<Rightarrow> False
    | Some i \<Rightarrow> if GPUHardwarePresent i then True else hasDetectedGPUInfo (GPUInfo i))"

definition evaluateGPUPresence :: "input \<Rightarrow> check" where
  "evaluateGPUPresence i =
     (if GPUHardwareErr i \<noteq> None then failed_check ''gpu-present''
        ''Unable to determine NVIDIA GPU presence; verify lspci is installed and accessible, then retry''
      else if \<not> gpuHardwareDetected (Some i) then failed_check ''gpu-present''
        ''No NVIDIA GPU detected; verify the node has an NVIDIA GPU installed and visible to the OS''
      else passed_check ''gpu-present'' ''NVIDIA GPU detected'')"

definition normalizeArchitectureName :: "string \<Rightarrow> string" where
  "normalizeArchitectureName v =
     ReplaceAllChar (ReplaceAllChar (ReplaceAllChar (TrimSpace (ToLower v)) CHR ''-'' []) CHR ''_'' []) CHR '' '' []"

definition architectureMatches :: "string \<Rightarrow> string \<Rightarrow> bool" where
  "architectureMatches supported detected =
     (normalizeArchitectureName supported = normalizeArchitectureName detected)"

definition formatSupportedArchitectures :: "string list \<Rightarrow> string" where
  "formatSupportedArchitectures architectures = (case architectures of
      [] \<Rightarrow> ''''
    | [a] \<Rightarrow> a
    | [a, b] \<Rightarrow> a @ '' and '' @ b
    | _ \<Rightarrow> Join (butlast architectures) '', '' @ '', and '' @ last architectures)"

definition evaluateArchitecture :: "input \<Rightarrow> check" where
  "evaluateArchitecture i =
     (if \<not> gpuHardwareDetected (Some i) then passed_check ''gpu-architecture''
        ''GPU architecture check skipped because no NVIDIA GPU was detected''
      else if GPUDriverVersion i = '''' then passed_check ''gpu-architecture''
        ''GPU architecture check skipped because the NVIDIA driver is not available''
      else case GPUInfo i of
        None \<Rightarrow> passed_check ''gpu-architecture''
          ''GPU architecture check skipped because GPU details could not be collected; check agent logs and retry''
      | Some info \<Rightarrow>
          if length (mgi_GPUs info) = 0 then passed_check ''gpu-architecture''
            ''GPU architecture check skipped because GPU details could not be collected; check agent logs and retry''
          else if mgi_Architecture info = '''' then failed_check ''gpu-architecture''
            ''GPU detected, but its architecture could not be determined; verify the NVIDIA driver is installed and loaded''
          else if \<not> list_ex (\<lambda>s. architectureMatches s (mgi_Architecture info)) supportedArchitectures
          then failed_check ''gpu-architecture''
            (''Unsupported GPU architecture: '' @ mgi_Architecture info @ ''; supported architectures are ''
             @ formatSupportedArchitectures supportedArchitectures)
          else passed_check ''gpu-architecture''
            (''supported GPU architecture detected: '' @ mgi_Architecture info))"

datatype driver_version_error =
    AtLeastTwoParts string
  | AtMostThreeParts string
  | BadPart string string

fun driver_error_text :: "driver_version_error \<Rightarrow> string" where
  "driver_error_text (AtLeastTwoParts v) = ''failed to parse driver version (expected at least 2 parts): '' @ v"
| "driver_error_text (AtMostThreeParts v) = ''failed to parse driver version (expected at most 3 parts): '' @ v"
| "driver_error_text (BadPart which p) = ''failed to parse driver version ('' @ which @ ''): '' @ atoi_error p"

definition parseDriverVersion :: "string \<Rightarrow> (driver_version_error, int \<times> int \<times> int) result" where
  "parseDriverVersion version =
     (let parts = Split version CHR ''.'' in
      if length parts < 2 then Error (AtLeastTwoParts version)
      else if length parts > 3 then Error (AtMostThreeParts version)
      else case ParseInt (parts ! 0) of
        None \<Rightarrow> Error (BadPart ''major'' (parts ! 0))
      | Some major \<Rightarrow> (case ParseInt (parts ! 1) of
          None \<Rightarrow> Error (BadPart ''minor'' (parts ! 1))
        | Some minor \<Rightarrow>
            if length parts = 3 then
              (case ParseInt (parts ! 2) of
                 None \<Rightarrow> Error (BadPart ''patch'' (parts ! 2))
               | Some patch \<Rightarrow> Ok (major, minor, patch))
            else Ok (major, minor, 0)))"

definition evaluateDriver :: "input \<Rightarrow> check" where
  "evaluateDriver i =
     (if \<not> gpuHardwareDetected (Some i) then passed_check ''gpu-driver''
        ''NVIDIA driver check skipped because no NVIDIA GPU was detected''
      else if GPUDriverVersion i = '''' then failed_check ''gpu-driver''
        ''NVIDIA GPU hardware is present, but the NVIDIA driver was not detected; install or load the NVIDIA driver and retry''
      else case parseDriverVersion (GPUDriverVersion i) of
        Inl e \<Rightarrow> failed_check ''gpu-driver'' (''failed to parse NVIDIA driver version: '' @ driver_error_text e)
      | Inr (driverMajor, _, _) \<Rightarrow>
          if driverMajor < minimumDriverMajorVersion then failed_check ''gpu-driver''
            (''NVIDIA driver version '' @ GPUDriverVersion i @ '' is below the required minimum ''
             @ FormatInt minimumDriverMajorVersion @ ''; upgrade the driver and retry'')
          else passed_check ''gpu-driver'' (''NVIDIA driver detected: '' @ GPUDriverVersion i))"

definition evaluateNVAttest :: "bool option \<Rightarrow> check" where
  "evaluateNVAttest present = (case present of
      None \<Rightarrow> passed_check ''nvattest'' ''nvattest check skipped''
    | Some p \<Rightarrow>
        if \<not> p then failed_check ''nvattest''
          ''nvattest was not found in PATH; install nvattest and ensure it is available in PATH''
        else passed_check ''nvattest'' ''nvattest detected'')"

text \<open>\<open>parseVersion\<close> appends each component in turn; the error quotes the whole version.\<close>

fun parse_parts :: "string \<Rightarrow> int list \<Rightarrow> string list \<Rightarrow> (string, int list) result" where
  "parse_parts version parsed [] = Ok parsed"
| "parse_parts version parsed (p # ps) = (case ParseInt p of
      None \<Rightarrow> Error (''invalid version '' @ Quote version)
    | Some v \<Rightarrow> parse_parts version (parsed @ [v]) ps)"

definition parseVersion :: "string \<Rightarrow> (string, int list) result" where
  "parseVersion version = parse_parts version [] (Split version CHR ''.'')"

text \<open>The loop over the common indices; \<^const>\<open>None\<close> when it ends without deciding.\<close>

fun compare_parts :: "nat \<Rightarrow> nat \<Rightarrow> int list \<Rightarrow> int list \<Rightarrow> bool option" where
  "compare_parts 0 i vs ms = None"
| "compare_parts (Suc k) i vs ms =
     (if vs ! i > ms ! i then Some True
      else if vs ! i < ms ! i then Some False
      else compare_parts k (Suc i) vs ms)"

definition isVersionAtLeast :: "string \<Rightarrow> string \<Rightarrow> (string, bool) result" where
  "isVersionAtLeast version minimum = (case parseVersion version of
      Inl e \<Rightarrow> Error e
    | Inr versionParts \<Rightarrow> (case parseVersion minimum of
        Inl e \<Rightarrow> Error e
      | Inr minimumParts \<Rightarrow>
          (case compare_parts (min (length versionParts) (length minimumParts)) 0 versionParts minimumParts of
             Some b \<Rightarrow> Ok b
           | None \<Rightarrow> Ok (length versionParts \<ge> length minimumParts))))"

definition evaluateDCGM :: "input \<Rightarrow> check" where
  "evaluateDCGM i = (case DCGMReachable i of
      None \<Rightarrow> passed_check ''dcgm'' ''DCGM checks skipped''
    | Some reachable \<Rightarrow>
        if \<not> reachable then failed_check ''dcgm''
          ''DCGM HostEngine is not reachable; verify DCGM is running and DCGM_URL is configured correctly''
        else if DCGMVersion i = '''' then failed_check ''dcgm''
          ''DCGM HostEngine is reachable, but its version could not be determined; verify the DCGM installation''
        else case isVersionAtLeast (DCGMVersion i) minimumDCGMVersion of
          Inl e \<Rightarrow> failed_check ''dcgm'' (''failed to parse DCGM HostEngine version: '' @ e)
        | Inr versionOK \<Rightarrow>
            if \<not> versionOK then failed_check ''dcgm''
              (''DCGM HostEngine version '' @ DCGMVersion i @ '' is below the required minimum ''
               @ minimumDCGMVersion @ ''; upgrade DCGM and retry'')
            else passed_check ''dcgm'' (''DCGM HostEngine version is supported: '' @ DCGMVersion i))"

definition Evaluate :: "input option \<Rightarrow> precheck_result" where
  "Evaluate inp =
     (let i = (case inp of None \<Rightarrow> zero_input | Some i \<Rightarrow> i) in
      \<lparr>Checks = [evaluateGPUPresence i, evaluateArchitecture i, evaluateDriver i,
                 evaluateNVAttest (NVAttestPresent i), evaluateDCGM i]\<rparr>)"

section \<open>Detection\<close>

text \<open>
  \<open>DetectHostengineVersion\<close>: the candidate endpoints in order.  The calls on the DCGM bindings are
  recorded, because each successful \<open>Init\<close> owes a call of the cleanup function it returned.
\<close>

record dcgm_candidate =
  Address :: string
  IsUnixSocket :: bool

definition UnixSocketFlag :: "dcgm_candidate \<Rightarrow> string" where
  "UnixSocketFlag c = (if IsUnixSocket c then ''1'' else ''0'')"

datatype dcgm_call = DInit string string | DVersionInfo string | DCleanup string

record dcgm_env =
  dcgm_Init :: "string \<Rightarrow> string \<Rightarrow> (string, unit) result"
  dcgm_VersionInfo :: "string \<Rightarrow> (string, string) result"

definition version_missing :: string where
  "version_missing = ''version missing from DCGM HostEngine build information''"

fun extract_from :: "string list \<Rightarrow> (string, string) result" where
  "extract_from [] = Error version_missing"
| "extract_from (pair # ps) =
     (let (key, v, ok) = Cut pair CHR '':'' in
      if \<not> ok then extract_from ps
      else if TrimSpace key = ''version'' then
        (let version = TrimSpace v in if version \<noteq> '''' then Ok version else Error version_missing)
      else extract_from ps)"

definition extractVersion :: "string \<Rightarrow> (string, string) result" where
  "extractVersion raw = extract_from (Split raw CHR '';'')"

fun detect_from :: "dcgm_env \<Rightarrow> dcgm_candidate list \<Rightarrow> string list \<Rightarrow> (string list, string) result \<times> dcgm_call list" where
  "detect_from D [] errs = (Error errs, [])"
| "detect_from D (c # cs) errs =
     (case dcgm_Init D (Address c) (UnixSocketFlag c) of
        Inl e \<Rightarrow>
          (let (r, t) = detect_from D cs (errs @ [Address c @ '': '' @ e])
           in (r, DInit (Address c) (UnixSocketFlag c) # t))
      | Inr _ \<Rightarrow>
          let calls = [DInit (Address c) (UnixSocketFlag c), DVersionInfo (Address c), DCleanup (Address c)] in
          (case dcgm_VersionInfo D (Address c) of
             Inl e \<Rightarrow>
               (let (r, t) = detect_from D cs (errs @ [Address c @ '': '' @ e]) in (r, calls @ t))
           | Inr raw \<Rightarrow>
               (case extractVersion raw of
                  Inl e \<Rightarrow>
                    (let (r, t) = detect_from D cs (errs @ [Address c @ '': '' @ e]) in (r, calls @ t))
                | Inr version \<Rightarrow> (Ok version, calls))))"

definition DetectHostengineVersion ::
    "dcgm_env \<Rightarrow> dcgm_candidate list \<Rightarrow> (string, string) result \<times> dcgm_call list" where
  "DetectHostengineVersion D candidates =
     (case detect_from D candidates [] of
        (Inl errs, t) \<Rightarrow> (Error (''failed to query any DCGM HostEngine endpoint: '' @ Join errs [CHR 0x0A]), t)
      | (Inr v, t) \<Rightarrow> (Ok v, t))"

text \<open>The answers of the node: \<open>'d\<close> is the SDK's device inventory.\<close>

record 'd precheck_env =
  pe_inventory :: "(string, 'd) result"
  pe_machine_gpu_info :: "'d \<Rightarrow> (string, machine_gpu_info option \<times> string \<times> string) result"
  pe_pci_gpus :: "(string, string list) result"
  pe_look_path :: "string \<Rightarrow> (string, string) result"
  pe_dcgm :: dcgm_env
  pe_candidates :: "dcgm_candidate list"

definition collectDCGMGPUInventory :: "'d precheck_env \<Rightarrow> (string, machine_gpu_info option \<times> string) result" where
  "collectDCGMGPUInventory E = (case pe_inventory E of
      Inl e \<Rightarrow> Error e
    | Inr devices \<Rightarrow> (case pe_machine_gpu_info E devices of
        Inl e \<Rightarrow> Error e
      | Inr (gpuInfo, driverVersion, _) \<Rightarrow> Ok (gpuInfo, driverVersion)))"

definition detectGPUHardware :: "'d precheck_env \<Rightarrow> (string, bool) result" where
  "detectGPUHardware E = (case pe_pci_gpus E of Inl e \<Rightarrow> Error e | Inr devs \<Rightarrow> Ok (length devs > 0))"

definition detectNVAttest :: "'d precheck_env \<Rightarrow> bool" where
  "detectNVAttest E = is_ok (pe_look_path E ''nvattest'')"

definition detectDCGM :: "'d precheck_env \<Rightarrow> bool \<times> string" where
  "detectDCGM E = (case fst (DetectHostengineVersion (pe_dcgm E) (pe_candidates E)) of
      Inl _ \<Rightarrow> (False, '''')
    | Inr version \<Rightarrow> (True, version))"

definition with_inventory :: "(string, machine_gpu_info option \<times> string) result \<Rightarrow> input \<Rightarrow> input" where
  "with_inventory r i = (case r of
      Inr (gpuInfo, driverVersion) \<Rightarrow>
        i\<lparr>GPUInfo := gpuInfo, GPUDriverVersion := driverVersion, GPUHardwarePresent := hasDetectedGPUInfo gpuInfo\<rparr>
    | Inl e \<Rightarrow> i\<lparr>GPUInfoErr := Some e\<rparr>)"

definition with_hardware :: "(string, bool) result \<Rightarrow> input \<Rightarrow> input" where
  "with_hardware r i =
     (if \<not> GPUHardwarePresent i
      then (case r of
              Inl e \<Rightarrow> i\<lparr>GPUHardwarePresent := False, GPUHardwareErr := Some e\<rparr>
            | Inr b \<Rightarrow> i\<lparr>GPUHardwarePresent := b, GPUHardwareErr := None\<rparr>)
      else i)"

definition CollectInput :: "'d precheck_env \<Rightarrow> input" where
  "CollectInput E =
     (let i = with_hardware (detectGPUHardware E) (with_inventory (collectDCGMGPUInventory E) zero_input);
          (dcgmReachable, dcgmVersion) = detectDCGM E
      in i\<lparr>NVAttestPresent := Some (detectNVAttest E),
           DCGMReachable := Some dcgmReachable, DCGMVersion := dcgmVersion\<rparr>)"

text \<open>\<open>CollectInput\<close> never returns an error, so \<open>Run\<close> has one outcome.\<close>

definition precheck_Run :: "'d precheck_env \<Rightarrow> (string, precheck_result) result" where
  "precheck_Run E = Ok (Evaluate (Some (CollectInput E)))"

section \<open>The command\<close>

definition CheckMark :: string where
  "CheckMark = [CHR 0x1B] @ ''[32m'' @ [CHR 0xE2, CHR 0x9C, CHR 0x94, CHR 0x1B] @ ''[0m''"

definition WarningSign :: string where
  "WarningSign = [CHR 0x1B] @ ''[31m'' @ [CHR 0xE2, CHR 0x9C, CHR 0x98, CHR 0x1B] @ ''[0m''"

definition printPrecheckResult :: "precheck_result \<Rightarrow> string" where
  "printPrecheckResult r =
     concat (map (\<lambda>c. (if c_Passed c then CheckMark else WarningSign) @ '' '' @ c_Message c @ [CHR 0x0A]) (Checks r))"

definition precheckCommand :: "(string, precheck_result) result \<Rightarrow> (string, unit) result \<times> string" where
  "precheckCommand runPrecheck = (case runPrecheck of
      Inl e \<Rightarrow> (Error (''failed to run precheck: '' @ e), '''')
    | Inr r \<Rightarrow>
        (if \<not> Passed r then Error ''precheck failed'' else Ok (), printPrecheckResult r))"

section \<open>Results\<close>

lemma all_passed_iff: "all_passed cs \<longleftrightarrow> (\<forall>c \<in> set cs. c_Passed c)"
  by (induction cs) auto

lemma failed_from_filter: "failed_from fs cs = fs @ filter (\<lambda>c. \<not> c_Passed c) cs"
  by (induction cs arbitrary: fs) auto

lemma passed_check_simps [simp]:
  "c_Passed (passed_check n m)" "\<not> c_Passed (failed_check n m)"
  "c_Name (passed_check n m) = n" "c_Name (failed_check n m) = n"
  by (simp_all add: passed_check_def failed_check_def)

lemma Passed_iff_no_failures: "Passed r \<longleftrightarrow> FailedChecks r = []"
  by (auto simp: Passed_def FailedChecks_def all_passed_iff failed_from_filter filter_empty_conv)

section \<open>Version comparison\<close>

lemma parse_parts_Ok:
  "parse_parts v acc ps = Inr xs \<longleftrightarrow>
     (\<forall>p \<in> set ps. ParseInt p \<noteq> None) \<and> xs = acc @ map (\<lambda>p. the (ParseInt p)) ps"
  by (induction ps arbitrary: acc) (auto split: option.splits)

lemma parse_parts_Error: "parse_parts v acc ps = Inl e \<Longrightarrow> e = ''invalid version '' @ Quote v"
  by (induction ps arbitrary: acc) (auto split: option.splits)

lemma parseVersion_Ok:
  "parseVersion v = Inr xs \<longleftrightarrow>
     (\<forall>p \<in> set (Split v CHR ''.''). ParseInt p \<noteq> None) \<and> xs = map (\<lambda>p. the (ParseInt p)) (Split v CHR ''.'')"
  by (simp add: parseVersion_def parse_parts_Ok)

lemma compare_parts_lex:
  assumes "i + k = min (length vs) (length ms)"
  shows "(case compare_parts k i vs ms of Some b \<Rightarrow> b | None \<Rightarrow> length ms \<le> length vs)
           \<longleftrightarrow> drop i ms \<le> drop i vs"
  using assms
proof (induction k arbitrary: i)
  case 0
  then consider "i = length ms" "length ms \<le> length vs" | "i = length vs" "length vs < length ms"
    by (metis add_0_right linorder_le_less_linear min.absorb1 min.absorb2 min.strict_order_iff)
  then show ?case
  proof cases
    case 2
    then have "drop i ms \<noteq> []" by simp
    then show ?thesis using 2 by (cases "drop i ms") simp_all
  qed simp
next
  case (Suc k)
  then have "i < length vs" "i < length ms" by simp_all
  then have "drop i vs = vs ! i # drop (Suc i) vs" "drop i ms = ms ! i # drop (Suc i) ms"
    by (simp_all add: Cons_nth_drop_Suc)
  moreover have "Suc i + k = min (length vs) (length ms)" using Suc.prems by simp
  ultimately show ?case using Suc.IH [of "Suc i"] by auto
qed

lemma compare_parts_order:
  "(case compare_parts (min (length vs) (length ms)) 0 vs ms of
      Some b \<Rightarrow> Inr b | None \<Rightarrow> Inr (length ms \<le> length vs)) = Inr (ms \<le> vs)"
  using compare_parts_lex [of 0 "min (length vs) (length ms)" vs ms] by (auto split: option.splits)

text \<open>
  The hand-written comparison of DCGM versions is the lexicographic order of the parsed components,
  in which a proper prefix is smaller: a version passes exactly when it is not below the minimum, and
  either parse error is returned as it is.
\<close>

theorem isVersionAtLeast_lexicographic:
  "isVersionAtLeast version minimum =
     (case parseVersion version of
        Inl e \<Rightarrow> Inl e
      | Inr vs \<Rightarrow> (case parseVersion minimum of Inl e \<Rightarrow> Inl e | Inr ms \<Rightarrow> Inr (ms \<le> vs)))"
  by (simp add: isVersionAtLeast_def compare_parts_order split: sum.split)

lemma minimumDCGMVersion_parts: "parseVersion minimumDCGMVersion = Inr [4, 2, 3]"
  by code_simp

section \<open>Which nodes qualify\<close>

definition arch_supported :: "string \<Rightarrow> bool" where
  "arch_supported a \<longleftrightarrow>
     a \<noteq> [] \<and> (\<exists>s \<in> set supportedArchitectures. normalizeArchitectureName s = normalizeArchitectureName a)"

definition driver_supported :: "string \<Rightarrow> bool" where
  "driver_supported v \<longleftrightarrow> (\<exists>major minor patch. parseDriverVersion v = Inr (major, minor, patch) \<and> 510 \<le> major)"

definition dcgm_supported :: "string \<Rightarrow> bool" where
  "dcgm_supported v \<longleftrightarrow> (\<exists>vs. parseVersion v = Inr vs \<and> [4, 2, 3] \<le> vs)"

text \<open>
  The empty string is no version, so the code's tests for an empty version only choose the message.
\<close>

lemma empty_unsupported [simp]: "\<not> driver_supported []" "\<not> dcgm_supported []" "\<not> arch_supported []"
proof -
  have "\<not> is_ok (parseDriverVersion [])" "\<not> is_ok (parseVersion [])" by code_simp+
  then show "\<not> driver_supported []" "\<not> dcgm_supported []"
    by (auto simp: driver_supported_def dcgm_supported_def is_ok_iff)
  show "\<not> arch_supported []" by (simp add: arch_supported_def)
qed

lemma arch_check:
  "a \<noteq> [] \<and> list_ex (\<lambda>s. architectureMatches s a) supportedArchitectures \<longleftrightarrow> arch_supported a"
  by (auto simp: list_ex_iff arch_supported_def architectureMatches_def)

lemma GPUPresence_passed:
  "c_Passed (evaluateGPUPresence i) \<longleftrightarrow> GPUHardwareErr i = None \<and> gpuHardwareDetected (Some i)"
  by (simp add: evaluateGPUPresence_def)

lemma Architecture_passed:
  "c_Passed (evaluateArchitecture i) \<longleftrightarrow>
     (\<forall>info. gpuHardwareDetected (Some i) \<and> GPUDriverVersion i \<noteq> [] \<and> GPUInfo i = Some info \<and> mgi_GPUs info \<noteq> []
        \<longrightarrow> arch_supported (mgi_Architecture info))"
  using arch_check by (auto simp: evaluateArchitecture_def split: option.split)

lemma Driver_passed:
  "c_Passed (evaluateDriver i) \<longleftrightarrow> (gpuHardwareDetected (Some i) \<longrightarrow> driver_supported (GPUDriverVersion i))"
proof (cases "GPUDriverVersion i = []")
  case False
  then show ?thesis
    by (auto simp: evaluateDriver_def driver_supported_def minimumDriverMajorVersion_def split: sum.split)
qed (auto simp: evaluateDriver_def)

lemma NVAttest_passed: "c_Passed (evaluateNVAttest p) \<longleftrightarrow> p \<noteq> Some False"
  by (auto simp: evaluateNVAttest_def split: option.split)

lemma DCGM_passed:
  "c_Passed (evaluateDCGM i) \<longleftrightarrow>
     DCGMReachable i = None \<or> DCGMReachable i = Some True \<and> dcgm_supported (DCGMVersion i)"
proof (cases "DCGMVersion i = []")
  case False
  have "isVersionAtLeast v minimumDCGMVersion =
          (case parseVersion v of Inl e \<Rightarrow> Inl e | Inr vs \<Rightarrow> Inr ([4, 2, 3] \<le> vs))" for v
    unfolding isVersionAtLeast_def minimumDCGMVersion_parts sum.case compare_parts_order ..
  with False show ?thesis
    by (auto simp: evaluateDCGM_def dcgm_supported_def split: option.split sum.split)
qed (auto simp: evaluateDCGM_def split: option.split)

lemmas check_passed = GPUPresence_passed Architecture_passed Driver_passed NVAttest_passed DCGM_passed

lemma Passed_Evaluate:
  "Passed (Evaluate (Some i)) \<longleftrightarrow>
     GPUHardwareErr i = None \<and> gpuHardwareDetected (Some i) \<and> driver_supported (GPUDriverVersion i)
     \<and> (\<forall>info. GPUInfo i = Some info \<and> mgi_GPUs info \<noteq> [] \<longrightarrow> arch_supported (mgi_Architecture info))
     \<and> NVAttestPresent i \<noteq> Some False
     \<and> (DCGMReachable i = None \<or> DCGMReachable i = Some True \<and> dcgm_supported (DCGMVersion i))"
  by (auto simp: Evaluate_def Passed_def check_passed)

text \<open>What the precheck promises of a node, over the node's answers.\<close>

definition node_qualified :: "'d precheck_env \<Rightarrow> bool" where
  "node_qualified E \<longleftrightarrow>
     (\<exists>gi driver. collectDCGMGPUInventory E = Inr (gi, driver) \<and> driver_supported driver
        \<and> (hasDetectedGPUInfo gi \<and> arch_supported (mgi_Architecture (the gi))
           \<or> \<not> hasDetectedGPUInfo gi \<and> (\<exists>devs. pe_pci_gpus E = Inr devs \<and> devs \<noteq> [])))
     \<and> is_ok (pe_look_path E ''nvattest'')
     \<and> (\<exists>v. fst (DetectHostengineVersion (pe_dcgm E) (pe_candidates E)) = Inr v \<and> dcgm_supported v)"

lemma CollectInput_attest [simp]:
  "NVAttestPresent (CollectInput E) = Some (is_ok (pe_look_path E ''nvattest''))"
  by (simp add: CollectInput_def detectNVAttest_def split: prod.split)

lemma CollectInput_dcgm:
  "(DCGMReachable (CollectInput E) = Some True \<and> dcgm_supported (DCGMVersion (CollectInput E)))
     \<longleftrightarrow> (\<exists>v. fst (DetectHostengineVersion (pe_dcgm E) (pe_candidates E)) = Inr v \<and> dcgm_supported v)"
  "DCGMReachable (CollectInput E) \<noteq> None"
  by (auto simp: CollectInput_def detectDCGM_def split: prod.split sum.splits)

lemma CollectInput_gpu:
  "GPUInfo (CollectInput E) = (case collectDCGMGPUInventory E of Inr (gi, d) \<Rightarrow> gi | Inl e \<Rightarrow> None)"
  "GPUDriverVersion (CollectInput E) = (case collectDCGMGPUInventory E of Inr (gi, d) \<Rightarrow> d | Inl e \<Rightarrow> [])"
  by (auto simp: CollectInput_def with_inventory_def with_hardware_def zero_input_def
           split: sum.split prod.split)

lemma CollectInput_hardware:
  assumes "collectDCGMGPUInventory E = Inr (gi, d)"
  shows "GPUHardwareErr (CollectInput E) = None \<and> gpuHardwareDetected (Some (CollectInput E)) \<longleftrightarrow>
           hasDetectedGPUInfo gi \<or> (\<exists>devs. pe_pci_gpus E = Inr devs \<and> devs \<noteq> [])"
  using assms
  by (auto simp: CollectInput_def with_inventory_def with_hardware_def zero_input_def detectGPUHardware_def
        gpuHardwareDetected_def split: sum.splits prod.split)

lemma arch_of_detected:
  "(\<forall>info. gi = Some info \<and> mgi_GPUs info \<noteq> [] \<longrightarrow> P (mgi_Architecture info)) \<longleftrightarrow>
     (hasDetectedGPUInfo gi \<longrightarrow> P (mgi_Architecture (the gi)))"
  by (auto simp: hasDetectedGPUInfo_def split: option.split)

lemma Passed_CollectInput: "Passed (Evaluate (Some (CollectInput E))) \<longleftrightarrow> node_qualified E"
proof (cases "collectDCGMGPUInventory E")
  case (Inl e)
  then show ?thesis
    by (simp add: Passed_Evaluate node_qualified_def CollectInput_gpu)
next
  case (Inr p)
  then obtain gi d where c: "collectDCGMGPUInventory E = Inr (gi, d)" by (cases p) simp
  show ?thesis
    using CollectInput_hardware [OF c]
    by (auto simp: Passed_Evaluate node_qualified_def CollectInput_gpu CollectInput_dcgm c arch_of_detected)
qed

lemma precheck_Run_outcome: "\<exists>r. precheck_Run E = Inr r \<and> (Passed r \<longleftrightarrow> node_qualified E)"
  by (simp add: precheck_Run_def Passed_CollectInput)

text \<open>
  C18: The precheck always produces a result, and the result passes exactly on a qualified node: the DCGM
  inventory was collected, with a driver whose version parses and is at least 510; the inventory has GPUs
  of a supported architecture, or it has none but the PCI bus has one; \<open>nvattest\<close> is on the path; and a
  DCGM endpoint answered with a version of at least 4.2.3.  In particular no missing answer counts as a
  pass, although single checks are skipped.
\<close>

theorem precheck_passes_iff_qualified:
  "\<exists>r. precheck_Run E = Inr r \<and> (Passed r \<longleftrightarrow> node_qualified E)
     \<and> length (Checks r) = 5 \<and> (Passed r \<longleftrightarrow> FailedChecks r = [])"
  by (simp add: precheck_Run_def Passed_CollectInput Passed_iff_no_failures [symmetric])
     (simp add: Evaluate_def Let_def)

section \<open>DCGM connections\<close>

text \<open>A log of calls in which each successful \<open>Init\<close> is cleaned up before the next one.\<close>

fun closed_log :: "dcgm_env \<Rightarrow> string option \<Rightarrow> dcgm_call list \<Rightarrow> bool" where
  "closed_log D cur [] \<longleftrightarrow> cur = None"
| "closed_log D cur (DInit a f # t) \<longleftrightarrow>
     cur = None \<and> closed_log D (if is_ok (dcgm_Init D a f) then Some a else None) t"
| "closed_log D cur (DVersionInfo a # t) \<longleftrightarrow> cur = Some a \<and> closed_log D cur t"
| "closed_log D cur (DCleanup a # t) \<longleftrightarrow> cur = Some a \<and> closed_log D None t"

definition candidate_version :: "dcgm_env \<Rightarrow> dcgm_candidate \<Rightarrow> string option" where
  "candidate_version D c =
     (if is_ok (dcgm_Init D (Address c) (UnixSocketFlag c)) then
        (case dcgm_VersionInfo D (Address c) of
           Inl _ \<Rightarrow> None
         | Inr raw \<Rightarrow> (case extractVersion raw of Inl _ \<Rightarrow> None | Inr v \<Rightarrow> Some v))
      else None)"

lemma detect_from_closed: "closed_log D None (snd (detect_from D cs errs))"
  by (induction cs arbitrary: errs) (auto simp: Let_def split: sum.split prod.split, (metis snd_conv)+)

lemma detect_from_step:
  assumes "candidate_version D c = None"
  shows "\<exists>e. fst (detect_from D (c # cs) errs) = fst (detect_from D cs (errs @ [e]))"
  using assms
  by (auto simp: candidate_version_def Let_def split: sum.splits prod.splits if_splits, (metis fst_conv)+)

lemma detect_from_hit:
  assumes "candidate_version D c = Some v"
  shows "fst (detect_from D (c # cs) errs) = Inr v"
  using assms by (auto simp: candidate_version_def Let_def split: sum.splits prod.splits if_splits)

lemma detect_from_first:
  "(case fst (detect_from D cs errs) of Inr v \<Rightarrow> Some v | Inl _ \<Rightarrow> None) =
     (case List.map_filter (candidate_version D) cs of [] \<Rightarrow> None | v # _ \<Rightarrow> Some v)"
proof (induction cs arbitrary: errs)
  case (Cons c cs)
  show ?case
  proof (cases "candidate_version D c")
    case None
    then obtain e where "fst (detect_from D (c # cs) errs) = fst (detect_from D cs (errs @ [e]))"
      using detect_from_step by blast
    with None Cons.IH [of "errs @ [e]"] show ?thesis by (simp add: List.map_filter_simps)
  qed (simp add: detect_from_hit List.map_filter_simps del: detect_from.simps)
qed (simp add: List.map_filter_simps)

text \<open>
  Probing the DCGM version leaves no connection open: on every path, errors included, each successful
  \<open>Init\<close> is cleaned up before the next endpoint is tried, and the version is asked only on the open
  connection.  The answer is the version of the first candidate that has one.
\<close>

theorem version_probe_closes_connections:
  "closed_log D None (snd (DetectHostengineVersion D cs))
   \<and> (case fst (DetectHostengineVersion D cs) of Inr v \<Rightarrow> Some v | Inl _ \<Rightarrow> None) =
       (case List.map_filter (candidate_version D) cs of [] \<Rightarrow> None | v # _ \<Rightarrow> Some v)"
  using detect_from_closed [of D cs "[]"] detect_from_first [of D cs "[]"]
  by (auto simp: DetectHostengineVersion_def split: prod.split sum.splits)

end
