(* ===== verification/Entity_Catalog.thy ===== *)
theory Entity_Catalog
  imports Machine_Info
begin

text \<open>
  The identity catalog of \<open>internal/exporter/collector/identity.go\<close>: which physical GPU a UUID or a DCGM
  index stands for.  The Go map of DCGM indexes is iterated in an unspecified order, so the model takes the
  order of the iteration, an association list with distinct keys.

  The lemmas show that the catalog is well formed (\<open>catalog_ok\<close>: every identity stands under its own
  non-empty trimmed UUID, every index leads to an identity that has it), and that a catalog built from
  DCGM data without duplicates does not depend on the order of the iteration.
\<close>

section \<open>Definitions\<close>

record gpu_identity =
  gi_UUID :: string
  gi_GPU :: string
  gi_PCIBusID :: string
  gi_Device :: string
  gi_ModelName :: string
  gi_Architecture :: string
  gi_GPUSerial :: string
  gi_VBIOSVersion :: string
  gi_ClusterUUID :: string
  gi_CliqueID :: string

definition no_identity :: gpu_identity where
  "no_identity = \<lparr>gi_UUID = [], gi_GPU = [], gi_PCIBusID = [], gi_Device = [], gi_ModelName = [], gi_Architecture = [],
     gi_GPUSerial = [], gi_VBIOSVersion = [], gi_ClusterUUID = [], gi_CliqueID = []\<rparr>"

text \<open>
  The two maps are kept with their insertion order, an association list in which a key occurs once;
  \<open>put\<close> is the Go assignment \<open>m[k] = v\<close>.
\<close>

fun put :: "'k \<Rightarrow> 'v \<Rightarrow> ('k \<times> 'v) list \<Rightarrow> ('k \<times> 'v) list" where
  "put k v [] = [(k, v)]"
| "put k v ((k', v') # m) = (if k' = k then (k, v) # m else (k', v') # put k v m)"

record entity_catalog =
  ec_Hostname :: string
  ec_GPUDriverVersion :: string
  ec_CUDADriverVersion :: string
  ec_KernelVersion :: string
  ec_BootTime :: gotime
  ec_GPUsByUUID :: "(string \<times> gpu_identity) list"
  ec_GPUUUIDByIndex :: "(string \<times> string) list"

definition empty_catalog :: entity_catalog where
  "empty_catalog = \<lparr>ec_Hostname = [], ec_GPUDriverVersion = [], ec_CUDADriverVersion = [], ec_KernelVersion = [],
     ec_BootTime = zero_time, ec_GPUsByUUID = [], ec_GPUUUIDByIndex = []\<rparr>"

text \<open>One turn of the loop over the DCGM indexes.\<close>

definition add_dcgm :: "string \<times> string \<Rightarrow> entity_catalog \<Rightarrow> entity_catalog" where
  "add_dcgm entry c =
     (let uuid = TrimSpace (fst entry); gpu = TrimSpace (snd entry) in
      if uuid = [] then c
      else let c1 = c\<lparr>ec_GPUsByUUID := put uuid (no_identity\<lparr>gi_UUID := uuid, gi_GPU := gpu\<rparr>) (ec_GPUsByUUID c)\<rparr>
           in if gpu \<noteq> [] then c1\<lparr>ec_GPUUUIDByIndex := put gpu uuid (ec_GPUUUIDByIndex c1)\<rparr> else c1)"

definition with_host :: "machine_info \<Rightarrow> entity_catalog \<Rightarrow> entity_catalog" where
  "with_host info c = c\<lparr>ec_Hostname := TrimSpace (mi_Hostname info),
     ec_GPUDriverVersion := TrimSpace (mi_GPUDriverVersion info),
     ec_CUDADriverVersion := TrimSpace (mi_CUDAVersion info),
     ec_KernelVersion := TrimSpace (mi_KernelVersion info),
     ec_BootTime := (if \<not> is_zero_time (mi_Uptime info) then to_utc (mi_Uptime info) else ec_BootTime c)\<rparr>"

text \<open>The identity the loop over the inventory makes from the one in the catalog.\<close>

definition merge_identity :: "string \<Rightarrow> string \<Rightarrow> machine_gpu \<Rightarrow> string \<Rightarrow> gpu_identity \<Rightarrow> gpu_identity" where
  "merge_identity defaultModelName defaultArchitecture g uuid i =
     i\<lparr>gi_UUID := uuid,
       gi_GPU := (if gi_GPU i = [] then TrimSpace (mg_GPUIndex g) else gi_GPU i),
       gi_PCIBusID := TrimSpace (mg_BusID g),
       gi_Architecture := defaultArchitecture,
       gi_GPUSerial := TrimSpace (mg_SN g),
       gi_VBIOSVersion := TrimSpace (mg_VBIOSVersion g),
       gi_ModelName := (if TrimSpace (mg_ModelName g) = [] then defaultModelName else TrimSpace (mg_ModelName g)),
       gi_ClusterUUID := TrimSpace (mg_ClusterUUID g),
       gi_CliqueID := (case mg_CliqueID g of None \<Rightarrow> gi_CliqueID i | Some w \<Rightarrow> FormatNat (unat w)),
       gi_Device := (case ParseInt (TrimSpace (mg_MinorID g)) of
                       Some minor \<Rightarrow> if 0 \<le> minor then ''nvidia'' @ FormatInt minor else gi_Device i
                     | None \<Rightarrow> gi_Device i)\<rparr>"

definition add_gpu :: "string \<Rightarrow> string \<Rightarrow> machine_gpu \<Rightarrow> entity_catalog \<Rightarrow> entity_catalog" where
  "add_gpu defaultModelName defaultArchitecture g c =
     (let uuid = TrimSpace (mg_UUID g) in
      if uuid = [] then c
      else let i0 = (case map_of (ec_GPUsByUUID c) uuid of None \<Rightarrow> no_identity | Some i \<Rightarrow> i);
               i = merge_identity defaultModelName defaultArchitecture g uuid i0;
               c1 = c\<lparr>ec_GPUsByUUID := put uuid i (ec_GPUsByUUID c)\<rparr>
           in if gi_GPU i \<noteq> [] then c1\<lparr>ec_GPUUUIDByIndex := put (gi_GPU i) uuid (ec_GPUUUIDByIndex c1)\<rparr> else c1)"

definition NewEntityCatalog :: "machine_info option \<Rightarrow> (string \<times> string) list \<Rightarrow> entity_catalog" where
  "NewEntityCatalog info dcgmGPUIndexes =
     (let c = fold add_dcgm dcgmGPUIndexes empty_catalog in
      case info of
        None \<Rightarrow> c
      | Some i \<Rightarrow>
          (let c1 = with_host i c in
           case mi_GPUInfo i of
             None \<Rightarrow> c1
           | Some gi \<Rightarrow> fold (add_gpu (TrimSpace (mgi_Product gi)) (TrimSpace (mgi_Architecture gi))) (mgi_GPUs gi) c1))"

section \<open>Maps\<close>

lemma map_of_put [simp]: "map_of (put k v m) = (map_of m)(k \<mapsto> v)"
  by (induction m) (auto simp: fun_eq_iff)

lemma set_put_keys: "fst ` set (put k v m) = insert k (fst ` set m)"
proof (induction m)
  case (Cons e m)
  then show ?case by (cases e) (simp add: insert_commute)
qed simp

lemma distinct_put: "distinct (map fst m) \<Longrightarrow> distinct (map fst (put k v m))"
proof (induction m)
  case (Cons e m)
  then show ?case by (cases e) (auto simp: set_put_keys simp flip: image_set)
qed simp

section \<open>Well-formed catalogs\<close>

definition identity_ok :: "string \<Rightarrow> gpu_identity \<Rightarrow> bool" where
  "identity_ok u i \<longleftrightarrow> gi_UUID i = u \<and> u \<noteq> [] \<and> trimmed u \<and>
     list_all trimmed [gi_GPU i, gi_PCIBusID i, gi_ModelName i, gi_Architecture i, gi_GPUSerial i,
                       gi_VBIOSVersion i, gi_ClusterUUID i]"

text \<open>Every index leads to a known GPU.\<close>

definition catalog_ok :: "entity_catalog \<Rightarrow> bool" where
  "catalog_ok c \<longleftrightarrow>
     distinct (map fst (ec_GPUsByUUID c)) \<and> distinct (map fst (ec_GPUUUIDByIndex c)) \<and>
     (\<forall>u i. map_of (ec_GPUsByUUID c) u = Some i \<longrightarrow> identity_ok u i) \<and>
     (\<forall>x u. map_of (ec_GPUUUIDByIndex c) x = Some u \<longrightarrow> x \<noteq> [] \<and> trimmed x \<and> map_of (ec_GPUsByUUID c) u \<noteq> None)"

text \<open>Every index leads to a GPU that has this index.\<close>

definition indexes_agree :: "entity_catalog \<Rightarrow> bool" where
  "indexes_agree c \<longleftrightarrow>
     (\<forall>x u. map_of (ec_GPUUUIDByIndex c) x = Some u \<longrightarrow> (\<exists>i. map_of (ec_GPUsByUUID c) u = Some i \<and> gi_GPU i = x))"

lemma trimmed_Nil [simp]: "trimmed []"
  using trimmed_TrimSpace [of "[]"] by simp

lemma no_identity_sel [simp]:
  "gi_UUID no_identity = []" "gi_GPU no_identity = []" "gi_PCIBusID no_identity = []" "gi_Device no_identity = []"
  "gi_ModelName no_identity = []" "gi_Architecture no_identity = []" "gi_GPUSerial no_identity = []"
  "gi_VBIOSVersion no_identity = []" "gi_ClusterUUID no_identity = []" "gi_CliqueID no_identity = []"
  by (simp_all add: no_identity_def)

lemma empty_catalog_ok: "catalog_ok empty_catalog" "indexes_agree empty_catalog"
  by (simp_all add: catalog_ok_def indexes_agree_def empty_catalog_def)

lemma with_host_frame [simp]:
  "ec_GPUsByUUID (with_host i c) = ec_GPUsByUUID c" "ec_GPUUUIDByIndex (with_host i c) = ec_GPUUUIDByIndex c"
  "catalog_ok (with_host i c) = catalog_ok c" "indexes_agree (with_host i c) = indexes_agree c"
  by (simp_all add: with_host_def catalog_ok_def indexes_agree_def)

text \<open>Both loops store an identity under its UUID and then its index.\<close>

lemma store_identity_ok:
  assumes "catalog_ok c" "identity_ok u i"
    and "c' = (if gi_GPU i \<noteq> [] then c\<lparr>ec_GPUsByUUID := put u i (ec_GPUsByUUID c), ec_GPUUUIDByIndex := put (gi_GPU i) u (ec_GPUUUIDByIndex c)\<rparr>
               else c\<lparr>ec_GPUsByUUID := put u i (ec_GPUsByUUID c)\<rparr>)"
  shows "catalog_ok c'"
  using assms
  by (auto simp: catalog_ok_def distinct_put identity_ok_def simp del: map_of_eq_Some_iff split: if_splits)

lemma add_dcgm_ok: "catalog_ok c \<Longrightarrow> catalog_ok (add_dcgm e c)"
proof (cases "TrimSpace (fst e) = []")
  case False
  assume "catalog_ok c"
  moreover have "identity_ok (TrimSpace (fst e)) (no_identity\<lparr>gi_UUID := TrimSpace (fst e), gi_GPU := TrimSpace (snd e)\<rparr>)"
    using False by (simp add: identity_ok_def)
  ultimately show ?thesis
    by (rule store_identity_ok) (simp add: add_dcgm_def Let_def False)
qed (simp add: add_dcgm_def)

lemma identity_ok_merge:
  assumes "u \<noteq> []" "trimmed u" "trimmed model" "trimmed arch" "trimmed (gi_GPU i)"
  shows "identity_ok u (merge_identity model arch g u i)"
  using assms by (simp add: identity_ok_def merge_identity_def)

lemma known_identity_trimmed:
  "catalog_ok c \<Longrightarrow> trimmed (gi_GPU (case map_of (ec_GPUsByUUID c) u of None \<Rightarrow> no_identity | Some i \<Rightarrow> i))"
  by (auto simp: catalog_ok_def identity_ok_def split: option.split)

lemma add_gpu_ok:
  assumes "catalog_ok c" "trimmed model" "trimmed arch"
  shows "catalog_ok (add_gpu model arch g c)"
proof (cases "TrimSpace (mg_UUID g) = []")
  case False
  let ?u = "TrimSpace (mg_UUID g)"
  have "identity_ok ?u (merge_identity model arch g ?u (case map_of (ec_GPUsByUUID c) ?u of None \<Rightarrow> no_identity | Some i \<Rightarrow> i))"
    using False assms by (intro identity_ok_merge known_identity_trimmed) simp_all
  with assms(1) show ?thesis
    by (rule store_identity_ok) (simp add: add_gpu_def Let_def False)
qed (simp add: add_gpu_def assms)

lemma fold_catalog_ok:
  assumes "\<And>e c. P c \<Longrightarrow> P (f e c)" and "P c"
  shows "P (fold f es c)"
  using assms(2) by (induction es arbitrary: c) (simp_all add: assms(1))

lemma NewEntityCatalog_ok: "catalog_ok (NewEntityCatalog info dcgm)"
proof -
  have "catalog_ok (fold add_dcgm dcgm empty_catalog)"
    by (rule fold_catalog_ok) (simp_all add: add_dcgm_ok empty_catalog_ok)
  then have "catalog_ok (fold (add_gpu (TrimSpace m) (TrimSpace a)) gs (with_host i (fold add_dcgm dcgm empty_catalog)))"
    for m a gs i
    by (intro fold_catalog_ok [where P = catalog_ok]) (simp_all add: add_gpu_ok)
  with \<open>catalog_ok (fold add_dcgm dcgm empty_catalog)\<close> show ?thesis
    by (simp add: NewEntityCatalog_def Let_def split: option.split)
qed

section \<open>Indexes\<close>

lemma store_index_agrees:
  assumes "indexes_agree c"
    and "\<And>x. map_of (ec_GPUUUIDByIndex c) x = Some u \<Longrightarrow> gi_GPU i = x"
    and "c' = (if gi_GPU i \<noteq> [] then c\<lparr>ec_GPUsByUUID := put u i (ec_GPUsByUUID c), ec_GPUUUIDByIndex := put (gi_GPU i) u (ec_GPUUUIDByIndex c)\<rparr>
               else c\<lparr>ec_GPUsByUUID := put u i (ec_GPUsByUUID c)\<rparr>)"
  shows "indexes_agree c'"
  using assms by (auto simp: indexes_agree_def split: if_splits)

lemma add_gpu_agrees:
  assumes "catalog_ok c" "indexes_agree c"
  shows "indexes_agree (add_gpu model arch g c)"
proof (cases "TrimSpace (mg_UUID g) = []")
  case False
  let ?u = "TrimSpace (mg_UUID g)"
  let ?i0 = "case map_of (ec_GPUsByUUID c) ?u of None \<Rightarrow> no_identity | Some i \<Rightarrow> i"
  have "gi_GPU (merge_identity model arch g ?u ?i0) = x" if "map_of (ec_GPUUUIDByIndex c) x = Some ?u" for x
    using assms that by (fastforce simp: catalog_ok_def indexes_agree_def merge_identity_def)
  then show ?thesis
    by (rule store_index_agrees [OF assms(2)]) (simp_all only: add_gpu_def Let_def False, simp)
qed (simp add: add_gpu_def assms)

text \<open>The DCGM entries the first loop stores, and that no two of them share a UUID.\<close>

definition kept :: "(string \<times> string) list \<Rightarrow> (string \<times> string) list" where
  "kept es = filter (\<lambda>e. fst e \<noteq> []) (map (\<lambda>e. (TrimSpace (fst e), TrimSpace (snd e))) es)"

definition dcgm_identity :: "string \<times> string \<Rightarrow> gpu_identity" where
  "dcgm_identity e = no_identity\<lparr>gi_UUID := fst e, gi_GPU := snd e\<rparr>"

definition keep_entry :: "string \<times> string \<Rightarrow> entity_catalog \<Rightarrow> entity_catalog" where
  "keep_entry e c =
     (if snd e \<noteq> [] then c\<lparr>ec_GPUsByUUID := put (fst e) (dcgm_identity e) (ec_GPUsByUUID c),
                            ec_GPUUUIDByIndex := put (snd e) (fst e) (ec_GPUUUIDByIndex c)\<rparr>
      else c\<lparr>ec_GPUsByUUID := put (fst e) (dcgm_identity e) (ec_GPUsByUUID c)\<rparr>)"

lemma fold_add_dcgm: "fold add_dcgm es c = fold keep_entry (kept es) c"
proof (induction es arbitrary: c)
  case (Cons e es)
  have "add_dcgm e c = (if TrimSpace (fst e) = [] then c else keep_entry (TrimSpace (fst e), TrimSpace (snd e)) c)"
    by (simp add: add_dcgm_def keep_entry_def dcgm_identity_def Let_def)
  with Cons show ?case by (simp add: kept_def)
qed (simp add: kept_def)

lemma fold_entry_gpus:
  assumes "distinct (map fst es)"
  shows "map_of (ec_GPUsByUUID (fold keep_entry es c)) u =
           (case map_of es u of Some g \<Rightarrow> Some (dcgm_identity (u, g)) | None \<Rightarrow> map_of (ec_GPUsByUUID c) u)"
  using assms
proof (induction es arbitrary: c)
  case (Cons e es)
  then have "map_of es (fst e) = None" by (simp add: map_of_eq_None_iff)
  with Cons show ?case by (cases e) (auto simp: keep_entry_def split: option.split)
qed simp

lemma fold_entry_indexes:
  assumes "distinct (map fst es)" "distinct (filter (\<lambda>x. x \<noteq> []) (map snd es))"
  shows "map_of (ec_GPUUUIDByIndex (fold keep_entry es c)) x = Some u \<longleftrightarrow>
           (u, x) \<in> set es \<and> x \<noteq> [] \<or>
           (x = [] \<or> x \<notin> snd ` set es) \<and> map_of (ec_GPUUUIDByIndex c) x = Some u"
  using assms
proof (induction es arbitrary: c)
  case (Cons e es)
  obtain v y where e: "e = (v, y)" by (cases e)
  have nd: "y = [] \<or> y \<notin> snd ` set es" using Cons.prems(2) by (auto simp: e image_iff split: if_splits)
  have "map_of (ec_GPUUUIDByIndex (keep_entry e c)) = (if y \<noteq> [] then (map_of (ec_GPUUUIDByIndex c))(y \<mapsto> v) else map_of (ec_GPUUUIDByIndex c))"
    by (simp add: keep_entry_def e)
  moreover have "distinct (filter (\<lambda>x. x \<noteq> []) (map snd es))" using Cons.prems(2) by (simp split: if_splits)
  ultimately show ?case
    using Cons.IH [of "keep_entry e c"] Cons.prems(1) nd by (auto simp: e image_iff split: if_splits)
qed simp

lemma fold_entry_agrees:
  assumes "distinct (map fst es)" "\<And>e u. e \<in> set es \<Longrightarrow> map_of (ec_GPUUUIDByIndex c) u \<noteq> Some (fst e)" "indexes_agree c"
  shows "indexes_agree (fold keep_entry es c)"
  using assms
proof (induction es arbitrary: c)
  case (Cons e es)
  have "indexes_agree (keep_entry e c)"
    using Cons.prems(2) [of e]
    by (intro store_index_agrees [OF Cons.prems(3), of "fst e" "dcgm_identity e"]) (auto simp: keep_entry_def dcgm_identity_def)
  moreover have "map_of (ec_GPUUUIDByIndex (keep_entry e c)) u \<noteq> Some (fst e')" if "e' \<in> set es" for e' u
    using that Cons.prems(1) Cons.prems(2) [of e' u] by (auto simp: keep_entry_def)
  ultimately show ?case using Cons.IH [of "keep_entry e c"] Cons.prems(1) by simp
qed simp

section \<open>Equivalent catalogs\<close>

text \<open>Catalogs that answer every lookup alike.\<close>

definition same_catalog :: "entity_catalog \<Rightarrow> entity_catalog \<Rightarrow> bool" where
  "same_catalog c d \<longleftrightarrow>
     c\<lparr>ec_GPUsByUUID := [], ec_GPUUUIDByIndex := []\<rparr> = d\<lparr>ec_GPUsByUUID := [], ec_GPUUUIDByIndex := []\<rparr> \<and>
     map_of (ec_GPUsByUUID c) = map_of (ec_GPUsByUUID d) \<and>
     map_of (ec_GPUUUIDByIndex c) = map_of (ec_GPUUUIDByIndex d)"

lemma add_gpu_same: "same_catalog c d \<Longrightarrow> same_catalog (add_gpu m a g c) (add_gpu m a g d)"
  by (cases c; cases d) (auto simp: same_catalog_def add_gpu_def Let_def)

lemma fold_add_gpu_same: "same_catalog c d \<Longrightarrow> same_catalog (fold (add_gpu m a) gs c) (fold (add_gpu m a) gs d)"
  by (induction gs arbitrary: c d) (simp_all add: add_gpu_same)

lemma with_host_same: "same_catalog c d \<Longrightarrow> same_catalog (with_host i c) (with_host i d)"
  by (cases c; cases d) (auto simp: same_catalog_def with_host_def)

lemma entry_frame: "(fold keep_entry es c)\<lparr>ec_GPUsByUUID := [], ec_GPUUUIDByIndex := []\<rparr> = c\<lparr>ec_GPUsByUUID := [], ec_GPUUUIDByIndex := []\<rparr>"
  by (induction es arbitrary: c) (simp_all add: keep_entry_def)

lemma fold_entry_same:
  assumes "set es = set es'" "distinct (map fst es)" "distinct (map fst es')"
    "distinct (filter (\<lambda>x. x \<noteq> []) (map snd es))" "distinct (filter (\<lambda>x. x \<noteq> []) (map snd es'))"
  shows "same_catalog (fold keep_entry es c) (fold keep_entry es' c)"
proof -
  have "map_of es = map_of es'" using assms(1-3) by (metis map_of_inject_set)
  then have "map_of (ec_GPUsByUUID (fold keep_entry es c)) = map_of (ec_GPUsByUUID (fold keep_entry es' c))"
    by (simp add: fun_eq_iff fold_entry_gpus assms)
  moreover have "map_of (ec_GPUUUIDByIndex (fold keep_entry es c)) x = Some u \<longleftrightarrow>
      map_of (ec_GPUUUIDByIndex (fold keep_entry es' c)) x = Some u" for x u
    by (simp add: fold_entry_indexes assms)
  then have "map_of (ec_GPUUUIDByIndex (fold keep_entry es c)) = map_of (ec_GPUUUIDByIndex (fold keep_entry es' c))"
    by (metis not_Some_eq ext)
  ultimately show ?thesis by (simp add: same_catalog_def entry_frame)
qed

section \<open>Properties\<close>

lemma distinct_sub: "distinct (map fst es) \<Longrightarrow> distinct es"
  by (simp add: distinct_map)

text \<open>
  C34: Every catalog is well formed: identities stand under their own non-empty UUID, with trimmed fields,
  each UUID and each index once, and every index leads to a known GPU.  When no two DCGM entries name the
  same UUID up to surrounding space, every index leads to a GPU that carries exactly this index, so a
  label with the index and a label with the UUID are enriched alike.
\<close>

theorem entity_catalog_well_formed:
  "catalog_ok (NewEntityCatalog info dcgm) \<and>
   (distinct (map fst (kept dcgm)) \<longrightarrow> indexes_agree (NewEntityCatalog info dcgm))"
proof (intro conjI impI NewEntityCatalog_ok)
  assume d: "distinct (map fst (kept dcgm))"
  let ?c = "fold add_dcgm dcgm empty_catalog"
  have c: "catalog_ok ?c" by (rule fold_catalog_ok) (simp_all add: add_dcgm_ok empty_catalog_ok)
  have a: "indexes_agree ?c" unfolding fold_add_dcgm
    by (rule fold_entry_agrees [OF d _ empty_catalog_ok(2)]) (simp add: empty_catalog_def)
  have "catalog_ok (fold (add_gpu (TrimSpace m) (TrimSpace n)) gs (with_host i ?c)) \<and>
        indexes_agree (fold (add_gpu (TrimSpace m) (TrimSpace n)) gs (with_host i ?c))" for m n gs i
    using c a
    by (intro fold_catalog_ok [where P = "\<lambda>c. catalog_ok c \<and> indexes_agree c"]) (simp_all add: add_gpu_ok add_gpu_agrees)
  with a show "indexes_agree (NewEntityCatalog info dcgm)"
    by (simp add: NewEntityCatalog_def Let_def split: option.split)
qed

theorem entity_catalog_well_formed_witness:
  "map_of (ec_GPUUUIDByIndex (NewEntityCatalog None [(''GPU-a '', ''0''), (''GPU-b'', ''1'')])) ''0'' = Some ''GPU-a'' \<and>
   indexes_agree (NewEntityCatalog None [(''GPU-a '', ''0''), (''GPU-b'', ''1'')])"
proof -
  have "distinct (map fst (kept [(''GPU-a '', ''0''), (''GPU-b'', ''1'')]))" by code_simp
  then have "indexes_agree (NewEntityCatalog None [(''GPU-a '', ''0''), (''GPU-b'', ''1'')])"
    using entity_catalog_well_formed by blast
  moreover have "map_of (ec_GPUUUIDByIndex (NewEntityCatalog None [(''GPU-a '', ''0''), (''GPU-b'', ''1'')])) ''0'' = Some ''GPU-a''"
    by code_simp
  ultimately show ?thesis by simp
qed

text \<open>
  The catalog does not depend on the order in which Go iterates over the map of DCGM indexes: two
  iterations of one map give catalogs that answer every lookup alike, provided no two entries of the map
  share a UUID or an index up to surrounding space.
\<close>

theorem entity_catalog_order_free:
  assumes "mset dcgm = mset dcgm'" "distinct (map fst (kept dcgm))"
    "distinct (filter (\<lambda>x. x \<noteq> []) (map snd (kept dcgm)))"
  shows "same_catalog (NewEntityCatalog info dcgm) (NewEntityCatalog info dcgm')"
proof -
  have m: "mset (kept dcgm) = mset (kept dcgm')" using assms(1) by (simp add: kept_def)
  have "distinct (map fst (kept dcgm'))" "distinct (filter (\<lambda>x. x \<noteq> []) (map snd (kept dcgm')))"
    using assms(2,3) mset_eq_imp_distinct_iff [of "map fst (kept dcgm)" "map fst (kept dcgm')"]
      mset_eq_imp_distinct_iff [of "filter (\<lambda>x. x \<noteq> []) (map snd (kept dcgm))" "filter (\<lambda>x. x \<noteq> []) (map snd (kept dcgm'))"]
    by (simp_all only: mset_map mset_filter m)
  then have s: "same_catalog (fold add_dcgm dcgm empty_catalog) (fold add_dcgm dcgm' empty_catalog)"
    unfolding fold_add_dcgm using assms(2,3) mset_eq_setD [OF m] by (intro fold_entry_same) assumption+
  then have "same_catalog (fold (add_gpu a b) gs (with_host i (fold add_dcgm dcgm empty_catalog)))
                          (fold (add_gpu a b) gs (with_host i (fold add_dcgm dcgm' empty_catalog)))" for a b gs i
    by (intro fold_add_gpu_same with_host_same)
  with s with_host_same [OF s] show ?thesis
    unfolding NewEntityCatalog_def Let_def by (cases info; cases "mi_GPUInfo (the info)") simp_all
qed

theorem entity_catalog_order_free_witness:
  "same_catalog (NewEntityCatalog None [(''GPU-a'', ''0''), (''GPU-b'', ''1'')])
                (NewEntityCatalog None [(''GPU-b'', ''1''), (''GPU-a'', ''0'')])"
proof (rule entity_catalog_order_free)
  show "mset [(''GPU-a'', ''0''), (''GPU-b'', ''1'')] = mset [(''GPU-b'', ''1''), (''GPU-a'', ''0'')]" by simp
  show "distinct (map fst (kept [(''GPU-a'', ''0''), (''GPU-b'', ''1'')]))" by code_simp
  show "distinct (filter (\<lambda>x. x \<noteq> []) (map snd (kept [(''GPU-a'', ''0''), (''GPU-b'', ''1'')])))" by code_simp
qed

end
