(* ===== verification/Health_Collector.thy ===== *)
theory Health_Collector
  imports Entity_Catalog Otlp Config
begin

text \<open>
  \<open>internal/exporter/collector\<close>: one collection of health data (\<open>collector.go\<close>) and the cache of machine
  information that refreshes in the background (\<open>machine_info_provider.go\<close>).

  The stores and the components of the SDK are arguments: the metrics store a function of the start of the
  interval, a component its name, its events and its last health states.  A Go map is the association list
  of one iteration; \<open>interface{}\<close> values are the datatype \<open>go_any\<close> of the dynamic types the collector puts
  there.  The background refresh is the step relation \<open>provider_step\<close>.
\<close>

section \<open>Data\<close>

record health_metric =
  me_UnixMilliseconds :: int
  me_Component :: string
  me_Name :: string
  me_Type :: string
  me_Value :: go_float
  me_Labels :: "(string \<times> string) list"

record health_event =
  ev_Component :: string
  ev_EventID :: string
  ev_Time :: gotime
  ev_Name :: string
  ev_Type :: string
  ev_Message :: string
  ev_ExtraInfo :: "(string \<times> string) list option"

record incident =
  in_EntityID :: string
  in_Message :: string
  in_Health :: string
  in_Error :: string

record suggested_actions =
  sa_Description :: string
  sa_RepairActions :: "string list"

record health_state =
  hs_Time :: gotime
  hs_Health :: string
  hs_Reason :: string
  hs_Error :: string
  hs_SuggestedActions :: "suggested_actions option"
  hs_ExtraInfo :: "(string \<times> string) list option"
  hs_Incidents :: "incident list"

text \<open>The dynamic types behind \<open>interface{}\<close>; \<open>AEmptyMap\<close> is \<open>map[string]interface{}{}\<close>.\<close>

datatype go_any =
    ANil
  | AString string
  | ATime gotime
  | AMetaTime gotime
  | AEmptyMap
  | AStringMap "(string \<times> string) list"
  | AActions suggested_actions
  | AIncidents "incident list"
  | AIncident incident

type_synonym component_info = "(string \<times> go_any) list"

text \<open>A value of \<open>ComponentData\<close>: a map, or something else.\<close>

datatype component_value = CInfo component_info | COther go_any

record health_data =
  hd_CollectionID :: string
  hd_MachineID :: string
  hd_NodeGroup :: string
  hd_ComputeZone :: string
  hd_Timestamp :: gotime
  hd_MachineInfo :: "machine_info option"
  hd_GPUUUIDToIndex :: "(string \<times> string) list option"
  hd_EntityCatalog :: "entity_catalog option"
  hd_Metrics :: "health_metric list"
  hd_Events :: "health_event list"
  hd_ComponentData :: "(string \<times> component_value) list"

record sdk_component =
  co_Name :: string
  co_Events :: "int \<Rightarrow> (string, health_event list) result"
  co_LastHealthStates :: "health_state list"

record dcgm_device =
  dd_ID :: nat
  dd_UUID :: string

section \<open>The cache of machine information\<close>

definition defaultMachineInfoStaleAfter :: duration where
  "defaultMachineInfoStaleAfter = 5 * time_Minute"

definition initialMachineInfoWait :: duration where
  "initialMachineInfoWait = 5 * time_Second"

record provider =
  pr_staleAfter :: duration
  pr_cached :: "machine_info option"
  pr_lastUpdate :: int
  pr_refreshing :: bool
  pr_initialWaited :: bool
  pr_initialRefreshDone :: bool

text \<open>\<open>lastUpdate\<close> is the instant in nanoseconds, \<open>zero_nanos\<close> for the zero time.\<close>

definition newCachedMachineInfoProvider :: "duration \<Rightarrow> provider" where
  "newCachedMachineInfoProvider staleAfter =
     \<lparr>pr_staleAfter = (if staleAfter \<le> 0 then defaultMachineInfoStaleAfter else staleAfter),
      pr_cached = None, pr_lastUpdate = zero_nanos, pr_refreshing = False, pr_initialWaited = False,
      pr_initialRefreshDone = False\<rparr>"

definition provider_Get :: "provider \<Rightarrow> machine_info option" where
  "provider_Get p = pr_cached p"

definition shouldRefreshLocked :: "int \<Rightarrow> provider \<Rightarrow> bool" where
  "shouldRefreshLocked now p =
     (if pr_cached p = None then True
      else if pr_lastUpdate p = zero_nanos then True
      else now - pr_lastUpdate p \<ge> pr_staleAfter p)"

text \<open>The critical section of \<open>RefreshAsync\<close>: whether a goroutine is started, and the new state.\<close>

definition RefreshAsync :: "int \<Rightarrow> provider \<Rightarrow> bool \<times> provider" where
  "RefreshAsync now p =
     (if pr_refreshing p \<or> \<not> shouldRefreshLocked now p then (False, p)
      else (True, p\<lparr>pr_refreshing := True\<rparr>))"

definition store_info :: "machine_info \<Rightarrow> int \<Rightarrow> provider \<Rightarrow> provider" where
  "store_info i now p = p\<lparr>pr_cached := Some i, pr_lastUpdate := now\<rparr>"

definition clear_refreshing :: "provider \<Rightarrow> provider" where
  "clear_refreshing p = p\<lparr>pr_refreshing := False\<rparr>"

definition markInitialRefreshDone :: "provider \<Rightarrow> provider" where
  "markInitialRefreshDone p = p\<lparr>pr_initialRefreshDone := True\<rparr>"

text \<open>The critical section of \<open>WaitForInitialRefresh\<close>: whether the caller goes on to wait.\<close>

definition WaitForInitialRefresh :: "duration \<Rightarrow> provider \<Rightarrow> bool \<times> provider" where
  "WaitForInitialRefresh maxWait p =
     (if maxWait \<le> 0 then (False, p)
      else if pr_initialWaited p then (False, p)
      else (True, p\<lparr>pr_initialWaited := True\<rparr>))"

text \<open>
  The provider with its goroutines.  A goroutine first collects, then either stores the result or gives
  up, then clears the flag, then closes the channel.  \<open>closes\<close> counts the calls of \<open>close\<close>, which would
  panic the second time; \<open>sync.Once\<close> guards it.
\<close>

datatype refresh_phase = Collecting | Clearing | Marking

record provider_sys =
  ps_provider :: provider
  ps_running :: "refresh_phase list"
  ps_closes :: nat
  ps_waits :: nat

inductive provider_step :: "provider_sys \<Rightarrow> provider_sys \<Rightarrow> bool" where
  refresh_started:
    "RefreshAsync now (ps_provider s) = (True, p) \<Longrightarrow>
     provider_step s (s\<lparr>ps_provider := p, ps_running := Collecting # ps_running s\<rparr>)"
| refresh_skipped:
    "RefreshAsync now (ps_provider s) = (False, p) \<Longrightarrow> provider_step s (s\<lparr>ps_provider := p\<rparr>)"
| info_stored:
    "ps_running s = xs @ Collecting # ys \<Longrightarrow> zero_nanos < now \<Longrightarrow>
     provider_step s (s\<lparr>ps_provider := store_info i now (ps_provider s), ps_running := xs @ Clearing # ys\<rparr>)"
| info_failed:
    "ps_running s = xs @ Collecting # ys \<Longrightarrow> provider_step s (s\<lparr>ps_running := xs @ Clearing # ys\<rparr>)"
| flag_cleared:
    "ps_running s = xs @ Clearing # ys \<Longrightarrow>
     provider_step s (s\<lparr>ps_provider := clear_refreshing (ps_provider s), ps_running := xs @ Marking # ys\<rparr>)"
| done_marked:
    "ps_running s = xs @ Marking # ys \<Longrightarrow>
     provider_step s (s\<lparr>ps_provider := markInitialRefreshDone (ps_provider s), ps_running := xs @ ys,
       ps_closes := (if pr_initialRefreshDone (ps_provider s) then ps_closes s else Suc (ps_closes s))\<rparr>)"
| waited:
    "WaitForInitialRefresh d (ps_provider s) = (w, p) \<Longrightarrow>
     provider_step s (s\<lparr>ps_provider := p, ps_waits := (if w then Suc (ps_waits s) else ps_waits s)\<rparr>)"

definition provider_init :: "duration \<Rightarrow> provider_sys" where
  "provider_init d = \<lparr>ps_provider = newCachedMachineInfoProvider d, ps_running = [], ps_closes = 0, ps_waits = 0\<rparr>"

inductive_cases provider_stepE: "provider_step s s'"

section \<open>One collection\<close>

definition currentDCGMGPUIndexes :: "dcgm_device list option \<Rightarrow> (string \<times> string) list" where
  "currentDCGMGPUIndexes inst = (case inst of
      None \<Rightarrow> []
    | Some devices \<Rightarrow> fold (\<lambda>d m. if dd_UUID d \<noteq> [] then put (dd_UUID d) (FormatNat (dd_ID d)) m else m) devices [])"

definition cloneStringMap :: "(string \<times> string) list \<Rightarrow> (string \<times> string) list option" where
  "cloneStringMap m = (if m = [] then None else Some m)"

text \<open>
  What the collector reads.  \<open>ci_during\<close> is what the goroutines do to the provider between its two calls of
  \<open>Get\<close>, the wait for the first refresh included; \<open>ci_fresh\<close> the identifiers \<open>GenerateEventID\<close> draws.
\<close>

record collector_in =
  ci_config :: health_exporter_config
  ci_machineID :: string
  ci_dcgm :: "dcgm_device list option"
  ci_metricsStore :: "(int \<Rightarrow> (string, health_metric list) result) option"
  ci_eventStore :: bool
  ci_registry :: "sdk_component list option"
  ci_collectionID :: string
  ci_now :: gotime
  ci_during :: "provider \<Rightarrow> provider"
  ci_fresh :: "nat \<Rightarrow> string"

definition needsIdentity :: "health_exporter_config \<Rightarrow> bool" where
  "needsIdentity cfg = (he_IncludeMachineInfo cfg \<or> he_IncludeMetrics cfg \<or> he_IncludeEvents cfg \<or> he_IncludeComponentData cfg)"

text \<open>\<open>New\<close>: the provider, whose first refresh is started at once.\<close>

definition collector_New :: "int \<Rightarrow> health_exporter_config option \<Rightarrow> dcgm_device list option \<Rightarrow> provider option" where
  "collector_New now cfg dcgm = (case cfg of
      None \<Rightarrow> None
    | Some c \<Rightarrow> if needsIdentity c \<and> dcgm \<noteq> None then Some (snd (RefreshAsync now (newCachedMachineInfoProvider 0))) else None)"

definition collectMachineInfo :: "collector_in \<Rightarrow> provider \<Rightarrow> health_data \<Rightarrow> health_data \<times> provider" where
  "collectMachineInfo C p d =
     (let p1 = (if provider_Get p = None then snd (WaitForInitialRefresh initialMachineInfoWait p) else p);
          p2 = ci_during C p1;
          d1 = (case provider_Get p2 of None \<Rightarrow> d | Some i \<Rightarrow> d\<lparr>hd_MachineInfo := Some i\<rparr>)
      in (d1, snd (RefreshAsync (t_nanos (ci_now C)) p2)))"

definition collectMetrics :: "collector_in \<Rightarrow> health_data \<Rightarrow> (string, health_data) result" where
  "collectMetrics C d = (case ci_metricsStore C of
      None \<Rightarrow> Error ''metrics store not available''
    | Some read \<Rightarrow> (case read (t_nanos (ci_now C) - he_MetricsLookback (ci_config C)) of
        Inl e \<Rightarrow> Error (''failed to read metrics: '' @ e)
      | Inr ms \<Rightarrow> Ok (d\<lparr>hd_Metrics := ms\<rparr>)))"

text \<open>The inner loop: \<open>k\<close> identifiers have been drawn.\<close>

fun component_events :: "(nat \<Rightarrow> string) \<Rightarrow> string \<Rightarrow> nat \<Rightarrow> health_event list \<Rightarrow> health_event list \<times> nat" where
  "component_events fresh cname k [] = ([], k)"
| "component_events fresh cname k (e # es) =
     (let name = (if ev_Component e = [] then cname else ev_Component e);
          (eid, k1) = (if ev_EventID e = [] then (fresh k, Suc k) else (ev_EventID e, k));
          (rest, k2) = component_events fresh cname k1 es
      in (\<lparr>ev_Component = name, ev_EventID = eid, ev_Time = ev_Time e, ev_Name = ev_Name e, ev_Type = ev_Type e,
           ev_Message = ev_Message e, ev_ExtraInfo = ev_ExtraInfo e\<rparr> # rest, k2))"

fun all_events :: "(nat \<Rightarrow> string) \<Rightarrow> int \<Rightarrow> nat \<Rightarrow> sdk_component list \<Rightarrow> health_event list" where
  "all_events fresh since k [] = []"
| "all_events fresh since k (c # cs) = (case co_Events c since of
      Inl e \<Rightarrow> all_events fresh since k cs
    | Inr es \<Rightarrow> (let (xs, k1) = component_events fresh (co_Name c) k es in xs @ all_events fresh since k1 cs))"

definition collectEvents :: "collector_in \<Rightarrow> health_data \<Rightarrow> (string, health_data) result" where
  "collectEvents C d = (case (ci_eventStore C, ci_registry C) of
      (True, Some components) \<Rightarrow>
        if length components = 0 then Error ''no components found''
        else Ok (d\<lparr>hd_Events := all_events (ci_fresh C) (t_nanos (ci_now C) - he_EventsLookback (ci_config C)) 0 components\<rparr>)
    | _ \<Rightarrow> Error ''event store or components registry not available'')"

definition state_info :: "string \<Rightarrow> health_state list \<Rightarrow> component_info" where
  "state_info componentName states = (case states of
      [] \<Rightarrow> [(''component_name'', AString componentName), (''health'', AString ''Unknown''),
             (''reason'', AString ''No health data''), (''error'', AString []), (''time'', ANil),
             (''extra_info'', AEmptyMap), (''suggested_actions'', ANil), (''incidents'', AIncidents [])]
    | s # _ \<Rightarrow>
        [(''component_name'', AString componentName), (''health'', AString (hs_Health s)),
         (''reason'', AString (hs_Reason s)), (''error'', AString (hs_Error s)), (''time'', AMetaTime (hs_Time s)),
         (''extra_info'', case hs_ExtraInfo s of Some m \<Rightarrow> if length m > 0 then AStringMap m else AEmptyMap | None \<Rightarrow> AEmptyMap),
         (''suggested_actions'', case hs_SuggestedActions s of Some a \<Rightarrow> AActions a | None \<Rightarrow> ANil),
         (''incidents'', if length (hs_Incidents s) > 0 then AIncidents (hs_Incidents s) else AIncidents [])])"

definition collectComponentData :: "collector_in \<Rightarrow> health_data \<Rightarrow> (string, health_data) result" where
  "collectComponentData C d = (case ci_registry C of
      None \<Rightarrow> Error ''components registry not available''
    | Some components \<Rightarrow>
        Ok (d\<lparr>hd_ComponentData :=
          fold (\<lambda>c m. put (co_Name c) (CInfo (state_info (co_Name c) (co_LastHealthStates c))) m) components []\<rparr>))"

text \<open>A section that fails is logged and left empty.\<close>

definition try_section :: "bool \<Rightarrow> (health_data \<Rightarrow> (string, health_data) result) \<Rightarrow> health_data \<Rightarrow> health_data" where
  "try_section enabled f d = (if enabled then (case f d of Inl _ \<Rightarrow> d | Inr d' \<Rightarrow> d') else d)"

definition identity_section :: "collector_in \<Rightarrow> provider option \<Rightarrow> health_data \<Rightarrow> health_data \<times> provider option" where
  "identity_section C prov d = (case prov of
      None \<Rightarrow> (d, None)
    | Some p \<Rightarrow>
        (let (d1, p1) = collectMachineInfo C p d;
             d2 = d1\<lparr>hd_EntityCatalog := Some (NewEntityCatalog (hd_MachineInfo d1) (currentDCGMGPUIndexes (ci_dcgm C)))\<rparr>
         in (if \<not> he_IncludeMachineInfo (ci_config C) then d2\<lparr>hd_MachineInfo := None\<rparr> else d2, Some p1)))"

definition empty_data :: "collector_in \<Rightarrow> health_data" where
  "empty_data C =
     (let dcgmGPUIndexes = currentDCGMGPUIndexes (ci_dcgm C) in
      \<lparr>hd_CollectionID = ci_collectionID C, hd_MachineID = ci_machineID C, hd_NodeGroup = [], hd_ComputeZone = [],
       hd_Timestamp = to_utc (ci_now C), hd_MachineInfo = None,
       hd_GPUUUIDToIndex = cloneStringMap dcgmGPUIndexes,
       hd_EntityCatalog = Some (NewEntityCatalog None dcgmGPUIndexes),
       hd_Metrics = [], hd_Events = [], hd_ComponentData = []\<rparr>)"

definition Collect_health :: "collector_in \<Rightarrow> provider option \<Rightarrow> (string, health_data) result \<times> provider option" where
  "Collect_health C prov =
     (if ci_machineID C = [] then (Error ''machine ID not initialized - collector must be created with a valid machine ID'', prov)
      else
        let (d1, prov1) = identity_section C prov (empty_data C);
            d2 = try_section (he_IncludeMetrics (ci_config C)) (collectMetrics C) d1;
            d3 = try_section (he_IncludeEvents (ci_config C)) (collectEvents C) d2;
            d4 = try_section (he_IncludeComponentData (ci_config C)) (collectComponentData C) d3
        in (Ok d4, prov1))"

section \<open>The refresh in the background\<close>

definition provider_inv :: "provider_sys \<Rightarrow> bool" where
  "provider_inv s \<longleftrightarrow>
     length (filter (\<lambda>x. x \<noteq> Marking) (ps_running s)) = (if pr_refreshing (ps_provider s) then 1 else 0) \<and>
     (pr_cached (ps_provider s) \<noteq> None \<longrightarrow> zero_nanos < pr_lastUpdate (ps_provider s)) \<and>
     ps_closes s = (if pr_initialRefreshDone (ps_provider s) then 1 else 0) \<and>
     ps_waits s = (if pr_initialWaited (ps_provider s) then 1 else 0) \<and>
     0 < pr_staleAfter (ps_provider s)"

lemmas provider_op_defs =
  RefreshAsync_def WaitForInitialRefresh_def store_info_def clear_refreshing_def markInitialRefreshDone_def

lemma provider_init_inv: "provider_inv (provider_init d)"
  by (simp add: provider_inv_def provider_init_def newCachedMachineInfoProvider_def defaultMachineInfoStaleAfter_def duration_defs)

lemma provider_step_inv: "provider_step s s' \<Longrightarrow> provider_inv s \<Longrightarrow> provider_inv s'"
  by (induction rule: provider_step.induct) (auto simp: provider_inv_def provider_op_defs split: if_splits)

text \<open>What later states keep of earlier ones.\<close>

lemma provider_step_mono:
  "provider_step s s' \<Longrightarrow>
     (pr_cached (ps_provider s) \<noteq> None \<longrightarrow> pr_cached (ps_provider s') \<noteq> None) \<and>
     (pr_initialRefreshDone (ps_provider s) \<longrightarrow> pr_initialRefreshDone (ps_provider s'))"
  by (induction rule: provider_step.induct) (auto simp: provider_op_defs split: if_splits)

interpretation info: invariant_system provider_step "\<lambda>s. \<exists>d. s = provider_init d" provider_inv
  by unfold_locales (auto simp: provider_init_inv provider_step_inv)

lemma provider_reachable_inv: "rtranclp provider_step (provider_init d) s \<Longrightarrow> provider_inv s"
  by (erule info.reachable_invariant) blast

lemma provider_reachable_mono:
  "rtranclp provider_step s s' \<Longrightarrow> provider_Get (ps_provider s) \<noteq> None \<Longrightarrow> provider_Get (ps_provider s') \<noteq> None"
  by (induction rule: rtranclp_induct) (use provider_step_mono in \<open>auto simp: provider_Get_def\<close>)

section \<open>Sections of a collection\<close>

definition metrics_of :: "collector_in \<Rightarrow> health_metric list" where
  "metrics_of C = (if he_IncludeMetrics (ci_config C) then
      (case ci_metricsStore C of
         Some read \<Rightarrow> (case read (t_nanos (ci_now C) - he_MetricsLookback (ci_config C)) of Inr ms \<Rightarrow> ms | Inl _ \<Rightarrow> [])
       | None \<Rightarrow> []) else [])"

definition events_of :: "collector_in \<Rightarrow> health_event list" where
  "events_of C = (if he_IncludeEvents (ci_config C) \<and> ci_eventStore C then
      (case ci_registry C of
         Some cs \<Rightarrow> all_events (ci_fresh C) (t_nanos (ci_now C) - he_EventsLookback (ci_config C)) 0 cs
       | None \<Rightarrow> []) else [])"

definition components_of :: "collector_in \<Rightarrow> sdk_component list" where
  "components_of C = (if he_IncludeComponentData (ci_config C) then
      (case ci_registry C of Some cs \<Rightarrow> cs | None \<Rightarrow> []) else [])"

lemma metrics_section:
  "hd_Metrics d = [] \<Longrightarrow> try_section (he_IncludeMetrics (ci_config C)) (collectMetrics C) d = d\<lparr>hd_Metrics := metrics_of C\<rparr>"
  by (cases d) (auto simp: try_section_def metrics_of_def collectMetrics_def split: option.split sum.split)

lemma events_section:
  "hd_Events d = [] \<Longrightarrow> try_section (he_IncludeEvents (ci_config C)) (collectEvents C) d = d\<lparr>hd_Events := events_of C\<rparr>"
  by (cases d) (auto simp: try_section_def events_of_def collectEvents_def split: option.split bool.split)

lemma put_all_keys: "fst ` set (fold (\<lambda>c. put (f c) (g c)) cs m) = f ` set cs \<union> fst ` set m"
  by (induction cs arbitrary: m) (auto simp: set_put_keys)

lemma components_section:
  assumes "hd_ComponentData d = []"
  shows "\<exists>m. try_section (he_IncludeComponentData (ci_config C)) (collectComponentData C) d = d\<lparr>hd_ComponentData := m\<rparr>
           \<and> fst ` set m = co_Name ` set (components_of C)"
proof (cases "he_IncludeComponentData (ci_config C) \<and> ci_registry C \<noteq> None")
  case True
  then obtain cs where cs: "ci_registry C = Some cs" "he_IncludeComponentData (ci_config C)" by blast
  let ?m = "fold (\<lambda>c. put (co_Name c) (CInfo (state_info (co_Name c) (co_LastHealthStates c)))) cs []"
  have "fst ` set ?m = co_Name ` set cs" by (simp add: put_all_keys)
  then show ?thesis
    by (intro exI [of _ ?m]) (simp add: cs try_section_def collectComponentData_def components_of_def)
next
  case False
  then have "try_section (he_IncludeComponentData (ci_config C)) (collectComponentData C) d = d\<lparr>hd_ComponentData := []\<rparr>"
    using assms by (cases d) (auto simp: try_section_def collectComponentData_def split: option.split)
  moreover have "components_of C = []" using False by (auto simp: components_of_def)
  ultimately show ?thesis by (intro exI [of _ "[]"]) simp
qed

text \<open>What the identity section may change.\<close>

lemma identity_section_frame:
  assumes "identity_section C prov d = (d', prov')" "hd_MachineInfo d = None" "hd_EntityCatalog d = Some c" "catalog_ok c"
  shows "\<exists>mi c'. d' = d\<lparr>hd_MachineInfo := mi, hd_EntityCatalog := Some c'\<rparr> \<and> catalog_ok c'
           \<and> (\<not> he_IncludeMachineInfo (ci_config C) \<longrightarrow> mi = None) \<and> (prov = None \<longleftrightarrow> prov' = None)"
proof (cases prov)
  case None
  then have "d' = d\<lparr>hd_MachineInfo := None, hd_EntityCatalog := Some c\<rparr>" using assms by (cases d) (simp add: identity_section_def)
  then show ?thesis using assms None by (auto simp: identity_section_def)
next
  case (Some p)
  obtain e p1 where e: "collectMachineInfo C p d = (e, p1)" by (metis prod.exhaust)
  then obtain mi where "e = d\<lparr>hd_MachineInfo := mi\<rparr>"
    using assms(2) by (cases d) (auto simp: collectMachineInfo_def Let_def split: option.splits)
  with assms(1) e Some show ?thesis
    by (cases d) (auto simp: identity_section_def Let_def NewEntityCatalog_ok split: if_splits)
qed

section \<open>Properties\<close>

text \<open>
  In every interleaving of exports, refreshes and waits at most one goroutine collects machine
  information, the channel of the first refresh is closed at most once (a second close would panic), the
  export waits for the first refresh at most once, and once machine information is cached every later
  \<open>Get\<close> finds some.
\<close>

theorem machine_info_refresh_exclusive:
  assumes "rtranclp provider_step (provider_init staleAfter) s"
  shows "length (filter (\<lambda>x. x = Collecting) (ps_running s)) \<le> 1 \<and> ps_closes s \<le> 1 \<and> ps_waits s \<le> 1 \<and>
    (\<forall>s'. rtranclp provider_step s s' \<longrightarrow> provider_Get (ps_provider s) \<noteq> None \<longrightarrow> provider_Get (ps_provider s') \<noteq> None)"
proof -
  have inv: "provider_inv s" by (rule provider_reachable_inv [OF assms])
  have "length (filter (\<lambda>x. x = Collecting) xs) \<le> length (filter (\<lambda>x. x \<noteq> Marking) xs)" for xs
    by (induction xs) auto
  from this [of "ps_running s"] inv have "length (filter (\<lambda>x. x = Collecting) (ps_running s)) \<le> 1"
    by (auto simp: provider_inv_def split: if_splits)
  moreover have "ps_closes s \<le> 1" "ps_waits s \<le> 1" using inv by (auto simp: provider_inv_def)
  ultimately show ?thesis using provider_reachable_mono by blast
qed

theorem machine_info_refresh_exclusive_witness:
  "\<exists>s. rtranclp provider_step (provider_init 0) s \<and> length (ps_running s) = 1 \<and>
     length (filter (\<lambda>x. x = Collecting) (ps_running s)) \<le> 1"
proof -
  let ?s = "(provider_init 0)\<lparr>ps_provider := (ps_provider (provider_init 0))\<lparr>pr_refreshing := True\<rparr>, ps_running := [Collecting]\<rparr>"
  have "provider_step (provider_init 0) ?s"
    using refresh_started [of 0 "provider_init 0"]
    by (simp add: RefreshAsync_def provider_init_def newCachedMachineInfoProvider_def shouldRefreshLocked_def)
  then have r: "rtranclp provider_step (provider_init 0) ?s" by blast
  from machine_info_refresh_exclusive [OF r, THEN conjunct1] r show ?thesis by (intro exI [of _ ?s]) simp
qed

lemma Collect_health_sections:
  assumes "ci_machineID C \<noteq> []"
  shows "\<exists>d prov'. Collect_health C prov = (Inr d, prov') \<and>
     hd_MachineID d = ci_machineID C \<and> hd_Metrics d = metrics_of C \<and> hd_Events d = events_of C \<and>
     fst ` set (hd_ComponentData d) = co_Name ` set (components_of C) \<and>
     (\<exists>c. hd_EntityCatalog d = Some c \<and> catalog_ok c) \<and>
     (\<not> he_IncludeMachineInfo (ci_config C) \<longrightarrow> hd_MachineInfo d = None)"
proof -
  obtain d1 p1 where i: "identity_section C prov (empty_data C) = (d1, p1)" by (metis prod.exhaust)
  have ini: "hd_MachineInfo (empty_data C) = None" "hd_Metrics (empty_data C) = []" "hd_Events (empty_data C) = []"
    "hd_ComponentData (empty_data C) = []" "hd_MachineID (empty_data C) = ci_machineID C"
    "hd_EntityCatalog (empty_data C) = Some (NewEntityCatalog None (currentDCGMGPUIndexes (ci_dcgm C)))"
    by (simp_all add: empty_data_def Let_def)
  obtain mi c where d1: "d1 = (empty_data C)\<lparr>hd_MachineInfo := mi, hd_EntityCatalog := Some c\<rparr>" "catalog_ok c"
    "\<not> he_IncludeMachineInfo (ci_config C) \<longrightarrow> mi = None"
    using identity_section_frame [OF i ini(1,6) NewEntityCatalog_ok] by blast
  let ?d3 = "d1\<lparr>hd_Metrics := metrics_of C, hd_Events := events_of C\<rparr>"
  obtain m where m: "try_section (he_IncludeComponentData (ci_config C)) (collectComponentData C) ?d3 = ?d3\<lparr>hd_ComponentData := m\<rparr>"
    "fst ` set m = co_Name ` set (components_of C)"
    using components_section [of ?d3 C] by (auto simp: d1 ini)
  have "try_section (he_IncludeMetrics (ci_config C)) (collectMetrics C) d1 = d1\<lparr>hd_Metrics := metrics_of C\<rparr>"
    by (rule metrics_section) (simp add: d1 ini)
  moreover have "try_section (he_IncludeEvents (ci_config C)) (collectEvents C) (d1\<lparr>hd_Metrics := metrics_of C\<rparr>) = ?d3"
    by (subst events_section) (simp_all add: d1 ini)
  ultimately have "Collect_health C prov = (Inr (?d3\<lparr>hd_ComponentData := m\<rparr>), p1)"
    using assms m(1) by (simp add: Collect_health_def i)
  then show ?thesis using m(2) d1 by (simp add: ini)
qed

text \<open>
  A collection with a machine ID always returns data, whatever stores and components fail.  The data
  carry exactly the metrics the store returned for the look-back interval, the events of the components that
  answered, one entry per component, and a well-formed catalog; a section that is switched off or fails is
  empty, and machine information leaves the collector only when it is included.
\<close>

theorem collection_complete_and_opt_in:
  assumes "ci_machineID C \<noteq> []"
  shows "\<exists>d prov'. Collect_health C prov = (Inr d, prov') \<and>
     hd_MachineID d = ci_machineID C \<and> hd_Metrics d = metrics_of C \<and> hd_Events d = events_of C \<and>
     fst ` set (hd_ComponentData d) = co_Name ` set (components_of C) \<and>
     (\<exists>c. hd_EntityCatalog d = Some c \<and> catalog_ok c) \<and>
     (\<not> he_IncludeMachineInfo (ci_config C) \<longrightarrow> hd_MachineInfo d = None)"
  using assms by (rule Collect_health_sections)

definition sample_exporter_config :: health_exporter_config where
  "sample_exporter_config = \<lparr>he_DCGMExtendedInterval = 0, he_DCGMFieldProfiles = [], he_MetricsEndpoint = [],
     he_LogsEndpoint = [], he_AuthToken = [], he_Interval = time_Minute, he_Timeout = time_Second,
     he_IncludeMetrics = True, he_IncludeEvents = True, he_IncludeMachineInfo = False, he_IncludeComponentData = True,
     he_MetricsLookback = time_Minute, he_EventsLookback = time_Minute, he_HealthCheckInterval = time_Minute,
     he_DCGMHealthCheckInterval = time_Minute, he_RetryMaxAttempts = 3, he_CollectorEndpoint = [],
     he_OfflineMode = False, he_OutputPath = [], he_OutputFormat = [], he_Duration = 0\<rparr>"

definition sample_collector :: collector_in where
  "sample_collector = \<lparr>ci_config = sample_exporter_config, ci_machineID = ''m-1'', ci_dcgm = None,
     ci_metricsStore = Some (\<lambda>since. Inl ''closed''), ci_eventStore = True,
     ci_registry = Some [\<lparr>co_Name = ''cpu'', co_Events = (\<lambda>since. Inl ''busy''), co_LastHealthStates = []\<rparr>],
     ci_collectionID = ''c'', ci_now = \<lparr>t_nanos = 10 ^ 18, t_utc = True\<rparr>, ci_during = (\<lambda>p. p), ci_fresh = (\<lambda>k. ''id'')\<rparr>"

theorem collection_complete_and_opt_in_witness:
  "\<exists>d prov'. Collect_health sample_collector None = (Inr d, prov') \<and> hd_Metrics d = [] \<and>
     fst ` set (hd_ComponentData d) = {''cpu''}"
proof -
  have m: "ci_machineID sample_collector \<noteq> []" by (simp add: sample_collector_def)
  have e: "metrics_of sample_collector = []" by (simp add: sample_collector_def metrics_of_def)
  have c: "co_Name ` set (components_of sample_collector) = {''cpu''}"
    by (simp add: sample_collector_def sample_exporter_config_def components_of_def)
  obtain d prov' where "Collect_health sample_collector None = (Inr d, prov')" "hd_Metrics d = metrics_of sample_collector"
    "fst ` set (hd_ComponentData d) = co_Name ` set (components_of sample_collector)"
    using collection_complete_and_opt_in [OF m, of None] by (elim exE conjE) rule
  then show ?thesis unfolding e c by (intro exI conjI)
qed

end
