(* ===== verification/Otlp_Converter.thy ===== *)
theory Otlp_Converter
  imports Health_Collector Outbound_Validation
begin

text \<open>
  \<open>internal/exporter/converter/otlp.go\<close>: health data to OTLP metrics and logs.  The JSON codec, \<open>fmt\<close>'s
  \<open>%v\<close> on values that are not strings, the two sources of the host name and the start of the process are
  fields of \<open>conv_env\<close>.

  The lemmas show that enriching labels never overwrites what a component emitted and is idempotent, that
  the payload does not depend on the order of Go's map iterations, and which payloads the outbound validator
  accepts.
\<close>

section \<open>Environment\<close>

text \<open>What \<open>json.Unmarshal\<close> puts into an \<open>any\<close>.\<close>

datatype json =
    JNull
  | JBool bool
  | JNumber go_float
  | JString string
  | JArray "json list"
  | JObject "(string \<times> json) list"

record conv_env =
  cv_HOSTNAME :: string
  cv_osHostname :: "(string, string) result"
  cv_agentStartTime :: gotime
  cv_json_gpus :: "machine_gpu list \<Rightarrow> string option"
  cv_json_any :: "go_any \<Rightarrow> string option"
  cv_format_any :: "go_any \<Rightarrow> string"
  cv_unmarshal :: "string \<Rightarrow> json option"

text \<open>\<open>fmt.Sprintf("%v", v)\<close>.\<close>

definition sprint_v :: "conv_env \<Rightarrow> go_any \<Rightarrow> string" where
  "sprint_v E v = (case v of ANil \<Rightarrow> ''<nil>'' | AString s \<Rightarrow> s | _ \<Rightarrow> cv_format_any E v)"

text \<open>Reading a Go map at a missing key gives the zero value.\<close>

definition label :: "(string \<times> string) list \<Rightarrow> string \<Rightarrow> string" where
  "label m k = (case map_of m k of Some v \<Rightarrow> v | None \<Rightarrow> [])"

definition info_at :: "component_info \<Rightarrow> string \<Rightarrow> go_any" where
  "info_at m k = (case map_of m k of Some v \<Rightarrow> v | None \<Rightarrow> ANil)"

text \<open>\<open>slices.Sorted(maps.Keys(m))\<close>.\<close>

definition sorted_keys :: "(string \<times> 'v) list \<Rightarrow> string list" where
  "sorted_keys m = sort_Strings (map fst m)"

definition stringAnyValue :: "string \<Rightarrow> any_value" where
  "stringAnyValue v = StringValue v"

definition unix_nano :: "gotime \<Rightarrow> 64 word" where
  "unix_nano t = word_of_int (t_nanos t)"

text \<open>\<open>t.Sub(u)\<close>: saturates at the largest duration (the result is used only when it is not negative).\<close>

definition time_sub :: "gotime \<Rightarrow> gotime \<Rightarrow> duration" where
  "time_sub t u = min (2 ^ 63 - 1) (max (- (2 ^ 63)) (t_nanos t - t_nanos u))"

section \<open>Resource\<close>

definition resolveOTLPHostname :: "conv_env \<Rightarrow> string" where
  "resolveOTLPHostname E =
     (if TrimSpace (cv_HOSTNAME E) \<noteq> [] then TrimSpace (cv_HOSTNAME E)
      else case cv_osHostname E of Inl _ \<Rightarrow> [] | Inr h \<Rightarrow> TrimSpace h)"

definition gpus_attribute :: "conv_env \<Rightarrow> health_data \<Rightarrow> attributes" where
  "gpus_attribute E d = (case hd_MachineInfo d of
      None \<Rightarrow> []
    | Some mi \<Rightarrow> (case mi_GPUInfo mi of
        None \<Rightarrow> []
      | Some gi \<Rightarrow>
          if length (mgi_GPUs gi) > 0 then
            (case cv_json_gpus E (mgi_GPUs gi) of None \<Rightarrow> [] | Some gpus \<Rightarrow> [(''gpuInfo.gpus'', StringValue gpus)])
          else []))"

definition createOTLPResource :: "conv_env \<Rightarrow> health_data \<Rightarrow> attributes" where
  "createOTLPResource E d =
     [(''service.name'', StringValue ''fleet-intelligence-agent''), (''machine.id'', StringValue (hd_MachineID d))] @
     (if resolveOTLPHostname E \<noteq> [] then [(''host.name'', stringAnyValue (resolveOTLPHostname E))] else []) @
     (if hd_NodeGroup d \<noteq> [] then [(''node_group'', StringValue (hd_NodeGroup d))] else []) @
     (if hd_ComputeZone d \<noteq> [] then [(''compute_zone'', StringValue (hd_ComputeZone d))] else []) @
     gpus_attribute E d"

section \<open>Labels\<close>

definition addLabelIfMissing :: "string \<Rightarrow> string \<Rightarrow> (string \<times> string) list \<Rightarrow> (string \<times> string) list" where
  "addLabelIfMissing key v labels =
     (if label labels key = [] \<and> TrimSpace v \<noteq> [] then put key (TrimSpace v) labels else labels)"

definition newIdentityContext :: "health_data \<Rightarrow> entity_catalog option" where
  "newIdentityContext d = (case hd_EntityCatalog d of
      Some c \<Rightarrow> Some c
    | None \<Rightarrow> (case hd_MachineInfo d of
        None \<Rightarrow> None
      | Some mi \<Rightarrow> Some (NewEntityCatalog (Some mi) (case hd_GPUUUIDToIndex d of None \<Rightarrow> [] | Some m \<Rightarrow> m))))"

definition clean_labels :: "(string \<times> string) list \<Rightarrow> (string \<times> string) list" where
  "clean_labels labels = fold (\<lambda>(key, v) m. if TrimSpace v \<noteq> [] then put key (TrimSpace v) m else m) labels []"

text \<open>The labels of a known GPU, in the order they are added.\<close>

definition identity_labels :: "bool \<Rightarrow> gpu_identity \<Rightarrow> (string \<times> string) list" where
  "identity_labels isGPUParentNVLink g =
     [(if isGPUParentNVLink then ''gpu_uuid'' else ''uuid'', gi_UUID g), (''gpu'', gi_GPU g),
      (''pci_bus_id'', gi_PCIBusID g), (''device'', gi_Device g), (''model_name'', gi_ModelName g),
      (''gpu_serial'', gi_GPUSerial g), (''cluster_uuid'', gi_ClusterUUID g), (''clique_id'', gi_CliqueID g)]"

definition label_uuid :: "entity_catalog \<Rightarrow> (string \<times> string) list \<Rightarrow> string" where
  "label_uuid c enriched =
     (let uuid = (if label enriched ''gpu_uuid'' \<noteq> [] then label enriched ''gpu_uuid'' else label enriched ''uuid'') in
      if uuid = [] \<and> label enriched ''gpu'' \<noteq> []
      then (case map_of (ec_GPUUUIDByIndex c) (label enriched ''gpu'') of Some u \<Rightarrow> u | None \<Rightarrow> [])
      else uuid)"

definition enrichLabels :: "entity_catalog option \<Rightarrow> (string \<times> string) list \<Rightarrow> (string \<times> string) list" where
  "enrichLabels catalog labels =
     (let enriched0 = clean_labels labels;
          enriched = (if label enriched0 ''cpu_id'' \<noteq> []
                      then addLabelIfMissing ''cpu'' (label enriched0 ''cpu_id'') enriched0 else enriched0)
      in case catalog of
           None \<Rightarrow> enriched
         | Some c \<Rightarrow>
             (let uuid = label_uuid c enriched in
              if uuid = [] then enriched
              else case map_of (ec_GPUsByUUID c) uuid of
                None \<Rightarrow> enriched
              | Some g \<Rightarrow> fold (\<lambda>(k, v). addLabelIfMissing k v) (identity_labels (label enriched ''gpu_uuid'' \<noteq> []) g) enriched))"

definition labelsToOTLPAttributes :: "(string \<times> string) list \<Rightarrow> attributes" where
  "labelsToOTLPAttributes labels = map (\<lambda>key. (key, stringAnyValue (label labels key))) (sorted_keys labels)"

definition convertLabelsToOTLPAttributes :: "(string \<times> string) list \<Rightarrow> entity_catalog option \<Rightarrow> attributes" where
  "convertLabelsToOTLPAttributes labels identity =
     (let enriched = enrichLabels identity labels in
      map (\<lambda>key. (key, stringAnyValue (label enriched key))) (sorted_keys enriched))"

section \<open>Metrics\<close>

definition gaugeDataPoint :: "gotime \<Rightarrow> go_float \<Rightarrow> (string \<times> string) list \<Rightarrow> number_data_point" where
  "gaugeDataPoint timestamp v labels =
     \<lparr>dp_TimeUnixNano = unix_nano timestamp, dp_Value = AsDouble v, dp_Attributes = labelsToOTLPAttributes labels\<rparr>"

definition gaugeMetric :: "string \<Rightarrow> string \<Rightarrow> string \<Rightarrow> gotime \<Rightarrow> go_float \<Rightarrow> (string \<times> string) list \<Rightarrow> otlp_metric" where
  "gaugeMetric name description unit timestamp v labels =
     \<lparr>om_Name = name, om_Description = description, om_Unit = unit,
      om_Data = GaugeData [gaugeDataPoint timestamp v labels]\<rparr>"

definition MetricTypeCounter :: string where "MetricTypeCounter = ''counter''"

definition convertMetricToOTLP :: "entity_catalog option \<Rightarrow> health_metric \<Rightarrow> otlp_metric" where
  "convertMetricToOTLP identity m =
     (let dataPoint = \<lparr>dp_TimeUnixNano = word_of_int (me_UnixMilliseconds m) * 1000000, dp_Value = AsDouble (me_Value m),
                       dp_Attributes = labelsToOTLPAttributes (enrichLabels identity (me_Labels m))\<rparr>
      in \<lparr>om_Name = me_Name m, om_Description = ''Metric from component '' @ me_Component m, om_Unit = [],
          om_Data = (if me_Type m = MetricTypeCounter then SumData Cumulative True [dataPoint] else GaugeData [dataPoint])\<rparr>)"

definition software_labels :: "entity_catalog \<Rightarrow> (string \<times> string) list" where
  "software_labels c =
     addLabelIfMissing ''kernel_version'' (ec_KernelVersion c)
       (addLabelIfMissing ''cuda_driver_version'' (ec_CUDADriverVersion c)
         (addLabelIfMissing ''gpu_driver_version'' (ec_GPUDriverVersion c) []))"

definition firmware_labels :: "gpu_identity \<Rightarrow> (string \<times> string) list" where
  "firmware_labels g =
     addLabelIfMissing ''gpu_architecture'' (gi_Architecture g)
       (addLabelIfMissing ''vbios_version'' (gi_VBIOSVersion g)
         (addLabelIfMissing ''gpu_serial'' (gi_GPUSerial g)
           (addLabelIfMissing ''uuid'' (gi_UUID g)
             (addLabelIfMissing ''gpu'' (gi_GPU g) []))))"

definition one_float :: go_float where "one_float = FNum 1 0"

definition identity_at :: "entity_catalog \<Rightarrow> string \<Rightarrow> gpu_identity" where
  "identity_at c uuid = (case map_of (ec_GPUsByUUID c) uuid of Some g \<Rightarrow> g | None \<Rightarrow> no_identity)"

definition inventoryMetrics :: "health_data \<Rightarrow> entity_catalog option \<Rightarrow> otlp_metric list" where
  "inventoryMetrics d catalog = (case catalog of
      None \<Rightarrow> []
    | Some c \<Rightarrow>
        (let softwareLabels = software_labels c;
             firmwarePoints = map (\<lambda>uuid. gaugeDataPoint (hd_Timestamp d) one_float (firmware_labels (identity_at c uuid)))
               (filter (\<lambda>uuid. \<not> (gi_GPUSerial (identity_at c uuid) = [] \<and> gi_VBIOSVersion (identity_at c uuid) = []
                                  \<and> gi_Architecture (identity_at c uuid) = []))
                 (sorted_keys (ec_GPUsByUUID c)))
         in (if length softwareLabels > 0
             then [gaugeMetric ''fleetint_node_software_info''
                     ''Node-scoped GPU software and kernel version information.'' [] (hd_Timestamp d) one_float softwareLabels]
             else []) @
            (if \<not> is_zero_time (ec_BootTime c) \<and> \<not> is_zero_time (hd_Timestamp d) \<and> \<not> t_nanos (hd_Timestamp d) < t_nanos (ec_BootTime c)
             then [gaugeMetric ''fleetint_node_uptime_seconds'' ''Time elapsed since the node last booted.'' [] (hd_Timestamp d)
                     (duration_seconds (time_sub (hd_Timestamp d) (ec_BootTime c))) []]
             else []) @
            (if length firmwarePoints > 0
             then [\<lparr>om_Name = ''fleetint_gpu_firmware_info'',
                    om_Description = ''Per-GPU architecture, serial number, and VBIOS version information.'',
                    om_Unit = [], om_Data = GaugeData firmwarePoints\<rparr>]
             else [])))"

definition summary_metric :: "health_data \<Rightarrow> otlp_metric" where
  "summary_metric d =
     \<lparr>om_Name = ''fleetint_agent_collection_summary'',
      om_Description = ''Summary of Fleet Intelligence data collection including counts of metrics, events, and components'',
      om_Unit = [],
      om_Data = GaugeData [\<lparr>dp_TimeUnixNano = unix_nano (hd_Timestamp d), dp_Value = AsInt 1,
        dp_Attributes = [(''metrics_count'', IntValue (int (length (hd_Metrics d)))),
                         (''events_count'', IntValue (int (length (hd_Events d)))),
                         (''component_data_count'', IntValue (int (length (hd_ComponentData d))))]\<rparr>]\<rparr>"

definition up_metric :: "health_data \<Rightarrow> otlp_metric" where
  "up_metric d =
     \<lparr>om_Name = ''fleetint_agent_up'',
      om_Description = ''Fleet Intelligence agent liveness. A value of 1 indicates the agent was running when telemetry was exported.'',
      om_Unit = [],
      om_Data = GaugeData [\<lparr>dp_TimeUnixNano = unix_nano (hd_Timestamp d), dp_Value = AsInt 1, dp_Attributes = []\<rparr>]\<rparr>"

definition convertMetricsToOTLP :: "conv_env \<Rightarrow> health_data \<Rightarrow> otlp_metric list" where
  "convertMetricsToOTLP E d =
     (let identity = newIdentityContext d in
      map (convertMetricToOTLP identity) (hd_Metrics d) @
      [summary_metric d, up_metric d] @
      (if \<not> is_zero_time (hd_Timestamp d) \<and> \<not> t_nanos (hd_Timestamp d) < t_nanos (cv_agentStartTime E)
       then [gaugeMetric ''fleetint_agent_uptime_seconds''
               ''Time elapsed since the Fleet Intelligence agent process started.'' [] (hd_Timestamp d)
               (duration_seconds (time_sub (hd_Timestamp d) (cv_agentStartTime E))) []]
       else []) @
      inventoryMetrics d identity)"

section \<open>Logs\<close>

text \<open>A JSON object is decoded into a map, so its keys are distinct; sorting the converted pairs by key is
  converting the values in the order of the sorted keys.\<close>

fun jsonValueToAnyValue :: "json \<Rightarrow> any_value" where
  "jsonValueToAnyValue (JObject kvs) = KvlistValue (sort_key fst (map (\<lambda>(k, v). (k, jsonValueToAnyValue v)) kvs))"
| "jsonValueToAnyValue (JArray vs) = ArrayValue (map jsonValueToAnyValue vs)"
| "jsonValueToAnyValue (JBool b) = BoolValue b"
| "jsonValueToAnyValue (JNumber x) = DoubleValue x"
| "jsonValueToAnyValue (JString s) = StringValue s"
| "jsonValueToAnyValue JNull = StringValue ''null''"

definition stringToStructuredAnyValue :: "conv_env \<Rightarrow> string \<Rightarrow> any_value" where
  "stringToStructuredAnyValue E raw = (case cv_unmarshal E raw of
      None \<Rightarrow> StringValue raw
    | Some decoded \<Rightarrow> if decoded = JNull then StringValue raw else jsonValueToAnyValue decoded)"

definition extraInfoToAnyValue :: "conv_env \<Rightarrow> (string \<times> string) list \<Rightarrow> any_value" where
  "extraInfoToAnyValue E extraInfo =
     KvlistValue (map (\<lambda>key. (key, stringToStructuredAnyValue E (label extraInfo key))) (sorted_keys extraInfo))"

definition incidentsToOTLPArrayValue :: "incident list \<Rightarrow> any_value" where
  "incidentsToOTLPArrayValue incidents =
     ArrayValue (map (\<lambda>inc. KvlistValue
       [(''entity_id'', stringAnyValue (in_EntityID inc)), (''message'', stringAnyValue (in_Message inc)),
        (''severity'', stringAnyValue (in_Health inc)), (''error'', stringAnyValue (in_Error inc))]) incidents)"

definition toHealthStateIncidents :: "go_any \<Rightarrow> incident list option" where
  "toHealthStateIncidents v = (case v of AIncidents xs \<Rightarrow> Some xs | AIncident x \<Rightarrow> Some [x] | _ \<Rightarrow> None)"

definition severity_info :: "int \<times> string" where "severity_info = (9, ''INFO'')"

definition event_log :: "conv_env \<Rightarrow> health_event \<Rightarrow> log_record" where
  "event_log E e =
     \<lparr>lr_TimeUnixNano = unix_nano (ev_Time e), lr_Severity = severity_info,
      lr_Body = Some (StringValue (''['' @ ev_Type e @ ''] '' @ ev_Component e @ '': '' @ ev_Message e)),
      lr_Attributes =
        [(''component'', StringValue (ev_Component e)), (''event_id'', StringValue (ev_EventID e)),
         (''event_name'', StringValue (ev_Name e)), (''event_type'', StringValue (ev_Type e)),
         (''log_type'', StringValue ''event''),
         (''extra_info'', extraInfoToAnyValue E (case ev_ExtraInfo e of None \<Rightarrow> [] | Some m \<Rightarrow> m))]\<rparr>"

definition optional_attributes :: "conv_env \<Rightarrow> component_info \<Rightarrow> attributes" where
  "optional_attributes E info =
     (case info_at info ''error'' of AString s \<Rightarrow> if s \<noteq> [] then [(''error'', StringValue s)] else [] | _ \<Rightarrow> []) @
     (if info_at info ''time'' \<noteq> ANil then [(''time'', StringValue (sprint_v E (info_at info ''time'')))] else []) @
     (if info_at info ''extra_info'' \<noteq> ANil then
        (case cv_json_any E (info_at info ''extra_info'') of None \<Rightarrow> [] | Some j \<Rightarrow> [(''extra_info'', StringValue j)]) else []) @
     (if info_at info ''suggested_actions'' \<noteq> ANil then
        (case cv_json_any E (info_at info ''suggested_actions'') of
           None \<Rightarrow> []
         | Some j \<Rightarrow> if j \<noteq> ''null'' then [(''suggested_actions'', StringValue j)] else []) else []) @
     (case toHealthStateIncidents (info_at info ''incidents'') of
        Some typed \<Rightarrow> if length typed > 0 then [(''incidents'', incidentsToOTLPArrayValue typed)] else []
      | None \<Rightarrow> [])"

definition component_log :: "conv_env \<Rightarrow> gotime \<Rightarrow> string \<Rightarrow> component_info \<Rightarrow> log_record" where
  "component_log E timestamp componentName info =
     (let health = sprint_v E (info_at info ''health''); reason = sprint_v E (info_at info ''reason'') in
      \<lparr>lr_TimeUnixNano = unix_nano timestamp, lr_Severity = severity_info,
       lr_Body = Some (StringValue (''Component ['' @ componentName @ '']: '' @ health @ '' - '' @ reason)),
       lr_Attributes =
         [(''component'', StringValue componentName), (''log_type'', StringValue ''component_data''),
          (''health'', StringValue health), (''reason'', StringValue reason)] @ optional_attributes E info\<rparr>)"

definition component_logs :: "conv_env \<Rightarrow> health_data \<Rightarrow> log_record list" where
  "component_logs E d =
     concat (map (\<lambda>name. case map_of (hd_ComponentData d) name of
        Some (CInfo info) \<Rightarrow> [component_log E (hd_Timestamp d) name info]
      | _ \<Rightarrow> []) (sorted_keys (hd_ComponentData d)))"

definition convertToOTLPLogs :: "conv_env \<Rightarrow> health_data \<Rightarrow> log_record list" where
  "convertToOTLPLogs E d = map (event_log E) (hd_Events d) @ component_logs E d"

section \<open>The payload\<close>

definition exporter_scope :: "string \<times> string" where
  "exporter_scope = (''fleetint-exporter'', ''1.0.0'')"

definition otlp_Convert :: "conv_env \<Rightarrow> health_data \<Rightarrow> otlp_data" where
  "otlp_Convert E d =
     (let resource = createOTLPResource E d in
      \<lparr>od_Metrics = Some [\<lparr>rm_Attributes = resource,
         rm_ScopeMetrics = [\<lparr>sm_Scope = exporter_scope, sm_Metrics = convertMetricsToOTLP E d\<rparr>]\<rparr>],
       od_Logs = Some [\<lparr>rl_Attributes = resource,
         rl_ScopeLogs = [\<lparr>sl_Scope = exporter_scope, sl_LogRecords = convertToOTLPLogs E d\<rparr>]\<rparr>]\<rparr>)"

section \<open>Structs by reflection\<close>

text \<open>
  What reflection shows of a struct: its fields with name, JSON tag and whether they are exported, and the
  value by kind.  A slice is its length and what \<open>json.Marshal\<close> makes of it.
\<close>

datatype go_field =
    KString string
  | KBool bool
  | KInt int
  | KUint nat
  | KTime gotime
  | KStruct "(string \<times> string \<times> bool \<times> go_field) list"
  | KPointer "go_field option"
  | KSlice nat "string option"
  | KOther

definition field_name :: "string \<Rightarrow> string \<Rightarrow> string" where
  "field_name name jsonTag =
     (if jsonTag \<noteq> [] \<and> jsonTag \<noteq> ''-'' then takeWhile (\<lambda>c. c \<noteq> CHR '','') jsonTag else name)"

definition full_name :: "string \<Rightarrow> string \<Rightarrow> string" where
  "full_name pre name = (if pre \<noteq> [] then pre @ ''.'' @ name else name)"

definition attribute_of :: "string \<Rightarrow> string \<Rightarrow> attributes" where
  "attribute_of name v = (if v \<noteq> [] then [(name, StringValue v)] else [])"

text \<open>
  \<open>convertStructToOTLPAttributesWithPrefix\<close> on a value that is a struct or a pointer to one (\<open>struct_attributes\<close>)
  and the loop over its fields (\<open>field_attributes\<close>); \<open>rfc3339\<close> is \<open>Format(time.RFC3339)\<close>.
\<close>

fun struct_attributes :: "(gotime \<Rightarrow> string) \<Rightarrow> go_field \<Rightarrow> string \<Rightarrow> attributes"
  and fields_attributes :: "(gotime \<Rightarrow> string) \<Rightarrow> (string \<times> string \<times> bool \<times> go_field) list \<Rightarrow> string \<Rightarrow> attributes"
  and field_attributes :: "(gotime \<Rightarrow> string) \<Rightarrow> go_field \<Rightarrow> string \<Rightarrow> attributes" where
  "struct_attributes F (KStruct fs) pre = fields_attributes F fs pre"
| "struct_attributes F (KPointer (Some (KStruct fs))) pre = fields_attributes F fs pre"
| "struct_attributes F v pre = []"
| "fields_attributes F [] pre = []"
| "fields_attributes F ((name, tag, exported, v) # fs) pre =
     (if \<not> exported then [] else field_attributes F v (full_name pre (field_name name tag))) @ fields_attributes F fs pre"
| "field_attributes F (KString s) n = attribute_of n s"
| "field_attributes F (KBool b) n = attribute_of n (if b then ''true'' else ''false'')"
| "field_attributes F (KInt i) n = attribute_of n (FormatInt i)"
| "field_attributes F (KUint u) n = attribute_of n (FormatNat u)"
| "field_attributes F (KTime t) n = attribute_of n (if \<not> is_zero_time t then F t else [])"
| "field_attributes F (KStruct fs) n = struct_attributes F (KStruct fs) n"
| "field_attributes F (KPointer p) n = (case p of None \<Rightarrow> [] | Some v \<Rightarrow> (case v of KStruct fs \<Rightarrow> struct_attributes F (KStruct fs) n | _ \<Rightarrow> []))"
| "field_attributes F (KSlice len j) n = attribute_of n (if len > 0 then (case j of None \<Rightarrow> [] | Some s \<Rightarrow> s) else [])"
| "field_attributes F KOther n = []"

section \<open>Maps and labels\<close>

abbreviation keys :: "('k \<times> 'v) list \<Rightarrow> 'k list" where "keys m \<equiv> map fst m"

text \<open>Two iterations of one Go map.\<close>

definition same_map :: "('k \<times> 'v) list \<Rightarrow> ('k \<times> 'v) list \<Rightarrow> bool" where
  "same_map m m' \<longleftrightarrow> map_of m = map_of m' \<and> distinct (keys m) \<and> distinct (keys m')"

lemma same_map_keys: "same_map m m' \<Longrightarrow> set (keys m) = set (keys m')"
  by (metis dom_map_of_conv_image_fst image_set same_map_def)

lemma same_map_length: "same_map m m' \<Longrightarrow> length m = length m'"
  using same_map_keys [of m m'] by (metis distinct_card length_map same_map_def)

lemma sorted_keys_same: "same_map m m' \<Longrightarrow> sorted_keys m = sorted_keys m'"
  using same_map_keys [of m m'] unfolding sorted_keys_def sort_Strings_def same_map_def
  by (metis distinct_sort set_sort sorted_distinct_set_unique sorted_sort)

lemma label_same: "same_map m m' \<Longrightarrow> label m = label m'"
  by (simp add: same_map_def label_def fun_eq_iff)

lemma same_map_put: "same_map m m' \<Longrightarrow> same_map (put k v m) (put k v m')"
  by (simp add: same_map_def distinct_put)

lemma same_map_add: "same_map m m' \<Longrightarrow> same_map (addLabelIfMissing k v m) (addLabelIfMissing k v m')"
  by (simp add: addLabelIfMissing_def label_same same_map_put)

lemma same_map_fold_add:
  "same_map m m' \<Longrightarrow> same_map (fold (\<lambda>(k, v). addLabelIfMissing k v) kvs m) (fold (\<lambda>(k, v). addLabelIfMissing k v) kvs m')"
  by (induction kvs arbitrary: m m') (auto simp: same_map_add)

lemma put_new: "k \<notin> set (keys m) \<Longrightarrow> put k v m = m @ [(k, v)]"
  by (induction m) auto

lemma clean_labels_filter:
  assumes "distinct (keys ls)"
  shows "clean_labels ls = map (\<lambda>(k, v). (k, TrimSpace v)) (filter (\<lambda>(k, v). TrimSpace v \<noteq> []) ls)"
proof -
  have "fold (\<lambda>(key, v) m. if TrimSpace v \<noteq> [] then put key (TrimSpace v) m else m) ls acc =
          acc @ map (\<lambda>(k, v). (k, TrimSpace v)) (filter (\<lambda>(k, v). TrimSpace v \<noteq> []) ls)"
    if "distinct (keys ls)" "set (keys acc) \<inter> set (keys ls) = {}" for acc ls
    using that by (induction ls arbitrary: acc) (auto simp: put_new)
  from this [of ls "[]"] assms show ?thesis by (simp add: clean_labels_def)
qed

lemma map_of_clean:
  assumes "distinct (keys ls)"
  shows "map_of (clean_labels ls) k =
           (case map_of ls k of Some v \<Rightarrow> if TrimSpace v \<noteq> [] then Some (TrimSpace v) else None | None \<Rightarrow> None)"
  unfolding clean_labels_filter [OF assms] using assms
proof (induction ls)
  case (Cons e ls)
  obtain k' v where e: "e = (k', v)" by (cases e)
  have "map_of ls k' = None" using Cons.prems by (simp add: e map_of_eq_None_iff)
  with Cons show ?case by (auto simp: e simp del: map_of_eq_Some_iff split: option.splits)
qed simp

lemma distinct_clean: "distinct (keys (clean_labels ls))"
proof -
  have "distinct (keys (fold (\<lambda>(key, v) m. if TrimSpace v \<noteq> [] then put key (TrimSpace v) m else m) ls acc))"
    if "distinct (keys acc)" for acc
    using that by (induction ls arbitrary: acc) (auto simp: distinct_put)
  then show ?thesis by (simp add: clean_labels_def)
qed

lemma same_map_clean: "same_map ls ls' \<Longrightarrow> same_map (clean_labels ls) (clean_labels ls')"
  unfolding same_map_def by (auto simp: distinct_clean map_of_clean fun_eq_iff)

definition with_cpu :: "(string \<times> string) list \<Rightarrow> (string \<times> string) list" where
  "with_cpu m = (if label m ''cpu_id'' \<noteq> [] then addLabelIfMissing ''cpu'' (label m ''cpu_id'') m else m)"

definition gpu_of :: "entity_catalog option \<Rightarrow> (string \<times> string) list \<Rightarrow> gpu_identity option" where
  "gpu_of catalog m = (case catalog of None \<Rightarrow> None | Some c \<Rightarrow>
     if label_uuid c m = [] then None else map_of (ec_GPUsByUUID c) (label_uuid c m))"

lemma enrichLabels_alt:
  "enrichLabels catalog ls =
     (let m = with_cpu (clean_labels ls) in
      case gpu_of catalog m of
        None \<Rightarrow> m
      | Some g \<Rightarrow> fold (\<lambda>(k, v). addLabelIfMissing k v) (identity_labels (label m ''gpu_uuid'' \<noteq> []) g) m)"
  by (simp add: enrichLabels_def with_cpu_def gpu_of_def Let_def split: option.split)

definition same_identity :: "entity_catalog option \<Rightarrow> entity_catalog option \<Rightarrow> bool" where
  "same_identity a b = (case (a, b) of
      (Some c, Some d) \<Rightarrow> same_catalog c d \<and> distinct (keys (ec_GPUsByUUID c)) \<and> distinct (keys (ec_GPUsByUUID d))
    | (None, None) \<Rightarrow> True | _ \<Rightarrow> False)"

lemma label_uuid_same:
  assumes "same_catalog c d" "same_map m m'"
  shows "label_uuid c m = label_uuid d m'"
proof -
  have "map_of (ec_GPUUUIDByIndex c) = map_of (ec_GPUUUIDByIndex d)" using assms(1) by (simp add: same_catalog_def)
  then show ?thesis unfolding label_uuid_def label_same [OF assms(2)] by (simp only:)
qed

lemma gpu_of_same:
  assumes "same_identity a b" "same_map m m'"
  shows "gpu_of a m = gpu_of b m'"
proof (cases a)
  case (Some c)
  then obtain d where d: "b = Some d" "same_catalog c d" using assms(1) by (auto simp: same_identity_def split: option.splits)
  then have "map_of (ec_GPUsByUUID c) = map_of (ec_GPUsByUUID d)" by (simp add: same_catalog_def)
  with d Some show ?thesis by (simp add: gpu_of_def label_uuid_same [OF d(2) assms(2)])
qed (use assms in \<open>auto simp: same_identity_def gpu_of_def split: option.splits\<close>)

lemma enrichLabels_same:
  assumes "same_identity a b" "same_map ls ls'"
  shows "same_map (enrichLabels a ls) (enrichLabels b ls')"
proof -
  have m: "same_map (with_cpu (clean_labels ls)) (with_cpu (clean_labels ls'))"
    using same_map_clean [OF assms(2)] by (simp add: with_cpu_def label_same same_map_add)
  show ?thesis
    unfolding enrichLabels_alt Let_def gpu_of_same [OF assms(1) m] label_same [OF m]
    using m by (simp add: same_map_fold_add split: option.split)
qed

lemma labelsToOTLPAttributes_same: "same_map m m' \<Longrightarrow> labelsToOTLPAttributes m = labelsToOTLPAttributes m'"
  by (simp add: labelsToOTLPAttributes_def sorted_keys_same label_same)

section \<open>Enrichment\<close>

definition labels_ok :: "(string \<times> string) list \<Rightarrow> bool" where
  "labels_ok m \<longleftrightarrow> distinct (keys m) \<and> (\<forall>k v. map_of m k = Some v \<longrightarrow> v \<noteq> [] \<and> trimmed v)"

lemma labels_ok_add: "labels_ok m \<Longrightarrow> labels_ok (addLabelIfMissing k v m)"
  by (auto simp: labels_ok_def addLabelIfMissing_def distinct_put simp del: map_of_eq_Some_iff)

lemma labels_ok_clean: "distinct (keys ls) \<Longrightarrow> labels_ok (clean_labels ls)"
  by (auto simp: labels_ok_def distinct_clean map_of_clean simp del: map_of_eq_Some_iff split: option.splits if_splits)

lemma labels_ok_fold: "labels_ok m \<Longrightarrow> labels_ok (fold (\<lambda>(k, v). addLabelIfMissing k v) kvs m)"
  by (induction kvs arbitrary: m) (auto simp: labels_ok_add)

lemma add_keeps: "map_of m k = Some v \<Longrightarrow> v \<noteq> [] \<Longrightarrow> map_of (addLabelIfMissing k' v' m) k = Some v"
  by (auto simp: addLabelIfMissing_def label_def)

lemma fold_add_keeps:
  "map_of m k = Some v \<Longrightarrow> v \<noteq> [] \<Longrightarrow> map_of (fold (\<lambda>(k, v). addLabelIfMissing k v) kvs m) k = Some v"
  by (induction kvs arbitrary: m) (auto simp: add_keeps)

lemma add_present: "TrimSpace v \<noteq> [] \<Longrightarrow> labels_ok m \<Longrightarrow> \<exists>w. map_of (addLabelIfMissing k v m) k = Some w \<and> w \<noteq> []"
  by (auto simp: addLabelIfMissing_def label_def labels_ok_def simp del: map_of_eq_Some_iff split: option.splits)

lemma fold_add_present:
  "labels_ok m \<Longrightarrow> (k, v) \<in> set kvs \<Longrightarrow> TrimSpace v \<noteq> [] \<Longrightarrow>
     \<exists>w. map_of (fold (\<lambda>(k, v). addLabelIfMissing k v) kvs m) k = Some w \<and> w \<noteq> []"
proof (induction kvs arbitrary: m)
  case (Cons kv kvs)
  obtain k' v' where kv: "kv = (k', v')" by (cases kv)
  show ?case
  proof (cases "kv = (k, v)")
    case True
    then obtain w where "map_of (addLabelIfMissing k v m) k = Some w" "w \<noteq> []"
      using add_present [OF Cons.prems(3,1)] by blast
    then show ?thesis using fold_add_keeps True by fastforce
  next
    case False
    then show ?thesis using Cons.IH [OF labels_ok_add [OF Cons.prems(1)]] Cons.prems(2,3) by (auto simp: kv)
  qed
qed simp

lemma add_keys: "set (keys (addLabelIfMissing k v m)) \<subseteq> insert k (set (keys m))"
  using set_put_keys [of k "TrimSpace v" m] by (auto simp: addLabelIfMissing_def)

lemma fold_add_keys:
  "set (keys (fold (\<lambda>(k, v). addLabelIfMissing k v) kvs m)) \<subseteq> set (keys kvs) \<union> set (keys m)"
proof (induction kvs arbitrary: m)
  case (Cons kv kvs)
  obtain k v where "kv = (k, v)" by (cases kv)
  then show ?case using Cons [of "addLabelIfMissing k v m"] add_keys [of k v m] by auto
qed simp

lemma labels_ok_enriched:
  assumes "distinct (keys ls)"
  shows "labels_ok (with_cpu (clean_labels ls))" "labels_ok (enrichLabels c ls)"
proof -
  show w: "labels_ok (with_cpu (clean_labels ls))"
    by (simp add: with_cpu_def labels_ok_add labels_ok_clean assms)
  then show "labels_ok (enrichLabels c ls)"
    by (simp add: enrichLabels_alt Let_def labels_ok_fold split: option.split)
qed

lemma enrichLabels_keeps:
  assumes "distinct (keys ls)" "map_of ls k = Some v" "TrimSpace v \<noteq> []"
  shows "map_of (enrichLabels c ls) k = Some (TrimSpace v)"
proof -
  have "map_of (clean_labels ls) k = Some (TrimSpace v)" using assms by (simp add: map_of_clean del: map_of_eq_Some_iff)
  then have "map_of (with_cpu (clean_labels ls)) k = Some (TrimSpace v)"
    using assms(3) by (simp add: with_cpu_def add_keeps del: map_of_eq_Some_iff)
  then show ?thesis using assms(3)
    by (simp add: enrichLabels_alt Let_def fold_add_keeps del: map_of_eq_Some_iff split: option.split)
qed

definition identity_keys :: "string set" where
  "identity_keys = {''cpu'', ''gpu_uuid'', ''uuid'', ''gpu'', ''pci_bus_id'', ''device'', ''model_name'', ''gpu_serial'',
     ''cluster_uuid'', ''clique_id''}"

lemma identity_labels_keys: "set (keys (identity_labels b g)) \<subseteq> identity_keys"
  by (simp add: identity_labels_def identity_keys_def)

lemma with_cpu_keys: "set (keys (with_cpu m)) \<subseteq> insert ''cpu'' (set (keys m))"
  unfolding with_cpu_def by (simp only: add_keys subset_insertI simp_thms split: if_split)

lemma clean_keys: "distinct (keys ls) \<Longrightarrow> set (keys (clean_labels ls)) \<subseteq> set (keys ls)"
  by (force simp: clean_labels_filter)

lemma enrichLabels_keys:
  assumes "distinct (keys ls)"
  shows "set (keys (enrichLabels c ls)) \<subseteq> set (keys ls) \<union> identity_keys"
proof -
  let ?m = "with_cpu (clean_labels ls)"
  have "''cpu'' \<in> identity_keys" by (simp add: identity_keys_def)
  then have m: "set (keys ?m) \<subseteq> set (keys ls) \<union> identity_keys"
    using with_cpu_keys [of "clean_labels ls"] clean_keys [OF assms] by blast
  show ?thesis
  proof (cases "gpu_of c ?m")
    case (Some g)
    have "set (keys (enrichLabels c ls)) \<subseteq> set (keys (identity_labels (label ?m ''gpu_uuid'' \<noteq> []) g)) \<union> set (keys ?m)"
      unfolding enrichLabels_alt Let_def Some option.case by (rule fold_add_keys)
    with m identity_labels_keys show ?thesis by blast
  qed (use m in \<open>simp add: enrichLabels_alt\<close>)
qed

lemma enrichLabels_known:
  assumes "distinct (keys ls)" "gpu_of c (with_cpu (clean_labels ls)) = Some g"
    "(k, v) \<in> set (tl (identity_labels b g))" "TrimSpace v \<noteq> []"
  shows "\<exists>w. map_of (enrichLabels c ls) k = Some w \<and> w \<noteq> []"
proof -
  have "(k, v) \<in> set (identity_labels b' g)" for b' using assms(3) by (auto simp: identity_labels_def)
  then show ?thesis
    using fold_add_present [OF labels_ok_enriched(1) [OF assms(1)] _ assms(4)] assms(2)
    by (simp add: enrichLabels_alt Let_def del: map_of_eq_Some_iff)
qed

section \<open>Order of iteration\<close>

text \<open>Health data that differ only in how Go iterated over its maps.\<close>

definition same_metric :: "health_metric \<Rightarrow> health_metric \<Rightarrow> bool" where
  "same_metric m m' \<longleftrightarrow> m\<lparr>me_Labels := []\<rparr> = m'\<lparr>me_Labels := []\<rparr> \<and> same_map (me_Labels m) (me_Labels m')"

definition same_event :: "health_event \<Rightarrow> health_event \<Rightarrow> bool" where
  "same_event e e' \<longleftrightarrow> e\<lparr>ev_ExtraInfo := None\<rparr> = e'\<lparr>ev_ExtraInfo := None\<rparr> \<and>
     same_map (case ev_ExtraInfo e of None \<Rightarrow> [] | Some m \<Rightarrow> m) (case ev_ExtraInfo e' of None \<Rightarrow> [] | Some m \<Rightarrow> m)"

definition same_data :: "health_data \<Rightarrow> health_data \<Rightarrow> bool" where
  "same_data d d' \<longleftrightarrow>
     d\<lparr>hd_Metrics := [], hd_Events := [], hd_ComponentData := [], hd_EntityCatalog := None, hd_GPUUUIDToIndex := None\<rparr> =
     d'\<lparr>hd_Metrics := [], hd_Events := [], hd_ComponentData := [], hd_EntityCatalog := None, hd_GPUUUIDToIndex := None\<rparr> \<and>
     same_identity (newIdentityContext d) (newIdentityContext d') \<and>
     list_all2 same_metric (hd_Metrics d) (hd_Metrics d') \<and>
     list_all2 same_event (hd_Events d) (hd_Events d') \<and>
     same_map (hd_ComponentData d) (hd_ComponentData d')"

lemma same_data_fields:
  assumes "same_data d d'"
  shows "hd_Timestamp d = hd_Timestamp d'" "createOTLPResource E d = createOTLPResource E d'"
proof -
  have "hd_Timestamp d = hd_Timestamp d' \<and> hd_MachineID d = hd_MachineID d' \<and> hd_NodeGroup d = hd_NodeGroup d' \<and>
        hd_ComputeZone d = hd_ComputeZone d' \<and> hd_MachineInfo d = hd_MachineInfo d'"
    using assms by (cases d; cases d') (auto simp: same_data_def)
  then show "hd_Timestamp d = hd_Timestamp d'" "createOTLPResource E d = createOTLPResource E d'"
    by (simp_all add: createOTLPResource_def gpus_attribute_def)
qed

lemma convertMetric_same: "same_identity a b \<Longrightarrow> same_metric m m' \<Longrightarrow> convertMetricToOTLP a m = convertMetricToOTLP b m'"
  using labelsToOTLPAttributes_same [OF enrichLabels_same [of a b "me_Labels m" "me_Labels m'"]]
  by (cases m; cases m') (auto simp: same_metric_def convertMetricToOTLP_def Let_def)

lemma extraInfo_same: "same_map m m' \<Longrightarrow> extraInfoToAnyValue E m = extraInfoToAnyValue E m'"
  by (simp add: extraInfoToAnyValue_def sorted_keys_same label_same)

lemma event_log_same: "same_event e e' \<Longrightarrow> event_log E e = event_log E e'"
proof -
  assume s: "same_event e e'"
  then have "extraInfoToAnyValue E (case ev_ExtraInfo e of None \<Rightarrow> [] | Some m \<Rightarrow> m) =
             extraInfoToAnyValue E (case ev_ExtraInfo e' of None \<Rightarrow> [] | Some m \<Rightarrow> m)"
    by (intro extraInfo_same) (simp add: same_event_def)
  with s show ?thesis by (cases e; cases e') (auto simp: same_event_def event_log_def)
qed

lemma map_all2: "list_all2 R xs ys \<Longrightarrow> (\<And>x y. R x y \<Longrightarrow> f x = g y) \<Longrightarrow> map f xs = map g ys"
  by (induction rule: list_all2_induct) auto

lemma component_logs_same:
  assumes "same_data d d'"
  shows "component_logs E d = component_logs E d'"
proof -
  have "map_of (hd_ComponentData d) = map_of (hd_ComponentData d')" "sorted_keys (hd_ComponentData d) = sorted_keys (hd_ComponentData d')"
    using assms by (simp_all add: same_data_def sorted_keys_same, simp add: same_map_def)
  then show ?thesis unfolding component_logs_def same_data_fields(1) [OF assms] by (simp only:)
qed

lemma inventoryMetrics_same:
  assumes "same_identity a b" "hd_Timestamp d = hd_Timestamp d'"
  shows "inventoryMetrics d a = inventoryMetrics d' b"
proof (cases a)
  case None
  then show ?thesis using assms by (auto simp: same_identity_def inventoryMetrics_def split: option.splits)
next
  case (Some c)
  then obtain e where e: "b = Some e" "same_catalog c e" "distinct (keys (ec_GPUsByUUID c))" "distinct (keys (ec_GPUsByUUID e))"
    using assms(1) by (auto simp: same_identity_def split: option.splits)
  then have "same_map (ec_GPUsByUUID c) (ec_GPUsByUUID e)" by (simp add: same_map_def same_catalog_def)
  then have k: "sorted_keys (ec_GPUsByUUID c) = sorted_keys (ec_GPUsByUUID e)" "identity_at c = identity_at e"
    by (simp_all add: sorted_keys_same) (simp add: same_map_def identity_at_def fun_eq_iff)
  have f: "software_labels c = software_labels e" "ec_BootTime c = ec_BootTime e"
    using e(2) by (cases c; cases e; simp add: same_catalog_def software_labels_def)+
  show ?thesis unfolding inventoryMetrics_def Some e(1) option.case k f assms(2) ..
qed

lemma otlp_Convert_same:
  assumes "same_data d d'"
  shows "otlp_Convert E d = otlp_Convert E d'"
proof -
  note f = same_data_fields [OF assms]
  have c: "length (hd_Metrics d) = length (hd_Metrics d')" "length (hd_Events d) = length (hd_Events d')"
    "length (hd_ComponentData d) = length (hd_ComponentData d')"
    using assms by (auto simp: same_data_def same_map_length dest: list_all2_lengthD)
  have "map (convertMetricToOTLP (newIdentityContext d)) (hd_Metrics d) = map (convertMetricToOTLP (newIdentityContext d')) (hd_Metrics d')"
    using assms by (intro map_all2 [of same_metric] convertMetric_same) (simp_all add: same_data_def)
  moreover have "inventoryMetrics d (newIdentityContext d) = inventoryMetrics d' (newIdentityContext d')"
    using assms f(1) by (intro inventoryMetrics_same) (simp_all add: same_data_def)
  ultimately have m: "convertMetricsToOTLP E d = convertMetricsToOTLP E d'"
    by (simp add: convertMetricsToOTLP_def Let_def summary_metric_def up_metric_def f c)
  have "map (event_log E) (hd_Events d) = map (event_log E) (hd_Events d')"
    using assms by (intro map_all2 [of same_event] event_log_same) (simp_all add: same_data_def)
  then have "convertToOTLPLogs E d = convertToOTLPLogs E d'"
    by (simp add: convertToOTLPLogs_def component_logs_same [OF assms])
  with m show ?thesis by (simp add: otlp_Convert_def f)
qed

section \<open>Validation\<close>

definition data_sendable :: "health_data \<Rightarrow> bool" where
  "data_sendable d \<longleftrightarrow> TrimSpace (hd_MachineID d) \<noteq> [] \<and> unix_nano (hd_Timestamp d) \<noteq> 0 \<and>
     (\<forall>m \<in> set (hd_Metrics d). finite_float (me_Value m) \<and> word_of_int (me_UnixMilliseconds m) * 1000000 \<noteq> (0 :: 64 word)) \<and>
     (\<forall>e \<in> set (hd_Events d). unix_nano (ev_Time e) \<noteq> 0)"

lemma point_ok_double: "dp_Value p = AsDouble x \<Longrightarrow> point_ok p \<longleftrightarrow> dp_TimeUnixNano p \<noteq> 0 \<and> finite_float x"
  by (auto simp: point_ok_def finite_float_iff)

lemma point_ok_int: "dp_Value p = AsInt i \<Longrightarrow> point_ok p \<longleftrightarrow> dp_TimeUnixNano p \<noteq> 0"
  by (auto simp: point_ok_def)

lemma gaugeDataPoint_ok: "point_ok (gaugeDataPoint t v ls) \<longleftrightarrow> unix_nano t \<noteq> 0 \<and> finite_float v"
  by (simp add: gaugeDataPoint_def point_ok_double)

lemma metric_ok_iffs:
  "metric_ok (gaugeMetric n de u t v ls) \<longleftrightarrow> unix_nano t \<noteq> 0 \<and> finite_float v"
  "metric_ok (convertMetricToOTLP c m) \<longleftrightarrow>
     word_of_int (me_UnixMilliseconds m) * 1000000 \<noteq> (0 :: 64 word) \<and> finite_float (me_Value m)"
  "metric_ok (summary_metric d) \<longleftrightarrow> unix_nano (hd_Timestamp d) \<noteq> 0"
  "metric_ok (up_metric d) \<longleftrightarrow> unix_nano (hd_Timestamp d) \<noteq> 0"
  by (simp_all add: metric_ok_def gaugeMetric_def gaugeDataPoint_ok convertMetricToOTLP_def Let_def
        point_ok_double point_ok_int summary_metric_def up_metric_def)

lemma inventoryMetrics_ok:
  assumes "unix_nano (hd_Timestamp d) \<noteq> 0"
  shows "list_all metric_ok (inventoryMetrics d c)"
proof -
  have "finite_float one_float" by (simp add: one_float_def finite_float_def)
  then have "metric_ok \<lparr>om_Name = n, om_Description = de, om_Unit = u,
      om_Data = GaugeData (map (\<lambda>x. gaugeDataPoint (hd_Timestamp d) one_float (f x)) xs)\<rparr>" for n de u f and xs :: "string list"
    by (simp add: metric_ok_def list_all_iff gaugeDataPoint_ok assms)
  with \<open>finite_float one_float\<close> show ?thesis
    by (simp add: inventoryMetrics_def Let_def metric_ok_iffs assms split: option.split)
qed

lemma convertMetrics_ok:
  "list_all metric_ok (convertMetricsToOTLP E d) \<longleftrightarrow>
     unix_nano (hd_Timestamp d) \<noteq> 0 \<and>
     (\<forall>m \<in> set (hd_Metrics d). finite_float (me_Value m) \<and> word_of_int (me_UnixMilliseconds m) * 1000000 \<noteq> (0 :: 64 word))"
proof -
  have "list_all metric_ok (map (convertMetricToOTLP c) ms) \<longleftrightarrow>
      (\<forall>m \<in> set ms. finite_float (me_Value m) \<and> word_of_int (me_UnixMilliseconds m) * 1000000 \<noteq> (0 :: 64 word))" for c ms
    by (induction ms) (auto simp: metric_ok_iffs)
  then show ?thesis
    using inventoryMetrics_ok [of d] by (auto simp: convertMetricsToOTLP_def Let_def metric_ok_iffs simp del: list.pred_map)
qed

lemma convertLogs_ok:
  assumes "unix_nano (hd_Timestamp d) \<noteq> 0"
  shows "list_all (\<lambda>r. lr_TimeUnixNano r \<noteq> 0 \<and> lr_Body r \<noteq> None) (convertToOTLPLogs E d) \<longleftrightarrow>
           (\<forall>e \<in> set (hd_Events d). unix_nano (ev_Time e) \<noteq> 0)"
proof -
  have "list_all (\<lambda>r. lr_TimeUnixNano r \<noteq> 0 \<and> lr_Body r \<noteq> None) (component_logs E d)"
    using assms by (auto simp: component_logs_def list_all_iff component_log_def Let_def split: option.splits component_value.splits)
  moreover have "list_all (\<lambda>r. lr_TimeUnixNano r \<noteq> 0 \<and> lr_Body r \<noteq> None) (map (event_log E) es) \<longleftrightarrow>
      (\<forall>e \<in> set es. unix_nano (ev_Time e) \<noteq> 0)" for es
    by (induction es) (auto simp: event_log_def)
  ultimately show ?thesis by (simp add: convertToOTLPLogs_def del: list.pred_map)
qed

lemma service_name_not_blank: "TrimSpace ''fleet-intelligence-agent'' \<noteq> []"
  by code_simp

lemma resource_ok: "attrs_ok (createOTLPResource E d) \<longleftrightarrow> TrimSpace (hd_MachineID d) \<noteq> []"
  using service_name_not_blank by (simp add: attrs_ok_def lookupAttr_def createOTLPResource_def GetStringValue_def)

lemma otlp_ok_Convert: "otlp_ok (otlp_Convert E d) \<longleftrightarrow> data_sendable d"
  unfolding otlp_ok_def otlp_Convert_def data_sendable_def Let_def
  using convertLogs_ok [of d E] by (auto simp: resource_ok convertMetrics_ok)

section \<open>Properties\<close>

text \<open>
  Enrichment never changes what a component emitted: every label with a non-blank value keeps its
  trimmed value, blank ones are dropped, and only identity labels are added.  No label of the result is
  blank or untrimmed, and when the labels name a GPU of the catalog, every identity value the catalog has for
  it is present.
\<close>

theorem label_enrichment_conservative:
  assumes "distinct (keys labels)"
  shows "(\<forall>k v. map_of labels k = Some v \<and> TrimSpace v \<noteq> [] \<longrightarrow> map_of (enrichLabels c labels) k = Some (TrimSpace v)) \<and>
    (\<forall>k w. map_of (enrichLabels c labels) k = Some w \<longrightarrow> w \<noteq> [] \<and> trimmed w) \<and>
    set (keys (enrichLabels c labels)) \<subseteq> set (keys labels) \<union> identity_keys \<and>
    (\<forall>g k v b. gpu_of c (with_cpu (clean_labels labels)) = Some g \<and> (k, v) \<in> set (tl (identity_labels b g)) \<and> TrimSpace v \<noteq> []
       \<longrightarrow> (\<exists>w. map_of (enrichLabels c labels) k = Some w \<and> w \<noteq> []))"
proof (intro conjI allI impI)
  show "set (keys (enrichLabels c labels)) \<subseteq> set (keys labels) \<union> identity_keys" by (rule enrichLabels_keys [OF assms])
next
  fix k v assume "map_of labels k = Some v \<and> TrimSpace v \<noteq> []"
  then show "map_of (enrichLabels c labels) k = Some (TrimSpace v)" using enrichLabels_keeps [OF assms] by blast
next
  fix g k v b
  assume "gpu_of c (with_cpu (clean_labels labels)) = Some g \<and> (k, v) \<in> set (tl (identity_labels b g)) \<and> TrimSpace v \<noteq> []"
  then show "\<exists>w. map_of (enrichLabels c labels) k = Some w \<and> w \<noteq> []" using enrichLabels_known [OF assms] by blast
qed (use labels_ok_enriched(2) [OF assms, of c] in \<open>unfold labels_ok_def, blast+\<close>)

definition sample_catalog :: entity_catalog where
  "sample_catalog = NewEntityCatalog None [(''GPU-a'', ''0'')]"

theorem label_enrichment_conservative_witness:
  "map_of (enrichLabels (Some sample_catalog) [(''gpu'', '' 0 ''), (''job'', '' '')]) ''gpu'' = Some ''0'' \<and>
   map_of (enrichLabels (Some sample_catalog) [(''gpu'', '' 0 ''), (''job'', '' '')]) ''uuid'' = Some ''GPU-a'' \<and>
   set (keys (enrichLabels (Some sample_catalog) [(''gpu'', '' 0 ''), (''job'', '' '')])) \<subseteq> {''gpu'', ''job''} \<union> identity_keys"
proof (intro conjI)
  have t: "TrimSpace '' 0 '' = ''0''" by code_simp
  have d: "distinct (keys [(''gpu'', '' 0 ''), (''job'', '' '')])" by simp
  show "map_of (enrichLabels (Some sample_catalog) [(''gpu'', '' 0 ''), (''job'', '' '')]) ''gpu'' = Some ''0''"
    using label_enrichment_conservative [OF d, of "Some sample_catalog", THEN conjunct1, rule_format, of "''gpu''" "'' 0 ''"]
    by (simp add: t)
  show "set (keys (enrichLabels (Some sample_catalog) [(''gpu'', '' 0 ''), (''job'', '' '')])) \<subseteq> {''gpu'', ''job''} \<union> identity_keys"
    using label_enrichment_conservative [OF d, of "Some sample_catalog", THEN conjunct2, THEN conjunct2, THEN conjunct1] by simp
  show "map_of (enrichLabels (Some sample_catalog) [(''gpu'', '' 0 ''), (''job'', '' '')]) ''uuid'' = Some ''GPU-a''"
    by code_simp
qed

text \<open>
  The exported payload does not depend on the order in which Go iterates over its maps: health data that
  differ only in the iteration of labels, extra information, component data and the identity catalog give
  the same OTLP metrics and logs, so an unchanged fleet produces an unchanged export.
\<close>

theorem otlp_export_order_free:
  assumes "same_data d d'"
  shows "otlp_Convert E d = otlp_Convert E d'"
  by (rule otlp_Convert_same [OF assms])

definition sample_data :: "(string \<times> string) list \<Rightarrow> (string \<times> component_value) list \<Rightarrow> health_data" where
  "sample_data labels cs =
     \<lparr>hd_CollectionID = ''c'', hd_MachineID = ''m-1'', hd_NodeGroup = [], hd_ComputeZone = [],
      hd_Timestamp = \<lparr>t_nanos = 5, t_utc = True\<rparr>, hd_MachineInfo = None, hd_GPUUUIDToIndex = None,
      hd_EntityCatalog = None,
      hd_Metrics = [\<lparr>me_UnixMilliseconds = 1, me_Component = ''cpu'', me_Name = ''load'', me_Type = ''gauge'',
                     me_Value = FNum 1 0, me_Labels = labels\<rparr>],
      hd_Events = [], hd_ComponentData = cs\<rparr>"

definition sample_conv_env :: conv_env where
  "sample_conv_env = \<lparr>cv_HOSTNAME = ''node-1'', cv_osHostname = Inl ''unused'', cv_agentStartTime = zero_time,
     cv_json_gpus = (\<lambda>gs. None), cv_json_any = (\<lambda>v. None), cv_format_any = (\<lambda>v. []), cv_unmarshal = (\<lambda>s. None)\<rparr>"

theorem otlp_export_order_free_witness:
  "otlp_Convert sample_conv_env (sample_data [(''b'', ''2''), (''a'', ''1'')] [(''x'', CInfo []), (''w'', CInfo [])]) =
   otlp_Convert sample_conv_env (sample_data [(''a'', ''1''), (''b'', ''2'')] [(''w'', CInfo []), (''x'', CInfo [])])"
  by (rule otlp_export_order_free)
     (auto simp: same_data_def sample_data_def same_identity_def newIdentityContext_def same_metric_def same_map_def fun_eq_iff)

text \<open>
  C19: The payload the converter builds passes the outbound validation without an issue exactly when the
  health data have a non-blank machine ID, a collection time, finite metric values with a timestamp (after
  the 64-bit conversion from milliseconds) and events with a time; nothing the converter adds is ever
  reported.
\<close>

theorem converted_payload_valid_iff_sendable:
  "ValidateOTLPPayload (Some (otlp_Convert E d)) = [] \<longleftrightarrow> data_sendable d"
  by (simp only: otlp_issues_Nil otlp_ok_Convert)

end
