(* ===== verification/Http_Writer.thy ===== *)
theory Http_Writer
  imports Otlp_Converter Endpoint
begin

text \<open>
  \<open>internal/exporter/writer/http.go\<close>: sending the payload with retries and, on 401, one refreshed token.
  The network, the refresh function, the random source and the timer act on a world of type \<open>'w\<close>
  (\<open>writer_env\<close>); a send returns its result, the events it caused and the new world.

  The lemmas bound the requests, waits and refreshes of a send, and fix which token every request carries.
  The locale \<open>world_preserving\<close> lifts a relation that every call of the environment respects to a whole
  send, and \<open>refresh_barred\<close> extends it to worlds where no token can be had; the exporter interprets both for its own
  environment.
\<close>

section \<open>Environment\<close>

record otlp_request =
  orq_url :: string
  orq_headers :: "(string \<times> string) list"
  orq_body :: string

text \<open>A response: the origin of the request it answers (\<^const>\<open>None\<close> when there is none), status and token header.\<close>

record otlp_response =
  ors_origin :: "(string \<times> string) option"
  ors_status_code :: int
  ors_status :: string
  ors_jwt_assertion :: string

record 'w writer_env =
  we_net :: netlib
  we_do :: "otlp_request \<Rightarrow> 'w \<Rightarrow> (string, otlp_response) result \<times> 'w"
  we_refresh :: "('w \<Rightarrow> (string, string) result \<times> 'w) option"
  we_wait :: "duration \<Rightarrow> 'w \<Rightarrow> bool \<times> 'w"
  we_random :: "int \<Rightarrow> 'w \<Rightarrow> (int option \<times> int) \<times> 'w"
  we_marshal_metrics :: "resource_metrics list \<Rightarrow> (string, string) result"
  we_marshal_logs :: "resource_logs list \<Rightarrow> (string, string) result"
  we_convert :: conv_env

text \<open>
  \<open>we_wait\<close> tells whether the context ended before the delay; \<open>we_random\<close> is given the bound and yields the
  random number, if the source works, and the current time in nanoseconds for the fallback.
\<close>

datatype writer_error =
    CreateRequestFailed
  | SendFailed string
  | OriginUnknown
  | OriginMismatch
  | HTTPError int string string
  | ContextEnded
  | FailedAfter nat "writer_error option"
  | NilHealthData
  | MarshalMetrics string
  | MarshalLogs string
  | CriticalLogs writer_error

datatype writer_event =
    Sent otlp_request
  | Refreshed "(string, string) result"
  | Waited duration

section \<open>One request\<close>

definition defaultRetryDelay :: duration where "defaultRetryDelay = 5 * time_Second"

text \<open>\<open>http.NewRequest\<close> drops an empty port from the host.\<close>

definition request_origin :: "netlib \<Rightarrow> string \<Rightarrow> (string \<times> string) option" where
  "request_origin L endpoint = (case url_Parse L endpoint of
      None \<Rightarrow> None
    | Some u \<Rightarrow> Some (u_scheme u, if HasSuffix (u_host u) '':'' then butlast (u_host u) else u_host u))"

definition otlp_http_request :: "string \<Rightarrow> string \<Rightarrow> string \<Rightarrow> string \<Rightarrow> string \<Rightarrow> string \<Rightarrow> otlp_request" where
  "otlp_http_request reqData dataType collectionID machineID endpoint authToken =
     \<lparr>orq_url = endpoint,
      orq_headers =
        [(''Content-Type'', ''application/x-protobuf''), (''User-Agent'', ''fleetint-exporter''),
         (''X-Machine-ID'', machineID), (''X-Data-Type'', dataType), (''X-Collection-ID'', collectionID),
         (''X-Agent-Mode'', ''direct-inventory-write'')] @
        (if authToken \<noteq> [] then [(''Authorization'', ''Bearer '' @ authToken)] else []),
      orq_body = reqData\<rparr>"

definition check_response :: "string \<times> string \<Rightarrow> otlp_response \<Rightarrow> (writer_error, string) result" where
  "check_response origin resp = (case ors_origin resp of
      None \<Rightarrow> Error OriginUnknown
    | Some (scheme, host) \<Rightarrow>
        if scheme \<noteq> fst origin \<or> host \<noteq> snd origin then Error OriginMismatch
        else if ors_status_code resp < 200 \<or> ors_status_code resp \<ge> 300
        then Error (HTTPError (ors_status_code resp) (ors_status resp) ''request failed'')
        else Ok (ors_jwt_assertion resp))"

definition sendOTLPRequest :: "'w writer_env \<Rightarrow> string \<Rightarrow> string \<Rightarrow> string \<Rightarrow> string \<Rightarrow> string \<Rightarrow> string \<Rightarrow> 'w
    \<Rightarrow> (writer_error, string) result \<times> writer_event list \<times> 'w" where
  "sendOTLPRequest E reqData dataType collectionID machineID endpoint authToken w =
     (case request_origin (we_net E) endpoint of
        None \<Rightarrow> (Error CreateRequestFailed, [], w)
      | Some origin \<Rightarrow>
          (let rq = otlp_http_request reqData dataType collectionID machineID endpoint authToken;
               (r, w1) = we_do E rq w
           in (case r of Inl e \<Rightarrow> Error (SendFailed e) | Inr resp \<Rightarrow> check_response origin resp, [Sent rq], w1)))"

fun isUnauthorizedError :: "writer_error \<Rightarrow> bool" where
  "isUnauthorizedError (HTTPError code _ _) = (code = 401)"
| "isUnauthorizedError (FailedAfter _ (Some e)) = isUnauthorizedError e"
| "isUnauthorizedError (CriticalLogs e) = isUnauthorizedError e"
| "isUnauthorizedError _ = False"

definition calculateJitter_http :: "int option \<times> int \<Rightarrow> duration \<Rightarrow> duration" where
  "calculateJitter_http rnd maxJitter =
     (if maxJitter \<le> 0 then 0
      else let maxMs = maxJitter div time_Millisecond in
        if maxMs \<le> 0 then 0
        else (case fst rnd of
                Some randomMs \<Rightarrow> randomMs * time_Millisecond
              | None \<Rightarrow> (snd rnd mod maxMs) * time_Millisecond))"

section \<open>Retries\<close>

definition try_refresh :: "'w writer_env \<Rightarrow> bool \<Rightarrow> writer_error \<Rightarrow> 'w \<Rightarrow> string option \<times> writer_event list \<times> 'w" where
  "try_refresh E attempted err w =
     (case (if isUnauthorizedError err \<and> \<not> attempted then we_refresh E else None) of
        None \<Rightarrow> (None, [], w)
      | Some refresh \<Rightarrow>
          (case refresh w of
             (Inl e, w1) \<Rightarrow> (None, [Refreshed (Inl e)], w1)
           | (Inr newJWT, w1) \<Rightarrow> (Some newJWT, [Refreshed (Inr newJWT)], w1)))"

definition retry_delay :: "'w writer_env \<Rightarrow> 'w \<Rightarrow> duration \<times> 'w" where
  "retry_delay E w =
     (let (rnd, w1) = we_random E (defaultRetryDelay div 2 div time_Millisecond) w
      in (defaultRetryDelay + calculateJitter_http rnd (defaultRetryDelay div 2), w1))"

text \<open>
  The loop; \<open>send\<close> sends one request with the given token.  A refreshed token repeats the same attempt, and
  at most one refresh succeeds, so the loop ends.
\<close>

function retry_loop :: "'w writer_env \<Rightarrow> (string \<Rightarrow> 'w \<Rightarrow> (writer_error, string) result \<times> writer_event list \<times> 'w)
    \<Rightarrow> nat \<Rightarrow> nat \<Rightarrow> bool \<Rightarrow> string \<Rightarrow> writer_error option \<Rightarrow> 'w
    \<Rightarrow> (writer_error, string) result \<times> writer_event list \<times> 'w" where
  "retry_loop E send maxRetries attempt attempted tok lastErr w =
     (if attempt > maxRetries then (Error (FailedAfter maxRetries lastErr), [], w)
      else case send tok w of
        (Inr token, ev, w1) \<Rightarrow> (Ok token, ev, w1)
      | (Inl err, ev, w1) \<Rightarrow>
          (case try_refresh E attempted err w1 of
             (Some newJWT, ev1, w2) \<Rightarrow>
               (let (r, ev2, w3) = retry_loop E send maxRetries attempt True newJWT (Some err) w2
                in (r, ev @ ev1 @ ev2, w3))
           | (None, ev1, w2) \<Rightarrow>
               if attempt \<ge> maxRetries then (Error (FailedAfter maxRetries (Some err)), ev @ ev1, w2)
               else
                 (case retry_delay E w2 of (delay, w3) \<Rightarrow>
                  case we_wait E delay w3 of (ended, w4) \<Rightarrow>
                    if ended then (Error ContextEnded, ev @ ev1 @ [Waited delay], w4)
                    else (let (r, ev2, w5) = retry_loop E send maxRetries (Suc attempt) attempted tok (Some err) w4
                          in (r, ev @ ev1 @ Waited delay # ev2, w5)))))"
  by pat_completeness auto
termination
proof (relation "measure (\<lambda>(E, send, maxRetries, attempt, attempted, tok, lastErr, w).
    2 * (Suc maxRetries - attempt) + (if attempted then 0 else 1))", goal_cases)
  case (3 E send maxRetries attempt attempted tok lastErr w)
  then have "\<not> attempted" by (auto simp: try_refresh_def split: if_splits option.splits prod.splits sum.splits)
  then show ?case by simp
qed auto

declare retry_loop.simps [simp del]

definition sendOTLPRequestWithRetry :: "'w writer_env \<Rightarrow> string \<Rightarrow> string \<Rightarrow> string \<Rightarrow> string \<Rightarrow> string \<Rightarrow> int \<Rightarrow> string \<Rightarrow> 'w
    \<Rightarrow> (writer_error, string) result \<times> writer_event list \<times> 'w" where
  "sendOTLPRequestWithRetry E reqData dataType collectionID machineID endpoint maxRetries authToken w =
     retry_loop E (sendOTLPRequest E reqData dataType collectionID machineID endpoint)
       (if maxRetries \<le> 0 then 1 else nat maxRetries) 1 False authToken None w"

section \<open>Sending a collection\<close>

definition has_items :: "'a list option \<Rightarrow> bool" where
  "has_items xs = (case xs of None \<Rightarrow> False | Some l \<Rightarrow> length l > 0)"

text \<open>The metrics: a marshalling error is returned, a send that fails is only logged.\<close>

definition send_metrics :: "'w writer_env \<Rightarrow> health_data \<Rightarrow> otlp_data \<Rightarrow> string \<Rightarrow> int \<Rightarrow> string \<Rightarrow> 'w
    \<Rightarrow> (writer_error, string) result \<times> writer_event list \<times> 'w" where
  "send_metrics E d otlp metricsEndpoint maxRetries authToken w =
     (if has_items (od_Metrics otlp) \<and> metricsEndpoint \<noteq> [] then
        (case we_marshal_metrics E (the (od_Metrics otlp)) of
           Inl e \<Rightarrow> (Error (MarshalMetrics e), [], w)
         | Inr metricsBytes \<Rightarrow>
             (case sendOTLPRequestWithRetry E metricsBytes ''metrics'' (hd_CollectionID d) (hd_MachineID d) metricsEndpoint
                     maxRetries authToken w of
                (Inl _, ev, w1) \<Rightarrow> (Ok [], ev, w1)
              | (Inr token, ev, w1) \<Rightarrow> (Ok token, ev, w1)))
      else (Ok [], [], w))"

definition send_logs :: "'w writer_env \<Rightarrow> health_data \<Rightarrow> otlp_data \<Rightarrow> string \<Rightarrow> int \<Rightarrow> string \<Rightarrow> string \<Rightarrow> 'w
    \<Rightarrow> (string \<times> writer_error option) \<times> writer_event list \<times> 'w" where
  "send_logs E d otlp logsEndpoint maxRetries authToken newToken w =
     (if has_items (od_Logs otlp) \<and> logsEndpoint \<noteq> [] then
        (case we_marshal_logs E (the (od_Logs otlp)) of
           Inl e \<Rightarrow> ((newToken, Some (MarshalLogs e)), [], w)
         | Inr logsBytes \<Rightarrow>
             (case sendOTLPRequestWithRetry E logsBytes ''logs'' (hd_CollectionID d) (hd_MachineID d) logsEndpoint
                     maxRetries authToken w of
                (Inl e, ev, w1) \<Rightarrow> ((newToken, Some (CriticalLogs e)), ev, w1)
              | (Inr token, ev, w1) \<Rightarrow> ((if token \<noteq> [] then token else newToken, None), ev, w1)))
      else ((newToken, None), [], w))"

text \<open>\<open>Send\<close> returns a token and an error, both of which the caller may look at.\<close>

definition http_Send :: "'w writer_env \<Rightarrow> health_data option \<Rightarrow> string \<Rightarrow> string \<Rightarrow> int \<Rightarrow> string \<Rightarrow> 'w
    \<Rightarrow> (string \<times> writer_error option) \<times> writer_event list \<times> 'w" where
  "http_Send E data metricsEndpoint logsEndpoint maxRetries authToken w =
     (case data of
        None \<Rightarrow> (([], Some NilHealthData), [], w)
      | Some d \<Rightarrow>
          (let otlpData = otlp_Convert (we_convert E) d in
           case send_metrics E d otlpData metricsEndpoint maxRetries authToken w of
             (Inl e, ev, w1) \<Rightarrow> (([], Some e), ev, w1)
           | (Inr newToken, ev, w1) \<Rightarrow>
               (let (r, ev2, w2) = send_logs E d otlpData logsEndpoint maxRetries authToken newToken w1
                in (r, ev @ ev2, w2))))"

section \<open>Bounds\<close>

definition sends :: "writer_event list \<Rightarrow> nat" where
  "sends ev = length (filter (\<lambda>e. case e of Sent _ \<Rightarrow> True | _ \<Rightarrow> False) ev)"

definition refreshes :: "writer_event list \<Rightarrow> nat" where
  "refreshes ev = length (filter (\<lambda>e. case e of Refreshed (Inr _) \<Rightarrow> True | _ \<Rightarrow> False) ev)"

definition waits :: "writer_event list \<Rightarrow> duration list" where
  "waits ev = List.map_filter (\<lambda>e. case e of Waited d \<Rightarrow> Some d | _ \<Rightarrow> None) ev"

lemma count_simps [simp]:
  "sends [] = 0" "sends (Sent r # ev) = Suc (sends ev)" "sends (Refreshed x # ev) = sends ev" "sends (Waited d # ev) = sends ev"
  "sends (ev @ ev') = sends ev + sends ev'"
  "refreshes [] = 0" "refreshes (Sent r # ev) = refreshes ev" "refreshes (Refreshed (Inr t) # ev) = Suc (refreshes ev)"
  "refreshes (Refreshed (Inl t) # ev) = refreshes ev" "refreshes (Waited d # ev) = refreshes ev"
  "refreshes (ev @ ev') = refreshes ev + refreshes ev'"
  "waits [] = []" "waits (Sent r # ev) = waits ev" "waits (Refreshed x # ev) = waits ev" "waits (Waited d # ev) = d # waits ev"
  "waits (ev @ ev') = waits ev @ waits ev'"
  by (simp_all add: sends_def refreshes_def waits_def List.map_filter_simps List.map_filter_def)

text \<open>What one call of the single send contributes.\<close>

definition single_send :: "(string \<Rightarrow> 'w \<Rightarrow> (writer_error, string) result \<times> writer_event list \<times> 'w) \<Rightarrow> bool" where
  "single_send send \<longleftrightarrow> (\<forall>tok w. sends (fst (snd (send tok w))) \<le> 1 \<and> refreshes (fst (snd (send tok w))) = 0
     \<and> waits (fst (snd (send tok w))) = [])"

lemma single_sendD:
  "single_send send \<Longrightarrow> send tok w = (r, ev, w1) \<Longrightarrow> sends ev \<le> 1 \<and> refreshes ev = 0 \<and> waits ev = []"
  unfolding single_send_def by (metis fst_conv snd_conv)

lemma sendOTLPRequest_single: "single_send (sendOTLPRequest E b t c m ep)"
  by (simp add: single_send_def sendOTLPRequest_def Let_def split: option.split prod.split)

lemma try_refresh_events:
  "try_refresh E attempted err w = (j, ev, w1) \<Longrightarrow>
     sends ev = 0 \<and> waits ev = [] \<and> refreshes ev = (if j = None then 0 else 1) \<and> (j \<noteq> None \<longrightarrow> \<not> attempted) \<and>
     ev = (case j of Some t \<Rightarrow> [Refreshed (Inr t)] | None \<Rightarrow> ev)"
  by (auto simp: try_refresh_def split: if_splits option.splits prod.splits sum.splits)

text \<open>
  The loop as a rule: a property that holds when the loop gives up or succeeds at once, and is passed on from
  the rest of the loop by a refresh and by a wait, holds of every run.
\<close>

lemma retry_loop_rule [consumes 1, case_names over ok refreshed gave_up ended again]:
  assumes "retry_loop E send maxRetries attempt attempted tok lastErr w = (r, ev, w1)"
    and "\<And>attempt attempted tok lastErr w. attempt > maxRetries \<Longrightarrow>
           P attempt attempted tok w (Inl (FailedAfter maxRetries lastErr)) [] w"
    and "\<And>attempt attempted tok w token ev w1. attempt \<le> maxRetries \<Longrightarrow> send tok w = (Inr token, ev, w1) \<Longrightarrow>
           P attempt attempted tok w (Inr token) ev w1"
    and "\<And>attempt attempted tok w err ev0 w0 j w2 r ev2 w3. attempt \<le> maxRetries \<Longrightarrow> send tok w = (Inl err, ev0, w0) \<Longrightarrow>
           \<not> attempted \<Longrightarrow> try_refresh E attempted err w0 = (Some j, [Refreshed (Inr j)], w2) \<Longrightarrow>
           P attempt True j w2 r ev2 w3 \<Longrightarrow> P attempt attempted tok w r (ev0 @ Refreshed (Inr j) # ev2) w3"
    and "\<And>attempt attempted tok w err ev0 w0 ev1 w2. attempt = maxRetries \<Longrightarrow> send tok w = (Inl err, ev0, w0) \<Longrightarrow>
           try_refresh E attempted err w0 = (None, ev1, w2) \<Longrightarrow>
           P attempt attempted tok w (Inl (FailedAfter maxRetries (Some err))) (ev0 @ ev1) w2"
    and "\<And>attempt attempted tok w err ev0 w0 ev1 w2 delay w3 w4. attempt < maxRetries \<Longrightarrow> send tok w = (Inl err, ev0, w0) \<Longrightarrow>
           try_refresh E attempted err w0 = (None, ev1, w2) \<Longrightarrow> retry_delay E w2 = (delay, w3) \<Longrightarrow> we_wait E delay w3 = (True, w4) \<Longrightarrow>
           P attempt attempted tok w (Inl ContextEnded) (ev0 @ ev1 @ [Waited delay]) w4"
    and "\<And>attempt attempted tok w err ev0 w0 ev1 w2 delay w3 w4 r ev2 w5. attempt < maxRetries \<Longrightarrow> send tok w = (Inl err, ev0, w0) \<Longrightarrow>
           try_refresh E attempted err w0 = (None, ev1, w2) \<Longrightarrow> retry_delay E w2 = (delay, w3) \<Longrightarrow> we_wait E delay w3 = (False, w4) \<Longrightarrow>
           P (Suc attempt) attempted tok w4 r ev2 w5 \<Longrightarrow> P attempt attempted tok w r (ev0 @ ev1 @ Waited delay # ev2) w5"
  shows "P attempt attempted tok w r ev w1"
  using assms
proof (induction E send maxRetries attempt attempted tok lastErr w arbitrary: r ev w1 rule: retry_loop.induct)
  case (1 E send maxRetries attempt attempted tok lastErr w)
  note run = 1(3) [unfolded retry_loop.simps [of E send maxRetries attempt attempted tok lastErr w]]
  show ?case
  proof (cases "attempt > maxRetries")
    case True
    then show ?thesis using run 1(4) by auto
  next
    case False
    obtain r0 ev0 w0 where s: "send tok w = (r0, ev0, w0)" by (metis prod_cases3)
    show ?thesis
    proof (cases r0)
      case (Inr token)
      then show ?thesis using run False s 1(5) by (auto simp: not_less)
    next
      case (Inl err)
      obtain j ev1 w2 where t: "try_refresh E attempted err w0 = (j, ev1, w2)" by (metis prod_cases3)
      show ?thesis
      proof (cases j)
        case (Some jwt)
        obtain r2 ev2 w3 where l: "retry_loop E send maxRetries attempt True jwt (Some err) w2 = (r2, ev2, w3)" by (metis prod_cases3)
        have e: "ev1 = [Refreshed (Inr jwt)]" "\<not> attempted" using try_refresh_events [OF t] Some by simp_all
        have "P attempt True jwt w2 r2 ev2 w3"
          by (rule 1(2) [OF False s [symmetric] Inl refl t [symmetric] Some refl l 1(4-9)])
        then have "P attempt attempted tok w r2 (ev0 @ Refreshed (Inr jwt) # ev2) w3"
          using 1(6) [of attempt tok w err ev0 w0 attempted jwt w2] False s Inl t Some e by simp
        moreover have "r = r2" "ev = ev0 @ Refreshed (Inr jwt) # ev2" "w1 = w3"
          using run False s Inl t Some l e by simp_all
        ultimately show ?thesis by simp
      next
        case None
        show ?thesis
        proof (cases "attempt = maxRetries")
          case True
          then show ?thesis using run s Inl t None 1(7) by auto
        next
          case nm: False
          obtain delay w3 where d: "retry_delay E w2 = (delay, w3)" by (metis prod.exhaust)
          obtain ended w4 where wt: "we_wait E delay w3 = (ended, w4)" by (metis prod.exhaust)
          have lt: "attempt < maxRetries" and nl: "\<not> maxRetries \<le> attempt" using False nm by simp_all
          show ?thesis
          proof (cases ended)
            case True
            then show ?thesis using run lt s Inl t None d wt 1(8) by auto
          next
            case ne: False
            obtain r2 ev2 w5 where l: "retry_loop E send maxRetries (Suc attempt) attempted tok (Some err) w4 = (r2, ev2, w5)"
              by (metis prod_cases3)
            have "P (Suc attempt) attempted tok w4 r2 ev2 w5"
              by (rule 1(1) [OF False s [symmetric] Inl refl t [symmetric] None refl nl d [symmetric] wt [symmetric] ne l 1(4-9)])
            then have "P attempt attempted tok w r2 (ev0 @ ev1 @ Waited delay # ev2) w5"
              using 1(9) [of attempt tok w err ev0 w0 attempted ev1 w2 delay w3 w4] lt s Inl t None d wt ne by simp
            moreover have "r = r2" "ev = ev0 @ ev1 @ Waited delay # ev2" "w1 = w5"
              using run lt s Inl t None d wt ne l by simp_all
            ultimately show ?thesis by simp
          qed
        qed
      qed
    qed
  qed
qed

lemma retry_loop_bounds:
  assumes "single_send send" "retry_loop E send maxRetries attempt attempted tok lastErr w = (r, ev, w1)"
  shows "sends ev \<le> (Suc maxRetries - attempt) + (if attempted then 0 else 1) \<and>
    refreshes ev \<le> (if attempted then 0 else 1) \<and> length (waits ev) \<le> maxRetries - attempt"
  using assms(2)
proof (induction rule: retry_loop_rule)
  case (refreshed attempt attempted tok w err ev0 w0 j w2 r ev2 w3)
  then show ?case using single_sendD [OF assms(1) refreshed(2)] by simp
next
  case (again attempt attempted tok w err ev0 w0 ev1 w2 delay w3 w4 r ev2 w5)
  then show ?case using single_sendD [OF assms(1) again(2)] try_refresh_events [OF again(3)] by (auto split: if_splits)
qed (auto dest!: single_sendD [OF assms(1)] try_refresh_events)

text \<open>Every request of a log carries the token in force: the first one, until a refresh yields another.\<close>

fun tokens_in_force :: "(string \<Rightarrow> otlp_request) \<Rightarrow> string \<Rightarrow> writer_event list \<Rightarrow> bool" where
  "tokens_in_force mk tok [] = True"
| "tokens_in_force mk tok (Sent rq # ev) = (rq = mk tok \<and> tokens_in_force mk tok ev)"
| "tokens_in_force mk tok (Refreshed (Inr t) # ev) = tokens_in_force mk t ev"
| "tokens_in_force mk tok (_ # ev) = tokens_in_force mk tok ev"

fun token_after :: "string \<Rightarrow> writer_event list \<Rightarrow> string" where
  "token_after tok [] = tok"
| "token_after tok (Refreshed (Inr t) # ev) = token_after t ev"
| "token_after tok (_ # ev) = token_after tok ev"

lemma tokens_append:
  "tokens_in_force mk tok (ev @ ev') \<longleftrightarrow> tokens_in_force mk tok ev \<and> tokens_in_force mk (token_after tok ev) ev'"
  by (induction mk tok ev rule: tokens_in_force.induct) auto

definition request_maker :: "(string \<Rightarrow> 'w \<Rightarrow> (writer_error, string) result \<times> writer_event list \<times> 'w) \<Rightarrow> (string \<Rightarrow> otlp_request) \<Rightarrow> bool" where
  "request_maker send mk \<longleftrightarrow> (\<forall>tok w. fst (snd (send tok w)) = [] \<or> fst (snd (send tok w)) = [Sent (mk tok)])"

lemma request_makerD: "request_maker send mk \<Longrightarrow> send tok w = (r, ev, w1) \<Longrightarrow> ev = [] \<or> ev = [Sent (mk tok)]"
  unfolding request_maker_def by (metis fst_conv snd_conv)

lemma sendOTLPRequest_maker: "request_maker (sendOTLPRequest E b t c m ep) (otlp_http_request b t c m ep)"
  by (simp add: request_maker_def sendOTLPRequest_def Let_def split: option.split prod.split)

lemma try_refresh_tokens:
  "try_refresh E attempted err w = (None, ev, w1) \<Longrightarrow> token_after tok ev = tok \<and> tokens_in_force mk tok ev"
  by (auto simp: try_refresh_def split: if_splits option.splits prod.splits sum.splits)

lemma retry_loop_tokens:
  assumes "request_maker send mk" "retry_loop E send maxRetries attempt attempted tok lastErr w = (r, ev, w1)"
  shows "tokens_in_force mk tok ev"
  using assms(2)
proof (induction rule: retry_loop_rule)
  case (refreshed attempt attempted tok w err ev0 w0 j w2 r ev2 w3)
  then show ?case using request_makerD [OF assms(1) refreshed(2)] by auto
next
  case (again attempt attempted tok w err ev0 w0 ev1 w2 delay w3 w4 r ev2 w5)
  then show ?case
    using request_makerD [OF assms(1) again(2)] try_refresh_tokens [OF again(3), of tok mk] by (auto simp: tokens_append)
qed (auto dest!: request_makerD [OF assms(1)] simp: tokens_append try_refresh_tokens)

text \<open>A successful send ends with a request that was answered from its own origin with a 2xx status.\<close>

lemma retry_loop_success:
  assumes "retry_loop E send maxRetries attempt attempted tok lastErr w = (Inr token, ev, w1)"
  shows "\<exists>tok' w' ev'. send tok' w' = (Inr token, ev', w1) \<and> suffix ev' ev"
proof -
  have "\<forall>token. r = Inr token \<longrightarrow> (\<exists>tok' w' ev'. send tok' w' = (Inr token, ev', w1) \<and> suffix ev' ev)"
    if "retry_loop E send maxRetries attempt attempted tok lastErr w = (r, ev, w1)" for r
    using that by (induction rule: retry_loop_rule) (auto intro: suffix_appendI suffix_ConsI, (metis suffix_appendI suffix_ConsI)+)
  with assms show ?thesis by blast
qed

lemma retry_loop_waits:
  assumes "single_send send" "\<And>b w. 0 < b \<Longrightarrow> case fst (fst (we_random E b w)) of None \<Rightarrow> True | Some n \<Rightarrow> 0 \<le> n \<and> n < b"
    "retry_loop E send maxRetries attempt attempted tok lastErr w = (r, ev, w1)"
  shows "\<forall>d \<in> set (waits ev). 5 * time_Second \<le> d \<and> 2 * d < 15 * time_Second"
proof -
  have d: "5 * time_Second \<le> d \<and> 2 * d < 15 * time_Second" if "retry_delay E w = (d, w')" for d w w'
    using that assms(2) [of "defaultRetryDelay div 2 div time_Millisecond" w]
    by (auto simp: retry_delay_def calculateJitter_http_def defaultRetryDelay_def duration_defs Let_def
             split: prod.splits option.splits if_splits)
  show ?thesis
    using assms(3)
  proof (induction rule: retry_loop_rule)
    case (again attempt attempted tok w err ev0 w0 ev1 w2 delay w3 w4 r ev2 w5)
    then show ?case using single_sendD [OF assms(1) again(2)] try_refresh_events [OF again(3)] d by auto
  qed (auto dest!: single_sendD [OF assms(1)] try_refresh_events dest: d)
qed

lemma first_send_logged:
  assumes "sendOTLPRequestWithRetry E b t c m ep n tok w = (r, [], w1)"
  shows "request_origin (we_net E) ep = None"
proof (rule ccontr)
  assume o: "request_origin (we_net E) ep \<noteq> None"
  have sent: "ev \<noteq> []" if "sendOTLPRequest E b t c m ep tok w = (r, ev, w1)" for tok w r ev w1
    using that o by (auto simp: sendOTLPRequest_def Let_def split: option.splits prod.splits)
  have "attempt \<le> k \<longrightarrow> ev \<noteq> []" if "retry_loop E (sendOTLPRequest E b t c m ep) k attempt attempted tok lastErr w = (r, ev, w1)"
    for k attempt attempted tok lastErr w r ev w1
    using that by (induction rule: retry_loop_rule) (auto dest: sent)
  from this [OF assms [unfolded sendOTLPRequestWithRetry_def]] show False by (simp split: if_splits)
qed

section \<open>Preserving the world\<close>

text \<open>
  The contract of an environment whose calls respect a reflexive and transitive relation of worlds; every
  send then respects it, whatever fails.
\<close>

locale world_preserving =
  fixes E :: "'w writer_env" and keeps :: "'w \<Rightarrow> 'w \<Rightarrow> bool"
  assumes keeps_refl: "keeps w w"
    and keeps_trans: "keeps u v \<Longrightarrow> keeps v w \<Longrightarrow> keeps u w"
    and do_keeps: "keeps w (snd (we_do E rq w))"
    and refresh_keeps: "we_refresh E = Some f \<Longrightarrow> keeps w (snd (f w))"
    and wait_keeps: "keeps w (snd (we_wait E d w))"
    and random_keeps: "keeps w (snd (we_random E b w))"
begin

lemma request_keeps: "sendOTLPRequest E b t c m ep tok w = (r, ev, w1) \<Longrightarrow> keeps w w1"
  using do_keeps [of w "otlp_http_request b t c m ep tok"] keeps_refl
  by (auto simp: sendOTLPRequest_def Let_def split: option.splits prod.splits)

lemma try_refresh_keeps: "try_refresh E attempted err w = (j, ev, w1) \<Longrightarrow> keeps w w1"
  using refresh_keeps [of _ w] keeps_refl
  by (auto simp: try_refresh_def split: if_splits option.splits prod.splits sum.splits)

lemma delay_keeps: "retry_delay E w = (d, w1) \<Longrightarrow> keeps w w1"
  using random_keeps [of w "defaultRetryDelay div 2 div time_Millisecond"] by (auto simp: retry_delay_def split: prod.splits)

lemma loop_keeps:
  assumes "retry_loop E (sendOTLPRequest E b t c m ep) n attempt attempted tok lastErr w = (r, ev, w1)"
  shows "keeps w w1"
  using assms
proof (induction rule: retry_loop_rule)
  case (over attempt attempted tok lastErr w)
  show ?case by (rule keeps_refl)
next
  case (ok attempt attempted tok w token ev w1)
  then show ?case using request_keeps by blast
next
  case (refreshed attempt attempted tok w err ev0 w0 j w2 r ev2 w3)
  then show ?case using request_keeps try_refresh_keeps keeps_trans by meson
next
  case (gave_up attempt attempted tok w err ev0 w0 ev1 w2)
  then show ?case using request_keeps try_refresh_keeps keeps_trans by meson
next
  case (ended attempt attempted tok w err ev0 w0 ev1 w2 delay w3 w4)
  then have "keeps w0 w2" "keeps w2 w3" "keeps w3 w4" "keeps w w0"
    using request_keeps try_refresh_keeps delay_keeps wait_keeps [of w3 delay] by simp_all
  then show ?case using keeps_trans by blast
next
  case (again attempt attempted tok w err ev0 w0 ev1 w2 delay w3 w4 r ev2 w5)
  then have "keeps w0 w2" "keeps w2 w3" "keeps w3 w4" "keeps w w0"
    using request_keeps try_refresh_keeps delay_keeps wait_keeps [of w3 delay] by simp_all
  then show ?case using again keeps_trans by blast
qed

lemma retry_keeps: "sendOTLPRequestWithRetry E b t c m ep n tok w = (r, ev, w1) \<Longrightarrow> keeps w w1"
  unfolding sendOTLPRequestWithRetry_def by (rule loop_keeps)

lemma metrics_keeps: "send_metrics E d x ep n tok w = (r, ev, w1) \<Longrightarrow> keeps w w1"
  using keeps_refl by (auto simp: send_metrics_def dest: retry_keeps split: if_splits sum.splits prod.splits)

lemma logs_keeps: "send_logs E d x ep n tok t w = (r, ev, w1) \<Longrightarrow> keeps w w1"
  using keeps_refl by (auto simp: send_logs_def dest: retry_keeps split: if_splits sum.splits prod.splits)

lemma Send_keeps:
  assumes "http_Send E data me le n tok w = (r, ev, w1)"
  shows "keeps w w1"
proof (cases data)
  case None
  then show ?thesis using assms keeps_refl by (simp add: http_Send_def)
next
  case (Some d)
  let ?x = "otlp_Convert (we_convert E) d"
  obtain r1 ev1 w2 where m: "send_metrics E d ?x me n tok w = (r1, ev1, w2)" by (metis prod_cases3)
  obtain r2 ev2 w3 where l: "send_logs E d ?x le n tok (case r1 of Inr t \<Rightarrow> t) w2 = (r2, ev2, w3)" by (metis prod_cases3)
  show ?thesis
    using assms m l metrics_keeps [OF m] logs_keeps [OF l] keeps_trans
    by (auto simp: http_Send_def Some Let_def split: sum.splits prod.splits)
qed

end

text \<open>A writer in worlds where refreshing the token fails, and that stay so: no send ever has a fresh token.\<close>

locale refresh_barred = world_preserving E keeps for E :: "'w writer_env" and keeps +
  fixes barred :: "'w \<Rightarrow> bool"
  assumes barred_kept: "keeps w w1 \<Longrightarrow> barred w \<Longrightarrow> barred w1"
    and refresh_fails: "we_refresh E = Some f \<Longrightarrow> barred w \<Longrightarrow> \<exists>e w1. f w = (Inl e, w1)"
begin

lemma try_refresh_fails: "try_refresh E attempted err w = (j, ev, w1) \<Longrightarrow> barred w \<Longrightarrow> j = None \<and> refreshes ev = 0"
  by (auto simp: try_refresh_def dest: refresh_fails split: if_splits option.splits prod.splits sum.splits)

lemma loop_unrefreshed:
  assumes "retry_loop E (sendOTLPRequest E b t c m ep) n attempt attempted tok lastErr w = (r, ev, w1)" "barred w"
  shows "refreshes ev = 0"
proof -
  have single: "refreshes ev = 0" if "sendOTLPRequest E b t c m ep tok w = (r, ev, w1)" for tok w r ev w1
    using single_sendD [OF sendOTLPRequest_single that] by simp
  have "barred w \<longrightarrow> refreshes ev = 0" using assms(1)
  proof (induction rule: retry_loop_rule)
    case (refreshed attempt attempted tok w err ev0 w0 j w2 r ev2 w3)
    then show ?case using request_keeps barred_kept try_refresh_fails by blast
  next
    case (gave_up attempt attempted tok w err ev0 w0 ev1 w2)
    then show ?case using single request_keeps barred_kept try_refresh_fails by fastforce
  next
    case (ended attempt attempted tok w err ev0 w0 ev1 w2 delay w3 w4)
    then show ?case using single request_keeps barred_kept try_refresh_fails by fastforce
  next
    case (again attempt attempted tok w err ev0 w0 ev1 w2 delay w3 w4 r ev2 w5)
    then have k: "keeps w w0" "keeps w0 w2" "keeps w2 w3" "keeps w3 w4"
      using request_keeps try_refresh_keeps delay_keeps wait_keeps [of w3 delay] by simp_all
    show ?case
    proof
      assume "barred w"
      with k have "barred w0" "barred w4" using barred_kept by blast+
      then show "refreshes (ev0 @ ev1 @ Waited delay # ev2) = 0"
        using again single [OF again(2)] try_refresh_fails [OF again(3)] by simp
    qed
  qed (use single in simp_all)
  with assms(2) show ?thesis by simp
qed

lemma Send_unrefreshed:
  assumes "http_Send E data me le n tok w = (r, ev, w1)" "barred w"
  shows "refreshes ev = 0"
proof (cases data)
  case None
  then show ?thesis using assms by (simp add: http_Send_def)
next
  case (Some d)
  let ?x = "otlp_Convert (we_convert E) d"
  obtain r1 ev1 w2 where m: "send_metrics E d ?x me n tok w = (r1, ev1, w2)" by (metis prod_cases3)
  obtain r2 ev2 w3 where l: "send_logs E d ?x le n tok (case r1 of Inr t \<Rightarrow> t) w2 = (r2, ev2, w3)" by (metis prod_cases3)
  have "barred w2" using metrics_keeps [OF m] assms(2) barred_kept by blast
  then have "refreshes ev1 = 0" "refreshes ev2 = 0"
    using m l assms(2)
    by (auto simp: send_metrics_def send_logs_def sendOTLPRequestWithRetry_def dest: loop_unrefreshed split: if_splits sum.splits prod.splits)
  then show ?thesis using assms(1) m l by (auto simp: http_Send_def Some Let_def split: sum.splits prod.splits)
qed

end

section \<open>Properties\<close>

text \<open>The random source yields a number below its bound, or fails.\<close>

definition random_in_range :: "'w writer_env \<Rightarrow> bool" where
  "random_in_range E \<longleftrightarrow> (\<forall>b w. 0 < b \<longrightarrow> (case fst (fst (we_random E b w)) of None \<Rightarrow> True | Some n \<Rightarrow> 0 \<le> n \<and> n < b))"

text \<open>
  C12: A send with retries always ends after at most one request more than the configured attempts (at least
  one), with at most one successful token refresh, and waits between attempts for at least 5 and less than
  7.5 seconds, at least once less often than it may attempt.
\<close>

theorem retries_bounded:
  assumes "sendOTLPRequestWithRetry E body dataType cid mid ep maxRetries tok w = (r, ev, w1)" "random_in_range E"
  shows "sends ev \<le> max 1 (nat maxRetries) + 1 \<and> refreshes ev \<le> 1 \<and> length (waits ev) < max 1 (nat maxRetries) \<and>
    (\<forall>d \<in> set (waits ev). 5 * time_Second \<le> d \<and> 2 * d < 15 * time_Second)"
proof -
  let ?n = "if maxRetries \<le> 0 then 1 else nat maxRetries"
  have n: "?n = max 1 (nat maxRetries)" by auto
  note l = assms(1) [unfolded sendOTLPRequestWithRetry_def n]
  have "\<forall>d \<in> set (waits ev). 5 * time_Second \<le> d \<and> 2 * d < 15 * time_Second"
    using retry_loop_waits [OF sendOTLPRequest_single _ l] assms(2) by (simp add: random_in_range_def)
  moreover have "length (waits ev) < max 1 (nat maxRetries)"
    using retry_loop_bounds [OF sendOTLPRequest_single l] by (auto simp: max_def)
  ultimately show ?thesis using retry_loop_bounds [OF sendOTLPRequest_single l] by auto
qed

text \<open>A network that answers every request with the given status, and a refresh that yields a token.\<close>

definition sample_writer :: "int \<Rightarrow> nat writer_env" where
  "sample_writer status = \<lparr>we_net = plain_netlib,
     we_do = (\<lambda>rq w. (Inr \<lparr>ors_origin = Some (''https'', ''b.example''), ors_status_code = status, ors_status = [], ors_jwt_assertion = ''next''\<rparr>, Suc w)),
     we_refresh = Some (\<lambda>w. (Inr ''fresh'', w)), we_wait = (\<lambda>d w. (False, w)), we_random = (\<lambda>b w. ((Some 0, 0), w)),
     we_marshal_metrics = (\<lambda>m. Inr ''metrics''), we_marshal_logs = (\<lambda>l. Inr ''logs''), we_convert = sample_conv_env\<rparr>"

theorem retries_bounded_witness:
  "\<exists>r ev w1. sendOTLPRequestWithRetry (sample_writer 401) ''body'' ''logs'' ''c'' ''m'' ''https://b.example/v1'' 2 ''old'' 0 = (r, ev, w1) \<and>
     sends ev = 3 \<and> sends ev \<le> max 1 (nat 2) + 1 \<and> refreshes ev \<le> 1"
proof -
  obtain r ev w1 where e: "sendOTLPRequestWithRetry (sample_writer 401) ''body'' ''logs'' ''c'' ''m'' ''https://b.example/v1'' 2 ''old'' 0 = (r, ev, w1)"
    by (metis prod_cases3)
  have "random_in_range (sample_writer 401)" by (simp add: random_in_range_def sample_writer_def)
  note b = retries_bounded [OF e this]
  have "sends (fst (snd (sendOTLPRequestWithRetry (sample_writer 401) ''body'' ''logs'' ''c'' ''m'' ''https://b.example/v1'' 2 ''old'' 0))) = 3"
    by code_simp
  then have "sends ev = 3" by (simp add: e)
  with e b show ?thesis by blast
qed

text \<open>
  A collection with data is sent as the metrics, then the logs, whatever happens to the metrics: all
  requests of one part are the same except for the token, carry the collection and machine IDs and go to the
  endpoint of the part; each part starts with the given token and changes it only to one a refresh returned.
\<close>

theorem send_parts_and_tokens:
  assumes "http_Send E (Some d) me le maxRetries tok w = ((newToken, err), ev, w1)"
    "we_marshal_metrics E (the (od_Metrics (otlp_Convert (we_convert E) d))) = Inr metrics"
    "we_marshal_logs E (the (od_Logs (otlp_Convert (we_convert E) d))) = Inr logs"
  shows "\<exists>ev1 ev2. ev = ev1 @ ev2 \<and>
    tokens_in_force (otlp_http_request metrics ''metrics'' (hd_CollectionID d) (hd_MachineID d) me) tok ev1 \<and>
    tokens_in_force (otlp_http_request logs ''logs'' (hd_CollectionID d) (hd_MachineID d) le) tok ev2 \<and>
    (me = [] \<longrightarrow> ev1 = []) \<and> (le = [] \<longrightarrow> ev2 = []) \<and>
    (err \<noteq> None \<longrightarrow> (\<exists>e. err = Some (CriticalLogs e)) \<and> le \<noteq> []) \<and>
    (le \<noteq> [] \<and> request_origin (we_net E) le \<noteq> None \<longrightarrow> ev2 \<noteq> [])"
proof -
  let ?x = "otlp_Convert (we_convert E) d"
  have items: "has_items (od_Metrics ?x)" "has_items (od_Logs ?x)" by (simp_all add: otlp_Convert_def has_items_def Let_def)
  obtain r1 ev1 w2 where m: "send_metrics E d ?x me maxRetries tok w = (r1, ev1, w2)" by (metis prod_cases3)
  have m1: "tokens_in_force (otlp_http_request metrics ''metrics'' (hd_CollectionID d) (hd_MachineID d) me) tok ev1 \<and>
      (me = [] \<longrightarrow> ev1 = []) \<and> (\<exists>t. r1 = Inr t)"
    using m retry_loop_tokens [OF sendOTLPRequest_maker]
    by (auto simp: send_metrics_def items assms(2) sendOTLPRequestWithRetry_def split: if_splits sum.splits prod.splits)
  then obtain t where t: "r1 = Inr t" by blast
  obtain r2 ev2 w3 where l: "send_logs E d ?x le maxRetries tok t w2 = (r2, ev2, w3)" by (metis prod_cases3)
  have r: "r2 = (newToken, err)" "ev = ev1 @ ev2" using assms(1) m l t by (simp_all add: http_Send_def)
  have "ev2 \<noteq> []" if "le \<noteq> []" "request_origin (we_net E) le \<noteq> None"
    using l that by (auto simp: send_logs_def items assms(3) dest: first_send_logged split: if_splits sum.splits prod.splits)
  moreover have "tokens_in_force (otlp_http_request logs ''logs'' (hd_CollectionID d) (hd_MachineID d) le) tok ev2 \<and>
      (le = [] \<longrightarrow> ev2 = []) \<and> (err \<noteq> None \<longrightarrow> (\<exists>e. err = Some (CriticalLogs e)) \<and> le \<noteq> [])"
    using l r(1) retry_loop_tokens [OF sendOTLPRequest_maker]
    by (auto simp: send_logs_def items assms(3) sendOTLPRequestWithRetry_def split: if_splits sum.splits prod.splits)
  ultimately show ?thesis using m1 r(2) by blast
qed

theorem send_parts_and_tokens_witness:
  "\<exists>newToken err ev w1. http_Send (sample_writer 401) (Some (sample_data [] [])) ''https://b.example/m'' ''https://b.example/l'' 1 ''old'' 0
       = ((newToken, err), ev, w1) \<and>
     (\<exists>ev1 ev2. ev = ev1 @ ev2 \<and> ev2 \<noteq> [] \<and>
        tokens_in_force (otlp_http_request ''logs'' ''logs'' ''c'' ''m-1'' ''https://b.example/l'') ''old'' ev2)"
proof -
  obtain newToken err ev w1 where e: "http_Send (sample_writer 401) (Some (sample_data [] [])) ''https://b.example/m''
      ''https://b.example/l'' 1 ''old'' 0 = ((newToken, err), ev, w1)" by (metis prod.exhaust)
  have m: "we_marshal_metrics (sample_writer 401) x = Inr ''metrics''" "we_marshal_logs (sample_writer 401) y = Inr ''logs''" for x y
    by (simp_all add: sample_writer_def)
  have h: "hd_CollectionID (sample_data [] []) = ''c''" "hd_MachineID (sample_data [] []) = ''m-1''" by (simp_all add: sample_data_def)
  have o: "request_origin (we_net (sample_writer 401)) ''https://b.example/l'' \<noteq> None" by code_simp
  obtain ev1 ev2 where "ev = ev1 @ ev2" "ev2 \<noteq> []"
    "tokens_in_force (otlp_http_request ''logs'' ''logs'' ''c'' ''m-1'' ''https://b.example/l'') ''old'' ev2"
    using send_parts_and_tokens [OF e m, unfolded h] o by (elim exE conjE) (simp only: list.distinct simp_thms)
  with e show ?thesis by blast
qed

text \<open>
  A send succeeds only with a response that came from the endpoint's own scheme and host with a 2xx
  status; it is the answer to the last request, and the token returned is the one in its header.
\<close>

theorem success_from_own_origin:
  assumes "sendOTLPRequestWithRetry E body dataType cid mid ep maxRetries tok w = (Inr token, ev, w1)"
  shows "\<exists>rq resp w0. last ev = Sent rq \<and> we_do E rq w0 = (Inr resp, w1) \<and> orq_url rq = ep \<and> orq_body rq = body \<and>
    ors_origin resp = request_origin (we_net E) ep \<and> 200 \<le> ors_status_code resp \<and> ors_status_code resp < 300 \<and>
    token = ors_jwt_assertion resp"
proof -
  obtain tok' w' ev' where s: "sendOTLPRequest E body dataType cid mid ep tok' w' = (Inr token, ev', w1)" "suffix ev' ev"
    using retry_loop_success assms unfolding sendOTLPRequestWithRetry_def by metis
  then obtain rq resp where "ev' = [Sent rq]" "we_do E rq w' = (Inr resp, w1)" "orq_url rq = ep" "orq_body rq = body"
    "ors_origin resp = request_origin (we_net E) ep" "200 \<le> ors_status_code resp" "ors_status_code resp < 300"
    "token = ors_jwt_assertion resp"
    by (auto simp: sendOTLPRequest_def check_response_def otlp_http_request_def Let_def
             split: option.splits prod.splits sum.splits if_splits)
  moreover have "last ev = Sent rq" using s(2) \<open>ev' = [Sent rq]\<close> by (auto simp: suffix_def)
  ultimately show ?thesis by blast
qed

theorem success_from_own_origin_witness:
  "\<exists>rq resp w0. we_do (sample_writer 200) rq w0 = (Inr resp, 1) \<and> orq_url rq = ''https://b.example/v1'' \<and> ors_jwt_assertion resp = ''next''"
proof -
  have "sendOTLPRequestWithRetry (sample_writer 200) ''body'' ''logs'' ''c'' ''m'' ''https://b.example/v1'' 2 ''old'' 0
      = (Inr ''next'', [Sent (otlp_http_request ''body'' ''logs'' ''c'' ''m'' ''https://b.example/v1'' ''old'')], 1)"
    by code_simp
  from success_from_own_origin [OF this] show ?thesis by metis
qed

end
