(* ===== verification/Csv_Converter.thy ===== *)
theory Csv_Converter
  imports Otlp_Converter
begin

text \<open>
  Offline export: \<open>internal/exporter/converter/csv.go\<close> and \<open>internal/exporter/writer/file.go\<close>.  The model
  includes what they use of \<open>encoding/csv\<close>: when a field is quoted, how, and that the writer is buffered,
  so that an error of the file shows up in \<open>Write\<close> only after more than 4096 bytes, or in \<open>Flush\<close>.

  The round trip is stated for a consumer that reads a file with the reader of the same package (\<open>csv_ReadAll\<close>, as it is
  documented) and looks the values up by the names of the columns (\<open>file_rows\<close>).  The file system is
  the record \<open>file_env\<close>: which files can be created and written, and how times, numbers and JSON are printed.
\<close>

section \<open>Package encoding/csv\<close>

abbreviation comma :: char where "comma \<equiv> CHR '',''"
abbreviation dquote :: char where "dquote \<equiv> CHR 0x22"
abbreviation newline :: char where "newline \<equiv> CHR 0x0A"
abbreviation creturn :: char where "creturn \<equiv> CHR 0x0D"

definition fieldNeedsQuotes :: "string \<Rightarrow> bool" where
  "fieldNeedsQuotes field =
     (if field = [] then False
      else if field = [CHR 0x5C, CHR ''.''] then True
      else if list_ex (\<lambda>c. c = newline \<or> c = creturn \<or> c = dquote \<or> c = comma) field then True
      else lead_word space_runes field \<noteq> None)"

definition csv_field :: "string \<Rightarrow> string" where
  "csv_field field =
     (if \<not> fieldNeedsQuotes field then field
      else dquote # concat (map (\<lambda>c. if c = dquote then [dquote, dquote] else [c]) field) @ [dquote])"

definition csv_record :: "string list \<Rightarrow> string" where
  "csv_record fs = Join (map csv_field fs) [comma] @ [newline]"

definition csv_text :: "string list list \<Rightarrow> string" where
  "csv_text records = concat (map csv_record records)"

definition csv_buffer_size :: nat where "csv_buffer_size = 4096"

text \<open>
  Writing records one by one to a file of which \<open>broken\<close> says that its writes fail: the writer meets the
  error in the first record that no longer fits the buffer.
\<close>

fun csv_write_all :: "bool \<Rightarrow> nat \<Rightarrow> string list list \<Rightarrow> bool" where
  "csv_write_all broken n [] = True"
| "csv_write_all broken n (r # rs) =
     (let n' = n + length (csv_record r) in
      if broken \<and> n' > csv_buffer_size then False else csv_write_all broken n' rs)"

section \<open>Files\<close>

record file_env =
  fe_create :: "string \<Rightarrow> string option"
  fe_broken :: "string \<Rightarrow> bool"
  fe_rfc3339 :: "gotime \<Rightarrow> string"
  fe_stamp :: "gotime \<Rightarrow> string"
  fe_float :: "go_float \<Rightarrow> string"
  fe_json_labels :: "(string \<times> string) list \<Rightarrow> string option"
  fe_sprint :: "go_any \<Rightarrow> string"
  fe_json_metrics :: "resource_metrics list \<Rightarrow> (string, string) result"
  fe_json_logs :: "resource_logs list \<Rightarrow> (string, string) result"

text \<open>
  The effect of writing one file: the error, if any, and the files with their new contents.  \<open>checked\<close> says
  whether the error of the final flush is looked at.  A broken file that was created stays empty.
\<close>

type_synonym disk = "(string \<times> string) list"

datatype csv_error =
    CreateFailed string string
  | RecordFailed string
  | FlushFailed string

definition write_csv_file :: "file_env \<Rightarrow> bool \<Rightarrow> string \<Rightarrow> string list list \<Rightarrow> csv_error option \<times> disk" where
  "write_csv_file F checked fullPath records =
     (case fe_create F fullPath of
        Some e \<Rightarrow> (Some (CreateFailed fullPath e), [])
      | None \<Rightarrow>
          (let ok = csv_write_all (fe_broken F fullPath) 0 records in
           (if \<not> ok then Some (RecordFailed fullPath)
            else if checked \<and> fe_broken F fullPath \<and> records \<noteq> [] then Some (FlushFailed fullPath)
            else None,
            [(fullPath, if fe_broken F fullPath then [] else csv_text records)])))"

subsection \<open>The four tables\<close>

definition metric_record :: "file_env \<Rightarrow> health_metric \<Rightarrow> string list" where
  "metric_record F m =
     [fe_rfc3339 F \<lparr>t_nanos = me_UnixMilliseconds m * 1000000, t_utc = True\<rparr>, me_Component m, me_Name m, fe_float F (me_Value m),
      if length (me_Labels m) > 0 then (case fe_json_labels F (me_Labels m) of Some s \<Rightarrow> s | None \<Rightarrow> []) else []]"

definition metrics_table :: "file_env \<Rightarrow> health_data \<Rightarrow> string list list" where
  "metrics_table F d = [''timestamp'', ''component'', ''metric_name'', ''value'', ''labels''] # map (metric_record F) (hd_Metrics d)"

definition writeMetricsCSV :: "file_env \<Rightarrow> string \<Rightarrow> string \<Rightarrow> health_data \<Rightarrow> csv_error option \<times> disk" where
  "writeMetricsCSV F outputDir filename d =
     write_csv_file F False (filepath_Join outputDir filename)
       (metrics_table F d)"

definition event_record :: "file_env \<Rightarrow> health_event \<Rightarrow> string list" where
  "event_record F e = [fe_rfc3339 F (ev_Time e), ev_Component e, ev_Name e, ev_Type e, ev_Message e]"

definition events_table :: "file_env \<Rightarrow> health_data \<Rightarrow> string list list" where
  "events_table F d = [''timestamp'', ''component'', ''event_name'', ''event_type'', ''message''] # map (event_record F) (hd_Events d)"

definition writeEventsCSV :: "file_env \<Rightarrow> string \<Rightarrow> string \<Rightarrow> health_data \<Rightarrow> csv_error option \<times> disk" where
  "writeEventsCSV F outputDir filename d =
     write_csv_file F False (filepath_Join outputDir filename)
       (events_table F d)"

definition extractTimeFromInterface :: "go_any \<Rightarrow> gotime option" where
  "extractTimeFromInterface v = (case v of AMetaTime t \<Rightarrow> Some t | _ \<Rightarrow> None)"

definition csv_sprint :: "file_env \<Rightarrow> go_any \<Rightarrow> string" where
  "csv_sprint F v = (case v of ANil \<Rightarrow> ''<nil>'' | AString s \<Rightarrow> s | _ \<Rightarrow> fe_sprint F v)"

definition component_time :: "file_env \<Rightarrow> go_any \<Rightarrow> string" where
  "component_time F v = (case v of
      ANil \<Rightarrow> ''N/A''
    | ATime t \<Rightarrow> if \<not> is_zero_time t then fe_rfc3339 F t else ''N/A''
    | _ \<Rightarrow>
        (let fallback = (let s = csv_sprint F v in if \<not> Contains s ''0001-01-01'' then s else ''N/A'') in
         case extractTimeFromInterface v of
           Some t \<Rightarrow> if \<not> is_zero_time t then fe_rfc3339 F t else fallback
         | None \<Rightarrow> fallback))"

definition any_text :: "file_env \<Rightarrow> go_any \<Rightarrow> string" where
  "any_text F v = (if v \<noteq> ANil then csv_sprint F v else [])"

definition component_record :: "file_env \<Rightarrow> component_info \<Rightarrow> string list" where
  "component_record F info =
     [component_time F (info_at info ''time''), any_text F (info_at info ''component_name''),
      any_text F (info_at info ''health''), any_text F (info_at info ''reason'')]"

definition component_records :: "file_env \<Rightarrow> health_data \<Rightarrow> string list list" where
  "component_records F d =
     concat (map (\<lambda>name. case map_of (hd_ComponentData d) name of
        Some (CInfo info) \<Rightarrow> [component_record F info]
      | _ \<Rightarrow> []) (sorted_keys (hd_ComponentData d)))"

definition components_table :: "file_env \<Rightarrow> health_data \<Rightarrow> string list list" where
  "components_table F d = [''timestamp'', ''component_name'', ''health'', ''reason''] # component_records F d"

definition writeComponentHealthCSV :: "file_env \<Rightarrow> string \<Rightarrow> string \<Rightarrow> health_data \<Rightarrow> csv_error option \<times> disk" where
  "writeComponentHealthCSV F outputDir filename d =
     write_csv_file F False (filepath_Join outputDir filename)
       (components_table F d)"

definition disk_records :: "nat \<times> machine_disk_device \<Rightarrow> string list list" where
  "disk_records x =
     (let pre = ''Block Device '' @ FormatNat (fst x + 1); device = snd x in
      [[pre @ '' Name'', bd_Name device], [pre @ '' Type'', bd_Type device],
       [pre @ '' Size'', FormatInt (bd_Size device)], [pre @ '' Used'', FormatInt (mdd_Used device)],
       [pre @ '' Mount Point'', bd_MountPoint device], [pre @ '' FS Type'', bd_FSType device]] @
      (if mdd_Serial device \<noteq> [] then [[pre @ '' Serial'', mdd_Serial device]] else []) @
      (if mdd_Model device \<noteq> [] then [[pre @ '' Model'', mdd_Model device]] else []))"

definition gpu_records :: "nat \<times> machine_gpu \<Rightarrow> string list list" where
  "gpu_records x =
     (let pre = ''GPU '' @ FormatNat (fst x + 1); gpu = snd x in
      [[pre @ '' UUID'', mg_UUID gpu], [pre @ '' Bus ID'', mg_BusID gpu], [pre @ '' SN'', mg_SN gpu],
       [pre @ '' Minor ID'', mg_MinorID gpu], [pre @ '' Board ID'', FormatNat (unat (mg_BoardID gpu))],
       [pre @ '' VBIOS Version'', mg_VBIOSVersion gpu], [pre @ '' Chassis SN'', mg_ChassisSN gpu]])"

definition machine_info_records :: "machine_info \<Rightarrow> string list list" where
  "machine_info_records i =
     [[''attribute_name'', ''attribute_value''],
      [''Agent Version'', mi_AgentVersion i],
      [''Container Runtime Version'', mi_ContainerRuntimeVersion i],
      [''OS Image'', mi_OSImage i],
      [''Kernel Version'', mi_KernelVersion i],
      [''DCGM Version'', mi_DCGMVersion i]] @
     (case mi_CPUInfo i of None \<Rightarrow> [] | Some c \<Rightarrow>
        [[''CPU Type'', ic_Type c], [''CPU Manufacturer'', ic_Manufacturer c],
         [''CPU Architecture'', ic_Architecture c], [''CPU Logical Cores'', FormatInt (sint (ic_LogicalCores c))]]) @
     (case mi_MemoryInfo i of None \<Rightarrow> [] | Some m \<Rightarrow> [[''Memory Total'', FormatNat (unat m)]]) @
     [[''CUDA Version'', mi_CUDAVersion i]] @
     (case mi_GPUInfo i of None \<Rightarrow> [] | Some g \<Rightarrow>
        [[''GPU Driver Version'', mi_GPUDriverVersion i], [''GPU Product'', mgi_Product g],
         [''GPU Manufacturer'', mgi_Manufacturer g], [''GPU Architecture'', mgi_Architecture g],
         [''GPU Memory'', mgi_Memory g]]) @
     (case mi_NICInfo i of None \<Rightarrow> [] | Some nics \<Rightarrow> nic_rows nics) @
     (case mi_DiskInfo i of None \<Rightarrow> [] | Some di \<Rightarrow>
        [''Container Root Disk'', md_ContainerRootDisk di] # concat (map disk_records (enumerate 0 (md_BlockDevices di)))) @
     (case mi_GPUInfo i of None \<Rightarrow> [] | Some g \<Rightarrow> concat (map gpu_records (enumerate 0 (mgi_GPUs g))))"

definition machine_info_table :: "health_data \<Rightarrow> string list list" where
  "machine_info_table d = (case hd_MachineInfo d of None \<Rightarrow> [] | Some i \<Rightarrow> machine_info_records i)"

definition writeMachineInfoCSV :: "file_env \<Rightarrow> string \<Rightarrow> string \<Rightarrow> health_data \<Rightarrow> csv_error option \<times> disk" where
  "writeMachineInfoCSV F outputDir filename d =
     write_csv_file F True (filepath_Join outputDir filename)
       (machine_info_table d)"

subsection \<open>Conversion\<close>

record csv_files =
  MetricsFile :: string
  EventsFile :: string
  ComponentsFile :: string
  MachineInfoFile :: string

datatype file_error =
    MetricsCSV csv_error | EventsCSV csv_error | ComponentsCSV csv_error | MachineInfoCSV csv_error

text \<open>One table: skipped when there is nothing to write, otherwise named and written; an error stops the rest.\<close>

definition csv_step :: "bool \<Rightarrow> string \<Rightarrow> (string \<Rightarrow> csv_files \<Rightarrow> csv_files) \<Rightarrow> (csv_error \<Rightarrow> file_error)
    \<Rightarrow> (string \<Rightarrow> csv_error option \<times> disk) \<Rightarrow> (file_error, csv_files) result \<times> disk \<Rightarrow> (file_error, csv_files) result \<times> disk" where
  "csv_step present filename upd err write st =
     (case st of
        (Inl e, fs) \<Rightarrow> (Inl e, fs)
      | (Inr files, fs) \<Rightarrow>
          if \<not> present then (Inr files, fs)
          else (case write filename of
                  (Some e, new) \<Rightarrow> (Inl (err e), fs @ new)
                | (None, new) \<Rightarrow> (Inr (upd filename files), fs @ new)))"

definition csv_Convert :: "file_env \<Rightarrow> health_data \<Rightarrow> string \<Rightarrow> string \<Rightarrow> (file_error, csv_files) result \<times> disk" where
  "csv_Convert F d outputDir timestamp =
     csv_step (hd_MachineInfo d \<noteq> None) (''fleetint_machine_info_'' @ timestamp @ ''.csv'') (\<lambda>n f. f\<lparr>MachineInfoFile := n\<rparr>)
         MachineInfoCSV (\<lambda>n. writeMachineInfoCSV F outputDir n d)
       (csv_step (length (hd_ComponentData d) > 0) (''fleetint_component_health_'' @ timestamp @ ''.csv'') (\<lambda>n f. f\<lparr>ComponentsFile := n\<rparr>)
           ComponentsCSV (\<lambda>n. writeComponentHealthCSV F outputDir n d)
         (csv_step (length (hd_Events d) > 0) (''fleetint_events_'' @ timestamp @ ''.csv'') (\<lambda>n f. f\<lparr>EventsFile := n\<rparr>)
             EventsCSV (\<lambda>n. writeEventsCSV F outputDir n d)
           (csv_step (length (hd_Metrics d) > 0) (''fleetint_metrics_'' @ timestamp @ ''.csv'') (\<lambda>n f. f\<lparr>MetricsFile := n\<rparr>)
               MetricsCSV (\<lambda>n. writeMetricsCSV F outputDir n d)
             (Inr \<lparr>MetricsFile = [], EventsFile = [], ComponentsFile = [], MachineInfoFile = []\<rparr>, []))))"

section \<open>The file writer\<close>

datatype write_error =
    JsonMarshal string
  | JsonCreate string string
  | JsonWrite string
  | MetricsFileError write_error
  | LogsFileError write_error
  | CsvFailed file_error

definition writeOTLPJSONFile :: "file_env \<Rightarrow> string \<Rightarrow> (string, string) result \<Rightarrow> write_error option \<times> disk" where
  "writeOTLPJSONFile F filename marshalled = (case marshalled of
      Inl e \<Rightarrow> (Some (JsonMarshal e), [])
    | Inr jsonData \<Rightarrow> (case fe_create F filename of
        Some e \<Rightarrow> (Some (JsonCreate filename e), [])
      | None \<Rightarrow>
          if fe_broken F filename then (Some (JsonWrite filename), [(filename, [])])
          else (None, [(filename, jsonData)])))"

definition WriteJSON :: "file_env \<Rightarrow> conv_env \<Rightarrow> health_data \<Rightarrow> string \<Rightarrow> write_error option \<times> disk" where
  "WriteJSON F E d outputPath =
     (let timestamp = fe_stamp F (hd_Timestamp d); otlpData = otlp_Convert E d;
          (e1, fs1) = (case od_Metrics otlpData of
              None \<Rightarrow> (None, [])
            | Some m \<Rightarrow> writeOTLPJSONFile F (filepath_Join outputPath (''fleetint_metrics_'' @ timestamp @ ''.json'')) (fe_json_metrics F m))
      in case e1 of
           Some e \<Rightarrow> (Some (MetricsFileError e), fs1)
         | None \<Rightarrow>
             (let (e2, fs2) = (case od_Logs otlpData of
                  None \<Rightarrow> (None, [])
                | Some l \<Rightarrow> writeOTLPJSONFile F (filepath_Join outputPath (''fleetint_logs_'' @ timestamp @ ''.json'')) (fe_json_logs F l))
              in (case e2 of Some e \<Rightarrow> Some (LogsFileError e) | None \<Rightarrow> None, fs1 @ fs2)))"

definition WriteCSV :: "file_env \<Rightarrow> health_data \<Rightarrow> string \<Rightarrow> write_error option \<times> disk" where
  "WriteCSV F d outputPath =
     (case csv_Convert F d outputPath (fe_stamp F (hd_Timestamp d)) of
        (Inl e, fs) \<Rightarrow> (Some (CsvFailed e), fs)
      | (Inr _, fs) \<Rightarrow> (None, fs))"

section \<open>Reading the files\<close>

text \<open>
  The reader of \<open>encoding/csv\<close> on whole records: at the start of a field, inside an unquoted field, inside quotes, or after
  a quote that may be the closing one or the first of a doubled pair.  Before that it drops, also inside quotes, a
  carriage return that stands before a line break.  (It also skips empty lines; a table has at least two columns, so there
  are none.)
\<close>

datatype csv_mode = FieldStart | Plain | Quoted | QuoteSeen

fun csv_read :: "csv_mode \<Rightarrow> string \<Rightarrow> string list \<Rightarrow> string \<Rightarrow> string list list option" where
  "csv_read FieldStart cur row [] = (if cur = [] \<and> row = [] then Some [] else None)"
| "csv_read m cur row [] = None"
| "csv_read Quoted cur row (c # s) =
     (if c = dquote then csv_read QuoteSeen cur row s else csv_read Quoted (cur @ [c]) row s)"
| "csv_read m cur row (c # s) =
     (if c = comma then csv_read FieldStart [] (row @ [cur]) s
      else if c = newline then map_option (Cons (row @ [cur])) (csv_read FieldStart [] [] s)
      else if c = dquote then
        (case m of FieldStart \<Rightarrow> csv_read Quoted [] row s
                 | QuoteSeen \<Rightarrow> csv_read Quoted (cur @ [dquote]) row s
                 | _ \<Rightarrow> None)
      else if m = QuoteSeen then None
      else csv_read Plain (cur @ [c]) row s)"

fun crlf_to_lf :: "string \<Rightarrow> string" where
  "crlf_to_lf (c # d # s) = (if c = creturn \<and> d = newline then crlf_to_lf (d # s) else c # crlf_to_lf (d # s))"
| "crlf_to_lf s = s"

definition csv_ReadAll :: "string \<Rightarrow> string list list option" where
  "csv_ReadAll text = csv_read FieldStart [] [] (crlf_to_lf text)"

text \<open>The rows below the header, by the names the header gives to the columns.\<close>

definition file_rows :: "string \<Rightarrow> (string \<rightharpoonup> string) list option" where
  "file_rows text = map_option (\<lambda>rows. map (\<lambda>row. map_of (zip (hd rows) row)) (tl rows)) (csv_ReadAll text)"

section \<open>Reading back\<close>

lemma read_quoted:
  "csv_read Quoted cur row (concat (map (\<lambda>c. if c = dquote then [dquote, dquote] else [c]) f) @ dquote # rest) =
     csv_read QuoteSeen (cur @ f) row rest"
  by (induction f arbitrary: cur) auto

lemma read_plain:
  "\<not> list_ex (\<lambda>c. c = newline \<or> c = creturn \<or> c = dquote \<or> c = comma) f \<Longrightarrow>
     csv_read Plain cur row (f @ rest) = csv_read Plain (cur @ f) row rest"
  by (induction f arbitrary: cur) auto

lemma read_end:
  "m \<noteq> Quoted \<Longrightarrow> csv_read m cur row (comma # rest) = csv_read FieldStart [] (row @ [cur]) rest"
  "m \<noteq> Quoted \<Longrightarrow> csv_read m cur row (newline # rest) = map_option (Cons (row @ [cur])) (csv_read FieldStart [] [] rest)"
  by (cases m; simp)+

lemma read_field:
  "\<exists>m. m \<noteq> Quoted \<and> csv_read FieldStart [] row (csv_field f @ rest) = csv_read m f row rest"
proof (cases "fieldNeedsQuotes f")
  case True
  then have "csv_read FieldStart [] row (csv_field f @ rest) = csv_read QuoteSeen f row rest"
    using read_quoted [of "[]" row f rest] by (simp add: csv_field_def)
  then show ?thesis by blast
next
  case False
  show ?thesis
  proof (cases f)
    case Nil
    then show ?thesis using False by (intro exI [of _ FieldStart]) (simp add: csv_field_def)
  next
    case (Cons c g)
    then have n: "\<not> list_ex (\<lambda>c. c = newline \<or> c = creturn \<or> c = dquote \<or> c = comma) (c # g)"
      using False by (simp add: fieldNeedsQuotes_def split: if_splits)
    then have "csv_read FieldStart [] row (csv_field f @ rest) = csv_read Plain f row rest"
      using False read_plain [of g "[c]" row rest] by (simp add: csv_field_def Cons)
    then show ?thesis by blast
  qed
qed

lemma read_record:
  "fs \<noteq> [] \<Longrightarrow> csv_read FieldStart [] row (csv_record fs @ rest) = map_option (Cons (row @ fs)) (csv_read FieldStart [] [] rest)"
proof (induction fs arbitrary: row)
  case (Cons f fs)
  show ?case
  proof (cases fs)
    case Nil
    obtain m where "m \<noteq> Quoted" "csv_read FieldStart [] row (csv_field f @ newline # rest) = csv_read m f row (newline # rest)"
      using read_field by blast
    then show ?thesis by (simp add: csv_record_def Nil read_end)
  next
    case (Cons g gs)
    obtain m where "m \<noteq> Quoted"
      "csv_read FieldStart [] row (csv_field f @ comma # csv_record fs @ rest) = csv_read m f row (comma # csv_record fs @ rest)"
      using read_field by blast
    then have "csv_read FieldStart [] row (csv_field f @ comma # csv_record fs @ rest) =
        csv_read FieldStart [] (row @ [f]) (csv_record fs @ rest)" by (simp add: read_end)
    moreover have "csv_record (f # fs) = csv_field f @ comma # csv_record fs" by (simp add: csv_record_def Cons)
    ultimately show ?thesis using Cons.IH [of "row @ [f]"] Cons by simp
  qed
qed simp

text \<open>Dropping carriage returns commutes with writing.\<close>

lemma crlf_to_lf_Cons: "c \<noteq> creturn \<Longrightarrow> crlf_to_lf (c # s) = c # crlf_to_lf s"
  by (cases s) auto

lemma crlf_to_lf_plain: "creturn \<notin> set f \<Longrightarrow> crlf_to_lf (f @ rest) = f @ crlf_to_lf rest"
  by (induction f) (auto simp: crlf_to_lf_Cons)

lemma crlf_to_lf_id: "creturn \<notin> set f \<Longrightarrow> crlf_to_lf f = f"
  using crlf_to_lf_plain [of f "[]"] by simp

lemma crlf_to_lf_quoted:
  "crlf_to_lf (concat (map (\<lambda>c. if c = dquote then [dquote, dquote] else [c]) f) @ dquote # rest) =
     concat (map (\<lambda>c. if c = dquote then [dquote, dquote] else [c]) (crlf_to_lf f)) @ dquote # crlf_to_lf rest"
proof (induction f rule: crlf_to_lf.induct)
  case (1 c d s)
  then show ?case by (cases "d = dquote") (auto simp: crlf_to_lf_Cons)
qed (auto simp: crlf_to_lf_Cons)

lemma crlf_to_lf_breaks: "creturn \<in> set f \<Longrightarrow> creturn \<in> set (crlf_to_lf f) \<or> newline \<in> set (crlf_to_lf f)"
proof (induction f rule: crlf_to_lf.induct)
  case (1 c d s)
  have "newline \<in> set (crlf_to_lf (newline # s))" by (simp add: crlf_to_lf_Cons)
  with 1 show ?case by auto
qed auto

lemma crlf_to_lf_needs_quotes: "fieldNeedsQuotes (crlf_to_lf f) = fieldNeedsQuotes f"
proof (cases "creturn \<in> set f")
  case True
  then have "crlf_to_lf f \<noteq> [] \<and> list_ex (\<lambda>c. c = newline \<or> c = creturn \<or> c = dquote \<or> c = comma) (crlf_to_lf f)"
    using crlf_to_lf_breaks [OF True] by (auto simp: list_ex_iff)
  moreover have "f \<noteq> [] \<and> list_ex (\<lambda>c. c = newline \<or> c = creturn \<or> c = dquote \<or> c = comma) f" using True by (auto simp: list_ex_iff)
  ultimately show ?thesis by (simp add: fieldNeedsQuotes_def)
qed (simp add: crlf_to_lf_id)

lemma crlf_to_lf_field: "crlf_to_lf (csv_field f @ rest) = csv_field (crlf_to_lf f) @ crlf_to_lf rest"
proof (cases "fieldNeedsQuotes f")
  case True
  then show ?thesis using crlf_to_lf_quoted [of f rest] by (simp add: csv_field_def crlf_to_lf_needs_quotes crlf_to_lf_Cons)
next
  case False
  then have "creturn \<notin> set f" by (auto simp: fieldNeedsQuotes_def list_ex_iff split: if_splits)
  then show ?thesis using False by (simp add: csv_field_def crlf_to_lf_needs_quotes crlf_to_lf_plain crlf_to_lf_id)
qed

lemma crlf_to_lf_fields: "crlf_to_lf (Join (map csv_field fs) [comma] @ rest) = Join (map csv_field (map crlf_to_lf fs)) [comma] @ crlf_to_lf rest"
proof (induction fs)
  case (Cons f fs)
  then show ?case by (cases fs) (simp_all add: crlf_to_lf_field crlf_to_lf_Cons)
qed simp

lemma crlf_to_lf_text: "crlf_to_lf (csv_text rs) = csv_text (map (map crlf_to_lf) rs)"
proof (induction rs)
  case (Cons r rs)
  have "crlf_to_lf (csv_record r @ csv_text rs) = csv_record (map crlf_to_lf r) @ crlf_to_lf (csv_text rs)"
    by (simp add: csv_record_def crlf_to_lf_fields crlf_to_lf_Cons)
  then show ?case using Cons by (simp add: csv_text_def)
qed (simp add: csv_text_def)

lemma read_text: "list_all (\<lambda>r. r \<noteq> []) rs \<Longrightarrow> csv_read FieldStart [] [] (csv_text rs) = Some rs"
  by (induction rs) (auto simp: csv_text_def read_record)

lemma ReadAll_text: "list_all (\<lambda>r. r \<noteq> []) rs \<Longrightarrow> csv_ReadAll (csv_text rs) = Some (map (map crlf_to_lf) rs)"
  unfolding csv_ReadAll_def crlf_to_lf_text by (rule read_text) (simp add: list_all_iff)

section \<open>Errors of a buffered file\<close>

lemma csv_write_all_small: "n + length (csv_text rs) \<le> csv_buffer_size \<Longrightarrow> csv_write_all broken n rs"
  by (induction rs arbitrary: n) (auto simp: csv_text_def)

lemma csv_write_all_large:
  "broken \<Longrightarrow> csv_write_all broken n rs \<Longrightarrow> n \<le> csv_buffer_size \<Longrightarrow> n + length (csv_text rs) \<le> csv_buffer_size"
proof (induction rs arbitrary: n)
  case (Cons r rs)
  then have "csv_write_all True (n + length (csv_record r)) rs" "n + length (csv_record r) \<le> csv_buffer_size"
    by (auto simp: Let_def split: if_splits)
  with Cons.IH [of "n + length (csv_record r)"] Cons.prems(1) show ?case by (simp add: csv_text_def)
qed (simp add: csv_text_def)

lemma csv_write_all_iff: "csv_write_all broken 0 rs \<longleftrightarrow> \<not> broken \<or> length (csv_text rs) \<le> csv_buffer_size"
proof (cases broken)
  case True
  then show ?thesis using csv_write_all_small [of 0 rs] csv_write_all_large [of broken 0 rs] by auto
next
  case False
  have "csv_write_all False n rs" for n by (induction rs arbitrary: n) auto
  with False show ?thesis by simp
qed

lemma write_csv_file_result:
  "fst (write_csv_file F checked p rs) = None \<longleftrightarrow>
     fe_create F p = None \<and>
     (\<not> fe_broken F p \<or> length (csv_text rs) \<le> csv_buffer_size \<and> (checked \<longrightarrow> rs = []))"
  by (auto simp: write_csv_file_def Let_def csv_write_all_iff split: option.split)

section \<open>Tables\<close>

lemma rows_not_empty:
  "list_all (\<lambda>r. r \<noteq> []) (metrics_table F d)" "list_all (\<lambda>r. r \<noteq> []) (events_table F d)"
  "list_all (\<lambda>r. r \<noteq> []) (components_table F d)" "list_all (\<lambda>r. r \<noteq> []) (machine_info_table d)"
proof -
  show "list_all (\<lambda>r. r \<noteq> []) (metrics_table F d)" "list_all (\<lambda>r. r \<noteq> []) (events_table F d)"
    by (simp_all add: metrics_table_def events_table_def list_all_iff metric_record_def event_record_def)
  show "list_all (\<lambda>r. r \<noteq> []) (components_table F d)"
    by (auto simp: components_table_def component_records_def component_record_def list_all_iff
             split: option.splits component_value.splits)
  have "list_all (\<lambda>r. r \<noteq> []) (machine_info_records i)" for i
    by (auto simp: machine_info_records_def list_all_iff nic_rows_def disk_records_def gpu_records_def Let_def
             split: option.splits)
  then show "list_all (\<lambda>r. r \<noteq> []) (machine_info_table d)"
    by (simp add: machine_info_table_def split: option.split)
qed

lemma written_text:
  assumes "write_csv_file F checked p rs = (None, new)" "set new \<subseteq> set fs" "\<forall>path \<in> fst ` set fs. \<not> fe_broken F path"
  shows "(p, csv_text rs) \<in> set fs"
proof -
  have "new = [(p, if fe_broken F p then [] else csv_text rs)]"
    using assms(1) by (auto simp: write_csv_file_def Let_def split: option.splits if_splits)
  then show ?thesis using assms(2,3) by (force split: if_splits)
qed

lemma csv_step_Ok:
  assumes "csv_step present n upd err write st = (Inr files, fs)"
  obtains files0 fs0 new where "st = (Inr files0, fs0)" "fs = fs0 @ new"
    "if present then write n = (None, new) \<and> files = upd n files0 else new = [] \<and> files = files0"
  using assms by (auto simp: csv_step_def split: prod.splits sum.splits if_splits option.splits)

text \<open>A conversion that succeeds: each table that is present was written under its name.\<close>

lemma csv_steps_Ok:
  assumes "csv_step p4 n4 (\<lambda>n f. f\<lparr>MachineInfoFile := n\<rparr>) e4 w4 (csv_step p3 n3 (\<lambda>n f. f\<lparr>ComponentsFile := n\<rparr>) e3 w3
      (csv_step p2 n2 (\<lambda>n f. f\<lparr>EventsFile := n\<rparr>) e2 w2 (csv_step p1 n1 (\<lambda>n f. f\<lparr>MetricsFile := n\<rparr>) e1 w1 (Inr f0, [])))) = (Inr files, fs)"
  shows "p1 \<Longrightarrow> \<exists>new. w1 n1 = (None, new) \<and> set new \<subseteq> set fs \<and> MetricsFile files = n1"
    "p2 \<Longrightarrow> \<exists>new. w2 n2 = (None, new) \<and> set new \<subseteq> set fs \<and> EventsFile files = n2"
    "p3 \<Longrightarrow> \<exists>new. w3 n3 = (None, new) \<and> set new \<subseteq> set fs \<and> ComponentsFile files = n3"
    "p4 \<Longrightarrow> \<exists>new. w4 n4 = (None, new) \<and> set new \<subseteq> set fs \<and> MachineInfoFile files = n4"
  using assms by (auto elim!: csv_step_Ok split: if_splits)

text \<open>The components a health table reports, in the order of their names.\<close>

definition reported_components :: "health_data \<Rightarrow> component_info list" where
  "reported_components d = concat (map (\<lambda>name. case map_of (hd_ComponentData d) name of Some (CInfo info) \<Rightarrow> [info] | _ \<Rightarrow> [])
     (sorted_keys (hd_ComponentData d)))"

lemma component_records_eq: "component_records F d = map (component_record F) (reported_components d)"
  unfolding component_records_def reported_components_def
  by (simp add: map_concat o_def) (intro arg_cong [where f = concat] map_cong, auto split: option.split component_value.split)

text \<open>What a table reads back as, by its columns.\<close>

definition metric_row :: "file_env \<Rightarrow> health_metric \<Rightarrow> string \<rightharpoonup> string" where
  "metric_row F m = map_of
     [(''timestamp'', crlf_to_lf (fe_rfc3339 F \<lparr>t_nanos = me_UnixMilliseconds m * 1000000, t_utc = True\<rparr>)), (''component'', crlf_to_lf (me_Component m)),
      (''metric_name'', crlf_to_lf (me_Name m)), (''value'', crlf_to_lf (fe_float F (me_Value m))),
      (''labels'', crlf_to_lf (if me_Labels m = [] then [] else case fe_json_labels F (me_Labels m) of Some s \<Rightarrow> s | None \<Rightarrow> []))]"

definition event_row :: "file_env \<Rightarrow> health_event \<Rightarrow> string \<rightharpoonup> string" where
  "event_row F e = map_of
     [(''timestamp'', crlf_to_lf (fe_rfc3339 F (ev_Time e))), (''component'', crlf_to_lf (ev_Component e)), (''event_name'', crlf_to_lf (ev_Name e)),
      (''event_type'', crlf_to_lf (ev_Type e)), (''message'', crlf_to_lf (ev_Message e))]"

definition component_row :: "file_env \<Rightarrow> component_info \<Rightarrow> string \<rightharpoonup> string" where
  "component_row F info = map_of
     [(''timestamp'', crlf_to_lf (component_time F (info_at info ''time''))), (''component_name'', crlf_to_lf (any_text F (info_at info ''component_name''))),
      (''health'', crlf_to_lf (any_text F (info_at info ''health''))), (''reason'', crlf_to_lf (any_text F (info_at info ''reason'')))]"

lemma header_lf: "list_all (\<lambda>h. crlf_to_lf h = h)
    [''timestamp'', ''component'', ''metric_name'', ''value'', ''labels'', ''event_name'', ''event_type'', ''message'', ''component_name'', ''health'', ''reason'']"
  by code_simp

lemma table_rows:
  "file_rows (csv_text (metrics_table F d)) = Some (map (metric_row F) (hd_Metrics d))"
  "file_rows (csv_text (events_table F d)) = Some (map (event_row F) (hd_Events d))"
  "file_rows (csv_text (components_table F d)) = Some (map (component_row F) (reported_components d))"
  using header_lf
  by (simp_all add: file_rows_def ReadAll_text rows_not_empty)
     (simp_all add: metrics_table_def events_table_def components_table_def component_records_eq metric_record_def event_record_def
        component_record_def metric_row_def event_row_def component_row_def)

section \<open>Properties\<close>

text \<open>
  C35: An offline export can be read back.  When an export to comma-separated files succeeds and the files could be
  written, then reading each file by the names of its columns gives the data that was collected: one row for each metric,
  each event and each reported component, in their order and with every field under its column, and the attributes of
  the machine with their values, whatever commas, quotes, line breaks or spaces they contain.  Only a carriage return before
  a line break is lost, which the reader drops.
\<close>

theorem csv_export_roundtrip:
  assumes "csv_Convert F d dir timestamp = (Ok files, fs)" "\<forall>path \<in> fst ` set fs. \<not> fe_broken F path"
  shows "(hd_Metrics d \<noteq> [] \<longrightarrow> (\<exists>text. (filepath_Join dir (MetricsFile files), text) \<in> set fs \<and> file_rows text = Some (map (metric_row F) (hd_Metrics d)))) \<and>
    (hd_Events d \<noteq> [] \<longrightarrow> (\<exists>text. (filepath_Join dir (EventsFile files), text) \<in> set fs \<and> file_rows text = Some (map (event_row F) (hd_Events d)))) \<and>
    (hd_ComponentData d \<noteq> [] \<longrightarrow>
       (\<exists>text. (filepath_Join dir (ComponentsFile files), text) \<in> set fs \<and> file_rows text = Some (map (component_row F) (reported_components d)))) \<and>
    (\<forall>i. hd_MachineInfo d = Some i \<longrightarrow>
       (\<exists>text. (filepath_Join dir (MachineInfoFile files), text) \<in> set fs \<and> csv_ReadAll text = Some (map (map crlf_to_lf) (machine_info_records i))))"
proof -
  note steps = csv_steps_Ok [OF assms(1) [unfolded csv_Convert_def]]
  have m: "(filepath_Join dir (MetricsFile files), csv_text (metrics_table F d)) \<in> set fs" if "hd_Metrics d \<noteq> []"
    using steps(1) that written_text [OF _ _ assms(2)] unfolding writeMetricsCSV_def by fastforce
  have e: "(filepath_Join dir (EventsFile files), csv_text (events_table F d)) \<in> set fs" if "hd_Events d \<noteq> []"
    using steps(2) that written_text [OF _ _ assms(2)] unfolding writeEventsCSV_def by fastforce
  have c: "(filepath_Join dir (ComponentsFile files), csv_text (components_table F d)) \<in> set fs" if "hd_ComponentData d \<noteq> []"
    using steps(3) that written_text [OF _ _ assms(2)] unfolding writeComponentHealthCSV_def by fastforce
  have i: "(filepath_Join dir (MachineInfoFile files), csv_text (machine_info_table d)) \<in> set fs" if "hd_MachineInfo d \<noteq> None"
    using steps(4) that written_text [OF _ _ assms(2)] unfolding writeMachineInfoCSV_def by fastforce
  have "csv_ReadAll (csv_text (machine_info_table d)) = Some (map (map crlf_to_lf) (machine_info_table d))"
    by (rule ReadAll_text) (rule rows_not_empty)
  with i have i': "(filepath_Join dir (MachineInfoFile files), csv_text (machine_info_records x)) \<in> set fs \<and>
      csv_ReadAll (csv_text (machine_info_records x)) = Some (map (map crlf_to_lf) (machine_info_records x))" if "hd_MachineInfo d = Some x" for x
    using that by (simp add: machine_info_table_def)
  show ?thesis using m e c i' table_rows by blast
qed

definition sample_files :: "bool \<Rightarrow> file_env" where
  "sample_files broken = \<lparr>fe_create = (\<lambda>p. None), fe_broken = (\<lambda>p. broken), fe_rfc3339 = (\<lambda>t. ''1970-01-01T00:00:00Z''),
     fe_stamp = (\<lambda>t. ''19700101_000000''), fe_float = (\<lambda>x. ''1''), fe_json_labels = (\<lambda>l. None), fe_sprint = (\<lambda>v. []),
     fe_json_metrics = (\<lambda>m. Inr []), fe_json_logs = (\<lambda>l. Inr [])\<rparr>"

text \<open>An event whose message has a comma, a quote and a line break.\<close>

definition sample_message :: string where
  "sample_message = ''a, '' @ [dquote] @ ''b'' @ [dquote, creturn, newline] @ ''c''"

definition sample_csv_data :: health_data where
  "sample_csv_data = (sample_data [] [])\<lparr>hd_Events := [\<lparr>ev_Component = ''cpu'', ev_EventID = ''e'', ev_Time = zero_time, ev_Name = ''n'', ev_Type = ''t'',
     ev_Message = sample_message, ev_ExtraInfo = None\<rparr>]\<rparr>"

theorem csv_export_roundtrip_witness:
  "\<exists>files fs text rows. csv_Convert (sample_files False) sample_csv_data ''/out'' ''t'' = (Ok files, fs) \<and>
     (filepath_Join ''/out'' (EventsFile files), text) \<in> set fs \<and> file_rows text = Some rows \<and>
     map (\<lambda>row. row ''message'') rows = [Some (''a, '' @ [dquote] @ ''b'' @ [dquote, newline] @ ''c'')]"
proof -
  let ?x = "csv_Convert (sample_files False) sample_csv_data ''/out'' ''t''"
  have "is_ok (fst ?x)" by code_simp
  then obtain files fs where x: "?x = (Ok files, fs)" by (metis is_ok_iff prod.collapse)
  have w: "\<forall>path \<in> fst ` set fs. \<not> fe_broken (sample_files False) path" by (simp add: sample_files_def)
  have "hd_Events sample_csv_data \<noteq> []" by (simp add: sample_csv_data_def)
  then obtain content where "(filepath_Join ''/out'' (EventsFile files), content) \<in> set fs"
    "file_rows content = Some (map (event_row (sample_files False)) (hd_Events sample_csv_data))"
    using csv_export_roundtrip [OF x w] by blast
  moreover have "map (\<lambda>row. row ''message'') (map (event_row (sample_files False)) (hd_Events sample_csv_data)) =
      [Some (''a, '' @ [dquote] @ ''b'' @ [dquote, newline] @ ''c'')]"
    by (simp add: event_row_def sample_csv_data_def sample_message_def)
  ultimately show ?thesis using x
    by (intro exI [of _ files] exI [of _ fs] exI [of _ content] exI [of _ "map (event_row (sample_files False)) (hd_Events sample_csv_data)"] conjI)
qed

text \<open>
  The tables of metrics, events and components drop the error of the final flush: when the file was
  created but cannot be written, a table of at most 4096 bytes is reported as exported although the file is
  empty; the table of machine information reports the error.
\<close>

theorem small_table_write_error_lost:
  assumes "fe_create F (filepath_Join dir n) = None" "fe_broken F (filepath_Join dir n)"
    "length (csv_text (metrics_table F d)) \<le> 4096"
  shows "writeMetricsCSV F dir n d = (None, [(filepath_Join dir n, [])]) \<and>
    (hd_MachineInfo d \<noteq> None \<longrightarrow> fst (writeMachineInfoCSV F dir n d) \<noteq> None)"
proof -
  have "csv_write_all True 0 (metrics_table F d)" using assms(3) by (simp add: csv_write_all_iff csv_buffer_size_def)
  moreover have "machine_info_table d \<noteq> []" if "hd_MachineInfo d \<noteq> None"
    using that by (auto simp: machine_info_table_def machine_info_records_def)
  then have "hd_MachineInfo d \<noteq> None \<longrightarrow> fst (writeMachineInfoCSV F dir n d) \<noteq> None"
    unfolding writeMachineInfoCSV_def write_csv_file_result using assms(2) by blast
  ultimately show ?thesis using assms(1,2) by (simp add: writeMetricsCSV_def write_csv_file_def Let_def)
qed

theorem small_table_write_error_lost_witness:
  "writeMetricsCSV (sample_files True) ''/out'' ''m.csv'' (sample_data [] []) = (None, [(filepath_Join ''/out'' ''m.csv'', [])])"
proof -
  have "length (csv_text (metrics_table (sample_files True) (sample_data [] []))) \<le> 4096" by code_simp
  from small_table_write_error_lost [OF _ _ this] show ?thesis by (simp add: sample_files_def)
qed

end
