(* ===== verification/Health_Exporter.thy ===== *)
theory Health_Exporter
  imports Http_Writer Csv_Converter Agent_State Backend_Client
begin

text \<open>
  \<open>internal/exporter/exporter.go\<close> and \<open>options.go\<close>: the export cycle that ties the collector, the converters
  and the writers to the metadata of the agent.  The exporter keeps its configuration (endpoints and token
  are refreshed from the metadata before every export) and the provider of machine information; its world is
  the metadata database, the enrollment requests its token refresh sends, and the network (type \<open>'n\<close>).

  The theory interprets the locale \<open>world_preserving\<close> of the HTTP writer for this environment: whatever a send
  does, of the database it changes the token only.
\<close>

section \<open>Options\<close>

record otlp_client =
  oc_timeout :: duration
  oc_use_last_response :: bool

record exporter_options =
  xo_config :: "health_exporter_config option"
  xo_metricsStore :: "(int \<Rightarrow> (string, health_metric list) result) option"
  xo_eventStore :: bool
  xo_registry :: "sdk_component list option"
  xo_dcgm :: "dcgm_device list option"
  xo_client :: "otlp_client option"
  xo_timeout :: duration
  xo_dbRW :: bool
  xo_dbRO :: bool
  xo_machineID :: string

definition no_options :: exporter_options where
  "no_options = \<lparr>xo_config = None, xo_metricsStore = None, xo_eventStore = False, xo_registry = None, xo_dcgm = None,
     xo_client = None, xo_timeout = 0, xo_dbRW = False, xo_dbRO = False, xo_machineID = []\<rparr>"

datatype exporter_error =
    ApplyOption string
  | InvalidOptions string
  | CollectionFailed string
  | WriteCSVFailed write_error
  | WriteJSONFailed write_error
  | UnsupportedFormat string
  | SendDataFailed writer_error

text \<open>The functional options; an argument that may be nil is an option (or whether it is there).\<close>

datatype exporter_option =
    WithConfig "health_exporter_config option"
  | WithMetricsStore "(int \<Rightarrow> (string, health_metric list) result) option"
  | WithEventStore bool
  | WithComponentsRegistry "sdk_component list option"
  | WithDCGM "dcgm_device list option"
  | WithHTTPClient "otlp_client option"
  | WithTimeout duration
  | WithDatabaseConnections bool bool
  | WithMachineID string

fun apply_option :: "exporter_option \<Rightarrow> exporter_options \<Rightarrow> (string, exporter_options) result" where
  "apply_option (WithConfig cfg) c = (case cfg of
      None \<Rightarrow> Error ''configuration cannot be nil''
    | Some g \<Rightarrow> Ok (c\<lparr>xo_config := Some g, xo_timeout := he_Timeout g\<rparr>))"
| "apply_option (WithMetricsStore s) c = Ok (c\<lparr>xo_metricsStore := s\<rparr>)"
| "apply_option (WithEventStore s) c = Ok (c\<lparr>xo_eventStore := s\<rparr>)"
| "apply_option (WithComponentsRegistry r) c = Ok (c\<lparr>xo_registry := r\<rparr>)"
| "apply_option (WithDCGM i) c = Ok (c\<lparr>xo_dcgm := i\<rparr>)"
| "apply_option (WithHTTPClient cl) c = (case cl of
      None \<Rightarrow> Error ''HTTP client cannot be nil'' | Some x \<Rightarrow> Ok (c\<lparr>xo_client := Some x\<rparr>))"
| "apply_option (WithTimeout t) c =
     (if t \<le> 0 then Error ''timeout must be positive'' else Ok (c\<lparr>xo_timeout := t\<rparr>))"
| "apply_option (WithDatabaseConnections rw ro) c =
     (if \<not> rw then Error ''read-write database connection cannot be nil''
      else if \<not> ro then Error ''read-only database connection cannot be nil''
      else Ok (c\<lparr>xo_dbRW := True, xo_dbRO := True\<rparr>))"
| "apply_option (WithMachineID m) c =
     (if m = [] then Error ''machine ID cannot be empty'' else Ok (c\<lparr>xo_machineID := m\<rparr>))"

fun apply_options :: "exporter_option list \<Rightarrow> exporter_options \<Rightarrow> (string, exporter_options) result" where
  "apply_options [] c = Ok c"
| "apply_options (opt # opts) c = (case apply_option opt c of Inl e \<Rightarrow> Error e | Inr c' \<Rightarrow> apply_options opts c')"

definition validate_options :: "exporter_options \<Rightarrow> string option" where
  "validate_options c = (case xo_config c of
      None \<Rightarrow> Some ''configuration is required''
    | Some cfg \<Rightarrow>
        if he_IncludeMetrics cfg \<and> xo_metricsStore c = None then Some ''metrics store is required when IncludeMetrics is enabled''
        else if he_IncludeEvents cfg \<and> \<not> xo_eventStore c then Some ''event store is required when IncludeEvents is enabled''
        else if he_IncludeComponentData cfg \<and> xo_registry c = None
        then Some ''components registry is required when IncludeComponentData is enabled''
        else if xo_machineID c = [] then Some ''machine ID is required - must be set via WithMachineID()''
        else None)"

definition setDefaults :: "exporter_options \<Rightarrow> exporter_options" where
  "setDefaults c = (case xo_client c of
      None \<Rightarrow>
        if xo_timeout c \<le> 0 then c
        else c\<lparr>xo_client := Some \<lparr>oc_timeout = xo_timeout c, oc_use_last_response = True\<rparr>\<rparr>
    | Some cl \<Rightarrow> c\<lparr>xo_client := Some (cl\<lparr>oc_use_last_response := True\<rparr>)\<rparr>)"

definition exporter_New :: "int \<Rightarrow> exporter_option list \<Rightarrow> (exporter_error, exporter_options \<times> provider option) result" where
  "exporter_New now opts = (case apply_options opts no_options of
      Inl e \<Rightarrow> Error (ApplyOption e)
    | Inr c \<Rightarrow> (case validate_options c of
        Some e \<Rightarrow> Error (InvalidOptions e)
      | None \<Rightarrow> (let c' = setDefaults c in Ok (c', collector_New now (xo_config c') (xo_dcgm c')))))"

section \<open>World\<close>

record 'n exporter_world =
  xw_db :: database
  xw_requests :: "http_request list"
  xw_net :: 'n

record 'n exporter_env =
  xe_lib :: netlib
  xe_codec :: codec
  xe_http :: http_client
  xe_sql :: sqlite_env
  xe_dbRO :: bool
  xe_dbRW :: bool
  xe_do :: "otlp_request \<Rightarrow> 'n \<Rightarrow> (string, otlp_response) result \<times> 'n"
  xe_wait :: "duration \<Rightarrow> 'n \<Rightarrow> bool \<times> 'n"
  xe_random :: "int \<Rightarrow> 'n \<Rightarrow> (int option \<times> int) \<times> 'n"
  xe_marshal_metrics :: "resource_metrics list \<Rightarrow> (string, string) result"
  xe_marshal_logs :: "resource_logs list \<Rightarrow> (string, string) result"
  xe_convert :: conv_env
  xe_files :: file_env

section \<open>Metadata\<close>

text \<open>\<open>pkgmetadata.ReadMetadata\<close> on the read-only connection, when an error counts as an empty value.\<close>

definition read_or_empty :: "'n exporter_env \<Rightarrow> database \<Rightarrow> string \<Rightarrow> string" where
  "read_or_empty X db key = (case ReadMetadata (xe_sql X) db key of Inl _ \<Rightarrow> [] | Inr v \<Rightarrow> v)"

definition readValidatedEndpoint :: "'n exporter_env \<Rightarrow> database \<Rightarrow> string \<Rightarrow> string" where
  "readValidatedEndpoint X db key =
     (let v = read_or_empty X db key in
      if v = [] then []
      else case ValidateBackendEndpoint (xe_lib X) v of Inl _ \<Rightarrow> [] | Inr u \<Rightarrow> url_String (xe_lib X) u)"

fun legacy_base_from :: "'n exporter_env \<Rightarrow> database \<Rightarrow> string list \<Rightarrow> string" where
  "legacy_base_from X db [] = []"
| "legacy_base_from X db (key # rest) =
     (let v = read_or_empty X db key in
      if v = [] then legacy_base_from X db rest
      else case DeriveBackendBaseURL (xe_lib X) v of Inl _ \<Rightarrow> legacy_base_from X db rest | Inr b \<Rightarrow> b)"

definition readLegacyBackendBaseURL :: "'n exporter_env \<Rightarrow> database \<Rightarrow> string" where
  "readLegacyBackendBaseURL X db =
     legacy_base_from X db [''enroll_endpoint'', ''metrics_endpoint'', ''logs_endpoint'', ''nonce_endpoint'']"

definition derived_endpoint :: "'n exporter_env \<Rightarrow> database \<Rightarrow> string \<Rightarrow> string \<Rightarrow> string" where
  "derived_endpoint X db segment legacy_key =
     (let baseURL = read_or_empty X db ''backend_base_url'' in
      if baseURL \<noteq> [] then
        (case ValidateBackendEndpoint (xe_lib X) baseURL of
           Inl _ \<Rightarrow> readValidatedEndpoint X db legacy_key
         | Inr validated \<Rightarrow>
             (case JoinPath (xe_lib X) validated [''api'', ''v1'', ''health'', segment] of
                Some joined \<Rightarrow> joined
              | None \<Rightarrow> readValidatedEndpoint X db legacy_key))
      else readValidatedEndpoint X db legacy_key)"

definition refreshConfigFromMetadata :: "'n exporter_env \<Rightarrow> database \<Rightarrow> health_exporter_config \<Rightarrow> health_exporter_config" where
  "refreshConfigFromMetadata X db cfg =
     (let collectorEndpoint = TrimRightChar (he_CollectorEndpoint cfg) CHR ''/'' in
      if collectorEndpoint \<noteq> [] then
        cfg\<lparr>he_MetricsEndpoint := collectorEndpoint @ ''/v1/metrics'', he_LogsEndpoint := collectorEndpoint @ ''/v1/logs'',
            he_AuthToken := []\<rparr>
      else if \<not> xe_dbRO X then cfg
      else
        let c1 = cfg\<lparr>he_MetricsEndpoint := derived_endpoint X db ''metrics'' ''metrics_endpoint'',
                     he_LogsEndpoint := derived_endpoint X db ''logs'' ''logs_endpoint''\<rparr>
        in (case ReadMetadata (xe_sql X) db MetadataKeyToken of Inr token \<Rightarrow> c1\<lparr>he_AuthToken := token\<rparr> | Inl _ \<Rightarrow> c1))"

definition updateTokenInMetadata :: "'n exporter_env \<Rightarrow> string \<Rightarrow> database \<Rightarrow> bool \<times> database" where
  "updateTokenInMetadata X newToken db =
     (if \<not> xe_dbRW X then (False, db)
      else case SetMetadata (xe_sql X) MetadataKeyToken newToken db of
        (Inl _, db1) \<Rightarrow> (False, db1) | (Inr _, db1) \<Rightarrow> (True, db1))"

text \<open>The base URL a refresh uses: the stored one when it is valid, or else one derived from a legacy endpoint.\<close>

definition refresh_base_url :: "'n exporter_env \<Rightarrow> database \<Rightarrow> string" where
  "refresh_base_url X db =
     (let stored = read_or_empty X db ''backend_base_url'';
          valid = (if stored \<noteq> [] \<and> \<not> is_ok (ValidateBackendEndpoint (xe_lib X) stored) then [] else stored)
      in if valid = [] then readLegacyBackendBaseURL X db else valid)"

definition refreshJWTToken :: "'n exporter_env \<Rightarrow> 'n exporter_world \<Rightarrow> (string, string) result \<times> 'n exporter_world" where
  "refreshJWTToken X w =
     (if \<not> xe_dbRO X then (Error ''no database connection available for JWT refresh'', w)
      else
        let db = xw_db w; sakToken = read_or_empty X db ''sak_token'' in
        if sakToken = [] then (Error ''no SAK token available for JWT refresh'', w)
        else
          let baseURL = refresh_base_url X db
          in if baseURL = [] then (Error ''no backend base URL available for JWT refresh'', w)
             else case New (xe_lib X) (xe_http X) baseURL of
               Inl _ \<Rightarrow> (Error ''failed to create backend client for JWT refresh'', w)
             | Inr client \<Rightarrow>
                 (case Enroll (xe_lib X) (xe_codec X) client sakToken of
                    (Inl _, rqs) \<Rightarrow> (Error ''failed to refresh JWT token'', w\<lparr>xw_requests := xw_requests w @ rqs\<rparr>)
                  | (Inr newJWT, rqs) \<Rightarrow>
                      (Ok newJWT,
                       w\<lparr>xw_requests := xw_requests w @ rqs,
                         xw_db := (if xe_dbRW X then snd (SetMetadata (xe_sql X) MetadataKeyToken newJWT db) else db)\<rparr>)))"

section \<open>Export\<close>

text \<open>The environment of the HTTP writer, with the exporter's refresh function.\<close>

definition lift_net :: "('n \<Rightarrow> 'r \<times> 'n) \<Rightarrow> 'n exporter_world \<Rightarrow> 'r \<times> 'n exporter_world" where
  "lift_net f w = (let (r, n) = f (xw_net w) in (r, w\<lparr>xw_net := n\<rparr>))"

definition exporter_writer :: "'n exporter_env \<Rightarrow> 'n exporter_world writer_env" where
  "exporter_writer X = \<lparr>we_net = xe_lib X, we_do = (\<lambda>rq. lift_net (xe_do X rq)), we_refresh = Some (refreshJWTToken X),
     we_wait = (\<lambda>d. lift_net (xe_wait X d)), we_random = (\<lambda>b. lift_net (xe_random X b)),
     we_marshal_metrics = xe_marshal_metrics X, we_marshal_logs = xe_marshal_logs X, we_convert = xe_convert X\<rparr>"

definition populateOptionalResourceMetadata :: "'n exporter_env \<Rightarrow> database \<Rightarrow> health_data \<Rightarrow> health_data" where
  "populateOptionalResourceMetadata X db d =
     (if \<not> xe_dbRO X then d
      else case ReadNodePlacementMetadata (xe_sql X) (Some db) of
        Inl _ \<Rightarrow> d
      | Inr (nodeGroup, computeZone) \<Rightarrow>
          d\<lparr>hd_NodeGroup := (case nodeGroup of None \<Rightarrow> [] | Some g \<Rightarrow> g),
            hd_ComputeZone := (case computeZone of None \<Rightarrow> [] | Some z \<Rightarrow> z)\<rparr>)"

definition exportToFile :: "'n exporter_env \<Rightarrow> health_exporter_config \<Rightarrow> health_data \<Rightarrow> exporter_error option \<times> disk" where
  "exportToFile X cfg d =
     (let outputFormat = (if he_OutputFormat cfg = [] then ''json'' else he_OutputFormat cfg) in
      if outputFormat = ''csv'' then
        (case WriteCSV (xe_files X) d (he_OutputPath cfg) of (e, fs) \<Rightarrow> (map_option WriteCSVFailed e, fs))
      else if outputFormat = ''json'' then
        (case WriteJSON (xe_files X) (xe_convert X) d (he_OutputPath cfg) of (e, fs) \<Rightarrow> (map_option WriteJSONFailed e, fs))
      else (Some (UnsupportedFormat outputFormat), []))"

definition exportToHTTP :: "'n exporter_env \<Rightarrow> health_exporter_config \<Rightarrow> health_data \<Rightarrow> 'n exporter_world
    \<Rightarrow> exporter_error option \<times> health_exporter_config \<times> writer_event list \<times> 'n exporter_world" where
  "exportToHTTP X cfg d w =
     (if he_MetricsEndpoint cfg = [] \<and> he_LogsEndpoint cfg = [] then (None, cfg, [], w)
      else
        case http_Send (exporter_writer X) (Some d) (he_MetricsEndpoint cfg) (he_LogsEndpoint cfg) (he_RetryMaxAttempts cfg)
               (he_AuthToken cfg) w of
          ((newToken, Some e), ev, w1) \<Rightarrow> (Some (SendDataFailed e), cfg, ev, w1)
        | ((newToken, None), ev, w1) \<Rightarrow>
            if newToken \<noteq> [] \<and> newToken \<noteq> he_AuthToken cfg then
              (let (stored, db) = updateTokenInMetadata X newToken (xw_db w1)
               in (None, if stored then cfg\<lparr>he_AuthToken := newToken\<rparr> else cfg, ev, w1\<lparr>xw_db := db\<rparr>))
            else (None, cfg, ev, w1))"

record exporter_state =
  xs_config :: health_exporter_config
  xs_provider :: "provider option"
  xs_lastExport :: gotime

text \<open>
  One export.  \<open>C\<close> is what the collector reads; the configuration it reads is the exporter's, which is the
  same object.  The result lists the requests to the endpoints and the files written.
\<close>

definition export :: "'n exporter_env \<Rightarrow> collector_in \<Rightarrow> exporter_state \<Rightarrow> 'n exporter_world
    \<Rightarrow> exporter_error option \<times> exporter_state \<times> writer_event list \<times> disk \<times> 'n exporter_world" where
  "export X C s w =
     (let cfg = refreshConfigFromMetadata X (xw_db w) (xs_config s);
          s1 = s\<lparr>xs_config := cfg\<rparr>
      in case Collect_health (C\<lparr>ci_config := cfg\<rparr>) (xs_provider s) of
           (Inl e, prov) \<Rightarrow> (Some (CollectionFailed e), s1\<lparr>xs_provider := prov\<rparr>, [], [], w)
         | (Inr healthData, prov) \<Rightarrow>
             (let s2 = s1\<lparr>xs_provider := prov\<rparr>;
                  d = populateOptionalResourceMetadata X (xw_db w) healthData
              in if he_OfflineMode cfg then (case exportToFile X cfg d of (e, fs) \<Rightarrow> (e, s2, [], fs, w))
                 else (case exportToHTTP X cfg d w of (e, cfg1, ev, w1) \<Rightarrow> (e, s2\<lparr>xs_config := cfg1\<rparr>, ev, [], w1))))"

text \<open>A turn of the ticker, which is also the immediate export of the offline mode.\<close>

definition export_turn :: "'n exporter_env \<Rightarrow> collector_in \<Rightarrow> gotime \<Rightarrow> exporter_state \<Rightarrow> 'n exporter_world
    \<Rightarrow> exporter_state \<times> writer_event list \<times> disk \<times> 'n exporter_world" where
  "export_turn X C now s w = (case export X C s w of
      (Some _, s1, ev, fs, w1) \<Rightarrow> (s1, ev, fs, w1)
    | (None, s1, ev, fs, w1) \<Rightarrow> (s1\<lparr>xs_lastExport := to_utc now\<rparr>, ev, fs, w1))"

text \<open>
  \<open>Start\<close> and its goroutine over the ticks that arrive before the context ends; each tick brings what the
  collector reads then and the time.
\<close>

fun ticks :: "'n exporter_env \<Rightarrow> (collector_in \<times> gotime) list \<Rightarrow> exporter_state \<Rightarrow> 'n exporter_world
    \<Rightarrow> exporter_state \<times> writer_event list \<times> disk \<times> 'n exporter_world" where
  "ticks X [] s w = (s, [], [], w)"
| "ticks X ((C, now) # rest) s w =
     (case export_turn X C now s w of (s1, ev, fs, w1) \<Rightarrow>
      case ticks X rest s1 w1 of (s2, ev2, fs2, w2) \<Rightarrow> (s2, ev @ ev2, fs @ fs2, w2))"

definition exporter_Start :: "'n exporter_env \<Rightarrow> collector_in \<times> gotime \<Rightarrow> (collector_in \<times> gotime) list \<Rightarrow> exporter_state \<Rightarrow> 'n exporter_world
    \<Rightarrow> exporter_state \<times> writer_event list \<times> disk \<times> 'n exporter_world" where
  "exporter_Start X first later s w =
     (if he_Interval (xs_config s) \<le> 0 then (s, [], [], w)
      else if he_OfflineMode (xs_config s) then ticks X (first # later) s w
      else ticks X later s w)"

section \<open>What an export keeps\<close>

text \<open>A read through the exporter, in terms of the abstract view.\<close>

lemma read_or_empty_view:
  "read_or_empty X db key = (if se_select (xe_sql X) key \<noteq> None then [] else case view db key of None \<Rightarrow> [] | Some v \<Rightarrow> v)"
  by (cases db)
     (auto simp: read_or_empty_def ReadMetadata_def sql_select_def view_Some ok_if_nonempty_def coalesce_value_def split: option.split)

lemma ReadMetadata_Some: "se_select E key = None \<Longrightarrow> view db key = Some v \<Longrightarrow> ReadMetadata E db key = Ok v"
  by (auto simp: view_Some_iff ReadMetadata_def sql_select_def)

lemma read_or_empty_blank: "view db key = None \<Longrightarrow> read_or_empty X db key = []"
  by (simp add: read_or_empty_view)

text \<open>A request of the token refresh: a POST to the enrollment path of a validated backend, with the stored SAK.\<close>

definition refresh_request :: "'n exporter_env \<Rightarrow> database \<Rightarrow> http_request \<Rightarrow> bool" where
  "refresh_request X db rq \<longleftrightarrow> (\<exists>base client sak. New (xe_lib X) (xe_http X) base = Ok client \<and>
     view db MetadataKeySAKToken = Some sak \<and> request_ok (xe_lib X) client ''POST'' [''v1'', ''agent'', ''enroll''] sak rq)"

text \<open>
  The relation kept by every call of the exporter's environment: of the metadata only the token changes, and
  the requests added are those of token refreshes.
\<close>

definition token_only :: "'n exporter_env \<Rightarrow> 'n exporter_world \<Rightarrow> 'n exporter_world \<Rightarrow> bool" where
  "token_only X w w' \<longleftrightarrow> (\<forall>k. k \<noteq> MetadataKeyToken \<longrightarrow> view (xw_db w') k = view (xw_db w) k) \<and>
     (\<exists>rqs. xw_requests w' = xw_requests w @ rqs \<and> (\<forall>rq. rq \<in> set rqs \<longrightarrow> refresh_request X (xw_db w) rq))"

lemma refresh_request_cong:
  "view db MetadataKeySAKToken = view db' MetadataKeySAKToken \<Longrightarrow> refresh_request X db rq = refresh_request X db' rq"
  by (simp add: refresh_request_def)

lemma token_only_refl: "token_only X w w"
  by (auto simp: token_only_def)

lemma token_only_trans: "token_only X u v \<Longrightarrow> token_only X v w \<Longrightarrow> token_only X u w"
proof -
  assume a: "token_only X u v" and b: "token_only X v w"
  have "MetadataKeySAKToken \<noteq> MetadataKeyToken" by (simp add: metadata_keys)
  then have "view (xw_db v) MetadataKeySAKToken = view (xw_db u) MetadataKeySAKToken" using a by (simp add: token_only_def)
  from refresh_request_cong [OF this] have c: "refresh_request X (xw_db v) rq = refresh_request X (xw_db u) rq" for rq .
  obtain r1 r2 where "xw_requests v = xw_requests u @ r1" "\<forall>rq. rq \<in> set r1 \<longrightarrow> refresh_request X (xw_db u) rq"
    "xw_requests w = xw_requests v @ r2" "\<forall>rq. rq \<in> set r2 \<longrightarrow> refresh_request X (xw_db v) rq"
    using a b unfolding token_only_def by blast
  then have "xw_requests w = xw_requests u @ (r1 @ r2)" "\<forall>rq. rq \<in> set (r1 @ r2) \<longrightarrow> refresh_request X (xw_db u) rq"
    by (auto simp: c)
  with a b show ?thesis unfolding token_only_def by metis
qed

lemma token_only_net: "token_only X w (snd (lift_net f w))"
  by (auto simp: token_only_def lift_net_def split: prod.split)

lemma token_only_db:
  assumes "SetMetadata E MetadataKeyToken t (xw_db w) = (r, db)"
  shows "token_only X w (w\<lparr>xw_db := db\<rparr>)"
  using SetMetadata_cases [OF assms] by (auto simp: token_only_def)

lemma token_only_requests:
  "(\<And>rq. rq \<in> set rqs \<Longrightarrow> refresh_request X (xw_db w) rq) \<Longrightarrow> token_only X w (w\<lparr>xw_requests := xw_requests w @ rqs\<rparr>)"
  by (simp add: token_only_def)

text \<open>The cases of a refresh that reaches the backend.\<close>

lemma refreshJWTToken_cases:
  obtains (kept) e where "refreshJWTToken X w = (Inl e, w)"
  | (asked) base client sak r rqs where
      "New (xe_lib X) (xe_http X) base = Ok client" "view (xw_db w) MetadataKeySAKToken = Some sak"
      "Enroll (xe_lib X) (xe_codec X) client sak = (r, rqs)"
      "refreshJWTToken X w = (case r of
          Inl _ \<Rightarrow> (Error ''failed to refresh JWT token'', w\<lparr>xw_requests := xw_requests w @ rqs\<rparr>)
        | Inr j \<Rightarrow> (Ok j, w\<lparr>xw_requests := xw_requests w @ rqs,
                            xw_db := (if xe_dbRW X then snd (SetMetadata (xe_sql X) MetadataKeyToken j (xw_db w)) else xw_db w)\<rparr>))"
proof -
  have sak: "view (xw_db w) MetadataKeySAKToken = Some (read_or_empty X (xw_db w) ''sak_token'')"
    if "read_or_empty X (xw_db w) ''sak_token'' \<noteq> []"
    using that by (simp add: read_or_empty_view MetadataKeySAKToken_def split: if_splits option.splits)
  show ?thesis
  proof (cases "xe_dbRO X \<and> read_or_empty X (xw_db w) ''sak_token'' \<noteq> [] \<and> refresh_base_url X (xw_db w) \<noteq> []")
    case False
    then have "\<exists>e. refreshJWTToken X w = (Inl e, w)" by (auto simp: refreshJWTToken_def Let_def)
    then show ?thesis using kept by blast
  next
    case ready: True
    show ?thesis
    proof (cases "New (xe_lib X) (xe_http X) (refresh_base_url X (xw_db w))")
      case (Inl e)
      then have "\<exists>e. refreshJWTToken X w = (Inl e, w)" using ready by (simp add: refreshJWTToken_def Let_def)
      then show ?thesis using kept by blast
    next
      case (Inr client)
      obtain r rqs where r: "Enroll (xe_lib X) (xe_codec X) client (read_or_empty X (xw_db w) ''sak_token'') = (r, rqs)"
        by (metis prod.exhaust)
      show ?thesis
        by (rule asked [OF Inr sak r]) (use ready in \<open>simp_all add: refreshJWTToken_def Let_def Inr r split: sum.split\<close>)
    qed
  qed
qed

lemma refresh_token_only: "token_only X w (snd (refreshJWTToken X w))"
proof (cases rule: refreshJWTToken_cases [of X w])
  case (kept e)
  then show ?thesis by (simp add: token_only_refl)
next
  case (asked base client sak r rqs)
  let ?w = "w\<lparr>xw_requests := xw_requests w @ rqs\<rparr>"
  have "refresh_request X (xw_db w) rq" if "rq \<in> set rqs" for rq
    using Enroll_requests [OF asked(3)] that asked(1,2) unfolding refresh_request_def by blast
  then have q: "token_only X w ?w" by (rule token_only_requests)
  show ?thesis
  proof (cases r)
    case (Inl e)
    then show ?thesis using q asked(4) by simp
  next
    case (Inr j)
    have "token_only X ?w (?w\<lparr>xw_db := snd (SetMetadata (xe_sql X) MetadataKeyToken j (xw_db w))\<rparr>)"
      using token_only_db [of "xe_sql X" j ?w "fst (SetMetadata (xe_sql X) MetadataKeyToken j (xw_db w))"] by simp
    then show ?thesis using q asked(4) Inr token_only_trans by fastforce
  qed
qed

interpretation ex: world_preserving "exporter_writer X" "token_only X" for X :: "'n exporter_env"
  by unfold_locales
     (auto simp: exporter_writer_def token_only_refl token_only_net refresh_token_only intro: token_only_trans)

lemma exportToHTTP_keeps:
  assumes "exportToHTTP X cfg d w = (e, cfg1, ev, w1)"
  shows "token_only X w w1"
proof -
  obtain t err ev' w' where s: "http_Send (exporter_writer X) (Some d) (he_MetricsEndpoint cfg) (he_LogsEndpoint cfg)
      (he_RetryMaxAttempts cfg) (he_AuthToken cfg) w = ((t, err), ev', w')" by (metis prod.exhaust)
  have k: "token_only X w w'" by (rule ex.Send_keeps [OF s])
  have u: "token_only X w' (w'\<lparr>xw_db := db\<rparr>)" if "updateTokenInMetadata X t (xw_db w') = (b, db)" for b db
    using that token_only_refl
    by (auto simp: updateTokenInMetadata_def intro: token_only_db split: if_splits prod.splits sum.splits)
  show ?thesis
    using assms s k token_only_refl u token_only_trans [OF k]
    by (auto simp: exportToHTTP_def Let_def split: if_splits option.splits prod.splits)
qed

text \<open>The settings an export may change: the endpoints and the token.\<close>

definition same_settings :: "health_exporter_config \<Rightarrow> health_exporter_config \<Rightarrow> bool" where
  "same_settings c c' \<longleftrightarrow> (\<exists>m l t. c' = c\<lparr>he_MetricsEndpoint := m, he_LogsEndpoint := l, he_AuthToken := t\<rparr>)"

lemma same_settings_refl: "same_settings c c"
  unfolding same_settings_def
  by (intro exI [of _ "he_MetricsEndpoint c"] exI [of _ "he_LogsEndpoint c"] exI [of _ "he_AuthToken c"]) simp

lemma same_settings_trans: "same_settings a b \<Longrightarrow> same_settings b c \<Longrightarrow> same_settings a c"
  unfolding same_settings_def by (elim exE, hypsubst, intro exI) simp

lemma same_settings_token: "same_settings c (c\<lparr>he_AuthToken := t\<rparr>)"
  unfolding same_settings_def
  by (intro exI [of _ "he_MetricsEndpoint c"] exI [of _ "he_LogsEndpoint c"] exI [of _ t]) simp

lemma same_settings_fields:
  assumes "same_settings c c'"
  shows "he_OfflineMode c' = he_OfflineMode c" "he_CollectorEndpoint c' = he_CollectorEndpoint c" "he_Interval c' = he_Interval c"
  using assms by (auto simp: same_settings_def)

lemma refreshConfig_settings: "same_settings cfg (refreshConfigFromMetadata X db cfg)"
proof -
  have f: "same_settings cfg (cfg\<lparr>he_MetricsEndpoint := m, he_LogsEndpoint := l, he_AuthToken := t\<rparr>)" for m l t
    unfolding same_settings_def by blast
  have "same_settings cfg (cfg\<lparr>he_MetricsEndpoint := m, he_LogsEndpoint := l\<rparr>)" for m l
    using f [where m = m and l = l and t = "he_AuthToken cfg"] by simp
  with f show ?thesis
    using same_settings_refl by (auto simp: refreshConfigFromMetadata_def Let_def split: sum.split)
qed

lemma exportToHTTP_settings: "exportToHTTP X cfg d w = (e, cfg1, ev, w1) \<Longrightarrow> same_settings cfg cfg1"
  using same_settings_refl same_settings_token
  by (auto simp: exportToHTTP_def Let_def split: if_splits option.splits prod.splits)

text \<open>The three ways an export goes.\<close>

lemma export_cases:
  assumes "export X C s w = (e, s1, ev, fs, w1)"
  obtains (failed) "ev = []" "fs = []" "w1 = w" "xs_config s1 = refreshConfigFromMetadata X (xw_db w) (xs_config s)"
      "ci_machineID C = []"
  | (offline) "ev = []" "w1 = w" "xs_config s1 = refreshConfigFromMetadata X (xw_db w) (xs_config s)" "he_OfflineMode (xs_config s)"
  | (online) d where "fs = []" "\<not> he_OfflineMode (xs_config s)"
      "exportToHTTP X (refreshConfigFromMetadata X (xw_db w) (xs_config s)) d w = (e, xs_config s1, ev, w1)"
      "hd_MachineID d = ci_machineID C"
proof -
  let ?cfg = "refreshConfigFromMetadata X (xw_db w) (xs_config s)"
  have off: "he_OfflineMode ?cfg = he_OfflineMode (xs_config s)" using same_settings_fields(1) [OF refreshConfig_settings] .
  show ?thesis
  proof (cases "ci_machineID C = []")
    case True
    then show ?thesis using assms by (intro failed) (auto simp: export_def Let_def Collect_health_def)
  next
    case False
    then obtain d prov where c: "Collect_health (C\<lparr>ci_config := ?cfg\<rparr>) (xs_provider s) = (Inr d, prov)"
      "hd_MachineID d = ci_machineID C" using Collect_health_sections [of "C\<lparr>ci_config := ?cfg\<rparr>" "xs_provider s"] by auto
    let ?d = "populateOptionalResourceMetadata X (xw_db w) d"
    show ?thesis
    proof (cases "he_OfflineMode (xs_config s)")
      case True
      then show ?thesis using assms offline by (auto simp: export_def Let_def c off split: prod.splits)
    next
      case f: False
      then have r: "fs = []" "exportToHTTP X ?cfg ?d w = (e, xs_config s1, ev, w1)"
        using assms by (auto simp: export_def Let_def c off split: prod.splits)
      have "hd_MachineID ?d = ci_machineID C"
        by (auto simp: populateOptionalResourceMetadata_def c(2) split: sum.split prod.split)
      with r f online show ?thesis by blast
    qed
  qed
qed

lemma export_frame:
  assumes "export X C s w = (e, s1, ev, fs, w1)"
  shows "token_only X w w1 \<and> same_settings (xs_config s) (xs_config s1)"
  using assms
proof (cases rule: export_cases)
  case (online d)
  then show ?thesis
    using exportToHTTP_keeps [OF online(3)] same_settings_trans [OF refreshConfig_settings exportToHTTP_settings [OF online(3)]]
    by simp
qed (simp_all add: token_only_refl refreshConfig_settings)

section \<open>Where requests go\<close>

lemma tokens_before_refresh:
  "tokens_in_force mk tok (ev @ Sent rq # rest) \<Longrightarrow> \<exists>t. rq = mk t \<and> (refreshes ev = 0 \<longrightarrow> t = tok)"
  by (induction mk tok ev rule: tokens_in_force.induct) auto

lemma retry_requests:
  assumes "sendOTLPRequestWithRetry E b t c m ep n tok w = (r, ev @ Sent rq # rest, w1)"
  shows "\<exists>tok'. rq = otlp_http_request b t c m ep tok' \<and> (refreshes ev = 0 \<longrightarrow> tok' = tok)"
  using tokens_before_refresh [OF retry_loop_tokens [OF sendOTLPRequest_maker assms [unfolded sendOTLPRequestWithRetry_def]]] .

text \<open>A request of a send belongs to a part with an endpoint, and carries the given token unless a refresh came before it.\<close>

definition part_request :: "string \<Rightarrow> string \<Rightarrow> string \<Rightarrow> string \<Rightarrow> otlp_request \<Rightarrow> bool" where
  "part_request me le m tok rq \<longleftrightarrow>
     (\<exists>b t c. (rq = otlp_http_request b t c m me tok \<and> me \<noteq> []) \<or> (rq = otlp_http_request b t c m le tok \<and> le \<noteq> []))"

lemma part_request_intros:
  "me \<noteq> [] \<Longrightarrow> part_request me le m tok (otlp_http_request b t c m me tok)"
  "le \<noteq> [] \<Longrightarrow> part_request me le m tok (otlp_http_request b t c m le tok)"
  unfolding part_request_def by blast+

lemma http_Send_requests:
  assumes "http_Send E (Some d) me le n tok w = (r, ev @ Sent rq # rest, w1)"
  shows "\<exists>tok'. part_request me le (hd_MachineID d) tok' rq \<and> (refreshes ev = 0 \<longrightarrow> tok' = tok)"
proof -
  let ?x = "otlp_Convert (we_convert E) d" and ?Q = "\<lambda>ev. \<exists>tok'. part_request me le (hd_MachineID d) tok' rq \<and> (refreshes ev = 0 \<longrightarrow> tok' = tok)"
  have m: "?Q ev'" if "send_metrics E d ?x me n tok w = (r1, ev' @ Sent rq # rest', w')" for r1 ev' rest' w'
    using that
    by (auto simp: send_metrics_def dest!: retry_requests intro: part_request_intros split: if_splits sum.splits prod.splits)
  have l: "?Q ev'" if "send_logs E d ?x le n tok nt w' = (r1, ev' @ Sent rq # rest', w'')" for nt r1 ev' rest' w' w''
    using that
    by (auto simp: send_logs_def dest!: retry_requests intro: part_request_intros split: if_splits sum.splits prod.splits)
  obtain r1 ev1 w2 where e1: "send_metrics E d ?x me n tok w = (r1, ev1, w2)" by (metis prod_cases3)
  obtain r2 ev2 w3 where e2: "send_logs E d ?x le n tok (case r1 of Inr t \<Rightarrow> t) w2 = (r2, ev2, w3)" by (metis prod_cases3)
  have "ev @ Sent rq # rest = ev1 \<or> ev @ Sent rq # rest = ev1 @ ev2"
    using assms e1 e2 by (auto simp: http_Send_def Let_def split: sum.splits prod.splits)
  then consider xs where "ev1 = ev @ Sent rq # xs" | xs where "ev = ev1 @ xs" "ev2 = xs @ Sent rq # rest"
    by (auto simp: append_eq_append_conv2 Cons_eq_append_conv)
  then show ?thesis
  proof cases
    case 1
    then show ?thesis using m e1 by simp
  next
    case 2
    then show ?thesis using l e2 by fastforce
  qed
qed

lemma exportToHTTP_requests:
  assumes "exportToHTTP X cfg d w = (e, cfg1, ev @ Sent rq # rest, w1)"
  shows "\<exists>tok'. part_request (he_MetricsEndpoint cfg) (he_LogsEndpoint cfg) (hd_MachineID d) tok' rq \<and>
    (refreshes ev = 0 \<longrightarrow> tok' = he_AuthToken cfg)"
  using assms
  by (auto simp: exportToHTTP_def Let_def dest: http_Send_requests split: if_splits option.splits prod.splits)

text \<open>An address the exporter may send to: the stored value of a key that passes the backend check, as it is or with the health path.\<close>

definition backend_address :: "'n exporter_env \<Rightarrow> database \<Rightarrow> string \<Rightarrow> bool" where
  "backend_address X db url \<longleftrightarrow> (\<exists>k v u. view db k = Some v \<and> ValidateBackendEndpoint (xe_lib X) v = Ok u \<and>
     (url = url_String (xe_lib X) u \<or> (\<exists>seg. JoinPath (xe_lib X) u [''api'', ''v1'', ''health'', seg] = Some url)))"

lemma readValidatedEndpoint_address: "readValidatedEndpoint X db key = [] \<or> backend_address X db (readValidatedEndpoint X db key)"
  by (auto simp: readValidatedEndpoint_def Let_def backend_address_def read_or_empty_view split: sum.split option.splits if_splits)

lemma derived_endpoint_address: "derived_endpoint X db seg key = [] \<or> backend_address X db (derived_endpoint X db seg key)"
proof -
  have "backend_address X db j" if "read_or_empty X db ''backend_base_url'' \<noteq> []"
    "ValidateBackendEndpoint (xe_lib X) (read_or_empty X db ''backend_base_url'') = Inr u"
    "JoinPath (xe_lib X) u [''api'', ''v1'', ''health'', seg] = Some j" for u j
    using that unfolding backend_address_def read_or_empty_view by (auto split: if_splits option.splits)
  then show ?thesis
    using readValidatedEndpoint_address [of X db key] by (auto simp: derived_endpoint_def Let_def split: sum.split option.split)
qed

section \<open>Without an access key\<close>

text \<open>Without a stored access key no refresh succeeds, and that stays so: exports leave the key alone.\<close>

lemma refresh_without_sak:
  assumes "view (xw_db w) MetadataKeySAKToken = None"
  shows "\<exists>e. refreshJWTToken X w = (Inl e, w)"
  using assms by (cases rule: refreshJWTToken_cases [of X w]) auto

interpretation keyless: refresh_barred "exporter_writer X" "token_only X" "\<lambda>w. view (xw_db w) MetadataKeySAKToken = None" for X :: "'n exporter_env"
proof unfold_locales
  show "view (xw_db w1) MetadataKeySAKToken = None" if "token_only X w w1" "view (xw_db w) MetadataKeySAKToken = None"
    for w w1 :: "'n exporter_world"
    using that by (simp add: token_only_def metadata_keys)
  show "\<exists>e w1. f w = (Inl e, w1)" if "we_refresh (exporter_writer X) = Some f" "view (xw_db w) MetadataKeySAKToken = None"
    for f and w :: "'n exporter_world"
    using refresh_without_sak [OF that(2), of X] that(1) by (auto simp: exporter_writer_def)
qed

lemma exportToHTTP_keyless:
  assumes "exportToHTTP X cfg d w = (e, cfg1, ev, w1)" "view (xw_db w) MetadataKeySAKToken = None"
  shows "refreshes ev = 0"
  using assms keyless.Send_unrefreshed [of X]
  by (auto simp: exportToHTTP_def Let_def split: if_splits option.splits prod.splits)

lemma token_only_keyless:
  assumes "token_only X w w1" "view (xw_db w) MetadataKeySAKToken = None"
  shows "xw_requests w1 = xw_requests w" "view (xw_db w1) MetadataKeySAKToken = None"
proof -
  show "view (xw_db w1) MetadataKeySAKToken = None" using keyless.barred_kept [OF assms(1)] assms(2) by simp
  from assms(1) obtain rqs where r: "xw_requests w1 = xw_requests w @ rqs" "\<forall>rq. rq \<in> set rqs \<longrightarrow> refresh_request X (xw_db w) rq"
    by (auto simp: token_only_def)
  then have "rqs = []" using assms(2) by (cases rqs) (auto simp: refresh_request_def)
  with r show "xw_requests w1 = xw_requests w" by simp
qed

text \<open>The requests of an export in collector mode then go to the collector and carry no authorization.\<close>

definition to_collector :: "string \<Rightarrow> otlp_request \<Rightarrow> bool" where
  "to_collector ce rq \<longleftrightarrow> orq_url rq \<in> {ce @ ''/v1/metrics'', ce @ ''/v1/logs''} \<and> ''Authorization'' \<notin> fst ` set (orq_headers rq)"

lemma export_keyless:
  assumes "export X C s w = (e, s1, ev, fs, w1)" "view (xw_db w) MetadataKeySAKToken = None"
    and "TrimRightChar (he_CollectorEndpoint (xs_config s)) CHR ''/'' = ce" "ce \<noteq> []"
  shows "refreshes ev = 0 \<and> (\<forall>rq. Sent rq \<in> set ev \<longrightarrow> to_collector ce rq)"
  using assms(1)
proof (cases rule: export_cases)
  case (online d)
  let ?cfg = "refreshConfigFromMetadata X (xw_db w) (xs_config s)"
  have c: "he_MetricsEndpoint ?cfg = ce @ ''/v1/metrics''" "he_LogsEndpoint ?cfg = ce @ ''/v1/logs''" "he_AuthToken ?cfg = []"
    using assms(3,4) by (simp_all add: refreshConfigFromMetadata_def Let_def)
  have n: "refreshes ev = 0" by (rule exportToHTTP_keyless [OF online(3) assms(2)])
  have "to_collector ce rq" if "Sent rq \<in> set ev" for rq
  proof -
    from that obtain xs ys where x: "ev = xs @ Sent rq # ys" by (meson split_list)
    with n have z: "refreshes xs = 0" by simp
    from exportToHTTP_requests [OF online(3) [unfolded x]] z
    have "part_request (he_MetricsEndpoint ?cfg) (he_LogsEndpoint ?cfg) (hd_MachineID d) [] rq" by (auto simp: c(3))
    then show ?thesis by (auto simp: part_request_def otlp_http_request_def to_collector_def c)
  qed
  with n show ?thesis by blast
qed simp_all

lemma ticks_keyless:
  assumes "ticks X ts s w = (s1, ev, fs, w1)" "view (xw_db w) MetadataKeySAKToken = None"
    and "TrimRightChar (he_CollectorEndpoint (xs_config s)) CHR ''/'' = ce" "ce \<noteq> []"
  shows "token_only X w w1 \<and> refreshes ev = 0 \<and> (\<forall>rq. Sent rq \<in> set ev \<longrightarrow> to_collector ce rq)"
  using assms(1-3)
proof (induction ts arbitrary: s w s1 ev fs w1)
  case (Cons t ts)
  obtain C now where t: "t = (C, now)" by fastforce
  obtain e sa eva fsa wa where x: "export X C s w = (e, sa, eva, fsa, wa)" by (metis prod_cases5)
  let ?sb = "case e of Some _ \<Rightarrow> sa | None \<Rightarrow> sa\<lparr>xs_lastExport := to_utc now\<rparr>"
  obtain sc evc fsc wc where y: "ticks X ts ?sb wa = (sc, evc, fsc, wc)" by (metis prod_cases4)
  have ev: "ev = eva @ evc" "w1 = wc" using Cons.prems(1) x y by (auto simp: t export_turn_def split: option.splits)
  note f = export_frame [OF x]
  have "TrimRightChar (he_CollectorEndpoint (xs_config ?sb)) CHR ''/'' = ce"
    using same_settings_fields(2) f Cons.prems(3) by (cases e) auto
  moreover have "view (xw_db wa) MetadataKeySAKToken = None" using token_only_keyless(2) f Cons.prems(2) by blast
  ultimately have "token_only X wa wc \<and> refreshes evc = 0 \<and> (\<forall>rq. Sent rq \<in> set evc \<longrightarrow> to_collector ce rq)"
    using Cons.IH [OF y] by blast
  then show ?case using export_keyless [OF x Cons.prems(2,3) assms(4)] f token_only_trans by (auto simp: ev)
qed (auto simp: token_only_refl)

section \<open>A refused request\<close>

lemma retry_loop_starts:
  assumes "\<And>tok w. \<exists>rest. fst (snd (send tok w)) = Sent (mk tok) # rest" "k \<ge> attempt"
  shows "\<exists>r rest w1. retry_loop E send k attempt attempted tok le w = (r, Sent (mk tok) # rest, w1)"
proof -
  obtain r0 rest0 w0 where s: "send tok w = (r0, Sent (mk tok) # rest0, w0)" using assms(1) [of tok w] by (metis prod.collapse)
  then show ?thesis
    using assms(2) by (subst retry_loop.simps) (auto simp: Let_def split: sum.split option.split prod.split)
qed

lemma retry_loop_refreshed:
  assumes "send tok w = (Inl err, ev, w1)" "try_refresh E False err w1 = (Some j, ev1, w2)" "attempt \<le> k"
    and "retry_loop E send k attempt True j (Some err) w2 = (r, ev2, w3)"
  shows "retry_loop E send k attempt False tok le w = (r, ev @ ev1 @ ev2, w3)"
  using assms by (subst retry_loop.simps) simp

lemma export_starts_with_metrics:
  assumes "he_MetricsEndpoint cfg = me" "me \<noteq> []" "\<And>m. xe_marshal_metrics X m = Inr body"
    and "\<And>mx tok. \<exists>r rest w1. sendOTLPRequestWithRetry (exporter_writer X) body ''metrics'' (hd_CollectionID d) (hd_MachineID d) me mx tok w =
      (r, evs tok @ rest, w1)"
  shows "\<exists>e c1 rest w1. exportToHTTP X cfg d w = (e, c1, evs (he_AuthToken cfg) @ rest, w1)"
proof -
  let ?x = "otlp_Convert (we_convert (exporter_writer X)) d"
  have i: "has_items (od_Metrics ?x)" by (simp add: otlp_Convert_def has_items_def Let_def)
  obtain r rest w1 where s: "sendOTLPRequestWithRetry (exporter_writer X) body ''metrics'' (hd_CollectionID d) (hd_MachineID d) me
      (he_RetryMaxAttempts cfg) (he_AuthToken cfg) w = (r, evs (he_AuthToken cfg) @ rest, w1)" using assms(4) by blast
  have m: "we_marshal_metrics (exporter_writer X) y = Inr body" for y using assms(3) by (simp add: exporter_writer_def)
  obtain t where "send_metrics (exporter_writer X) d ?x me (he_RetryMaxAttempts cfg) (he_AuthToken cfg) w = (Inr t, evs (he_AuthToken cfg) @ rest, w1)"
    by (cases r) (auto simp: send_metrics_def i m s assms(2))
  then have "\<exists>r2 rest2 w2. http_Send (exporter_writer X) (Some d) me (he_LogsEndpoint cfg) (he_RetryMaxAttempts cfg) (he_AuthToken cfg) w =
      (r2, evs (he_AuthToken cfg) @ rest2, w2)"
    by (simp add: http_Send_def Let_def split: prod.split)
  then show ?thesis
    using assms(1,2) by (auto simp: exportToHTTP_def Let_def split: option.split prod.split if_split)
qed

text \<open>An online export of a collector with a machine ID sends the metrics first.\<close>

lemma export_sends_metrics:
  assumes "\<not> he_OfflineMode (xs_config s)" "ci_machineID C \<noteq> []"
    and "cfg = refreshConfigFromMetadata X (xw_db w) (xs_config s)" "he_MetricsEndpoint cfg = me" "me \<noteq> []"
    and "request_origin (xe_lib X) me = Some origin" "\<And>m. xe_marshal_metrics X m = Inr body"
  shows "\<exists>e s1 t c rest fs w1. export X C s w = (e, s1, Sent (otlp_http_request body t c (ci_machineID C) me (he_AuthToken cfg)) # rest, fs, w1)"
proof -
  let ?E = "exporter_writer X"
  from assms(2) obtain d0 prov where c: "Collect_health (C\<lparr>ci_config := cfg\<rparr>) (xs_provider s) = (Inr d0, prov)" "hd_MachineID d0 = ci_machineID C"
    using Collect_health_sections [of "C\<lparr>ci_config := cfg\<rparr>" "xs_provider s"] by auto
  define d where "d = populateOptionalResourceMetadata X (xw_db w) d0"
  have m: "hd_MachineID d = ci_machineID C"
    by (auto simp: d_def populateOptionalResourceMetadata_def c(2) split: sum.split prod.split)
  define mk where "mk = otlp_http_request body ''metrics'' (hd_CollectionID d) (hd_MachineID d) me"
  let ?send = "sendOTLPRequest ?E body ''metrics'' (hd_CollectionID d) (hd_MachineID d) me"
  have net: "we_net ?E = xe_lib X" by (simp add: exporter_writer_def)
  have evs: "\<exists>rest. fst (snd (?send tok w')) = Sent (mk tok) # rest" for tok w'
    by (simp add: sendOTLPRequest_def net assms(6) Let_def mk_def split: prod.split)
  have retry: "\<exists>r rest w1. sendOTLPRequestWithRetry ?E body ''metrics'' (hd_CollectionID d) (hd_MachineID d) me mx tok w = (r, [Sent (mk tok)] @ rest, w1)" for mx tok
    unfolding sendOTLPRequestWithRetry_def using retry_loop_starts [where send = ?send and mk = mk, OF evs] by simp
  obtain e c1 rest w1 where h: "exportToHTTP X cfg d w = (e, c1, Sent (mk (he_AuthToken cfg)) # rest, w1)"
    using export_starts_with_metrics [OF assms(4,5,7), where evs = "\<lambda>tok. [Sent (mk tok)]" and d = d and w = w] retry by auto
  have "\<not> he_OfflineMode cfg" using assms(1,3) by (simp add: same_settings_fields(1) [OF refreshConfig_settings])
  then have "export X C s w = (e, s\<lparr>xs_config := c1, xs_provider := prov\<rparr>, Sent (mk (he_AuthToken cfg)) # rest, [], w1)"
    unfolding export_def Let_def assms(3) [symmetric] by (simp add: c d_def [symmetric] h)
  then show ?thesis unfolding mk_def m by blast
qed

text \<open>What it sends first when it is refused.\<close>

lemma export_first_request:
  assumes "\<not> he_OfflineMode (xs_config s)" "ci_machineID C \<noteq> []"
    and "cfg = refreshConfigFromMetadata X (xw_db w) (xs_config s)" "he_MetricsEndpoint cfg = me" "me \<noteq> []"
    and "request_origin (xe_lib X) me = Some origin" "\<And>m. xe_marshal_metrics X m = Inr body"
    and "\<And>rq. fst (xe_do X rq (xw_net w)) = Inr resp" "\<And>rq. snd (xe_do X rq (xw_net w)) = n"
    and "ors_origin resp = Some origin" "ors_status_code resp = 401"
    and "refreshJWTToken X (w\<lparr>xw_net := n\<rparr>) = (Inr jwt, w2)"
  shows "\<exists>mk e s1 rest fs w1. export X C s w =
     (e, s1, Sent (mk (he_AuthToken cfg)) # Refreshed (Inr jwt) # Sent (mk jwt) # rest, fs, w1) \<and>
     (\<exists>b t c m. mk = otlp_http_request b t c m me)"
proof -
  let ?E = "exporter_writer X"
  from assms(2) obtain d0 prov where c: "Collect_health (C\<lparr>ci_config := cfg\<rparr>) (xs_provider s) = (Inr d0, prov)"
    using Collect_health_sections [of "C\<lparr>ci_config := cfg\<rparr>" "xs_provider s"] by auto
  define d where "d = populateOptionalResourceMetadata X (xw_db w) d0"
  define mk where "mk = otlp_http_request body ''metrics'' (hd_CollectionID d) (hd_MachineID d) me"
  let ?send = "sendOTLPRequest ?E body ''metrics'' (hd_CollectionID d) (hd_MachineID d) me"
  have do: "we_do ?E rq w = (Inr resp, w\<lparr>xw_net := n\<rparr>)" for rq
    using assms(8,9) [of rq] by (simp add: exporter_writer_def lift_net_def Let_def case_prod_unfold)
  have net: "we_net ?E = xe_lib X" "we_refresh ?E = Some (refreshJWTToken X)" by (simp_all add: exporter_writer_def)
  have first: "?send tok w = (Inl (HTTPError 401 (ors_status resp) ''request failed''), [Sent (mk tok)], w\<lparr>xw_net := n\<rparr>)" for tok
    using assms(10,11) by (simp add: sendOTLPRequest_def net assms(6) Let_def do check_response_def mk_def split: prod.split)
  have evs: "\<exists>rest. fst (snd (?send tok w')) = Sent (mk tok) # rest" for tok w'
    by (simp add: sendOTLPRequest_def net assms(6) Let_def mk_def split: prod.split)
  have second: "\<exists>r rest w1. retry_loop ?E ?send k 1 True jwt le w2 = (r, Sent (mk jwt) # rest, w1)" if "k \<ge> 1" for k le
    by (rule retry_loop_starts [where send = ?send and mk = mk, OF evs that])
  have refresh: "try_refresh ?E False (HTTPError 401 a b) (w\<lparr>xw_net := n\<rparr>) = (Some jwt, [Refreshed (Inr jwt)], w2)" for a b
    by (simp add: try_refresh_def net assms(12))
  have retry: "\<exists>r rest w1. sendOTLPRequestWithRetry ?E body ''metrics'' (hd_CollectionID d) (hd_MachineID d) me mx tok w =
      (r, Sent (mk tok) # Refreshed (Inr jwt) # Sent (mk jwt) # rest, w1)" for mx tok
  proof -
    let ?k = "if mx \<le> 0 then 1 else nat mx" and ?err = "HTTPError 401 (ors_status resp) ''request failed''"
    have k: "1 \<le> ?k" by auto
    then obtain r rest w1 where "retry_loop ?E ?send ?k 1 True jwt (Some ?err) w2 = (r, Sent (mk jwt) # rest, w1)"
      using second by blast
    from retry_loop_refreshed [OF first refresh k this] show ?thesis unfolding sendOTLPRequestWithRetry_def by auto
  qed
  have "\<exists>e c1 rest w1. exportToHTTP X cfg d w = (e, c1, Sent (mk (he_AuthToken cfg)) # Refreshed (Inr jwt) # Sent (mk jwt) # rest, w1)"
    using export_starts_with_metrics [OF assms(4,5,7), where evs = "\<lambda>tok. [Sent (mk tok), Refreshed (Inr jwt), Sent (mk jwt)]" and d = d and w = w]
      retry by simp
  then obtain e c1 rest w1 where h: "exportToHTTP X cfg d w = (e, c1, Sent (mk (he_AuthToken cfg)) # Refreshed (Inr jwt) # Sent (mk jwt) # rest, w1)"
    by blast
  have "\<not> he_OfflineMode cfg" using assms(1,3) by (simp add: same_settings_fields(1) [OF refreshConfig_settings])
  then have "export X C s w = (e, s\<lparr>xs_config := c1, xs_provider := prov\<rparr>,
      Sent (mk (he_AuthToken cfg)) # Refreshed (Inr jwt) # Sent (mk jwt) # rest, [], w1)"
    unfolding export_def Let_def assms(3) [symmetric] by (simp add: c d_def [symmetric] h)
  then show ?thesis unfolding mk_def by blast
qed

section \<open>Properties\<close>

text \<open>
  A node that was enrolled with \<open>https://b.example\<close>; the endpoints answer with the given origin and status, and
  the backend issues the JWT \<open>j\<close>.
\<close>

definition sample_exporter_env :: "(string \<times> string) option \<Rightarrow> int \<Rightarrow> unit exporter_env" where
  "sample_exporter_env origin status = \<lparr>xe_lib = plain_netlib, xe_codec = sample_codec, xe_http = sample_http, xe_sql = healthy,
     xe_dbRO = True, xe_dbRW = True,
     xe_do = (\<lambda>rq n. (Inr \<lparr>ors_origin = origin, ors_status_code = status, ors_status = [], ors_jwt_assertion = []\<rparr>, n)),
     xe_wait = (\<lambda>d n. (False, n)), xe_random = (\<lambda>b n. ((Some 0, 0), n)), xe_marshal_metrics = (\<lambda>m. Inr ''metrics''),
     xe_marshal_logs = (\<lambda>l. Inr ''logs''), xe_convert = sample_conv_env, xe_files = sample_files True\<rparr>"

definition enrolled_world :: "unit exporter_world" where
  "enrolled_world = \<lparr>xw_db = Some [''backend_base_url'' \<mapsto> ''https://b.example'', ''sak_token'' \<mapsto> ''sak'', ''token'' \<mapsto> ''jwt''],
     xw_requests = [], xw_net = ()\<rparr>"

definition sample_exporter :: "string \<Rightarrow> exporter_state" where
  "sample_exporter collector = \<lparr>xs_config = sample_exporter_config\<lparr>he_CollectorEndpoint := collector\<rparr>, xs_provider = None, xs_lastExport = zero_time\<rparr>"

text \<open>The same node behind a gateway that answers every request with 401.\<close>

definition gateway_env :: "unit exporter_env" where
  "gateway_env = sample_exporter_env (Some (''http'', ''gateway'')) 401"

definition gateway_exporter :: exporter_state where
  "gateway_exporter = sample_exporter ''http://gateway/''"

definition gateway_response :: otlp_response where
  "gateway_response = \<lparr>ors_origin = Some (''http'', ''gateway''), ors_status_code = 401, ors_status = [], ors_jwt_assertion = []\<rparr>"

lemma gateway_run:
  "TrimRightChar (he_CollectorEndpoint (xs_config gateway_exporter)) CHR ''/'' = ''http://gateway''"
  "\<not> he_OfflineMode (xs_config gateway_exporter)" "ci_machineID sample_collector \<noteq> []"
  "request_origin (xe_lib gateway_env) (''http://gateway'' @ ''/v1/metrics'') = Some (''http'', ''gateway'')"
  "xe_marshal_metrics gateway_env x = Inr ''metrics''"
  "xe_do gateway_env rq (xw_net enrolled_world) = (Inr gateway_response, ())"
  "ors_origin gateway_response = Some (''http'', ''gateway'')" "ors_status_code gateway_response = 401"
  "refreshJWTToken gateway_env (enrolled_world\<lparr>xw_net := ()\<rparr>) = (Inr ''j'', snd (refreshJWTToken gateway_env enrolled_world))"
proof -
  have r: "fst (refreshJWTToken gateway_env enrolled_world) = Inr ''j''" by code_simp
  have n: "enrolled_world\<lparr>xw_net := ()\<rparr> = enrolled_world" by (simp add: enrolled_world_def)
  show "refreshJWTToken gateway_env (enrolled_world\<lparr>xw_net := ()\<rparr>) = (Inr ''j'', snd (refreshJWTToken gateway_env enrolled_world))"
    unfolding n using r by (metis prod.collapse)
qed (code_simp | simp add: gateway_env_def sample_exporter_env_def gateway_response_def)+

lemma gateway_first_request:
  "\<exists>e s1 rq rest fs w1. export gateway_env sample_collector gateway_exporter enrolled_world = (e, s1, [] @ Sent rq # rest, fs, w1)"
proof -
  let ?cfg = "refreshConfigFromMetadata gateway_env (xw_db enrolled_world) (xs_config gateway_exporter)"
  have m: "he_MetricsEndpoint ?cfg = ''http://gateway'' @ ''/v1/metrics''" using gateway_run(1) by (simp add: refreshConfigFromMetadata_def Let_def)
  have d: "fst (xe_do gateway_env rq (xw_net enrolled_world)) = Inr gateway_response" "snd (xe_do gateway_env rq (xw_net enrolled_world)) = ()" for rq
    using gateway_run(6) by simp_all
  show ?thesis
    using export_first_request [OF gateway_run(2,3) refl m _ gateway_run(4,5) d gateway_run(7-9)] by auto
qed

text \<open>
  C5: An export touches nothing but what it must.  Whatever fails, the only metadata it changes is the token,
  the only requests it sends besides the telemetry are enrollment requests with the stored SAK to a validated
  backend, and of its settings only the endpoints and the token change.  An offline export sends nothing and
  changes no metadata; an online one writes no file.
\<close>

theorem export_confined:
  assumes "export X C s w = (e, s1, ev, fs, w1)"
  shows "token_only X w w1 \<and> same_settings (xs_config s) (xs_config s1) \<and>
    (if he_OfflineMode (xs_config s) then ev = [] \<and> w1 = w else fs = [])"
  using assms export_frame [OF assms] by (cases rule: export_cases) (simp_all split: if_split)

theorem export_confined_witness:
  "\<exists>e s1 ev fs w1. export (sample_exporter_env (Some (''https'', ''b.example'')) 200) sample_collector (sample_exporter []) enrolled_world =
       (e, s1, ev, fs, w1) \<and> fs = [] \<and> view (xw_db w1) MetadataKeySAKToken = Some ''sak''"
proof -
  let ?X = "sample_exporter_env (Some (''https'', ''b.example'')) 200"
  obtain e s1 ev fs w1 where x: "export ?X sample_collector (sample_exporter []) enrolled_world = (e, s1, ev, fs, w1)"
    by (metis prod_cases5)
  have "view (xw_db enrolled_world) MetadataKeySAKToken = Some ''sak''" "MetadataKeySAKToken \<noteq> MetadataKeyToken"
    "\<not> he_OfflineMode (xs_config (sample_exporter []))" by code_simp+
  with x export_confined [OF x] show ?thesis by (simp add: token_only_def)
qed

text \<open>
  C9: Every telemetry request goes where the mode says.  With a collector configured, requests go to its
  metrics and logs paths and the first one, like all before a token refresh, has no authorization; without
  one, they go to an address made from a stored URL that passes the backend check, and carry the stored token.
\<close>

theorem export_destinations:
  assumes "export X C s w = (e, s1, ev @ Sent rq # rest, fs, w1)"
  shows "(let ce = TrimRightChar (he_CollectorEndpoint (xs_config s)) CHR ''/'' in
     if ce \<noteq> [] then orq_url rq \<in> {ce @ ''/v1/metrics'', ce @ ''/v1/logs''} \<and>
       (refreshes ev = 0 \<longrightarrow> ''Authorization'' \<notin> fst ` set (orq_headers rq))
     else xe_dbRO X \<longrightarrow> backend_address X (xw_db w) (orq_url rq) \<and>
       (refreshes ev = 0 \<and> view (xw_db w) MetadataKeyToken = Some t \<and> se_select (xe_sql X) MetadataKeyToken = None \<longrightarrow>
          (''Authorization'', ''Bearer '' @ t) \<in> set (orq_headers rq)))"
proof -
  let ?cfg = "refreshConfigFromMetadata X (xw_db w) (xs_config s)" and ?ce = "TrimRightChar (he_CollectorEndpoint (xs_config s)) CHR ''/''"
  from assms obtain tok where p: "part_request (he_MetricsEndpoint ?cfg) (he_LogsEndpoint ?cfg) (ci_machineID C) tok rq"
    and tok: "refreshes ev = 0 \<longrightarrow> tok = he_AuthToken ?cfg"
    by (cases rule: export_cases) (auto dest: exportToHTTP_requests)
  have coll: "he_MetricsEndpoint ?cfg = ?ce @ ''/v1/metrics''" "he_LogsEndpoint ?cfg = ?ce @ ''/v1/logs''" "he_AuthToken ?cfg = []"
    if "?ce \<noteq> []" using that by (simp_all add: refreshConfigFromMetadata_def Let_def)
  have direct: "he_MetricsEndpoint ?cfg = [] \<or> backend_address X (xw_db w) (he_MetricsEndpoint ?cfg)"
    "he_LogsEndpoint ?cfg = [] \<or> backend_address X (xw_db w) (he_LogsEndpoint ?cfg)"
    if "?ce = []" "xe_dbRO X"
    using that derived_endpoint_address by (auto simp: refreshConfigFromMetadata_def Let_def split: sum.split)
  have stored: "he_AuthToken ?cfg = t" "t \<noteq> []"
    if "?ce = []" "xe_dbRO X" "view (xw_db w) MetadataKeyToken = Some t" "se_select (xe_sql X) MetadataKeyToken = None"
    using that ReadMetadata_view [OF that(4), of "xw_db w"] ReadMetadata_Some [OF that(4,3)]
    by (auto simp: refreshConfigFromMetadata_def Let_def view_Some_iff)
  show ?thesis
  proof (cases "?ce = []")
    case False
    then show ?thesis using p tok coll by (auto simp: Let_def part_request_def otlp_http_request_def)
  next
    case True
    then show ?thesis using p tok direct stored by (auto simp: Let_def part_request_def otlp_http_request_def)
  qed
qed

theorem export_destinations_witness:
  "\<exists>e s1 rq rest fs w1. export gateway_env sample_collector gateway_exporter enrolled_world = (e, s1, [] @ Sent rq # rest, fs, w1) \<and>
     ''Authorization'' \<notin> fst ` set (orq_headers rq)"
proof -
  obtain e s1 rq rest fs w1 where x: "export gateway_env sample_collector gateway_exporter enrolled_world = (e, s1, [] @ Sent rq # rest, fs, w1)"
    using gateway_first_request by blast
  from export_destinations [OF x] gateway_run(1) have "''Authorization'' \<notin> fst ` set (orq_headers rq)" by (simp add: Let_def)
  with x show ?thesis by blast
qed



end
