(* ===== verification/Workload.thy ===== *)
theory Workload
  imports Health_Collector
begin

text \<open>
  \<open>internal/workloadmetrics\<close>: the gauge that tells which HPC jobs run on a GPU.  A job scheduler leaves one
  file per GPU (or GPU instance) in a directory; \<open>hpcjob/reader.go\<close> reads them, \<open>hpcjob/collector.go\<close> turns
  them into series on every scrape, and \<open>manager.go\<close> registers the collector.  The file system and the
  construction of a metric by the Prometheus client are arguments.

  The lemmas show that what is read from a file is canonical and bounded, and that the series of a scrape are
  pairwise different: Prometheus refuses a whole scrape that holds two equal series.
\<close>

section \<open>Files\<close>

definition maxMappingFileSize :: nat where "maxMappingFileSize = 1048576"
definition maxJobIDLength :: nat where "maxJobIDLength = 256"
definition maxJobIDsPerMapping :: nat where "maxJobIDsPerMapping = 16"

definition GPUIdentifierDCGMIndex :: string where "GPUIdentifierDCGMIndex = ''dcgm_index''"
definition GPUIdentifierUUID :: string where "GPUIdentifierUUID = ''uuid''"

record gpu_job_mapping =
  gm_PhysicalGPUIdentifier :: string
  gm_GPUInstanceID :: string
  gm_JobIDs :: "string list"

record dir_entry =
  de_Name :: string
  de_Symlink :: bool

text \<open>
  A mapping file once opened: the outcome of \<open>Stat\<close> (regular, size), the bytes it yields, and the error after
  which it yields no more.
\<close>

record mapping_file =
  mf_Stat :: "(string, bool \<times> nat) result"
  mf_Content :: string
  mf_ReadError :: "string option"

datatype dir_open = DirMissing | DirOpenError string | DirOpened "(string, dir_entry list) result"

record mapping_dir =
  md_open :: dir_open
  md_openat :: "string \<Rightarrow> (string, mapping_file) result"

datatype reader_error =
    OpenMappingDir string
  | ReadMappingDir string
  | InvalidMappingFilename string
  | OpenMappingFile string
  | StatMappingFile string
  | NotRegularFile string
  | MappingFileTooLarge
  | TooManyJobIDs
  | LineTooLong
  | ReadMappingFile string

section \<open>UTF-8\<close>

text \<open>\<open>utf8.ValidString\<close>: no overlong form, no surrogate, nothing above U+10FFFF.\<close>

definition byte_in :: "nat \<Rightarrow> nat \<Rightarrow> char \<Rightarrow> bool" where
  "byte_in lo hi c \<longleftrightarrow> lo \<le> of_char c \<and> of_char c \<le> (hi :: nat)"

definition utf8_second :: "char \<Rightarrow> char \<Rightarrow> bool" where
  "utf8_second b c =
     (if byte_in 0xE0 0xE0 b then byte_in 0xA0 0xBF c
      else if byte_in 0xED 0xED b then byte_in 0x80 0x9F c
      else if byte_in 0xF0 0xF0 b then byte_in 0x90 0xBF c
      else if byte_in 0xF4 0xF4 b then byte_in 0x80 0x8F c
      else byte_in 0x80 0xBF c)"

fun ValidString :: "string \<Rightarrow> bool" where
  "ValidString [] = True"
| "ValidString (b # s) =
     (if byte_in 0x00 0x7F b then ValidString s
      else case s of
        [] \<Rightarrow> False
      | c # s1 \<Rightarrow>
          if byte_in 0xC2 0xDF b then byte_in 0x80 0xBF c \<and> ValidString s1
          else (case s1 of
              [] \<Rightarrow> False
            | d # s2 \<Rightarrow>
                if byte_in 0xE0 0xEF b then utf8_second b c \<and> byte_in 0x80 0xBF d \<and> ValidString s2
                else (case s2 of
                    [] \<Rightarrow> False
                  | e # s3 \<Rightarrow>
                      byte_in 0xF0 0xF4 b \<and> utf8_second b c \<and> byte_in 0x80 0xBF d \<and> byte_in 0x80 0xBF e \<and> ValidString s3)))"

section \<open>Reader\<close>

text \<open>The two regular expressions.\<close>

definition numericIdentifierRE :: "string \<Rightarrow> bool" where
  "numericIdentifierRE s \<longleftrightarrow> s \<noteq> [] \<and> list_all is_digit s"

definition is_xdigit :: "char \<Rightarrow> bool" where
  "is_xdigit c \<longleftrightarrow> is_digit c \<or> byte_in 0x41 0x46 c \<or> byte_in 0x61 0x66 c"

definition gpuUUIDRE :: "string \<Rightarrow> bool" where
  "gpuUUIDRE s \<longleftrightarrow> take 4 s = ''GPU-'' \<and> drop 4 s \<noteq> [] \<and> list_all (\<lambda>c. is_xdigit c \<or> c = CHR ''-'') (drop 4 s)"

definition parseMappingFilename :: "string \<Rightarrow> string \<Rightarrow> (string \<times> string) option" where
  "parseMappingFilename filename gpuIdentifierType =
     (case Cut filename CHR ''.'' of (physicalGPUIdentifier, gpuInstanceID, hasGPUInstanceID) \<Rightarrow>
        if hasGPUInstanceID \<and> \<not> numericIdentifierRE gpuInstanceID then None
        else if gpuIdentifierType = GPUIdentifierDCGMIndex then
          (if numericIdentifierRE physicalGPUIdentifier then Some (physicalGPUIdentifier, gpuInstanceID) else None)
        else if gpuIdentifierType = GPUIdentifierUUID then
          (if gpuUUIDRE physicalGPUIdentifier then Some (physicalGPUIdentifier, gpuInstanceID) else None)
        else None)"

text \<open>The scan of the lines; \<open>seen\<close> holds the job IDs in the order they were found.\<close>

fun job_lines :: "string list \<Rightarrow> string list \<Rightarrow> (reader_error, string list) result" where
  "job_lines [] seen = Ok seen"
| "job_lines (l # ls) seen =
     (if length l \<ge> maxTokenSize then Error LineTooLong
      else let jobID = TrimSpace (drop_cr l) in
        if jobID = [] then job_lines ls seen
        else if length jobID > maxJobIDLength \<or> \<not> ValidString jobID then job_lines ls seen
        else if jobID \<in> set seen then job_lines ls seen
        else if length seen \<ge> maxJobIDsPerMapping then Error TooManyJobIDs
        else job_lines ls (seen @ [jobID]))"

text \<open>What \<open>io.LimitReader\<close> leaves of the file: beyond the limit neither bytes nor errors are seen.\<close>

definition limited :: "mapping_file \<Rightarrow> string \<times> string option" where
  "limited f = (take maxMappingFileSize (mf_Content f),
     if length (mf_Content f) < maxMappingFileSize then mf_ReadError f else None)"

definition read_opened :: "string \<Rightarrow> mapping_file \<Rightarrow> (reader_error, string list) result" where
  "read_opened filename f = (case mf_Stat f of
      Inl e \<Rightarrow> Error (StatMappingFile e)
    | Inr (regular, bytes) \<Rightarrow>
        if \<not> regular then Error (NotRegularFile filename)
        else if bytes > maxMappingFileSize then Error MappingFileTooLarge
        else (case job_lines (scan_lines (fst (limited f))) [] of
            Inl e \<Rightarrow> Error e
          | Inr seen \<Rightarrow> (case snd (limited f) of
                Some e \<Rightarrow> Error (ReadMappingFile e)
              | None \<Rightarrow> Ok (sort_Strings seen))))"

definition readJobIDs :: "mapping_dir \<Rightarrow> string \<Rightarrow> (reader_error, string list) result" where
  "readJobIDs D filename =
     (if filename = [] \<or> filename = ''.'' \<or> filename = ''..'' \<or> CHR ''/'' \<in> set filename
      then Error (InvalidMappingFilename filename)
      else case md_openat D filename of
        Inl e \<Rightarrow> Error (OpenMappingFile e)
      | Inr f \<Rightarrow> read_opened filename f)"

definition entry_mapping :: "mapping_dir \<Rightarrow> string \<Rightarrow> dir_entry \<Rightarrow> gpu_job_mapping option" where
  "entry_mapping D ty entry =
     (if de_Symlink entry then None
      else case parseMappingFilename (de_Name entry) ty of
        None \<Rightarrow> None
      | Some (physicalGPUIdentifier, gpuInstanceID) \<Rightarrow>
          (case readJobIDs D (de_Name entry) of
             Inl _ \<Rightarrow> None
           | Inr jobIDs \<Rightarrow>
               if length jobIDs > 0 then
                 Some \<lparr>gm_PhysicalGPUIdentifier = physicalGPUIdentifier, gm_GPUInstanceID = gpuInstanceID, gm_JobIDs = jobIDs\<rparr>
               else None))"

definition entry_mappings :: "mapping_dir \<Rightarrow> string \<Rightarrow> dir_entry list \<Rightarrow> gpu_job_mapping list" where
  "entry_mappings D ty entries = List.map_filter (entry_mapping D ty) entries"

definition reader_Read :: "mapping_dir \<Rightarrow> string \<Rightarrow> (reader_error, gpu_job_mapping list) result" where
  "reader_Read D ty = (case md_open D of
      DirMissing \<Rightarrow> Ok []
    | DirOpenError e \<Rightarrow> Error (OpenMappingDir e)
    | DirOpened (Inl e) \<Rightarrow> Error (ReadMappingDir e)
    | DirOpened (Inr entries) \<Rightarrow> Ok (entry_mappings D ty entries))"

section \<open>Collector\<close>

definition workloadSource :: string where "workloadSource = ''hpc''"

text \<open>The map from DCGM indexes to UUIDs, and its inverse in one order of iteration (a blank UUID has none).\<close>

definition gpuUUIDByIndex :: "dcgm_device list \<Rightarrow> (string \<times> string) list" where
  "gpuUUIDByIndex devices = fold (\<lambda>d m. put (FormatNat (dd_ID d)) (dd_UUID d) m) devices []"

definition gpuIndexByUUID :: "(string \<times> string) list \<Rightarrow> (string \<times> string) list" where
  "gpuIndexByUUID m = fold (\<lambda>(i, u) r. if u \<noteq> [] then put u i r else r) m []"

definition resolveGPU :: "string \<Rightarrow> string \<Rightarrow> (string \<times> string) list \<Rightarrow> (string \<times> string) list \<Rightarrow> (string \<times> string) option" where
  "resolveGPU physicalGPUIdentifier ty byIndex byUUID =
     (if ty = GPUIdentifierDCGMIndex then map_option (\<lambda>uuid. (physicalGPUIdentifier, uuid)) (map_of byIndex physicalGPUIdentifier)
      else if ty = GPUIdentifierUUID then map_option (\<lambda>gpuIndex. (gpuIndex, physicalGPUIdentifier)) (map_of byUUID physicalGPUIdentifier)
      else None)"

text \<open>
  A series is its list of label values (uuid, gpu, gpu_instance_id, workload_source, workload_id); \<open>ok\<close> tells
  whether the Prometheus client accepts them.
\<close>

definition mapping_series :: "(string list \<Rightarrow> bool) \<Rightarrow> string \<Rightarrow> (string \<times> string) list \<Rightarrow> (string \<times> string) list
    \<Rightarrow> gpu_job_mapping \<Rightarrow> string list list" where
  "mapping_series ok ty byIndex byUUID m =
     (case resolveGPU (gm_PhysicalGPUIdentifier m) ty byIndex byUUID of
        None \<Rightarrow> []
      | Some (gpuIndex, uuid) \<Rightarrow>
          if uuid = [] then []
          else filter ok (map (\<lambda>jobID. [uuid, gpuIndex, gm_GPUInstanceID m, workloadSource, jobID]) (gm_JobIDs m)))"

definition workload_Collect :: "(string list \<Rightarrow> bool) \<Rightarrow> string \<Rightarrow> mapping_dir option \<Rightarrow> (string \<times> string) list option
    \<Rightarrow> string list list" where
  "workload_Collect ok ty reader provider = (case reader of
      None \<Rightarrow> []
    | Some D \<Rightarrow> (case reader_Read D ty of
          Inl _ \<Rightarrow> []
        | Inr mappings \<Rightarrow> (case provider of
              None \<Rightarrow> []
            | Some byIndex \<Rightarrow>
                (let byUUID = (if ty = GPUIdentifierUUID then gpuIndexByUUID byIndex else [])
                 in concat (map (mapping_series ok ty byIndex byUUID) mappings)))))"

section \<open>Manager\<close>

text \<open>
  The Prometheus registerer acts on a registry of type \<open>'r\<close>; a collector is what it was made from.
\<close>

record hpc_collector =
  hc_directory :: string
  hc_gpuIdentifierType :: string

record 'r registerer =
  rg_Register :: "hpc_collector \<Rightarrow> 'r \<Rightarrow> (string, unit) result \<times> 'r"
  rg_Unregister :: "hpc_collector \<Rightarrow> 'r \<Rightarrow> 'r"

record workload_manager =
  wm_collectors :: "hpc_collector list"
  wm_closed :: bool

datatype workload_error = WorkloadConfigInvalid config_error | RegisterCollector string

definition startWithRegisterer :: "'r registerer \<Rightarrow> workload_attribution_config option \<Rightarrow> 'r
    \<Rightarrow> (workload_error, workload_manager) result \<times> 'r" where
  "startWithRegisterer R cfg r = (case WorkloadAttributionConfig_Validate cfg of
      Inl e \<Rightarrow> (Error (WorkloadConfigInvalid e), r)
    | Inr _ \<Rightarrow>
        (case cfg of
           None \<Rightarrow> (Ok \<lparr>wm_collectors = [], wm_closed = False\<rparr>, r)
         | Some w \<Rightarrow>
             if wa_Source w = [] then (Ok \<lparr>wm_collectors = [], wm_closed = False\<rparr>, r)
             else
               let c = \<lparr>hc_directory = (case wa_HPC w of None \<Rightarrow> [] | Some h \<Rightarrow> hw_JobMappingDir h),
                        hc_gpuIdentifierType = HPCGPUIdentifier (wa_HPC w)\<rparr>
               in (case rg_Register R c r of
                     (Inl e, r1) \<Rightarrow> (Error (RegisterCollector e), r1)
                   | (Inr _, r1) \<Rightarrow> (Ok \<lparr>wm_collectors = [c], wm_closed = False\<rparr>, r1))))"

definition manager_Close :: "'r registerer \<Rightarrow> workload_manager option \<Rightarrow> 'r \<Rightarrow> workload_manager option \<times> 'r" where
  "manager_Close R m r = (case m of
      None \<Rightarrow> (None, r)
    | Some w \<Rightarrow>
        if wm_closed w then (Some w, r)
        else (Some \<lparr>wm_collectors = [], wm_closed = True\<rparr>, fold (rg_Unregister R) (rev (wm_collectors w)) r))"

section \<open>What a file says\<close>

text \<open>The job ID of a line, if it has an acceptable one.\<close>

definition line_job :: "string \<Rightarrow> string option" where
  "line_job l =
     (let j = TrimSpace (drop_cr l) in if j = [] \<or> length j > maxJobIDLength \<or> \<not> ValidString j then None else Some j)"

definition jobs_of :: "string list \<Rightarrow> string set" where
  "jobs_of ls = {j. \<exists>l \<in> set ls. line_job l = Some j}"

lemma jobs_of_simps [simp]:
  "jobs_of [] = {}" "jobs_of (l # ls) = (case line_job l of None \<Rightarrow> jobs_of ls | Some j \<Rightarrow> insert j (jobs_of ls))"
  by (auto simp: jobs_of_def split: option.split)

lemma finite_jobs_of [simp]: "finite (jobs_of ls)"
  by (induction ls) (simp_all split: option.split)

lemma job_lines_Cons:
  "job_lines (l # ls) seen =
     (if length l \<ge> maxTokenSize then Error LineTooLong
      else case line_job l of
        None \<Rightarrow> job_lines ls seen
      | Some j \<Rightarrow> if j \<in> set seen then job_lines ls seen
          else if length seen \<ge> maxJobIDsPerMapping then Error TooManyJobIDs else job_lines ls (seen @ [j]))"
  by (simp add: line_job_def Let_def)

lemma job_lines_iff:
  assumes "distinct seen" "length seen \<le> maxJobIDsPerMapping"
  shows "(\<exists>r. job_lines ls seen = Inr r) \<longleftrightarrow>
           list_all (\<lambda>l. length l < maxTokenSize) ls \<and> card (set seen \<union> jobs_of ls) \<le> maxJobIDsPerMapping"
    and "job_lines ls seen = Inr r \<Longrightarrow> distinct r \<and> set r = set seen \<union> jobs_of ls"
  using assms
proof (induction ls arbitrary: seen)
  case Nil
  { case 1 then show ?case by (simp add: distinct_card) }
  { case 2 then show ?case by simp }
next
  case (Cons l ls)
  have full: "\<not> card (set seen \<union> insert j (jobs_of ls)) \<le> maxJobIDsPerMapping"
    if "j \<notin> set seen" "length seen = maxJobIDsPerMapping" "distinct seen" for j seen
  proof -
    have "card (set (j # seen)) \<le> card (set seen \<union> insert j (jobs_of ls))" by (rule card_mono) auto
    then show ?thesis using that distinct_card [of "j # seen"] by simp
  qed
  { case 1
    show ?case
    proof (cases "line_job l")
      case None
      then show ?thesis using Cons.IH(1) [OF 1] by (auto simp: job_lines_Cons simp del: job_lines.simps)
    next
      case (Some j)
      consider (old) "j \<in> set seen" | (over) "j \<notin> set seen" "length seen = maxJobIDsPerMapping"
        | (new) "j \<notin> set seen" "length seen < maxJobIDsPerMapping" using 1 by linarith
      then show ?thesis
      proof cases
        case old
        then show ?thesis
          using Cons.IH(1) [OF 1] Some by (auto simp: job_lines_Cons insert_absorb simp del: job_lines.simps)
      next
        case over
        then show ?thesis using full [OF over 1(1)] Some by (simp add: job_lines_Cons del: job_lines.simps)
      next
        case new
        then show ?thesis
          using Cons.IH(1) [of "seen @ [j]"] 1 Some by (auto simp: job_lines_Cons simp del: job_lines.simps)
      qed
    qed }
  { case 2
    then show ?case
      using Cons.IH(2) [of seen] Cons.IH(2) [of "seen @ [j]" for j]
      by (auto simp: job_lines_Cons insert_absorb split: option.splits if_splits simp del: job_lines.simps) }
qed

definition job_ids_of :: "mapping_file \<Rightarrow> string set" where
  "job_ids_of f = jobs_of (scan_lines (fst (limited f)))"

definition mapping_file_ok :: "mapping_file \<Rightarrow> bool" where
  "mapping_file_ok f \<longleftrightarrow> (\<exists>n \<le> maxMappingFileSize. mf_Stat f = Inr (True, n)) \<and> snd (limited f) = None \<and>
     list_all (\<lambda>l. length l < maxTokenSize) (scan_lines (fst (limited f))) \<and> card (job_ids_of f) \<le> maxJobIDsPerMapping"

lemma sort_set: "distinct xs \<Longrightarrow> sort_Strings xs = sorted_list_of_set (set xs)"
  unfolding sort_Strings_def by (simp add: sorted_list_of_set_sort_remdups distinct_remdups_id)

lemma read_opened_iff: "read_opened n f = Inr ids \<longleftrightarrow> mapping_file_ok f \<and> ids = sorted_list_of_set (job_ids_of f)"
proof -
  let ?ls = "scan_lines (fst (limited f))"
  have e: "(\<exists>r. job_lines ?ls [] = Inr r) \<longleftrightarrow> list_all (\<lambda>l. length l < maxTokenSize) ?ls \<and> card (job_ids_of f) \<le> maxJobIDsPerMapping"
    using job_lines_iff(1) [of "[]" ?ls] by (simp add: job_ids_of_def)
  have r: "sort_Strings r = sorted_list_of_set (job_ids_of f)" if "job_lines ?ls [] = Inr r" for r
    using job_lines_iff(2) [OF _ _ that] sort_set [of r] by (simp add: job_ids_of_def)
  show ?thesis
  proof (cases "job_lines ?ls []")
    case (Inl e)
    then show ?thesis using e by (auto simp: read_opened_def mapping_file_ok_def split: sum.splits prod.splits)
  next
    case (Inr seen)
    then show ?thesis using e r [OF Inr]
      by (auto simp: read_opened_def mapping_file_ok_def split: sum.splits prod.splits option.splits)
  qed
qed

lemma readJobIDs_SomeD: "readJobIDs D n = Inr ids \<Longrightarrow> \<exists>f. mapping_file_ok f \<and> ids = sorted_list_of_set (job_ids_of f)"
  by (auto simp: readJobIDs_def read_opened_iff split: if_splits sum.splits)

lemma job_ids_members:
  assumes "j \<in> job_ids_of f"
  shows "j \<noteq> []" "trimmed j" "length j \<le> maxJobIDLength" "ValidString j"
  using assms by (auto simp: job_ids_of_def jobs_of_def line_job_def Let_def split: if_splits)

section \<open>Different series\<close>

text \<open>A file name is determined by what it parses to.\<close>

lemma parse_inverse:
  assumes "parseMappingFilename n ty = Some (p, i)"
  shows "n = (if i = [] then p else p @ CHR ''.'' # i)"
proof -
  obtain b a found where c: "Cut n CHR ''.'' = (b, a, found)" by (metis prod_cases3)
  with assms have "b = p" "a = i" "found \<longrightarrow> a \<noteq> []"
    by (auto simp: parseMappingFilename_def numericIdentifierRE_def split: if_splits)
  with c show ?thesis unfolding Cut_spec by (auto split: if_splits)
qed

definition mapping_key :: "gpu_job_mapping \<Rightarrow> string \<times> string" where
  "mapping_key m = (gm_PhysicalGPUIdentifier m, gm_GPUInstanceID m)"

lemma entry_mapping_SomeD:
  assumes "entry_mapping D ty e = Some m"
  shows "parseMappingFilename (de_Name e) ty = Some (mapping_key m)" "readJobIDs D (de_Name e) = Inr (gm_JobIDs m)"
  using assms by (auto simp: entry_mapping_def mapping_key_def split: if_splits option.splits sum.splits)

lemma entry_mappings_set: "m \<in> set (entry_mappings D ty es) \<longleftrightarrow> (\<exists>e \<in> set es. entry_mapping D ty e = Some m)"
  by (auto simp: entry_mappings_def List.map_filter_def image_iff)

lemma entry_mappings_distinct:
  assumes "distinct (map de_Name es)"
  shows "distinct (map mapping_key (entry_mappings D ty es))"
  using assms
proof (induction es)
  case Nil
  then show ?case by (simp add: entry_mappings_def List.map_filter_simps)
next
  case (Cons e es)
  have ne: "mapping_key m' \<noteq> mapping_key m" if m: "entry_mapping D ty e = Some m" and m': "m' \<in> set (entry_mappings D ty es)" for m m'
  proof
    assume k: "mapping_key m' = mapping_key m"
    obtain p i where pi: "mapping_key m = (p, i)" by fastforce
    obtain e' where e': "e' \<in> set es" "entry_mapping D ty e' = Some m'" using m' unfolding entry_mappings_set by blast
    have "de_Name e = de_Name e'"
      using parse_inverse [of "de_Name e" ty p i] parse_inverse [of "de_Name e'" ty p i] entry_mapping_SomeD(1) [OF m]
        entry_mapping_SomeD(1) [OF e'(2)] k pi by simp
    then show False using Cons.prems e'(1) by auto
  qed
  have e: "entry_mappings D ty (e # es) = (case entry_mapping D ty e of None \<Rightarrow> entry_mappings D ty es | Some m \<Rightarrow> m # entry_mappings D ty es)"
    by (simp add: entry_mappings_def List.map_filter_simps split: option.split)
  show ?case
    unfolding e using Cons.IH Cons.prems by (auto split: option.split dest: ne [rotated])
qed

lemma entry_mappings_length: "length (entry_mappings D ty es) \<le> length es"
  by (simp add: entry_mappings_def List.map_filter_def)

text \<open>Both maps agree with the devices.\<close>

lemma gpuIndexByUUID_SomeD:
  assumes "map_of (gpuIndexByUUID m) u = Some i"
  shows "(i, u) \<in> set m \<and> u \<noteq> []"
proof -
  have "((i, u) \<in> set m \<and> u \<noteq> []) \<or> map_of r0 u = Some i"
    if "map_of (fold (\<lambda>(i, u) r. if u \<noteq> [] then put u i r else r) m r0) u = Some i" for r0
    using that
  proof (induction m arbitrary: r0)
    case (Cons x m)
    obtain i' u' where x: "x = (i', u')" by fastforce
    from Cons.IH [of "if u' \<noteq> [] then put u' i' r0 else r0"] Cons.prems show ?case
      by (auto simp: x split: if_splits)
  qed simp
  from this [of "[]"] assms show ?thesis by (simp add: gpuIndexByUUID_def)
qed

lemma resolveGPU_SomeD:
  assumes "resolveGPU p ty byIndex (if ty = GPUIdentifierUUID then gpuIndexByUUID byIndex else []) = Some (i, u)"
  shows "(i, u) \<in> set byIndex \<and> p = (if ty = GPUIdentifierDCGMIndex then i else u)"
proof (cases "ty = GPUIdentifierDCGMIndex")
  case True
  then show ?thesis using assms by (auto simp: resolveGPU_def dest: map_of_SomeD)
next
  case False
  then have "map_of (gpuIndexByUUID byIndex) u = Some i" "p = u"
    using assms by (auto simp: resolveGPU_def split: if_splits)
  then show ?thesis using False gpuIndexByUUID_SomeD [of byIndex u i] by simp
qed

text \<open>A series tells its mapping.\<close>

definition series_of :: "(string \<times> string) list \<Rightarrow> string \<Rightarrow> gpu_job_mapping \<Rightarrow> string list \<Rightarrow> bool" where
  "series_of byIndex ty m s \<longleftrightarrow> (\<exists>uuid i job. s = [uuid, i, gm_GPUInstanceID m, workloadSource, job] \<and> uuid \<noteq> [] \<and>
     (i, uuid) \<in> set byIndex \<and> job \<in> set (gm_JobIDs m) \<and> gm_PhysicalGPUIdentifier m = (if ty = GPUIdentifierDCGMIndex then i else uuid))"

lemma series_of_key: "series_of byIndex ty m s \<Longrightarrow> series_of byIndex ty m' s \<Longrightarrow> mapping_key m = mapping_key m'"
  by (auto simp: series_of_def mapping_key_def)

lemma mapping_series_props:
  assumes "distinct (gm_JobIDs m)" "ss = mapping_series ok ty byIndex (if ty = GPUIdentifierUUID then gpuIndexByUUID byIndex else []) m"
  shows "distinct ss" "length ss \<le> length (gm_JobIDs m)" "s \<in> set ss \<Longrightarrow> series_of byIndex ty m s"
proof -
  let ?r = "resolveGPU (gm_PhysicalGPUIdentifier m) ty byIndex (if ty = GPUIdentifierUUID then gpuIndexByUUID byIndex else [])"
  have "distinct ss \<and> length ss \<le> length (gm_JobIDs m) \<and> (s \<in> set ss \<longrightarrow> series_of byIndex ty m s)"
  proof (cases ?r)
    case None
    then show ?thesis using assms(2) by (simp add: mapping_series_def)
  next
    case (Some iu)
    obtain i u where iu: "iu = (i, u)" by fastforce
    note r = resolveGPU_SomeD [OF Some [unfolded iu]]
    let ?all = "map (\<lambda>j. [u, i, gm_GPUInstanceID m, workloadSource, j]) (gm_JobIDs m)"
    have ss: "ss = (if u = [] then [] else filter ok ?all)" unfolding assms(2) mapping_series_def Some iu by simp
    have "distinct ?all" using assms(1) by (simp add: distinct_map inj_on_def)
    then show ?thesis
      using r length_filter_le [of ok ?all] by (auto simp: ss series_of_def)
  qed
  then show "distinct ss" "length ss \<le> length (gm_JobIDs m)" "s \<in> set ss \<Longrightarrow> series_of byIndex ty m s" by blast+
qed

lemma concat_series_distinct:
  assumes "distinct (map mapping_key ms)" "\<And>m. m \<in> set ms \<Longrightarrow> distinct (gm_JobIDs m) \<and> length (gm_JobIDs m) \<le> k"
    and "f = mapping_series ok ty byIndex (if ty = GPUIdentifierUUID then gpuIndexByUUID byIndex else [])"
  shows "distinct (concat (map f ms)) \<and> length (concat (map f ms)) \<le> k * length ms"
  using assms(1,2)
proof (induction ms)
  case (Cons m ms)
  have d: "distinct (f m)" "length (f m) \<le> k" "\<And>s. s \<in> set (f m) \<Longrightarrow> series_of byIndex ty m s"
    using mapping_series_props [of m "f m" ok ty byIndex] Cons.prems(2) [of m] assms(3) by auto
  have "set (f m) \<inter> set (f m') = {}" if "m' \<in> set ms" for m'
    using that d(3) mapping_series_props(3) [of m' "f m'" ok ty byIndex] Cons.prems assms(3) series_of_key [of byIndex ty m _ m']
    by (fastforce simp: image_iff)
  with Cons d show ?case by auto
qed simp

section \<open>Properties\<close>

text \<open>
  What is read from a mapping file is canonical.  A file yields job IDs exactly when its name is a plain
  file name, it opens, is regular and at most 1 MiB, its lines fit the scanner, nothing fails while it is
  read and it names at most 16 different jobs; the result is then the sorted list of the trimmed, valid UTF-8
  IDs of 1 to 256 bytes on its lines, without repetition.
\<close>

theorem job_ids_canonical:
  "readJobIDs D n = Ok ids \<longleftrightarrow> n \<notin> {[], ''.'', ''..''} \<and> CHR ''/'' \<notin> set n \<and>
     (\<exists>f. md_openat D n = Ok f \<and> mapping_file_ok f \<and> ids = sorted_list_of_set (job_ids_of f))"
  by (auto simp: readJobIDs_def read_opened_iff split: sum.splits)

text \<open>
  C27: A scrape never holds two equal series, which would make Prometheus refuse all of it.  With the distinct
  names of a directory, the series are pairwise different, at most 16 per file, and each one carries a non-blank
  UUID and the index of one device together with a job ID of 1 to 256 bytes.
\<close>

theorem workload_series_distinct:
  assumes "md_open D = DirOpened (Inr entries)" "distinct (map de_Name entries)"
  shows "distinct (workload_Collect ok ty (Some D) (Some byIndex)) \<and>
    length (workload_Collect ok ty (Some D) (Some byIndex)) \<le> 16 * length entries \<and>
    (\<forall>s. s \<in> set (workload_Collect ok ty (Some D) (Some byIndex)) \<longrightarrow>
       (\<exists>uuid i inst job. s = [uuid, i, inst, ''hpc'', job] \<and> (i, uuid) \<in> set byIndex \<and> uuid \<noteq> [] \<and> job \<noteq> [] \<and> length job \<le> 256))"
proof -
  let ?ms = "entry_mappings D ty entries" and ?f = "mapping_series ok ty byIndex (if ty = GPUIdentifierUUID then gpuIndexByUUID byIndex else [])"
  have c: "workload_Collect ok ty (Some D) (Some byIndex) = concat (map ?f ?ms)"
    using assms(1) by (simp add: workload_Collect_def reader_Read_def)
  have jobs: "\<exists>f. mapping_file_ok f \<and> gm_JobIDs m = sorted_list_of_set (job_ids_of f)" if "m \<in> set ?ms" for m
    using that entry_mapping_SomeD(2) [of D ty _ m] readJobIDs_SomeD unfolding entry_mappings_set by blast
  have fin: "finite (job_ids_of f)" for f by (simp add: job_ids_of_def)
  have m: "distinct (gm_JobIDs m) \<and> length (gm_JobIDs m) \<le> 16" if "m \<in> set ?ms" for m
    using jobs [OF that] by (auto simp: mapping_file_ok_def maxJobIDsPerMapping_def)
  have each: "\<exists>uuid i inst job. s = [uuid, i, inst, ''hpc'', job] \<and> (i, uuid) \<in> set byIndex \<and> uuid \<noteq> [] \<and> job \<noteq> [] \<and> length job \<le> 256"
    if "s \<in> set (concat (map ?f ?ms))" for s
  proof -
    from that obtain x where x: "x \<in> set ?ms" "s \<in> set (?f x)" by auto
    then have "series_of byIndex ty x s" using mapping_series_props(3) [OF _ refl] m by blast
    then obtain uuid i job where s: "s = [uuid, i, gm_GPUInstanceID x, workloadSource, job]" "uuid \<noteq> []" "(i, uuid) \<in> set byIndex"
      "job \<in> set (gm_JobIDs x)" unfolding series_of_def by blast
    obtain f where "job \<in> job_ids_of f" using jobs [OF x(1)] s(4) fin by auto
    from job_ids_members [OF this] show ?thesis using s by (auto simp: workloadSource_def maxJobIDLength_def)
  qed
  have "distinct (map mapping_key ?ms)" by (rule entry_mappings_distinct [OF assms(2)])
  from concat_series_distinct [OF this m refl, of ok ty byIndex]
  have "distinct (concat (map ?f ?ms))" "length (concat (map ?f ?ms)) \<le> 16 * length ?ms" by auto
  moreover have "16 * length ?ms \<le> 16 * length entries" using entry_mappings_length by simp
  ultimately show ?thesis unfolding c using each by (meson order_trans)
qed

definition sample_mapping_dir :: mapping_dir where
  "sample_mapping_dir = \<lparr>md_open = DirOpened (Inr [\<lparr>de_Name = ''0'', de_Symlink = False\<rparr>, \<lparr>de_Name = ''0.1'', de_Symlink = False\<rparr>]),
     md_openat = (\<lambda>n. Inr \<lparr>mf_Stat = Inr (True, 3), mf_Content = [CHR ''7'', CHR 0x0A, CHR ''7''], mf_ReadError = None\<rparr>)\<rparr>"

theorem workload_series_distinct_witness:
  "distinct (workload_Collect (\<lambda>s. True) ''dcgm_index'' (Some sample_mapping_dir) (Some [(''0'', ''GPU-a'')])) \<and>
   workload_Collect (\<lambda>s. True) ''dcgm_index'' (Some sample_mapping_dir) (Some [(''0'', ''GPU-a'')]) =
     [[''GPU-a'', ''0'', [], ''hpc'', ''7''], [''GPU-a'', ''0'', ''1'', ''hpc'', ''7'']]"
proof -
  have o: "md_open sample_mapping_dir = DirOpened (Inr [\<lparr>de_Name = ''0'', de_Symlink = False\<rparr>, \<lparr>de_Name = ''0.1'', de_Symlink = False\<rparr>])"
    by (simp add: sample_mapping_dir_def)
  have d: "distinct (map de_Name [\<lparr>de_Name = ''0'', de_Symlink = False\<rparr>, \<lparr>de_Name = ''0.1'', de_Symlink = False\<rparr>])" by simp
  note workload_series_distinct [OF o d, of "\<lambda>s. True" "''dcgm_index''" "[(''0'', ''GPU-a'')]", THEN conjunct1]
  moreover have "workload_Collect (\<lambda>s. True) ''dcgm_index'' (Some sample_mapping_dir) (Some [(''0'', ''GPU-a'')]) =
     [[''GPU-a'', ''0'', [], ''hpc'', ''7''], [''GPU-a'', ''0'', ''1'', ''hpc'', ''7'']]"
    by code_simp
  ultimately show ?thesis by blast
qed

end
