(* ===== verification/Sak_Auth.thy ===== *)
theory Sak_Auth
  imports Endpoint Entity_Catalog
begin

text \<open>
  \<open>otelcol/auth/sakauth\<close>: the authenticator of the collector gateway.  It enrolls with the access key (SAK),
  keeps the JWT it gets, puts it on every outgoing request, takes over a JWT offered in a response header and,
  on 401, enrolls again and repeats the request once.

  The operations are modelled for one caller, over a world of type \<open>'w\<close> and with a log of the requests sent;
  the relation \<open>sak_step\<close> is the same round trip cut into the atomic sections of the two mutexes, for any
  number of concurrent exports.  \<open>gateway_life\<close> puts construction, start and exports together.  The lemmas show what one
  round trip and a whole life of the gateway may send, and that concurrent exports whose token is refused share one
  enrollment.
\<close>

section \<open>Configuration\<close>

record sak_config =
  sc_EnrollEndpoint :: string
  sc_SAKToken :: string
  sc_Insecure :: bool
  sc_InsecureSkipVerify :: bool

datatype sak_config_error =
    EnrollEndpointRequired | EnrollEndpointNotHTTPS | EnrollEndpointCredentials | SAKTokenRequired | TLSInsecure | TLSSkipVerify

definition sak_Validate :: "netlib \<Rightarrow> sak_config \<Rightarrow> (sak_config_error, unit) result" where
  "sak_Validate L c =
     (if sc_EnrollEndpoint c = [] then Error EnrollEndpointRequired
      else case url_Parse L (sc_EnrollEndpoint c) of
        None \<Rightarrow> Error EnrollEndpointNotHTTPS
      | Some endpoint \<Rightarrow>
          if u_scheme endpoint \<noteq> ''https'' \<or> u_host endpoint = [] then Error EnrollEndpointNotHTTPS
          else if u_user endpoint \<noteq> None \<or> u_fragment endpoint \<noteq> [] then Error EnrollEndpointCredentials
          else if sc_SAKToken c = [] then Error SAKTokenRequired
          else if sc_Insecure c then Error TLSInsecure
          else if sc_InsecureSkipVerify c then Error TLSSkipVerify
          else Ok ())"

section \<open>Construction\<close>

text \<open>
  The client enrollments go through: \<open>CheckRedirect\<close> answers \<open>http.ErrUseLastResponse\<close> to every redirect, whatever its
  target and the requests before it.  Loading the TLS settings is a parameter, \<open>load\<close>, and the settings have the type
  \<open>'t\<close>.
\<close>

datatype redirect_answer = FollowRedirect | UseLastResponse

record 't enrollment_client =
  ec_Timeout :: duration
  ec_TLS :: 't
  ec_CheckRedirect :: "string \<Rightarrow> string list \<Rightarrow> redirect_answer"

datatype sak_new_error = InvalidSakConfig sak_config_error | InvalidSakTLS string

definition newEnrollmentHTTPClient :: "(sak_config \<Rightarrow> (string, 't) result) \<Rightarrow> sak_config \<Rightarrow> (string, 't enrollment_client) result" where
  "newEnrollmentHTTPClient load c = (case load c of
      Inl e \<Rightarrow> Error e
    | Inr t \<Rightarrow> Ok \<lparr>ec_Timeout = 30 * time_Second, ec_TLS = t, ec_CheckRedirect = (\<lambda>target via. UseLastResponse)\<rparr>)"

text \<open>The extension as it is built, with its client; it has no token yet.\<close>

record 't sak_extension =
  sx_cfg :: sak_config
  sx_client :: "'t enrollment_client"
  sx_jwt :: string

definition newSAKAuthExtension ::
    "netlib \<Rightarrow> (sak_config \<Rightarrow> (string, 't) result) \<Rightarrow> sak_config \<Rightarrow> (sak_new_error, 't sak_extension) result" where
  "newSAKAuthExtension L load c = (case sak_Validate L c of
      Inl e \<Rightarrow> Error (InvalidSakConfig e)
    | Inr _ \<Rightarrow> (case newEnrollmentHTTPClient load c of
          Inl e \<Rightarrow> Error (InvalidSakTLS e)
        | Inr client \<Rightarrow> Ok \<lparr>sx_cfg = c, sx_client = client, sx_jwt = []\<rparr>))"

text \<open>\<open>RoundTripper\<close>: the transport below, which is the default one when none is given.\<close>

definition sak_RoundTripper :: "'b \<Rightarrow> 'b option \<Rightarrow> 'b" where
  "sak_RoundTripper default_transport base = (case base of None \<Rightarrow> default_transport | Some b \<Rightarrow> b)"

section \<open>Environment\<close>

text \<open>
  A request: the headers as a map, the body, and what \<open>GetBody\<close> yields when there is one.  An enrollment
  response: status, the bytes of the body and the error after which there are no more.
\<close>

record gw_request =
  gr_url :: string
  gr_headers :: "(string \<times> string) list"
  gr_body :: string
  gr_GetBody :: "(string, string) result option"

record gw_response =
  gs_status :: int
  gs_jwt_assertion :: string
  gs_body :: "string \<times> string option"

text \<open>\<open>sa_do\<close> is the enrollment client, which never follows redirects; \<open>sa_base\<close> the transport below.\<close>

record 'w sak_env =
  sa_net :: netlib
  sa_do :: "gw_request \<Rightarrow> 'w \<Rightarrow> (string, gw_response) result \<times> 'w"
  sa_base :: "gw_request \<Rightarrow> 'w \<Rightarrow> (string, gw_response) result \<times> 'w"
  sa_unmarshal :: "string \<Rightarrow> (string \<times> string) option"

datatype sak_error =
    BuildEnrollment
  | EnrollmentRequestFailed string
  | ReadEnrollment string
  | EnrollmentTooLarge
  | EnrollmentStatus int
  | ParseEnrollment
  | EnrollmentWithoutJWT
  | InitialEnrollment sak_error
  | RoundTripFailed string
  | NotReplayable
  | ReplayFailed string
  | RefreshFailed sak_error

datatype sak_event = BaseSent gw_request | EnrollSent gw_request

section \<open>Enrollment\<close>

definition maxEnrollmentResponseSize :: nat where "maxEnrollmentResponseSize = 1048576"

text \<open>\<open>enrollResponse.token\<close>: the current field, or else the legacy one.\<close>

definition enroll_token :: "string \<times> string \<Rightarrow> string" where
  "enroll_token r = (if fst r \<noteq> [] then fst r else snd r)"

definition enroll_request :: "sak_config \<Rightarrow> gw_request" where
  "enroll_request c = \<lparr>gr_url = sc_EnrollEndpoint c,
     gr_headers = [(''Authorization'', ''Bearer '' @ sc_SAKToken c), (''User-Agent'', ''fleetint-otelcol'')], gr_body = [], gr_GetBody = None\<rparr>"

definition enrollment_result :: "'w sak_env \<Rightarrow> gw_response \<Rightarrow> (sak_error, string) result" where
  "enrollment_result E resp =
     (let (bytes, failure) = gs_body resp in
      if length bytes > maxEnrollmentResponseSize then Error EnrollmentTooLarge
      else case failure of
        Some e \<Rightarrow> Error (ReadEnrollment e)
      | None \<Rightarrow>
          if gs_status resp \<noteq> 200 then Error (EnrollmentStatus (gs_status resp))
          else (case sa_unmarshal E bytes of
              None \<Rightarrow> Error ParseEnrollment
            | Some r \<Rightarrow> if enroll_token r = [] then Error EnrollmentWithoutJWT else Ok (enroll_token r)))"

definition performEnrollment :: "'w sak_env \<Rightarrow> sak_config \<Rightarrow> 'w \<Rightarrow> (sak_error, string) result \<times> sak_event list \<times> 'w" where
  "performEnrollment E c w = (case url_Parse (sa_net E) (sc_EnrollEndpoint c) of
      None \<Rightarrow> (Error BuildEnrollment, [], w)
    | Some _ \<Rightarrow>
        (let (r, w1) = sa_do E (enroll_request c) w
         in (case r of Inl e \<Rightarrow> Error (EnrollmentRequestFailed e) | Inr resp \<Rightarrow> enrollment_result E resp,
             [EnrollSent (enroll_request c)], w1)))"

text \<open>\<open>Start\<close>; the second component is the token kept.\<close>

definition sak_Start :: "'w sak_env \<Rightarrow> sak_config \<Rightarrow> string \<Rightarrow> 'w \<Rightarrow> (sak_error, unit) result \<times> string \<times> sak_event list \<times> 'w" where
  "sak_Start E c jwt w = (case performEnrollment E c w of
      (Inl e, ev, w1) \<Rightarrow> (Error (InitialEnrollment e), jwt, ev, w1)
    | (Inr j, ev, w1) \<Rightarrow> (Ok (), j, ev, w1))"

definition refreshJWT :: "'w sak_env \<Rightarrow> sak_config \<Rightarrow> string \<Rightarrow> string \<Rightarrow> 'w
    \<Rightarrow> (sak_error, string) result \<times> string \<times> sak_event list \<times> 'w" where
  "refreshJWT E c staleJWT jwt w =
     (if jwt \<noteq> [] \<and> jwt \<noteq> staleJWT then (Ok jwt, jwt, [], w)
      else case performEnrollment E c w of
        (Inl e, ev, w1) \<Rightarrow> (Error e, jwt, ev, w1)
      | (Inr j, ev, w1) \<Rightarrow> (Ok j, j, ev, w1))"

section \<open>The round trip\<close>

definition with_auth :: "gw_request \<Rightarrow> string \<Rightarrow> gw_request" where
  "with_auth req jwt = req\<lparr>gr_headers := put ''Authorization'' (''Bearer '' @ jwt) (gr_headers req)\<rparr>"

text \<open>A token offered in a header is taken only while the kept token is still the one the request used.\<close>

definition offered :: "gw_response \<Rightarrow> string \<Rightarrow> string \<Rightarrow> string" where
  "offered resp usedJWT jwt =
     (let newJWT = gs_jwt_assertion resp in
      if newJWT \<noteq> [] \<and> newJWT \<noteq> usedJWT \<and> jwt = usedJWT then newJWT else jwt)"

definition RoundTrip :: "'w sak_env \<Rightarrow> sak_config \<Rightarrow> gw_request \<Rightarrow> string \<Rightarrow> 'w
    \<Rightarrow> (sak_error, gw_response) result \<times> string \<times> sak_event list \<times> 'w" where
  "RoundTrip E c req jwt w =
     (let usedJWT = jwt; rq = with_auth req usedJWT in
      case sa_base E rq w of
        (Inl e, w1) \<Rightarrow> (Error (RoundTripFailed e), jwt, [BaseSent rq], w1)
      | (Inr resp, w1) \<Rightarrow>
          (let jwt1 = offered resp usedJWT jwt in
           if gs_status resp \<noteq> 401 then (Ok resp, jwt1, [BaseSent rq], w1)
           else case gr_GetBody rq of
             None \<Rightarrow> (Error NotReplayable, jwt1, [BaseSent rq], w1)
           | Some (Inl e) \<Rightarrow> (Error (ReplayFailed e), jwt1, [BaseSent rq], w1)
           | Some (Inr newBody) \<Rightarrow>
               (case refreshJWT E c usedJWT jwt1 w1 of
                  (Inl e, jwt2, ev, w2) \<Rightarrow> (Error (RefreshFailed e), jwt2, BaseSent rq # ev, w2)
                | (Inr newJWT, jwt2, ev, w2) \<Rightarrow>
                    (let rq2 = with_auth (rq\<lparr>gr_body := newBody\<rparr>) newJWT; (r, w3) = sa_base E rq2 w2
                     in (case r of Inl e \<Rightarrow> Error (RoundTripFailed e) | Inr resp2 \<Rightarrow> Ok resp2,
                         jwt2, BaseSent rq # ev @ [BaseSent rq2], w3)))))"

section \<open>The life of a gateway\<close>

text \<open>
  What a gateway does with a configuration, as the collector drives it: the extension is built and started, a failure of
  either ends the gateway, and then the exports go through its round tripper one after the other.  \<open>doer\<close> is
  \<open>http.Client.Do\<close> of the client built.
\<close>

fun gateway_serve :: "'w sak_env \<Rightarrow> sak_config \<Rightarrow> gw_request list \<Rightarrow> string \<Rightarrow> 'w \<Rightarrow> sak_event list" where
  "gateway_serve E c [] jwt w = []"
| "gateway_serve E c (req # reqs) jwt w =
     (case RoundTrip E c req jwt w of (_, jwt', ev, w') \<Rightarrow> ev @ gateway_serve E c reqs jwt' w')"

record ('t, 'w) gateway_env =
  gw_load :: "sak_config \<Rightarrow> (string, 't) result"
  gw_doer :: "'t enrollment_client \<Rightarrow> gw_request \<Rightarrow> 'w \<Rightarrow> (string, gw_response) result \<times> 'w"
  gw_default :: "gw_request \<Rightarrow> 'w \<Rightarrow> (string, gw_response) result \<times> 'w"
  gw_net :: netlib
  gw_unmarshal :: "string \<Rightarrow> (string \<times> string) option"

definition gateway_sak_env :: "('t, 'w) gateway_env \<Rightarrow> (gw_request \<Rightarrow> 'w \<Rightarrow> (string, gw_response) result \<times> 'w) option
    \<Rightarrow> 't enrollment_client \<Rightarrow> 'w sak_env" where
  "gateway_sak_env G base client = \<lparr>sa_net = gw_net G, sa_do = gw_doer G client,
     sa_base = sak_RoundTripper (gw_default G) base, sa_unmarshal = gw_unmarshal G\<rparr>"

definition gateway_life :: "('t, 'w) gateway_env \<Rightarrow> (gw_request \<Rightarrow> 'w \<Rightarrow> (string, gw_response) result \<times> 'w) option
    \<Rightarrow> sak_config \<Rightarrow> gw_request list \<Rightarrow> 'w \<Rightarrow> sak_event list" where
  "gateway_life G base c reqs w = (case newSAKAuthExtension (gw_net G) (gw_load G) c of
      Inl _ \<Rightarrow> []
    | Inr x \<Rightarrow> (let E = gateway_sak_env G base (sx_client x) in
        case sak_Start E (sx_cfg x) (sx_jwt x) w of
          (Inl _, _, ev, _) \<Rightarrow> ev
        | (Inr _, jwt, ev, w1) \<Rightarrow> ev @ gateway_serve E (sx_cfg x) reqs jwt w1))"

section \<open>Concurrent round trips\<close>

text \<open>
  Where a round trip stands: its request is on the way with a token; it was answered (offered token, whether
  401); it waits for the refresh mutex; holds it; enrolls; has a new token it has not written yet; is about to
  repeat the request.
\<close>

datatype sak_pc =
    Idle
  | InFlight string
  | Answered string string bool
  | Waiting string
  | Holding string
  | Enrolling string
  | Issued string string
  | Repeating string

text \<open>
  \<open>ss_minted\<close> are the tokens the backend has issued so far, \<open>ss_past\<close> the tokens that were kept and have been
  replaced, \<open>ss_renewed\<close> the refused tokens for which an enrollment succeeded, in order.
\<close>

record sak_sys =
  ss_jwt :: string
  ss_lock :: "nat option"
  ss_pc :: "nat \<Rightarrow> sak_pc"
  ss_minted :: "string set"
  ss_past :: "string set"
  ss_renewed :: "string list"

definition at :: "nat \<Rightarrow> sak_pc \<Rightarrow> sak_sys \<Rightarrow> sak_sys" where
  "at p pc s = s\<lparr>ss_pc := (ss_pc s)(p := pc)\<rparr>"

definition keep_token :: "string \<Rightarrow> sak_sys \<Rightarrow> sak_sys" where
  "keep_token t s = s\<lparr>ss_jwt := t, ss_past := insert (ss_jwt s) (ss_past s)\<rparr>"

definition mint :: "string \<Rightarrow> sak_sys \<Rightarrow> sak_sys" where
  "mint t s = s\<lparr>ss_minted := insert t (ss_minted s)\<rparr>"

text \<open>What the backend does: every token it issues is new.\<close>

definition fresh_token :: "sak_sys \<Rightarrow> string \<Rightarrow> bool" where
  "fresh_token s t \<longleftrightarrow> t \<noteq> [] \<and> t \<notin> ss_minted s"

inductive sak_step :: "sak_sys \<Rightarrow> sak_sys \<Rightarrow> bool" where
  Send: "ss_pc s p = Idle \<Longrightarrow> sak_step s (at p (InFlight (ss_jwt s)) s)"
| Lost: "ss_pc s p = InFlight u \<Longrightarrow> sak_step s (at p Idle s)"
| Answer: "ss_pc s p = InFlight u \<Longrightarrow> h = [] \<or> h = u \<Longrightarrow> sak_step s (at p (Answered u h unauthorized) s)"
| Offer: "ss_pc s p = InFlight u \<Longrightarrow> fresh_token s h \<Longrightarrow> sak_step s (at p (Answered u h unauthorized) (mint h s))"
| Install: "ss_pc s p = Answered u h unauthorized \<Longrightarrow> h \<noteq> [] \<Longrightarrow> h \<noteq> u \<Longrightarrow> ss_jwt s = u \<Longrightarrow>
     sak_step s (at p (if unauthorized then Waiting u else Idle) (keep_token h s))"
| Ignore: "ss_pc s p = Answered u h unauthorized \<Longrightarrow> h = [] \<or> h = u \<or> ss_jwt s \<noteq> u \<Longrightarrow>
     sak_step s (at p (if unauthorized then Waiting u else Idle) s)"
| GiveUp: "ss_pc s p = Waiting u \<Longrightarrow> sak_step s (at p Idle s)"
| Lock: "ss_pc s p = Waiting u \<Longrightarrow> ss_lock s = None \<Longrightarrow> sak_step s (at p (Holding u) (s\<lparr>ss_lock := Some p\<rparr>))"
| Share: "ss_pc s p = Holding u \<Longrightarrow> ss_jwt s \<noteq> [] \<Longrightarrow> ss_jwt s \<noteq> u \<Longrightarrow>
     sak_step s (at p (Repeating (ss_jwt s)) (s\<lparr>ss_lock := None\<rparr>))"
| Enroll: "ss_pc s p = Holding u \<Longrightarrow> ss_jwt s = [] \<or> ss_jwt s = u \<Longrightarrow> sak_step s (at p (Enrolling u) s)"
| EnrollFail: "ss_pc s p = Enrolling u \<Longrightarrow> sak_step s (at p Idle (s\<lparr>ss_lock := None\<rparr>))"
| Issue: "ss_pc s p = Enrolling u \<Longrightarrow> fresh_token s t \<Longrightarrow> sak_step s (at p (Issued u t) (mint t s))"
| Write: "ss_pc s p = Issued u t \<Longrightarrow>
     sak_step s (at p (Repeating t) (keep_token t (s\<lparr>ss_lock := None, ss_renewed := ss_renewed s @ [u]\<rparr>)))"
| Repeat: "ss_pc s p = Repeating t \<Longrightarrow> sak_step s (at p Idle s)"

definition sak_init :: "string \<Rightarrow> sak_sys" where
  "sak_init jwt = \<lparr>ss_jwt = jwt, ss_lock = None, ss_pc = (\<lambda>p. Idle), ss_minted = {jwt}, ss_past = {}, ss_renewed = []\<rparr>"

section \<open>Invariant\<close>

text \<open>What a program counter knows: the token its request used, a token nobody has kept yet, the mutex, the token being renewed.\<close>

fun used_by :: "sak_pc \<Rightarrow> string option" where
  "used_by (InFlight u) = Some u"
| "used_by (Answered u h b) = Some u"
| "used_by (Waiting u) = Some u"
| "used_by (Holding u) = Some u"
| "used_by (Enrolling u) = Some u"
| "used_by (Issued u t) = Some u"
| "used_by _ = None"

fun pending :: "sak_pc \<Rightarrow> string option" where
  "pending (Answered u h b) = (if h = [] \<or> h = u then None else Some h)"
| "pending (Issued u t) = Some t"
| "pending _ = None"

fun renewing :: "sak_pc \<Rightarrow> string option" where
  "renewing (Enrolling u) = Some u"
| "renewing (Issued u t) = Some u"
| "renewing _ = None"

fun holds :: "sak_pc \<Rightarrow> bool" where
  "holds (Holding u) = True"
| "holds (Enrolling u) = True"
| "holds (Issued u t) = True"
| "holds _ = False"

definition kept_ok :: "sak_sys \<Rightarrow> bool" where
  "kept_ok s \<longleftrightarrow> ss_jwt s \<noteq> [] \<and> ss_jwt s \<in> ss_minted s \<and> ss_jwt s \<notin> ss_past s \<and> ss_past s \<subseteq> ss_minted s \<and> [] \<notin> ss_minted s"

definition renewed_ok :: "sak_sys \<Rightarrow> bool" where
  "renewed_ok s \<longleftrightarrow> set (ss_renewed s) \<subseteq> ss_past s \<and> distinct (ss_renewed s)"

definition lock_ok :: "sak_sys \<Rightarrow> bool" where
  "lock_ok s \<longleftrightarrow> (\<forall>p. holds (ss_pc s p) \<longleftrightarrow> ss_lock s = Some p)"

definition used_ok :: "sak_sys \<Rightarrow> bool" where
  "used_ok s \<longleftrightarrow> (\<forall>p u. used_by (ss_pc s p) = Some u \<longrightarrow> u = ss_jwt s \<or> u \<in> ss_past s)"

definition pending_ok :: "sak_sys \<Rightarrow> bool" where
  "pending_ok s \<longleftrightarrow> (\<forall>p t. pending (ss_pc s p) = Some t \<longrightarrow> t \<in> ss_minted s \<and> t \<noteq> ss_jwt s \<and> t \<notin> ss_past s \<and>
     (\<forall>q. q \<noteq> p \<longrightarrow> pending (ss_pc s q) \<noteq> Some t))"

definition renewing_ok :: "sak_sys \<Rightarrow> bool" where
  "renewing_ok s \<longleftrightarrow> (\<forall>p u. renewing (ss_pc s p) = Some u \<longrightarrow> u \<notin> set (ss_renewed s))"

lemmas sak_ops = at_def keep_token_def mint_def fresh_token_def

lemma kept_step: "sak_step s s' \<Longrightarrow> kept_ok s \<Longrightarrow> pending_ok s \<Longrightarrow> kept_ok s'"
proof (induction rule: sak_step.induct)
  case (Install s p u h b)
  then have "pending (ss_pc s p) = Some h" by simp
  then have "h \<in> ss_minted s \<and> h \<noteq> ss_jwt s \<and> h \<notin> ss_past s" using Install(6) unfolding pending_ok_def by blast
  with Install show ?case by (auto simp: kept_ok_def sak_ops)
next
  case (Write s p u t)
  then have "pending (ss_pc s p) = Some t" by simp
  then have "t \<in> ss_minted s \<and> t \<noteq> ss_jwt s \<and> t \<notin> ss_past s" using Write(3) unfolding pending_ok_def by blast
  with Write show ?case by (auto simp: kept_ok_def sak_ops)
qed (auto simp: kept_ok_def sak_ops)

lemma sak_selectors [simp]:
  "ss_pc (at p pc s) = (ss_pc s)(p := pc)" "ss_jwt (at p pc s) = ss_jwt s" "ss_lock (at p pc s) = ss_lock s"
  "ss_minted (at p pc s) = ss_minted s" "ss_past (at p pc s) = ss_past s" "ss_renewed (at p pc s) = ss_renewed s"
  "ss_pc (keep_token t s) = ss_pc s" "ss_jwt (keep_token t s) = t" "ss_lock (keep_token t s) = ss_lock s"
  "ss_minted (keep_token t s) = ss_minted s" "ss_past (keep_token t s) = insert (ss_jwt s) (ss_past s)"
  "ss_renewed (keep_token t s) = ss_renewed s"
  "ss_pc (mint t s) = ss_pc s" "ss_jwt (mint t s) = ss_jwt s" "ss_lock (mint t s) = ss_lock s"
  "ss_minted (mint t s) = insert t (ss_minted s)" "ss_past (mint t s) = ss_past s" "ss_renewed (mint t s) = ss_renewed s"
  by (simp_all add: sak_ops)

text \<open>How one program counter may move without breaking the mutex.\<close>

lemma lock_ok_moves:
  assumes "lock_ok s" "ss_pc s' = (ss_pc s)(p := pc)"
    and "(ss_lock s' = ss_lock s \<and> holds pc = holds (ss_pc s p)) \<or> (ss_lock s' = None \<and> holds (ss_pc s p) \<and> \<not> holds pc) \<or>
      (ss_lock s = None \<and> ss_lock s' = Some p \<and> holds pc)"
  shows "lock_ok s'"
proof -
  have l: "holds (ss_pc s q) \<longleftrightarrow> ss_lock s = Some q" for q using assms(1) by (simp add: lock_ok_def)
  have "holds (ss_pc s' q) \<longleftrightarrow> ss_lock s' = Some q" for q
    using assms(3) l [of q] l [of p] by (cases "q = p") (auto simp: assms(2))
  then show ?thesis by (simp add: lock_ok_def)
qed

lemma lock_step: "sak_step s s' \<Longrightarrow> lock_ok s \<Longrightarrow> lock_ok s'"
  by (erule sak_step.cases; hypsubst; erule lock_ok_moves, (simp; fail), (auto split: if_split; fail))

lemma renewed_step:
  assumes "sak_step s s'" "kept_ok s" "used_ok s" "renewing_ok s" "renewed_ok s"
  shows "renewed_ok s'"
  using assms
proof (induction rule: sak_step.induct)
  case (Write s p u t)
  then have "used_by (ss_pc s p) = Some u" "renewing (ss_pc s p) = Some u" by simp_all
  then have "u = ss_jwt s \<or> u \<in> ss_past s" "u \<notin> set (ss_renewed s)"
    using Write(3,4) unfolding used_ok_def renewing_ok_def by blast+
  with Write(5) show ?case by (auto simp: renewed_ok_def)
qed (auto simp: renewed_ok_def)

lemma used_ok_moves:
  assumes "used_ok s" "ss_pc s' = (ss_pc s)(p := pc)" "insert (ss_jwt s) (ss_past s) \<subseteq> insert (ss_jwt s') (ss_past s')"
    and "used_by pc = None \<or> used_by pc = used_by (ss_pc s p) \<or> used_by pc = Some (ss_jwt s)"
  shows "used_ok s'"
  unfolding used_ok_def
proof (intro allI impI)
  fix q u
  assume u: "used_by (ss_pc s' q) = Some u"
  have "u \<in> insert (ss_jwt s) (ss_past s)"
    using u assms(1,4) unfolding used_ok_def assms(2) by (cases "q = p") (auto dest: sym)
  with assms(3) show "u = ss_jwt s' \<or> u \<in> ss_past s'" by blast
qed

lemma used_step: "sak_step s s' \<Longrightarrow> used_ok s \<Longrightarrow> used_ok s'"
  by (erule sak_step.cases; hypsubst; erule used_ok_moves, (simp; fail), (auto; fail), (auto split: if_split; fail))

lemma pending_ok_moves:
  assumes "pending_ok s" "ss_pc s' = (ss_pc s)(p := pc)" "ss_minted s \<subseteq> ss_minted s'"
    and "ss_jwt s' = ss_jwt s \<and> ss_past s' = ss_past s \<or>
      pending pc = None \<and> pending (ss_pc s p) = Some (ss_jwt s') \<and> ss_past s' = insert (ss_jwt s) (ss_past s)"
    and "pending pc = None \<or> pending pc = pending (ss_pc s p) \<or>
      (\<exists>t. pending pc = Some t \<and> t \<in> ss_minted s' \<and> t \<notin> ss_minted s \<and> ss_jwt s' = ss_jwt s \<and> ss_jwt s \<in> ss_minted s \<and>
        ss_past s' = ss_past s \<and> ss_past s \<subseteq> ss_minted s)"
  shows "pending_ok s'"
proof -
  have old: "t \<in> ss_minted s \<and> t \<noteq> ss_jwt s \<and> t \<notin> ss_past s \<and> (\<forall>q'. q' \<noteq> q \<longrightarrow> pending (ss_pc s q') \<noteq> Some t)"
    if "pending (ss_pc s q) = Some t" for q t using assms(1) that unfolding pending_ok_def by blast
  have "t \<in> ss_minted s' \<and> t \<noteq> ss_jwt s' \<and> t \<notin> ss_past s' \<and> (\<forall>q'. q' \<noteq> q \<longrightarrow> pending (ss_pc s' q') \<noteq> Some t)"
    if t: "pending (ss_pc s' q) = Some t" for q t
  proof (cases "q = p")
    case True
    then have pc: "pending pc = Some t" using t by (simp add: assms(2))
    then have frame: "ss_jwt s' = ss_jwt s \<and> ss_past s' = ss_past s" using assms(4) by auto
    show ?thesis
    proof (cases "pending pc = pending (ss_pc s p)")
      case True
      then show ?thesis using old [of p t] pc frame assms(3) \<open>q = p\<close> by (auto simp: assms(2))
    next
      case False
      then have n: "t \<in> ss_minted s'" "t \<notin> ss_minted s" "ss_jwt s \<in> ss_minted s" "ss_past s \<subseteq> ss_minted s"
        using assms(5) pc by auto
      then have "pending (ss_pc s q') \<noteq> Some t" for q' using old [of q' t] by blast
      then show ?thesis using n frame \<open>q = p\<close> by (auto simp: assms(2))
    qed
  next
    case False
    then have o: "pending (ss_pc s q) = Some t" using t by (simp add: assms(2))
    note k = old [OF o]
    have "t \<noteq> ss_jwt s' \<and> t \<notin> ss_past s'" using assms(4) k False by auto
    moreover have "pending pc \<noteq> Some t" using assms(5) k False by auto
    ultimately show ?thesis using k assms(3) by (auto simp: assms(2))
  qed
  then show ?thesis unfolding pending_ok_def by blast
qed

lemma pending_step: "sak_step s s' \<Longrightarrow> kept_ok s \<Longrightarrow> pending_ok s \<Longrightarrow> pending_ok s'"
  by (erule sak_step.cases; hypsubst; erule pending_ok_moves, (simp; fail), (auto; fail), (auto split: if_split; fail),
      (auto simp: kept_ok_def fresh_token_def split: if_split; fail))

lemma renewing_ok_moves:
  assumes "renewing_ok s" "ss_pc s' = (ss_pc s)(p := pc)" "ss_renewed s' = ss_renewed s"
    and "renewing pc = None \<or> renewing pc = renewing (ss_pc s p) \<or> (\<exists>u. renewing pc = Some u \<and> u \<notin> set (ss_renewed s))"
  shows "renewing_ok s'"
  unfolding renewing_ok_def
proof (intro allI impI)
  fix q u
  assume u: "renewing (ss_pc s' q) = Some u"
  show "u \<notin> set (ss_renewed s')"
    using u assms(1,4) unfolding renewing_ok_def assms(2,3) by (cases "q = p") (auto dest: sym)
qed

lemma renewing_step:
  assumes "sak_step s s'" "kept_ok s" "renewed_ok s" "lock_ok s" "renewing_ok s"
  shows "renewing_ok s'"
proof (cases "ss_renewed s' = ss_renewed s")
  case True
  have j: "ss_jwt s \<notin> set (ss_renewed s)" using assms(2,3) by (auto simp: kept_ok_def renewed_ok_def)
  from assms(1,5,2) True show ?thesis
    by (cases rule: sak_step.cases)
       (erule renewing_ok_moves, (simp; fail), (simp; fail), (use j in \<open>auto simp: kept_ok_def split: if_split\<close>; fail))+
next
  case False
  with assms(1) obtain p u t where w: "ss_pc s p = Issued u t"
    "s' = at p (Repeating t) (keep_token t (s\<lparr>ss_lock := None, ss_renewed := ss_renewed s @ [u]\<rparr>))"
    by (cases rule: sak_step.cases) auto
  have "renewing (ss_pc s q) = None" if "q \<noteq> p" for q
  proof -
    have "ss_lock s = Some p" using assms(4) w(1) by (metis holds.simps(3) lock_ok_def)
    then have "\<not> holds (ss_pc s q)" using assms(4) that by (simp add: lock_ok_def)
    then show ?thesis by (cases "ss_pc s q") auto
  qed
  then show ?thesis unfolding renewing_ok_def w(2) by auto
qed

definition sak_inv :: "sak_sys \<Rightarrow> bool" where
  "sak_inv s \<longleftrightarrow> kept_ok s \<and> renewed_ok s \<and> lock_ok s \<and> used_ok s \<and> pending_ok s \<and> renewing_ok s"

lemma sak_init_inv: "jwt \<noteq> [] \<Longrightarrow> sak_inv (sak_init jwt)"
  by (simp add: sak_inv_def sak_init_def kept_ok_def renewed_ok_def lock_ok_def used_ok_def pending_ok_def renewing_ok_def)

lemma sak_step_inv: "sak_step s s' \<Longrightarrow> sak_inv s \<Longrightarrow> sak_inv s'"
  unfolding sak_inv_def using kept_step renewed_step lock_step used_step pending_step renewing_step by blast

interpretation gateway: invariant_system sak_step "\<lambda>s. \<exists>jwt. jwt \<noteq> [] \<and> s = sak_init jwt" sak_inv
  by unfold_locales (auto intro: sak_init_inv sak_step_inv)

lemma sak_reach_inv: "rtranclp sak_step (sak_init jwt) s \<Longrightarrow> jwt \<noteq> [] \<Longrightarrow> sak_inv s"
  by (erule gateway.reachable_invariant) blast

section \<open>A round trip alone\<close>

text \<open>The requests of an operation, by kind.\<close>

definition base_requests :: "sak_event list \<Rightarrow> gw_request list" where
  "base_requests ev = List.map_filter (\<lambda>e. case e of BaseSent r \<Rightarrow> Some r | _ \<Rightarrow> None) ev"

definition enroll_requests :: "sak_event list \<Rightarrow> gw_request list" where
  "enroll_requests ev = List.map_filter (\<lambda>e. case e of EnrollSent r \<Rightarrow> Some r | _ \<Rightarrow> None) ev"

lemma request_simps [simp]:
  "base_requests [] = []" "base_requests (BaseSent r # ev) = r # base_requests ev" "base_requests (EnrollSent r # ev) = base_requests ev"
  "enroll_requests [] = []" "enroll_requests (BaseSent r # ev) = enroll_requests ev" "enroll_requests (EnrollSent r # ev) = r # enroll_requests ev"
  by (simp_all add: base_requests_def enroll_requests_def List.map_filter_simps)

lemma performEnrollment_cases:
  assumes "performEnrollment E c w = (r, ev, w1)"
  shows "ev = [] \<or> ev = [EnrollSent (enroll_request c)]" "r = Inr t \<Longrightarrow> t \<noteq> [] \<and> ev = [EnrollSent (enroll_request c)]"
  using assms
  by (auto simp: performEnrollment_def enrollment_result_def Let_def split: option.splits prod.splits sum.splits if_splits)

lemma refreshJWT_cases:
  assumes "refreshJWT E c stale jwt w = (r, jwt1, ev, w1)"
  shows "ev = [] \<or> ev = [EnrollSent (enroll_request c)]" "r = Inr t \<Longrightarrow> t \<noteq> [] \<and> jwt1 = t" "r = Inl e \<Longrightarrow> jwt1 = jwt"
  using assms performEnrollment_cases [of E c w]
  by (auto simp: refreshJWT_def split: if_splits prod.splits sum.splits)

text \<open>The parts of a round trip alone, as runs of the relation.\<close>

lemma answer_run:
  assumes "ss_pc s p = Idle" "ss_jwt s \<in> ss_minted s" "h = [] \<or> fresh_token s h"
  shows "\<exists>s'. rtranclp sak_step s s' \<and> ss_pc s' p = (if b then Waiting (ss_jwt s) else Idle) \<and> ss_lock s' = ss_lock s \<and>
    ss_jwt s' = (if h = [] then ss_jwt s else h) \<and> ss_minted s' = (if h = [] then ss_minted s else insert h (ss_minted s))"
proof -
  let ?u = "ss_jwt s" and ?pc = "if b then Waiting (ss_jwt s) else Idle"
  let ?s1 = "at p (InFlight ?u) s"
  have s1: "sak_step s ?s1" by (rule Send [OF assms(1)])
  show ?thesis
  proof (cases "h = []")
    case True
    let ?s2 = "at p (Answered ?u h b) ?s1"
    have "sak_step ?s1 ?s2" by (rule Answer [where u = ?u]) (simp_all add: True)
    moreover have "sak_step ?s2 (at p ?pc ?s2)" by (rule Ignore [where h = h]) (simp_all add: True)
    ultimately have "rtranclp sak_step s (at p ?pc ?s2)"
      using s1 by (meson rtranclp.rtrancl_into_rtrancl rtranclp.rtrancl_refl)
    then show ?thesis using True by (intro exI [of _ "at p ?pc ?s2"]) simp
  next
    case False
    then have f: "fresh_token s h" "h \<noteq> ?u" using assms(2,3) by (auto simp: fresh_token_def)
    let ?s2 = "at p (Answered ?u h b) (mint h ?s1)"
    have "sak_step ?s1 ?s2" by (rule Offer [where u = ?u]) (use f in \<open>simp_all add: fresh_token_def\<close>)
    moreover have "sak_step ?s2 (at p ?pc (keep_token h ?s2))"
      by (rule Install [where h = h and u = ?u]) (use False f in simp_all)
    ultimately have "rtranclp sak_step s (at p ?pc (keep_token h ?s2))"
      using s1 by (meson rtranclp.rtrancl_into_rtrancl rtranclp.rtrancl_refl)
    then show ?thesis using False by (intro exI [of _ "at p ?pc (keep_token h ?s2)"]) simp
  qed
qed

lemma refresh_run:
  assumes "ss_pc s p = Waiting u" "ss_lock s = None" "refreshJWT E c u (ss_jwt s) w = (r, jwt', ev, w')"
    and "\<And>w t ev w1. performEnrollment E c w = (Inr t, ev, w1) \<Longrightarrow> ss_jwt s = [] \<or> ss_jwt s = u \<Longrightarrow> fresh_token s t"
  shows "\<exists>s'. rtranclp sak_step s s' \<and> ss_jwt s' = jwt' \<and> ss_lock s' = None \<and> ss_pc s' p = Idle"
proof -
  let ?s1 = "at p (Holding u) (s\<lparr>ss_lock := Some p\<rparr>)"
  have s1: "sak_step s ?s1" by (rule Lock [OF assms(1,2)])
  show ?thesis
  proof (cases "ss_jwt s \<noteq> [] \<and> ss_jwt s \<noteq> u")
    case True
    let ?s2 = "at p (Repeating (ss_jwt ?s1)) (?s1\<lparr>ss_lock := None\<rparr>)"
    have "sak_step ?s1 ?s2" by (rule Share [where u = u]) (use True in simp_all)
    moreover have "sak_step ?s2 (at p Idle ?s2)" by (rule Repeat [where t = "ss_jwt ?s1"]) simp
    ultimately have "rtranclp sak_step s (at p Idle ?s2)"
      using s1 by (meson rtranclp.rtrancl_into_rtrancl rtranclp.rtrancl_refl)
    then show ?thesis using True assms(3) by (intro exI [of _ "at p Idle ?s2"]) (simp add: refreshJWT_def)
  next
    case False
    let ?s2 = "at p (Enrolling u) ?s1"
    have s2: "sak_step ?s1 ?s2" by (rule Enroll [where u = u]) (use False in auto)
    obtain r0 ev0 w0 where e: "performEnrollment E c w = (r0, ev0, w0)" by (metis prod_cases3)
    show ?thesis
    proof (cases r0)
      case (Inl x)
      have "sak_step ?s2 (at p Idle (?s2\<lparr>ss_lock := None\<rparr>))" by (rule EnrollFail [where u = u]) simp
      then have "rtranclp sak_step s (at p Idle (?s2\<lparr>ss_lock := None\<rparr>))"
        using s1 s2 by (meson rtranclp.rtrancl_into_rtrancl rtranclp.rtrancl_refl)
      then show ?thesis using False assms(3) e Inl by (intro exI [of _ "at p Idle (?s2\<lparr>ss_lock := None\<rparr>)"]) (auto simp: refreshJWT_def)
    next
      case (Inr t)
      have f: "fresh_token s t" using assms(4) e Inr False by blast
      let ?s3 = "at p (Issued u t) (mint t ?s2)"
      let ?s4 = "at p (Repeating t) (keep_token t (?s3\<lparr>ss_lock := None, ss_renewed := ss_renewed ?s3 @ [u]\<rparr>))"
      have "sak_step ?s2 ?s3" by (rule Issue [where u = u]) (use f in \<open>simp_all add: fresh_token_def\<close>)
      moreover have "sak_step ?s3 ?s4" by (rule Write) simp
      moreover have "sak_step ?s4 (at p Idle ?s4)" by (rule Repeat [where t = t]) simp
      ultimately have "rtranclp sak_step s (at p Idle ?s4)"
        using s1 s2 by (meson rtranclp.rtrancl_into_rtrancl rtranclp.rtrancl_refl)
      then show ?thesis using False assms(3) e Inr by (intro exI [of _ "at p Idle ?s4"]) (auto simp: refreshJWT_def)
    qed
  qed
qed

text \<open>Every token the backend hands out, in a header or at an enrollment, is new.\<close>

definition backend_fresh :: "'w sak_env \<Rightarrow> sak_config \<Rightarrow> sak_sys \<Rightarrow> bool" where
  "backend_fresh E c s \<longleftrightarrow>
     (\<forall>rq w. case fst (sa_base E rq w) of Inl _ \<Rightarrow> True | Inr resp \<Rightarrow> gs_jwt_assertion resp = [] \<or> fresh_token s (gs_jwt_assertion resp)) \<and>
     (\<forall>w. case fst (performEnrollment E c w) of Inl _ \<Rightarrow> True | Inr t \<Rightarrow> fresh_token s t)"

lemma backend_freshD:
  assumes "backend_fresh E c s"
  shows "sa_base E rq w = (Inr resp, w1) \<Longrightarrow> gs_jwt_assertion resp = [] \<or> fresh_token s (gs_jwt_assertion resp)"
    "performEnrollment E c w = (Inr t, ev, w1) \<Longrightarrow> fresh_token s t"
proof -
  show "sa_base E rq w = (Inr resp, w1) \<Longrightarrow> gs_jwt_assertion resp = [] \<or> fresh_token s (gs_jwt_assertion resp)"
    using assms [unfolded backend_fresh_def, THEN conjunct1, rule_format, of rq w] by simp
  show "performEnrollment E c w = (Inr t, ev, w1) \<Longrightarrow> fresh_token s t"
    using assms [unfolded backend_fresh_def, THEN conjunct2, rule_format, of w] by simp
qed

text \<open>The cases of a round trip.\<close>

lemma RoundTrip_cases:
  assumes "RoundTrip E c req jwt w = (r, jwt', ev, w')"
  obtains (failed) e where "sa_base E (with_auth req jwt) w = (Inl e, w')" "jwt' = jwt" "ev = [BaseSent (with_auth req jwt)]" "\<not> is_ok r"
  | (answered) resp where "sa_base E (with_auth req jwt) w = (Inr resp, w')" "jwt' = offered resp jwt jwt"
      "ev = [BaseSent (with_auth req jwt)]" "if gs_status resp \<noteq> 401 then r = Inr resp else \<not> is_ok r"
  | (refused) resp body w1 r1 ev1 w2 where "sa_base E (with_auth req jwt) w = (Inr resp, w1)" "gs_status resp = 401"
      "gr_GetBody req = Some (Inr body)" "refreshJWT E c jwt (offered resp jwt jwt) w1 = (r1, jwt', ev1, w2)"
      "case r1 of Inl _ \<Rightarrow> \<not> is_ok r \<and> ev = BaseSent (with_auth req jwt) # ev1
        | Inr t \<Rightarrow> ev = BaseSent (with_auth req jwt) # ev1 @ [BaseSent (with_auth (with_auth req jwt\<lparr>gr_body := body\<rparr>) t)]"
proof (cases "sa_base E (with_auth req jwt) w")
  case (Pair r0 w1)
  show ?thesis
  proof (cases r0)
    case (Inl e)
    then show ?thesis using assms Pair by (intro failed) (auto simp: RoundTrip_def)
  next
    case (Inr resp)
    have g: "gr_GetBody (with_auth req jwt) = gr_GetBody req" by (simp add: with_auth_def)
    obtain r1 j ev1 w2 where f: "refreshJWT E c jwt (offered resp jwt jwt) w1 = (r1, j, ev1, w2)" by (metis prod_cases4)
    show ?thesis
    proof (cases "gs_status resp = 401 \<and> (\<exists>body. gr_GetBody req = Some (Inr body))")
      case False
      then show ?thesis
        using assms Pair Inr by (intro answered) (auto simp: RoundTrip_def Let_def g split: if_splits option.splits sum.splits)
    next
      case True
      then obtain body where b: "gs_status resp = 401" "gr_GetBody req = Some (Inr body)" by blast
      have "j = jwt'" "case r1 of Inl _ \<Rightarrow> \<not> is_ok r \<and> ev = BaseSent (with_auth req jwt) # ev1
        | Inr t \<Rightarrow> ev = BaseSent (with_auth req jwt) # ev1 @ [BaseSent (with_auth (with_auth req jwt\<lparr>gr_body := body\<rparr>) t)]"
        using assms Pair Inr b f by (auto simp: RoundTrip_def Let_def g split: sum.splits prod.splits)
      then show ?thesis using refused [of resp w1 body r1 ev1 w2] Pair Inr b f by simp
    qed
  qed
qed

section \<open>Properties\<close>

text \<open>
  C26: Concurrent exports share one enrollment.  In every interleaving of any number of exports, from a started
  authenticator and with a backend that never issues a token twice, at most one export enrolls at a time, each
  refused token is renewed by at most one successful enrollment, a renewed token is never in force again, and
  there is always a token.
\<close>

theorem one_enrollment_per_token:
  assumes "rtranclp sak_step (sak_init jwt) s" "jwt \<noteq> []"
  shows "distinct (ss_renewed s) \<and> ss_jwt s \<notin> set (ss_renewed s) \<and> ss_jwt s \<noteq> [] \<and>
    (\<forall>p q. renewing (ss_pc s p) \<noteq> None \<and> renewing (ss_pc s q) \<noteq> None \<longrightarrow> p = q)"
proof -
  have inv: "sak_inv s" by (rule sak_reach_inv [OF assms])
  have "p = q" if "renewing (ss_pc s p) \<noteq> None" "renewing (ss_pc s q) \<noteq> None" for p q
  proof -
    have "holds (ss_pc s p)" "holds (ss_pc s q)" using that by (cases "ss_pc s p"; cases "ss_pc s q"; simp)+
    then show ?thesis using inv by (auto simp: sak_inv_def lock_ok_def)
  qed
  with inv show ?thesis by (auto simp: sak_inv_def kept_ok_def renewed_ok_def)
qed

text \<open>Two exports whose common token is refused: the second one finds the token of the first.\<close>

theorem one_enrollment_per_token_witness:
  "\<exists>s. rtranclp sak_step (sak_init ''j1'') s \<and> ss_pc s 0 = Repeating ''j2'' \<and> ss_pc s 1 = Repeating ''j2'' \<and> ss_renewed s = [''j1''] \<and>
     distinct (ss_renewed s)"
proof -
  let ?s0 = "sak_init ''j1''" let ?s1 = "at 0 (InFlight ''j1'') ?s0" let ?s2 = "at 1 (InFlight ''j1'') ?s1"
  let ?s3 = "at 0 (Answered ''j1'' [] True) ?s2" let ?s4 = "at 1 (Answered ''j1'' [] True) ?s3"
  let ?s5 = "at 0 (Waiting ''j1'') ?s4" let ?s6 = "at 1 (Waiting ''j1'') ?s5"
  let ?s7 = "at 0 (Holding ''j1'') (?s6\<lparr>ss_lock := Some 0\<rparr>)" let ?s8 = "at 0 (Enrolling ''j1'') ?s7"
  let ?s9 = "at 0 (Issued ''j1'' ''j2'') (mint ''j2'' ?s8)"
  let ?s10 = "at 0 (Repeating ''j2'') (keep_token ''j2'' (?s9\<lparr>ss_lock := None, ss_renewed := ss_renewed ?s9 @ [''j1'']\<rparr>))"
  let ?s11 = "at 1 (Holding ''j1'') (?s10\<lparr>ss_lock := Some 1\<rparr>)" let ?s12 = "at 1 (Repeating (ss_jwt ?s11)) (?s11\<lparr>ss_lock := None\<rparr>)"
  have i: "ss_jwt ?s0 = ''j1''" "ss_pc ?s0 = (\<lambda>p. Idle)" "ss_lock ?s0 = None" "ss_minted ?s0 = {''j1''}" "ss_renewed ?s0 = []"
    by (simp_all add: sak_init_def)
  have a: "sak_step ?s0 ?s1" "sak_step ?s1 ?s2" using Send [of ?s0 0] Send [of ?s1 1] by (simp_all add: i)
  have b: "sak_step ?s2 ?s3" "sak_step ?s3 ?s4" using Answer [of ?s2 0 _ "[]" True] Answer [of ?s3 1 _ "[]" True] by (simp_all add: i)
  have c: "sak_step ?s4 ?s5" "sak_step ?s5 ?s6" using Ignore [of ?s4 0 _ _ True] Ignore [of ?s5 1 _ _ True] by (simp_all add: i)
  have d: "sak_step ?s6 ?s7" "sak_step ?s7 ?s8" using Lock [of ?s6 0] Enroll [of ?s7 0] by (simp_all add: i)
  have e: "sak_step ?s8 ?s9" "sak_step ?s9 ?s10" using Issue [of ?s8 0 _ "''j2''"] Write [of ?s9 0] by (simp_all add: i fresh_token_def)
  have f: "sak_step ?s10 ?s11" "sak_step ?s11 ?s12" using Lock [of ?s10 1] Share [of ?s11 1] by (simp_all add: i)
  note run = a b c d e f
  have r: "rtranclp sak_step ?s0 ?s12"
    by (rule run [THEN converse_rtranclp_into_rtranclp [where r = sak_step]] rtranclp.rtrancl_refl)+
  from one_enrollment_per_token [OF r] have "distinct (ss_renewed ?s12)" by simp
  with r show ?thesis by (intro exI [of _ ?s12]) (simp add: i)
qed

text \<open>
  The concurrent relation is the code.  A round trip that runs alone, against a backend whose tokens are
  new, is a run of the relation that ends with the same kept token, the mutex free and the caller done.
\<close>

theorem round_trip_refines_steps:
  assumes "RoundTrip E c req (ss_jwt s) w = (r, jwt', ev, w')" "ss_pc s p = Idle" "ss_lock s = None"
    "ss_jwt s \<in> ss_minted s" "backend_fresh E c s"
  shows "\<exists>s'. rtranclp sak_step s s' \<and> ss_jwt s' = jwt' \<and> ss_lock s' = None \<and> ss_pc s' p = Idle"
  using assms(1)
proof (cases rule: RoundTrip_cases)
  case (failed e)
  have "sak_step s (at p (InFlight (ss_jwt s)) s)" by (rule Send [OF assms(2)])
  moreover have "sak_step (at p (InFlight (ss_jwt s)) s) (at p Idle (at p (InFlight (ss_jwt s)) s))" by (rule Lost [where u = "ss_jwt s"]) simp
  ultimately have "rtranclp sak_step s (at p Idle (at p (InFlight (ss_jwt s)) s))"
    by (meson rtranclp.rtrancl_into_rtrancl rtranclp.rtrancl_refl)
  then show ?thesis using assms(3) failed(2) by (intro exI [of _ "at p Idle (at p (InFlight (ss_jwt s)) s)"]) simp
next
  case (answered resp)
  let ?h = "gs_jwt_assertion resp"
  have h: "?h = [] \<or> fresh_token s ?h" by (rule backend_freshD(1) [OF assms(5) answered(1)])
  then have "jwt' = (if ?h = [] then ss_jwt s else ?h)" using answered(2) assms(4) by (auto simp: offered_def Let_def fresh_token_def)
  then show ?thesis using answer_run [OF assms(2,4) h, of False] assms(3) by auto
next
  case (refused resp body w1 r1 ev1 w2)
  let ?h = "gs_jwt_assertion resp"
  have h: "?h = [] \<or> fresh_token s ?h" by (rule backend_freshD(1) [OF assms(5) refused(1)])
  then have o: "offered resp (ss_jwt s) (ss_jwt s) = (if ?h = [] then ss_jwt s else ?h)"
    using assms(4) by (auto simp: offered_def Let_def fresh_token_def)
  obtain s1 where s1: "rtranclp sak_step s s1" "ss_pc s1 p = Waiting (ss_jwt s)" "ss_lock s1 = None"
    "ss_jwt s1 = (if ?h = [] then ss_jwt s else ?h)" "ss_minted s1 = (if ?h = [] then ss_minted s else insert ?h (ss_minted s))"
    using answer_run [OF assms(2,4) h, of True] assms(3) by auto
  have rf: "refreshJWT E c (ss_jwt s) (ss_jwt s1) w1 = (r1, jwt', ev1, w2)" using refused(4) o s1(4) by simp
  have fr: "fresh_token s1 t" if "performEnrollment E c w = (Inr t, ev, w1)" "ss_jwt s1 = [] \<or> ss_jwt s1 = ss_jwt s" for w t ev w1
    using backend_freshD(2) [OF assms(5) that(1)] that(2) h s1(4,5) assms(4) by (auto simp: fresh_token_def split: if_splits)
  obtain s' where "rtranclp sak_step s1 s'" "ss_jwt s' = jwt'" "ss_lock s' = None" "ss_pc s' p = Idle"
    using refresh_run [OF s1(2,3) rf] fr by blast
  then show ?thesis using rtranclp_trans [OF s1(1)] by blast
qed

text \<open>
  What a round trip sends.  The access key goes to the enrollment endpoint only, at most once; the request
  goes down at most twice, the second time with the replayed body and a renewed token, each time with the
  token kept or just renewed and never without one; a 401 is returned only by a repeated request.
\<close>

theorem sak_round_trip_contract:
  assumes "RoundTrip E c req jwt w = (r, jwt', ev, w')" "jwt \<noteq> []"
  shows "jwt' \<noteq> [] \<and> length (enroll_requests ev) \<le> 1 \<and> set (enroll_requests ev) \<subseteq> {enroll_request c} \<and>
    (base_requests ev = [with_auth req jwt] \<or>
     (\<exists>body. gr_GetBody req = Some (Inr body) \<and> base_requests ev = [with_auth req jwt, with_auth (with_auth req jwt\<lparr>gr_body := body\<rparr>) jwt'])) \<and>
    (\<forall>resp. r = Inr resp \<and> gs_status resp = 401 \<longrightarrow> length (base_requests ev) = 2)"
  using assms(1)
proof (cases rule: RoundTrip_cases)
  case (failed e)
  then show ?thesis using assms(2) by auto
next
  case (answered resp)
  then show ?thesis using assms(2) by (auto simp: offered_def Let_def split: if_splits)
next
  case (refused resp body w1 r1 ev1 w2)
  have o: "offered resp jwt jwt \<noteq> []" using assms(2) by (simp add: offered_def Let_def)
  note f = refreshJWT_cases [OF refused(4)]
  show ?thesis
  proof (cases r1)
    case (Inl e)
    then show ?thesis using f(1) f(3) [OF Inl] o refused(5) by auto
  next
    case (Inr t)
    then show ?thesis using f(1) f(2) [OF Inr] refused(3,5) by auto
  qed
qed

text \<open>A gateway whose backend refuses the first request and issues \<open>j2\<close> at an enrollment.\<close>

definition sample_sak_env :: "nat sak_env" where
  "sample_sak_env = \<lparr>sa_net = plain_netlib,
     sa_do = (\<lambda>rq n. (Inr \<lparr>gs_status = 200, gs_jwt_assertion = [], gs_body = (''j2'', None)\<rparr>, n)),
     sa_base = (\<lambda>rq n. (Inr \<lparr>gs_status = (if n = 0 then 401 else 200), gs_jwt_assertion = [], gs_body = ([], None)\<rparr>, Suc n)),
     sa_unmarshal = (\<lambda>b. Some (b, []))\<rparr>"

definition sample_sak_config :: sak_config where
  "sample_sak_config = \<lparr>sc_EnrollEndpoint = ''https://b.example/enroll'', sc_SAKToken = ''sak'', sc_Insecure = False, sc_InsecureSkipVerify = False\<rparr>"

definition sample_gw_request :: gw_request where
  "sample_gw_request = \<lparr>gr_url = ''https://b.example/v1'', gr_headers = [], gr_body = ''data'', gr_GetBody = Some (Inr ''data'')\<rparr>"

lemma sample_round_trip:
  obtains r ev w' where "RoundTrip sample_sak_env sample_sak_config sample_gw_request ''j1'' 0 = (r, ''j2'', ev, w')"
    "length (base_requests ev) = 2" "length (enroll_requests ev) = 1"
proof -
  let ?t = "RoundTrip sample_sak_env sample_sak_config sample_gw_request ''j1'' 0"
  have "fst (snd ?t) = ''j2''" "length (base_requests (fst (snd (snd ?t)))) = 2" "length (enroll_requests (fst (snd (snd ?t)))) = 1"
    by code_simp+
  then show ?thesis using that by (metis prod.collapse)
qed

theorem round_trip_refines_steps_witness:
  "\<exists>s'. rtranclp sak_step (sak_init ''j1'') s' \<and> ss_jwt s' = ''j2'' \<and> ss_lock s' = None"
proof -
  obtain r ev w' where t: "RoundTrip sample_sak_env sample_sak_config sample_gw_request ''j1'' 0 = (r, ''j2'', ev, w')" by (rule sample_round_trip)
  have i: "ss_jwt (sak_init ''j1'') = ''j1''" "ss_pc (sak_init ''j1'') 0 = Idle" "ss_lock (sak_init ''j1'') = None"
    "ss_jwt (sak_init ''j1'') \<in> ss_minted (sak_init ''j1'')" by (simp_all add: sak_init_def)
  have p: "performEnrollment sample_sak_env sample_sak_config n = (Inr ''j2'', [EnrollSent (enroll_request sample_sak_config)], n)" for n
  proof -
    have "url_Parse plain_netlib ''https://b.example/enroll'' \<noteq> None" by code_simp
    then show ?thesis
      by (auto simp: performEnrollment_def sample_sak_env_def sample_sak_config_def enrollment_result_def enroll_token_def maxEnrollmentResponseSize_def)
  qed
  have f: "backend_fresh sample_sak_env sample_sak_config (sak_init ''j1'')"
    unfolding backend_fresh_def p by (simp add: sample_sak_env_def fresh_token_def sak_init_def)
  have t': "RoundTrip sample_sak_env sample_sak_config sample_gw_request (ss_jwt (sak_init ''j1'')) 0 = (r, ''j2'', ev, w')"
    unfolding i(1) by (rule t)
  from round_trip_refines_steps [OF t' i(2-4) f] show ?thesis by blast
qed

theorem sak_round_trip_contract_witness:
  "\<exists>r ev w'. RoundTrip sample_sak_env sample_sak_config sample_gw_request ''j1'' 0 = (r, ''j2'', ev, w') \<and> length (base_requests ev) = 2 \<and>
     set (enroll_requests ev) \<subseteq> {enroll_request sample_sak_config}"
proof -
  obtain r ev w' where t: "RoundTrip sample_sak_env sample_sak_config sample_gw_request ''j1'' 0 = (r, ''j2'', ev, w')" "length (base_requests ev) = 2"
    by (rule sample_round_trip)
  have "set (enroll_requests ev) \<subseteq> {enroll_request sample_sak_config}"
    by (rule sak_round_trip_contract [OF t(1), THEN conjunct2, THEN conjunct2, THEN conjunct1]) simp
  with t show ?thesis by blast
qed

text \<open>The life of a gateway: what is sent while exports are served, and what is sent at all.\<close>

lemma requests_append [simp]:
  "base_requests (ev @ ev') = base_requests ev @ base_requests ev'" "enroll_requests (ev @ ev') = enroll_requests ev @ enroll_requests ev'"
  by (simp_all add: base_requests_def enroll_requests_def List.map_filter_def)

definition authorized :: "gw_request \<Rightarrow> bool" where
  "authorized rq \<longleftrightarrow> (\<exists>jwt. jwt \<noteq> [] \<and> map_of (gr_headers rq) ''Authorization'' = Some (''Bearer '' @ jwt))"

lemma authorized_with_auth: "jwt \<noteq> [] \<Longrightarrow> authorized (with_auth req jwt)"
  by (auto simp: authorized_def with_auth_def)

lemma round_trip_authorized:
  assumes "RoundTrip E c req jwt w = (r, jwt', ev, w')" "jwt \<noteq> []"
  shows "jwt' \<noteq> []" "length (enroll_requests ev) \<le> 1" "set (enroll_requests ev) \<subseteq> {enroll_request c}"
    "\<forall>rq \<in> set (base_requests ev). authorized rq"
  using sak_round_trip_contract [OF assms] assms(2) authorized_with_auth by auto

lemma gateway_serve_sends:
  "jwt \<noteq> [] \<Longrightarrow> set (enroll_requests (gateway_serve E c reqs jwt w)) \<subseteq> {enroll_request c} \<and>
     length (enroll_requests (gateway_serve E c reqs jwt w)) \<le> length reqs \<and>
     (\<forall>rq \<in> set (base_requests (gateway_serve E c reqs jwt w)). authorized rq)"
proof (induction reqs arbitrary: jwt w)
  case (Cons req reqs)
  obtain r jwt' ev w' where t: "RoundTrip E c req jwt w = (r, jwt', ev, w')" by (metis prod_cases4)
  note trip = round_trip_authorized [OF t Cons.prems]
  show ?case using trip(2-4) Cons.IH [OF trip(1), of w'] by (simp add: t) (auto intro: order_trans)
qed simp

lemma newSAKAuthExtension_Ok:
  assumes "newSAKAuthExtension L load c = Inr x"
  shows "sak_Validate L c = Inr ()" "sx_cfg x = c" "sx_jwt x = []" "ec_Timeout (sx_client x) = 30 * time_Second"
    "ec_CheckRedirect (sx_client x) target via = UseLastResponse"
  using assms by (auto simp: newSAKAuthExtension_def newEnrollmentHTTPClient_def split: sum.splits)

lemma sak_Validate_Ok:
  assumes "sak_Validate L c = Inr ()"
  obtains u where "url_Parse L (sc_EnrollEndpoint c) = Some u" "u_scheme u = ''https''" "u_host u \<noteq> []" "u_user u = None"
    "u_fragment u = []" "sc_SAKToken c \<noteq> []" "\<not> sc_Insecure c" "\<not> sc_InsecureSkipVerify c"
  using assms by (auto simp: sak_Validate_def split: if_splits option.splits)

lemma sak_Start_sends:
  assumes "sak_Start E c jwt w = (r, jwt', ev, w')"
  shows "ev = [] \<or> ev = [EnrollSent (enroll_request c)]" "r = Inr () \<Longrightarrow> jwt' \<noteq> [] \<and> ev = [EnrollSent (enroll_request c)]"
  using assms performEnrollment_cases [of E c w] by (auto simp: sak_Start_def split: prod.splits sum.splits)

lemma gateway_life_cases:
  obtains (silent) "gateway_life G base c reqs w = []"
  | (refused) x where "newSAKAuthExtension (gw_net G) (gw_load G) c = Inr x"
      "gateway_life G base c reqs w = [EnrollSent (enroll_request c)]"
  | (serving) x jwt w1 where "newSAKAuthExtension (gw_net G) (gw_load G) c = Inr x" "jwt \<noteq> []"
      "gateway_life G base c reqs w = EnrollSent (enroll_request c) # gateway_serve (gateway_sak_env G base (sx_client x)) c reqs jwt w1"
proof (cases "newSAKAuthExtension (gw_net G) (gw_load G) c")
  case (Inl e)
  then show ?thesis using silent by (simp add: gateway_life_def)
next
  case (Inr x)
  let ?E = "gateway_sak_env G base (sx_client x)"
  obtain r jwt ev w1 where t: "sak_Start ?E c [] w = (r, jwt, ev, w1)" by (metis prod_cases4)
  note built = newSAKAuthExtension_Ok(2,3) [OF Inr] and started = sak_Start_sends [OF t]
  show ?thesis
  proof (cases r)
    case (Inl e)
    then have "gateway_life G base c reqs w = ev" using Inr t built by (simp add: gateway_life_def)
    then show ?thesis using started(1) silent refused [OF Inr] by auto
  next
    case r: (Inr u)
    then have "gateway_life G base c reqs w = ev @ gateway_serve ?E c reqs jwt w1" using Inr t built by (simp add: gateway_life_def)
    then show ?thesis using started(2) r serving [OF Inr, of jwt w1] by simp
  qed
qed

text \<open>
  C25: The access key of a gateway is confined.  Whatever the configuration, the backend and the exports do, every enrollment
  a gateway sends is the request with the access key to the configured endpoint, one at its start and at most one for each
  export; it sends nothing at all unless the endpoint is an absolute HTTPS URL without credentials or fragment, the key is there
  and certificates are verified, and its enrollment client follows no redirect.  Its first request is an enrollment, and
  every request it forwards carries a token, in the place of any authorization the export came with.
\<close>

theorem access_key_confined:
  "let sent = gateway_life G base c reqs w in
    set (enroll_requests sent) \<subseteq> {enroll_request c} \<and> length (enroll_requests sent) \<le> Suc (length reqs) \<and>
    (\<forall>rq \<in> set (base_requests sent). authorized rq) \<and>
    (sent \<noteq> [] \<longrightarrow> hd sent = EnrollSent (enroll_request c) \<and>
      (\<exists>x u. newSAKAuthExtension (gw_net G) (gw_load G) c = Inr x \<and> (\<forall>target via. ec_CheckRedirect (sx_client x) target via = UseLastResponse) \<and>
        url_Parse (gw_net G) (sc_EnrollEndpoint c) = Some u \<and> u_scheme u = ''https'' \<and> u_host u \<noteq> [] \<and> u_user u = None \<and> u_fragment u = [] \<and>
        sc_SAKToken c \<noteq> [] \<and> \<not> sc_Insecure c \<and> \<not> sc_InsecureSkipVerify c))"
proof -
  have built: "\<exists>u. (\<forall>target via. ec_CheckRedirect (sx_client x) target via = UseLastResponse) \<and>
      url_Parse (gw_net G) (sc_EnrollEndpoint c) = Some u \<and> u_scheme u = ''https'' \<and> u_host u \<noteq> [] \<and> u_user u = None \<and> u_fragment u = [] \<and>
      sc_SAKToken c \<noteq> [] \<and> \<not> sc_Insecure c \<and> \<not> sc_InsecureSkipVerify c"
    if "newSAKAuthExtension (gw_net G) (gw_load G) c = Inr x" for x
    using newSAKAuthExtension_Ok(5) [OF that] sak_Validate_Ok [OF newSAKAuthExtension_Ok(1) [OF that]] by metis
  show ?thesis
  proof (cases rule: gateway_life_cases [of G base c reqs w])
    case silent
    then show ?thesis by (simp add: Let_def)
  next
    case (refused x)
    then show ?thesis using built [OF refused(1)] by (simp add: Let_def)
  next
    case (serving x jwt w1)
    then show ?thesis using built [OF serving(1)] gateway_serve_sends [OF serving(2), of "gateway_sak_env G base (sx_client x)" c reqs w1] by (simp add: Let_def)
  qed
qed

text \<open>The sample gateway: it enrolls, has an export refused, enrolls again and repeats it.\<close>

definition sample_gateway_env :: "(unit, nat) gateway_env" where
  "sample_gateway_env = \<lparr>gw_load = (\<lambda>_. Inr ()), gw_doer = (\<lambda>_. sa_do sample_sak_env), gw_default = sa_base sample_sak_env,
     gw_net = plain_netlib, gw_unmarshal = sa_unmarshal sample_sak_env\<rparr>"

theorem access_key_confined_witness:
  "length (base_requests (gateway_life sample_gateway_env None sample_sak_config [sample_gw_request] 0)) = 2 \<and>
   (\<exists>u. url_Parse plain_netlib (sc_EnrollEndpoint sample_sak_config) = Some u \<and> u_scheme u = ''https'')"
proof -
  let ?ev = "gateway_life sample_gateway_env None sample_sak_config [sample_gw_request] 0"
  have "length (base_requests ?ev) = 2" by code_simp
  moreover from this have "?ev \<noteq> []" by auto
  moreover have "gw_net sample_gateway_env = plain_netlib" by (simp add: sample_gateway_env_def)
  ultimately show ?thesis
    using access_key_confined [of sample_gateway_env None sample_sak_config "[sample_gw_request]" 0] by (auto simp: Let_def)
qed

end
