(* ===== verification/Component_Registry.thy ===== *)
theory Component_Registry
  imports Config
begin

text \<open>
  The table of health components (\<open>internal/registry/registry.go\<close>) and the selection the server makes from it
  (\<open>shouldEnableComponent\<close> and the registration loop of \<open>New\<close> in \<open>internal/server/server.go\<close>).  The names are those
  the SDK components declare.  The lemmas show that the table has no duplicate name, so that registering never
  fails for that reason, and that the components the server registers are the ones the agent reports as enabled.
\<close>

section \<open>The table\<close>

record component_entry =
  ce_Name :: string
  ce_EnabledByDefault :: bool

definition component_names :: "string list" where
  "component_names =
     [''accelerator-nvidia-infiniband'', ''accelerator-nvidia-nccl'', ''accelerator-nvidia-peermem'',
      ''accelerator-nvidia-persistence-mode'', ''accelerator-nvidia-error-sxid'', ''accelerator-nvidia-error-xid'',
      ''accelerator-nvidia-dcgm-clock'', ''accelerator-nvidia-dcgm-cpu'', ''accelerator-nvidia-dcgm-inforom'',
      ''accelerator-nvidia-dcgm-mem'', ''accelerator-nvidia-dcgm-nvlink'', ''accelerator-nvidia-dcgm-nvswitch'',
      ''accelerator-nvidia-dcgm-pcie'', ''accelerator-nvidia-dcgm-power'', ''accelerator-nvidia-dcgm-prof'',
      ''accelerator-nvidia-dcgm-thermal'', ''accelerator-nvidia-dcgm-utilization'',
      ''cpu'', ''disk'', ''memory'', ''network-ethernet'', ''os'', ''library'']"

definition registry_All :: "component_entry list" where
  "registry_All = map (\<lambda>n. \<lparr>ce_Name = n, ce_EnabledByDefault = True\<rparr>) component_names"

definition GetEnabledComponents :: "component_entry list" where
  "GetEnabledComponents = filter ce_EnabledByDefault registry_All"

definition GetComponent :: "string \<Rightarrow> component_entry option" where
  "GetComponent name = List.find (\<lambda>c. ce_Name c = name) registry_All"

definition AllComponentNames :: "string list" where
  "AllComponentNames = map ce_Name registry_All"

section \<open>Selection\<close>

text \<open>The calls fill the caches of the configuration, which the next component then reads.\<close>

definition shouldEnableComponent :: "string \<Rightarrow> bool \<Rightarrow> config \<Rightarrow> bool \<times> config" where
  "shouldEnableComponent name enabledByDefault cfg =
     (let (shouldEnable, cfg1) =
            (if c_Components cfg \<noteq> [] \<and> \<not> is_all_marker (hd (c_Components cfg)) then ShouldEnable name cfg
             else (enabledByDefault, cfg));
          (disabled, cfg2) = ShouldDisable name cfg1
      in (shouldEnable \<and> \<not> disabled, cfg2))"

fun select_components :: "component_entry list \<Rightarrow> config \<Rightarrow> string list \<times> config" where
  "select_components [] cfg = ([], cfg)"
| "select_components (c # cs) cfg =
     (let (on, cfg1) = shouldEnableComponent (ce_Name c) (ce_EnabledByDefault c) cfg;
          (names, cfg2) = select_components cs cfg1
      in (if on then ce_Name c # names else names, cfg2))"

section \<open>Lemmas\<close>

lemma component_names_distinct: "distinct component_names"
  by code_simp

lemma component_names_plain: "list_all (\<lambda>n. \<not> is_all_marker n \<and> \<not> HasPrefix n ''-'' \<and> n \<noteq> []) component_names"
  by code_simp

lemma AllComponentNames_eq: "AllComponentNames = component_names"
  by (simp add: AllComponentNames_def registry_All_def comp_def)

lemma registry_All_enabled: "c \<in> set registry_All \<Longrightarrow> ce_EnabledByDefault c"
  by (auto simp: registry_All_def)

lemma find_by_key: "distinct (map f xs) \<Longrightarrow> List.find (\<lambda>x. f x = k) xs = Some c \<longleftrightarrow> c \<in> set xs \<and> f c = k"
  by (induction xs) (auto simp: image_iff)

lemma GetComponent_iff: "GetComponent n = Some c \<longleftrightarrow> c \<in> set registry_All \<and> ce_Name c = n"
  using find_by_key [of ce_Name registry_All n c] component_names_distinct
  by (simp add: GetComponent_def registry_All_def comp_def)

lemma shouldEnableComponent_eq:
  assumes "caches_ok c" "list_ex is_all_marker (tl (c_Components c)) = False" "shouldEnableComponent n True c = (b, c')"
    "\<not> is_all_marker n"
  shows "b \<longleftrightarrow> component_on c n" "caches_ok c'" "c_Components c' = c_Components c"
proof -
  obtain e c1 where e: "ShouldEnable n c = (e, c1)" by fastforce
  define c2 where "c2 = (if c_Components c \<noteq> [] \<and> \<not> is_all_marker (hd (c_Components c)) then c1 else c)"
  note f = ShouldEnable_frame [OF e assms(1)]
  then have c2: "caches_ok c2" "c_Components c2 = c_Components c" using assms(1) by (auto simp: c2_def)
  obtain d c3 where d: "ShouldDisable n c2 = (d, c3)" by fastforce
  note q = ShouldDisable_eq [OF d c2(1)]
  have b: "b \<longleftrightarrow> (c_Components c \<noteq> [] \<and> \<not> is_all_marker (hd (c_Components c)) \<longrightarrow> e) \<and> \<not> d" and c': "c' = c3"
    using assms(3) e d by (auto simp: shouldEnableComponent_def c2_def split: if_splits)
  show "b \<longleftrightarrow> component_on c n"
    using ShouldEnable_eq [OF assms(1) e assms(2)] assms(4) q(1) c2(2) unfolding b component_on_def by auto
  show "caches_ok c'" "c_Components c' = c_Components c" using q c2(2) by (simp_all add: c')
qed

lemma component_on_cong: "c_Components c = c_Components c' \<Longrightarrow> component_on c = component_on c'"
  by (simp add: fun_eq_iff component_on_def)

lemma select_components_eq:
  assumes "caches_ok c" "list_ex is_all_marker (tl (c_Components c)) = False"
    "\<And>x. x \<in> set cs \<Longrightarrow> ce_EnabledByDefault x \<and> \<not> is_all_marker (ce_Name x)"
  shows "fst (select_components cs c) = filter (component_on c) (map ce_Name cs)"
  using assms
proof (induction cs arbitrary: c)
  case (Cons x cs)
  obtain b c1 where s: "shouldEnableComponent (ce_Name x) (ce_EnabledByDefault x) c = (b, c1)" by fastforce
  with Cons.prems(3) have s': "shouldEnableComponent (ce_Name x) True c = (b, c1)" by simp
  from Cons.prems(3) have "\<not> is_all_marker (ce_Name x)" by simp
  note k = shouldEnableComponent_eq [OF Cons.prems(1,2) s' this]
  have "fst (select_components cs c1) = filter (component_on c1) (map ce_Name cs)"
    by (rule Cons.IH) (use k Cons.prems in auto)
  then show ?case using s k(1) component_on_cong [OF k(3)] by (auto split: prod.splits)
qed simp

section \<open>Properties\<close>

text \<open>
  C28: The agent monitors what it reports.  Unless an all-marker stands behind another entry of the component
  list, the components the server registers are, in order, those the inventory reports as enabled; the
  reported lists split the table, and no name is registered twice.
\<close>

theorem registered_as_reported:
  assumes "c_selectedComponents c = None" "c_disabledComponents c = None" "list_ex is_all_marker (tl (c_Components c)) = False"
    "InventoryAgentConfig (Some c) AllComponentNames = (ret, en, dis)"
  shows "fst (select_components registry_All c) = en \<and> distinct en \<and> set en \<inter> set dis = {} \<and> set en \<union> set dis = set AllComponentNames"
proof -
  have ok: "caches_ok c" using assms(1,2) by (simp add: caches_ok_def)
  have "ce_EnabledByDefault x \<and> \<not> is_all_marker (ce_Name x)" if "x \<in> set registry_All" for x
    using that component_names_plain by (auto simp: registry_All_def list_all_iff)
  from select_components_eq [OF ok assms(3) this]
  have "fst (select_components registry_All c) = filter (component_on c) AllComponentNames"
    by (simp add: AllComponentNames_def)
  moreover have "en = filter (component_on c) AllComponentNames" "dis = filter (\<lambda>n. \<not> component_on c n) AllComponentNames"
    using assms(4) by (simp_all add: InventoryAgentConfig_def getComponentLists_eq)
  ultimately show ?thesis using component_names_distinct by (auto simp: AllComponentNames_eq)
qed

theorem registered_as_reported_witness:
  "fst (select_components registry_All (sample_config [''cpu'', ''os'', ''-os''])) = [''cpu''] \<and> distinct [''cpu'']"
proof -
  let ?c = "sample_config [''cpu'', ''os'', ''-os'']"
  have r: "fst (snd (InventoryAgentConfig (Some ?c) AllComponentNames)) = [''cpu'']" by code_simp
  obtain ret en dis where i: "InventoryAgentConfig (Some ?c) AllComponentNames = (ret, en, dis)" by (metis prod_cases3)
  have "c_selectedComponents ?c = None" "c_disabledComponents ?c = None" "list_ex is_all_marker (tl (c_Components ?c)) = False"
    by (simp_all add: sample_config_def is_all_marker_def)
  from registered_as_reported [OF this i] i r show ?thesis by simp
qed

end
