(* ===== verification/Handlers.thy ===== *)
theory Handlers
  imports Health_Collector
begin

text \<open>
  The HTTP handlers of the local API (\<open>internal/server/handlers.go\<close>, \<open>handlers_inject_fault.go\<close>), the requests of
  the SDK's fault injector (\<open>pkg/fault-injector\<close>, \<open>pkg/kmsg/writer\<close>) and the \<open>inject\<close> command that talks to them
  (\<open>cmd/fleetint/inject.go\<close>).  A handler returns its status and body; a fault handler returns also what it did
  to the system.  The lemmas show how far back a query reaches, which components it asks, and who can inject a
  fault and what a request does.
\<close>

section \<open>Queries\<close>

text \<open>A body is an error message (\<open>gin.H{"error": ...}\<close>) or a value.\<close>

type_synonym 'a reply = "nat \<times> (string, 'a) result"

record api_component = sdk_component +
  ac_Tags :: "string list"
  ac_IsSupported :: bool

record component_summary =
  cs_name :: string
  cs_tags :: "string list"
  cs_supported :: bool
  cs_health :: "health_state list"

record metrics_query =
  mq_Since :: "int option"
  mq_Components :: "string option"

record gpud_instance =
  gi_MachineID :: string
  gi_GPUDetected :: bool

record machine_reply =
  mr_agent_uuid :: string
  mr_machine_id :: string
  mr_service :: string
  mr_nvidia_available :: bool

record global_handler =
  gh_cfg :: config
  gh_components :: "api_component list"
  gh_componentNames :: "string list"
  gh_metricsStore :: "metrics_query \<Rightarrow> (string, health_metric list) result"
  gh_gpudInstance :: "gpud_instance option"

definition newGlobalHandler :: "config \<Rightarrow> api_component list \<Rightarrow> (metrics_query \<Rightarrow> (string, health_metric list) result)
    \<Rightarrow> gpud_instance option \<Rightarrow> global_handler" where
  "newGlobalHandler cfg comps metricsStore gpud =
     \<lparr>gh_cfg = cfg, gh_components = comps, gh_componentNames = sort_Strings (map co_Name comps),
      gh_metricsStore = metricsStore, gh_gpudInstance = gpud\<rparr>"

text \<open>
  \<open>time.Unix(sec, 0)\<close> keeps the seconds since year 1 in 64 bits, so that a second near the limit wraps to
  the distant past.
\<close>

definition wrap64 :: "int \<Rightarrow> int" where
  "wrap64 n = (n + 2 ^ 63) mod 2 ^ 64 - 2 ^ 63"

definition unixToInternal :: int where "unixToInternal = 62135596800"

definition time_Unix :: "int \<Rightarrow> int" where
  "time_Unix sec = (wrap64 (sec + unixToInternal) - unixToInternal) * time_Second"

definition clampStartTime :: "global_handler \<Rightarrow> int \<Rightarrow> int \<Rightarrow> int" where
  "clampStartTime g now startTime =
     (let earliest = now - c_RetentionPeriod (gh_cfg g) in if startTime < earliest then earliest else startTime)"

definition getReqComponents :: "global_handler \<Rightarrow> string \<Rightarrow> string list" where
  "getReqComponents g componentsStr = (if componentsStr = [] then gh_componentNames g else [componentsStr])"

text \<open>The loop every handler has over the registry: a component is skipped unless it was asked for.\<close>

definition requested :: "global_handler \<Rightarrow> string \<Rightarrow> api_component list" where
  "requested g componentsStr =
     (let comps = getReqComponents g componentsStr
      in filter (\<lambda>c. comps \<noteq> [] \<longrightarrow> co_Name c \<in> set comps) (gh_components g))"

definition getHealthStates :: "global_handler \<Rightarrow> string \<Rightarrow> (string \<times> health_state list) list reply" where
  "getHealthStates g q = (200, Ok (fold (\<lambda>c m. put (co_Name c) (co_LastHealthStates c) m) (requested g q) []))"

fun events_loop :: "int \<Rightarrow> api_component list \<Rightarrow> (string \<times> health_event list) list \<Rightarrow> (string \<times> health_event list) list reply" where
  "events_loop startTime [] m = (200, Ok m)"
| "events_loop startTime (c # cs) m = (case co_Events c startTime of
      Inl e \<Rightarrow> (500, Error ''failed to retrieve events'')
    | Inr events \<Rightarrow> events_loop startTime cs (put (co_Name c) events m))"

text \<open>\<open>now\<close> is read for the default, \<open>now'\<close> when the start is clamped.\<close>

definition getEvents :: "global_handler \<Rightarrow> int \<Rightarrow> int \<Rightarrow> string \<Rightarrow> string \<Rightarrow> (string \<times> health_event list) list reply" where
  "getEvents g now now' since q =
     (case (if since \<noteq> [] then map_option time_Unix (ParseInt since) else Some (now - time_Hour)) of
        None \<Rightarrow> (400, Error ''invalid 'since' parameter: must be a Unix timestamp'')
      | Some startTime \<Rightarrow> events_loop (clampStartTime g now' startTime) (requested g q) [])"

definition getInfo :: "global_handler \<Rightarrow> string \<Rightarrow> (string \<times> component_summary) list reply" where
  "getInfo g q = (200, Ok (fold (\<lambda>c m. put (co_Name c) \<lparr>cs_name = co_Name c, cs_tags = ac_Tags c,
     cs_supported = ac_IsSupported c, cs_health = co_LastHealthStates c\<rparr> m) (requested g q) []))"

definition getMetrics :: "global_handler \<Rightarrow> int \<Rightarrow> string \<Rightarrow> string \<Rightarrow> health_metric list reply" where
  "getMetrics g now startTimeStr componentsStr =
     (case (if startTimeStr \<noteq> [] then map_option (\<lambda>t. Some (clampStartTime g now (time_Unix t))) (ParseInt startTimeStr) else Some None) of
        None \<Rightarrow> (400, Error ''invalid 'startTime' parameter: must be a Unix timestamp'')
      | Some since \<Rightarrow>
          (case gh_metricsStore g \<lparr>mq_Since = since, mq_Components = (if componentsStr \<noteq> [] then Some componentsStr else None)\<rparr> of
             Inl e \<Rightarrow> (500, Error ''failed to retrieve metrics'')
           | Inr metrics \<Rightarrow> (200, Ok metrics)))"

definition machineInfo :: "global_handler \<Rightarrow> machine_reply reply" where
  "machineInfo g = (case gh_gpudInstance g of
      None \<Rightarrow> (500, Error ''gpud instance not available'')
    | Some i \<Rightarrow> (200, Ok \<lparr>mr_agent_uuid = gi_MachineID i, mr_machine_id = gi_MachineID i, mr_service = ''fleetint'',
        mr_nvidia_available = gi_GPUDetected i\<rparr>))"

definition healthz :: "(string \<times> string) list reply" where
  "healthz = (200, Ok [(''status'', ''ok''), (''version'', ''v1'')])"

definition securityHeaders :: "(string \<times> string) list \<Rightarrow> (string \<times> string) list" where
  "securityHeaders h = put ''Cache-Control'' ''no-store'' (put ''X-Frame-Options'' ''DENY'' (put ''X-Content-Type-Options'' ''nosniff'' h))"

section \<open>Fault requests\<close>

definition MaxPrintkRecordLength :: nat where "MaxPrintkRecordLength = 1024 - 48"

record kernel_message =
  km_Priority :: string
  km_Message :: string

definition ConvertKernelMessagePriority :: "string \<Rightarrow> string" where
  "ConvertKernelMessagePriority s =
     (if s = ''KERN_EMERG'' \<or> s = ''kern.emerg'' then ''KERN_EMERG''
      else if s = ''KERN_ALERT'' \<or> s = ''kern.alert'' then ''KERN_ALERT''
      else if s = ''KERN_CRIT'' \<or> s = ''kern.crit'' then ''KERN_CRIT''
      else if s = ''KERN_ERR'' \<or> s = ''kern.err'' then ''KERN_ERR''
      else if s = ''KERN_WARNING'' \<or> s = ''kern.warning'' \<or> s = ''kern.warn'' then ''KERN_WARNING''
      else if s = ''KERN_NOTICE'' \<or> s = ''kern.notice'' then ''KERN_NOTICE''
      else if s = ''KERN_INFO'' \<or> s = ''kern.info'' then ''KERN_INFO''
      else if s = ''KERN_DEBUG'' \<or> s = ''kern.debug'' then ''KERN_DEBUG''
      else if s = ''KERN_DEFAULT'' \<or> s = ''kern.default'' then ''KERN_DEFAULT''
      else ''KERN_INFO'')"

record event_to_inject =
  ei_Component :: string
  ei_Name :: string
  ei_Type :: string
  ei_Message :: string

record component_error =
  cr_Component :: string
  cr_Message :: string

record fault_request =
  fr_XID :: "int option"
  fr_KernelMessage :: "kernel_message option"
  fr_ComponentError :: "component_error option"
  fr_ComponentClear :: "string option"
  fr_Event :: "event_to_inject option"

datatype fault_error = ErrNoFaultFound | MessageTooLong | ComponentNameRequired

definition KernelMessage_Validate :: "kernel_message \<Rightarrow> (fault_error, kernel_message) result" where
  "KernelMessage_Validate m =
     (if length (km_Message m) > MaxPrintkRecordLength then Error MessageTooLong
      else Ok (m\<lparr>km_Priority := ConvertKernelMessagePriority (km_Priority m)\<rparr>))"

definition or_default :: "string \<Rightarrow> string \<Rightarrow> string" where
  "or_default d s = (if s = [] then d else s)"

text \<open>
  \<open>Request.Validate\<close> completes the request it checks.  \<open>xid\<close> is \<open>GetMessageToInject\<close>: the priority and text of an
  XID.
\<close>

definition Request_Validate :: "(int \<Rightarrow> kernel_message) \<Rightarrow> fault_request \<Rightarrow> (fault_error, fault_request) result" where
  "Request_Validate xid r =
     (case fr_XID r of
        Some i \<Rightarrow>
          if i = 0 then Error ErrNoFaultFound
          else let m = \<lparr>km_Priority = ConvertKernelMessagePriority (km_Priority (xid i)), km_Message = km_Message (xid i)\<rparr>
               in (case KernelMessage_Validate m of
                     Inl e \<Rightarrow> Error e
                   | Inr m1 \<Rightarrow> Ok (r\<lparr>fr_XID := None, fr_KernelMessage := Some m1\<rparr>))
      | None \<Rightarrow>
      (case fr_KernelMessage r of
         Some m \<Rightarrow> (case KernelMessage_Validate m of Inl e \<Rightarrow> Error e | Inr m1 \<Rightarrow> Ok (r\<lparr>fr_KernelMessage := Some m1\<rparr>))
       | None \<Rightarrow>
      (case fr_ComponentError r of
         Some c \<Rightarrow>
           if cr_Component c = [] then Error ComponentNameRequired
           else Ok (r\<lparr>fr_ComponentError := Some (c\<lparr>cr_Message := or_default ''Injected error for testing'' (cr_Message c)\<rparr>)\<rparr>)
       | None \<Rightarrow>
      (case fr_ComponentClear r of
         Some c \<Rightarrow> if c = [] then Error ComponentNameRequired else Ok r
       | None \<Rightarrow>
      (case fr_Event r of
         Some e \<Rightarrow>
           if ei_Component e = [] then Error ComponentNameRequired
           else Ok (r\<lparr>fr_Event := Some (e\<lparr>ei_Name := or_default ''test_injected_event'' (ei_Name e),
                  ei_Type := or_default ''Critical'' (ei_Type e), ei_Message := or_default ''Injected event for testing'' (ei_Message e)\<rparr>)\<rparr>)
       | None \<Rightarrow> Error ErrNoFaultFound)))))"

text \<open>
  The injector: writing a kernel message, and the three optional interfaces (\<^const>\<open>None\<close> where the injector does
  not implement one); \<open>Some e\<close> is a failure.
\<close>

datatype fault_action =
    WroteKernelMessage kernel_message
  | InjectedComponentError component_error
  | InjectedEvent event_to_inject
  | ClearedComponentFault string

record injector =
  ij_Write :: "kernel_message \<Rightarrow> string option"
  ij_ComponentError :: "(component_error \<Rightarrow> string option) option"
  ij_Event :: "(event_to_inject \<Rightarrow> string option) option"
  ij_ComponentClear :: "(string \<Rightarrow> string option) option"

section \<open>The fault injection handler\<close>

text \<open>\<open>net.SplitHostPort\<close>.\<close>

definition before_last_colon :: "string \<Rightarrow> string" where
  "before_last_colon hp = butlast (rev (dropWhile (\<lambda>c. c \<noteq> CHR '':'') (rev hp)))"

definition after_last_colon :: "string \<Rightarrow> string" where
  "after_last_colon hp = rev (takeWhile (\<lambda>c. c \<noteq> CHR '':'') (rev hp))"

definition SplitHostPort :: "string \<Rightarrow> (string \<times> string) option" where
  "SplitHostPort hp =
     (if CHR '':'' \<notin> set hp then None
      else if hd hp = CHR ''['' then
        (let inner = takeWhile (\<lambda>c. c \<noteq> CHR '']'') hp in
         if CHR '']'' \<notin> set hp then None
         else if length inner + 1 \<noteq> length (before_last_colon hp) then None
         else if CHR ''['' \<in> set (tl hp) \<or> CHR '']'' \<in> set (drop (length inner + 1) hp) then None
         else Some (tl inner, after_last_colon hp))
      else if CHR '':'' \<in> set (before_last_colon hp) \<or> CHR ''['' \<in> set hp \<or> CHR '']'' \<in> set hp then None
      else Some (before_last_colon hp, after_last_colon hp))"

text \<open>
  What a request carries: the address \<open>net/http\<close> gives for the peer, and the body.  The decoder sees at most
  1 MiB and reads one value from it.
\<close>

record fault_http =
  fh_RemoteAddr :: string
  fh_Body :: string

record fault_env =
  fe_net :: netlib
  fe_decode :: "string \<Rightarrow> fault_request option"
  fe_xid :: "int \<Rightarrow> kernel_message"
  fe_injector :: "injector option"

definition from_loopback :: "netlib \<Rightarrow> string \<Rightarrow> bool" where
  "from_loopback L addr = (case SplitHostPort addr of
      None \<Rightarrow> False
    | Some (host, _) \<Rightarrow> (case net_ParseIP L host of None \<Rightarrow> False | Some a \<Rightarrow> ip_IsLoopback a))"

definition inject_with :: "('a \<Rightarrow> string option) option \<Rightarrow> ('a \<Rightarrow> fault_action) \<Rightarrow> 'a \<Rightarrow> string \<Rightarrow> string \<Rightarrow> string
    \<Rightarrow> (nat \<times> string) \<times> fault_action list" where
  "inject_with f act x failed unsupported success = (case f of
      None \<Rightarrow> ((501, unsupported), [])
    | Some run \<Rightarrow> (case run x of Some e \<Rightarrow> ((500, failed), []) | None \<Rightarrow> ((200, success), [act x])))"

definition injectFault :: "fault_env \<Rightarrow> fault_http \<Rightarrow> (nat \<times> string) \<times> fault_action list" where
  "injectFault E h =
     (if \<not> from_loopback (fe_net E) (fh_RemoteAddr h) then ((403, ''access denied''), [])
      else case fe_injector E of
        None \<Rightarrow> ((404, ''fault injector not enabled''), [])
      | Some J \<Rightarrow>
      (case fe_decode E (take 1048576 (fh_Body h)) of
         None \<Rightarrow> ((400, ''failed to decode request body''), [])
       | Some rq0 \<Rightarrow>
      (case Request_Validate (fe_xid E) rq0 of
         Inl e \<Rightarrow> ((400, ''invalid request''), [])
       | Inr rq \<Rightarrow>
         (let success = (if fr_ComponentClear rq \<noteq> None then ''component fault cleared'' else ''fault injected'') in
          case fr_KernelMessage rq of
            Some m \<Rightarrow> inject_with (Some (ij_Write J)) WroteKernelMessage m ''failed to inject kernel message'' [] success
          | None \<Rightarrow>
         (case fr_ComponentError rq of
            Some c \<Rightarrow> inject_with (ij_ComponentError J) InjectedComponentError c
              ''failed to inject component error'' ''component error injection not supported'' success
          | None \<Rightarrow>
         (case fr_Event rq of
            Some e \<Rightarrow> inject_with (ij_Event J) InjectedEvent e ''failed to inject event'' ''event injection not supported'' success
          | None \<Rightarrow>
         (case fr_ComponentClear rq of
            Some c \<Rightarrow> inject_with (ij_ComponentClear J) ClearedComponentFault c
              ''failed to clear component fault'' ''component fault clearing not supported'' success
          | None \<Rightarrow> ((400, ''one of kernel_message, component_error, component_clear, or event is required''), []))))))))"

section \<open>The inject command\<close>

record inject_flags =
  if_component :: string
  if_server_url :: string
  if_clear :: bool
  if_fault_type :: string
  if_fault_message :: string
  if_event_type :: string

text \<open>
  The client's side: the URL library, \<open>json.Marshal\<close> of the request map, and \<open>client.Post\<close>, which returns the
  status of the response.
\<close>

record inject_env =
  ie_net :: netlib
  ie_marshal :: "fault_request \<Rightarrow> (string, string) result"
  ie_post :: "agent_client \<Rightarrow> string \<Rightarrow> string \<Rightarrow> (string, nat) result"

datatype inject_error =
    ComponentFlagRequired
  | InvalidServerURL endpoint_error
  | NoKernelMessage string
  | InvalidFaultType string
  | MarshalFault string
  | FaultURL
  | FaultRequestFailed string
  | FaultStatus nat

definition getKernelMessageForComponent :: "string \<Rightarrow> string \<Rightarrow> (inject_error, string) result" where
  "getKernelMessageForComponent component faultMessage =
     (if component = ''accelerator-nvidia-error-xid'' then Ok ''NVRM: Xid (PCI:0000:01:00): 79, GPU has fallen off the bus''
      else if component = ''accelerator-nvidia-error-sxid'' then
        Ok ''nvidia-nvswitch0: SXid (PCI:0000:00:00.0): 11001, Fatal, ingress invalid command''
      else if component = ''accelerator-nvidia-nccl'' then
        Ok ''pt_main_thread[2536443]: segfault at 7f797fe00000 ip 00007f7c7ac69996 sp 00007f7c12fd7c30 error 4 in libnccl.so.2[7f7c7ac00000+d3d3000]''
      else if component = ''disk'' then Ok ''EXT4-fs (dm-0): Remounting filesystem read-only''
      else if component = ''cpu'' then Ok ''CPU0: Package temperature above threshold, cpu clock throttled (total events = 1)''
      else if component = ''memory'' then
        Ok ''EDAC MC0: 1 CE memory read error on CPU_SrcID#0_Ha#0_Chan#0_DIMM#0 (channel:0 slot:0 page:0x0 offset:0x0 grain:8 syndrome:0x0)''
      else if component = ''os'' then Ok ''Out of memory: Kill process 12345 (python3) score 900 or sacrifice child''
      else Error (NoKernelMessage component))"

definition empty_request :: fault_request where
  "empty_request = \<lparr>fr_XID = None, fr_KernelMessage = None, fr_ComponentError = None, fr_ComponentClear = None, fr_Event = None\<rparr>"

text \<open>The request map the command builds.\<close>

definition inject_request :: "inject_flags \<Rightarrow> (inject_error, fault_request) result" where
  "inject_request f =
     (let component = if_component f;
          faultType = or_default ''event'' (if_fault_type f);
          faultMessage = or_default (''Injected fault for testing '' @ component @ '' component'') (if_fault_message f);
          eventType = or_default ''Fatal'' (if_event_type f)
      in if faultType = ''component-error'' then
           Ok (empty_request\<lparr>fr_ComponentError := Some \<lparr>cr_Component = component, cr_Message = faultMessage\<rparr>\<rparr>)
         else if faultType = ''event'' then
           Ok (empty_request\<lparr>fr_Event := Some \<lparr>ei_Component = component, ei_Name = component, ei_Type = eventType, ei_Message = faultMessage\<rparr>\<rparr>)
         else if faultType = ''kernel-message'' \<or> faultType = ''kmsg'' then
           (case getKernelMessageForComponent component faultMessage of
              Inl e \<Rightarrow> Error e
            | Inr m \<Rightarrow> Ok (empty_request\<lparr>fr_KernelMessage := Some \<lparr>km_Priority = ''KERN_ERR'', km_Message = m\<rparr>\<rparr>))
         else Error (InvalidFaultType faultType))"

definition clear_request :: "string \<Rightarrow> fault_request" where
  "clear_request component = empty_request\<lparr>fr_ComponentClear := Some component\<rparr>"

text \<open>Marshalling and posting, which \<open>injectCommand\<close> and \<open>clearComponentFault\<close> share.\<close>

definition post_fault :: "inject_env \<Rightarrow> url \<Rightarrow> fault_request \<Rightarrow> (inject_error, unit) result" where
  "post_fault E serverURL rq = (case ie_marshal E rq of
      Inl e \<Rightarrow> Error (MarshalFault e)
    | Inr jsonData \<Rightarrow>
    (case JoinPath (ie_net E) (AgentBaseURL serverURL) [''inject-fault''] of
       None \<Rightarrow> Error FaultURL
     | Some u \<Rightarrow>
    (case ie_post E (NewAgentHTTPClient serverURL) u jsonData of
       Inl e \<Rightarrow> Error (FaultRequestFailed e)
     | Inr status \<Rightarrow> if status \<noteq> 200 then Error (FaultStatus status) else Ok ())))"

definition clearComponentFault :: "inject_env \<Rightarrow> string \<Rightarrow> url \<Rightarrow> (inject_error, unit) result" where
  "clearComponentFault E component serverURL = post_fault E serverURL (clear_request component)"

definition injectCommand :: "inject_env \<Rightarrow> inject_flags \<Rightarrow> (inject_error, unit) result" where
  "injectCommand E f =
     (if if_component f = [] then Error ComponentFlagRequired
      else case ValidateLocalServerURL (ie_net E) (if_server_url f) of
        Inl e \<Rightarrow> Error (InvalidServerURL e)
      | Inr serverURL \<Rightarrow>
          if if_clear f then clearComponentFault E (if_component f) serverURL
          else (case inject_request f of
              Inl e \<Rightarrow> Error e
            | Inr rq \<Rightarrow> post_fault E serverURL rq))"

section \<open>Lemmas\<close>

subsection \<open>Queries\<close>

lemma requested_new:
  "requested (newGlobalHandler cfg comps store gpud) q = (if q = [] then comps else filter (\<lambda>c. co_Name c = q) comps)"
  by (auto simp: requested_def getReqComponents_def newGlobalHandler_def Let_def intro!: filter_True filter_cong)

text \<open>What the loop answers: every component asked answers, or the request fails.\<close>

lemma events_loop_ok:
  assumes "\<And>c. c \<in> set cs \<Longrightarrow> is_ok (co_Events c t)"
  shows "events_loop t cs m = (200, Ok (fold (\<lambda>c. put (co_Name c) (projr (co_Events c t))) cs m))"
  using assms
proof (induction cs arbitrary: m)
  case (Cons c cs)
  then obtain es where "co_Events c t = Inr es" by (cases "co_Events c t") fastforce+
  with Cons show ?case by simp
qed simp

lemma events_loop_failed:
  assumes "c \<in> set cs" "\<not> is_ok (co_Events c t)"
  shows "events_loop t cs m = (500, Error ''failed to retrieve events'')"
  using assms by (induction cs arbitrary: m) (auto split: sum.splits)

lemma put_all_lookup:
  assumes "distinct (map f cs)"
  shows "map_of (fold (\<lambda>c. put (f c) (g c)) cs m) n =
    (case List.find (\<lambda>c. f c = n) cs of Some c \<Rightarrow> Some (g c) | None \<Rightarrow> map_of m n)"
  using assms
proof (induction cs arbitrary: m)
  case (Cons c cs)
  have "f c = n \<Longrightarrow> List.find (\<lambda>c. f c = n) cs = None" using Cons.prems by (auto simp: find_None_iff image_iff)
  with Cons show ?case by (auto split: option.splits)
qed simp

lemma time_Unix_exact:
  assumes "- (2 ^ 63) \<le> s + unixToInternal" "s + unixToInternal < 2 ^ 63"
  shows "time_Unix s = s * time_Second"
  using assms by (simp add: time_Unix_def wrap64_def mod_pos_pos_trivial)

lemma clampStartTime_ge: "now - c_RetentionPeriod (gh_cfg g) \<le> clampStartTime g now t"
  and clampStartTime_id: "now - c_RetentionPeriod (gh_cfg g) \<le> t \<Longrightarrow> clampStartTime g now t = t"
  by (simp_all add: clampStartTime_def Let_def)

subsection \<open>Faults\<close>

lemma inject_with_actions:
  "inject_with f act x failed unsup ok = (st, as) \<Longrightarrow> (fst st = 200 \<and> as = [act x]) \<or> (fst st \<noteq> 200 \<and> as = [])"
  by (auto simp: inject_with_def split: option.splits)

lemma SplitHostPort_colon: "CHR '':'' \<notin> set hp \<Longrightarrow> SplitHostPort hp = None"
  by (simp add: SplitHostPort_def)

lemma kernel_messages_short: "getKernelMessageForComponent c m = Ok k \<Longrightarrow> length k \<le> MaxPrintkRecordLength"
  by (auto simp: getKernelMessageForComponent_def MaxPrintkRecordLength_def split: if_splits)

lemma or_default_nonempty: "d \<noteq> [] \<Longrightarrow> or_default d s \<noteq> []" and or_default_id: "s \<noteq> [] \<Longrightarrow> or_default d s = s"
  by (simp_all add: or_default_def)

text \<open>An injector that implements every interface and always succeeds.\<close>

definition working_injector :: injector where
  "working_injector = \<lparr>ij_Write = (\<lambda>m. None), ij_ComponentError = Some (\<lambda>c. None), ij_Event = Some (\<lambda>e. None),
     ij_ComponentClear = Some (\<lambda>c. None)\<rparr>"

text \<open>What a complete request does.\<close>

definition fault_of :: "fault_request \<Rightarrow> fault_action option" where
  "fault_of r = (case fr_KernelMessage r of Some m \<Rightarrow> Some (WroteKernelMessage m) | None \<Rightarrow>
     (case fr_ComponentError r of Some c \<Rightarrow> Some (InjectedComponentError c) | None \<Rightarrow>
     (case fr_Event r of Some e \<Rightarrow> Some (InjectedEvent e) | None \<Rightarrow> map_option ClearedComponentFault (fr_ComponentClear r))))"

lemma injectFault_cases:
  assumes "injectFault E h = (st, as)"
  shows "(fst st \<noteq> 200 \<and> as = []) \<or>
    (fst st = 200 \<and> from_loopback (fe_net E) (fh_RemoteAddr h) \<and> fe_injector E \<noteq> None \<and>
     (\<exists>rq0 rq a. fe_decode E (take 1048576 (fh_Body h)) = Some rq0 \<and> Request_Validate (fe_xid E) rq0 = Ok rq \<and>
        fault_of rq = Some a \<and> as = [a]))"
  using assms
  by (auto simp: injectFault_def fault_of_def Let_def dest!: inject_with_actions split: if_splits option.splits sum.splits)

section \<open>Properties\<close>

text \<open>
  What an event query returns.  It is refused exactly when the time does not parse.  Otherwise one start time
  is used for every component: it never lies before the retention period, and it is the time asked for when that
  is representable and within the retention.  The query fails exactly when a component asked for fails, and its
  answer maps the name of each component asked for, and no other name, to the events of that component.
\<close>

theorem events_query_contract:
  assumes "distinct (map co_Name comps)" "g = newGlobalHandler cfg comps store gpud"
    "asked = (if q = [] then comps else filter (\<lambda>c. co_Name c = q) comps)" "getEvents g now now' since q = (st, body)"
  shows "(st = 400 \<longleftrightarrow> since \<noteq> [] \<and> ParseInt since = None) \<and>
    (st \<noteq> 400 \<longrightarrow> (\<exists>t. now' - c_RetentionPeriod cfg \<le> t \<and>
       (\<forall>s. ParseInt since = Some s \<and> s + unixToInternal < 2 ^ 63 \<and> now' - c_RetentionPeriod cfg \<le> s * time_Second \<longrightarrow> t = s * time_Second) \<and>
       (st = 200 \<longleftrightarrow> (\<forall>c. c \<in> set asked \<longrightarrow> is_ok (co_Events c t))) \<and>
       (\<forall>m n. st = 200 \<and> body = Ok m \<longrightarrow>
          map_of m n = map_option (\<lambda>c. projr (co_Events c t)) (List.find (\<lambda>c. co_Name c = n) asked))))"
proof (cases "since \<noteq> [] \<and> ParseInt since = None")
  case True
  with assms(4) show ?thesis by (auto simp: getEvents_def)
next
  case False
  define t0 where "t0 = (if since \<noteq> [] then time_Unix (the (ParseInt since)) else now - time_Hour)"
  let ?t = "clampStartTime g now' t0"
  have g: "gh_cfg g = cfg" "requested g q = asked"
    by (simp_all add: assms(2,3) requested_new) (simp add: newGlobalHandler_def)
  have e: "events_loop ?t asked [] = (st, body)"
    using assms(4) False by (auto simp: getEvents_def t0_def g split: if_splits)
  have d: "distinct (map co_Name asked)" using assms(1) by (auto simp: assms(3) distinct_map inj_on_def)
  have parsed: "since \<noteq> [] \<and> - (2 ^ 63) \<le> s + unixToInternal" if "ParseInt since = Some s" for s
    using that by (auto simp: ParseInt_def parse_digits_def unixToInternal_def split: list.splits if_splits option.splits)
  have "?t = s * time_Second" if "ParseInt since = Some s" "s + unixToInternal < 2 ^ 63" "now' - c_RetentionPeriod cfg \<le> s * time_Second" for s
    using that parsed [OF that(1)] by (simp add: t0_def time_Unix_exact clampStartTime_id g)
  moreover have "now' - c_RetentionPeriod cfg \<le> ?t" using clampStartTime_ge [of now' g] by (simp add: g)
  moreover have "(st = 200 \<longleftrightarrow> (\<forall>c. c \<in> set asked \<longrightarrow> is_ok (co_Events c ?t))) \<and> st \<noteq> 400 \<and>
      (\<forall>m n. st = 200 \<and> body = Ok m \<longrightarrow> map_of m n = map_option (\<lambda>c. projr (co_Events c ?t)) (List.find (\<lambda>c. co_Name c = n) asked))"
  proof (cases "\<forall>c. c \<in> set asked \<longrightarrow> is_ok (co_Events c ?t)")
    case True
    then have "events_loop ?t asked [] = (200, Ok (fold (\<lambda>c. put (co_Name c) (projr (co_Events c ?t))) asked []))"
      by (intro events_loop_ok) simp
    with e show ?thesis using True by (auto simp: put_all_lookup [OF d] split: option.splits)
  next
    case False
    then obtain c where "c \<in> set asked" "\<not> is_ok (co_Events c ?t)" by auto
    with e events_loop_failed [of c asked ?t "[]"] show ?thesis by auto
  qed
  ultimately show ?thesis using False by (intro conjI impI exI [of _ ?t]) auto
qed

definition sample_component :: "string \<Rightarrow> api_component" where
  "sample_component n = \<lparr>co_Name = n, co_Events = (\<lambda>t. if n = ''bad'' then Inl ''e'' else Inr []), co_LastHealthStates = [],
     ac_Tags = [], ac_IsSupported = True\<rparr>"

theorem events_query_contract_witness:
  "\<exists>body. getEvents (newGlobalHandler (sample_config []) (map sample_component [''cpu'', ''bad'']) (\<lambda>q. Inr []) None) 0 0 ''5'' ''cpu'' = (200, body)"
proof -
  let ?comps = "map sample_component [''cpu'', ''bad'']" let ?g = "newGlobalHandler (sample_config []) ?comps (\<lambda>q. Inr []) None"
  obtain st body where r: "getEvents ?g 0 0 ''5'' ''cpu'' = (st, body)" by fastforce
  have p: "ParseInt ''5'' = Some 5" by code_simp
  have d: "distinct (map co_Name ?comps)" by (simp add: sample_component_def)
  have "is_ok (co_Events c t)" if "c \<in> set (filter (\<lambda>c. co_Name c = ''cpu'') ?comps)" for c t
    using that by (auto simp: sample_component_def)
  with events_query_contract [OF d refl refl r] have "st = 200" by (auto simp: p)
  with r show ?thesis by blast
qed

text \<open>
  C21: Who can inject a fault.  A request acts on the system only when it comes from a loopback address over TCP, the
  injector is enabled and the first MiB of the body decodes to a request that passes its check; then it does
  exactly the one thing the request says and answers 200, and in every other case it does nothing and answers
  otherwise.
\<close>

theorem fault_only_from_loopback:
  assumes "injectFault E h = (st, as)"
  shows "length as \<le> 1 \<and> (fst st = 200 \<longleftrightarrow> as \<noteq> []) \<and>
    (as \<noteq> [] \<longrightarrow> fe_injector E \<noteq> None \<and>
      (\<exists>host port a. SplitHostPort (fh_RemoteAddr h) = Some (host, port) \<and> net_ParseIP (fe_net E) host = Some a \<and> ip_IsLoopback a) \<and>
      (\<exists>rq0 rq. fe_decode E (take 1048576 (fh_Body h)) = Some rq0 \<and> Request_Validate (fe_xid E) rq0 = Ok rq \<and> fault_of rq = Some (hd as)))"
  using injectFault_cases [OF assms] by (auto simp: from_loopback_def split: option.splits prod.splits)

definition sample_fault_env :: "fault_request \<Rightarrow> fault_env" where
  "sample_fault_env rq = \<lparr>fe_net = plain_netlib, fe_decode = (\<lambda>b. if b = ''rq'' then Some rq else None),
     fe_xid = (\<lambda>i. \<lparr>km_Priority = ''KERN_ERR'', km_Message = ''xid''\<rparr>), fe_injector = Some working_injector\<rparr>"

theorem fault_only_from_loopback_witness:
  "\<exists>st. injectFault (sample_fault_env (clear_request ''cpu'')) \<lparr>fh_RemoteAddr = ''127.0.0.1:4000'', fh_Body = ''rq''\<rparr> =
     (st, [ClearedComponentFault ''cpu'']) \<and> fst st = 200"
proof -
  let ?r = "injectFault (sample_fault_env (clear_request ''cpu'')) \<lparr>fh_RemoteAddr = ''127.0.0.1:4000'', fh_Body = ''rq''\<rparr>"
  have a: "snd ?r = [ClearedComponentFault ''cpu'']" by code_simp
  obtain st as where r: "?r = (st, as)" by fastforce
  from fault_only_from_loopback [OF r] r a show ?thesis by simp
qed

text \<open>
  The command and the server agree.  Every request the \<open>inject\<close> command builds for a named component passes the
  server's check as it is, so that over a loopback connection, with an injector that works and a body that decodes
  to it, the server does exactly what the command asked for.
\<close>

theorem inject_request_takes_effect:
  assumes "if_component f \<noteq> []" "if if_clear f then rq = clear_request (if_component f) else inject_request f = Ok rq"
    "from_loopback (fe_net E) (fh_RemoteAddr h)" "fe_injector E = Some working_injector" "fe_decode E (take 1048576 (fh_Body h)) = Some rq"
  shows "\<exists>msg a. injectFault E h = ((200, msg), [a]) \<and> fault_of rq = Some a"
proof -
  have v: "Request_Validate (fe_xid E) rq = Ok rq \<and> (\<exists>a. fault_of rq = Some a)"
  proof (cases "if_clear f")
    case True
    with assms(1,2) show ?thesis by (simp add: clear_request_def empty_request_def Request_Validate_def fault_of_def)
  next
    case False
    with assms(1,2) show ?thesis
      by (auto simp: inject_request_def Let_def empty_request_def Request_Validate_def fault_of_def KernelMessage_Validate_def
          ConvertKernelMessagePriority_def or_default_def not_less dest: kernel_messages_short split: if_splits sum.splits)
  qed
  then show ?thesis using assms(3-5)
    by (auto simp: injectFault_def Let_def inject_with_def fault_of_def working_injector_def split: option.splits)
qed

theorem inject_request_takes_effect_witness:
  "\<exists>rq msg. inject_request \<lparr>if_component = ''disk'', if_server_url = ''http://127.0.0.1:15133'', if_clear = False, if_fault_type = ''kmsg'',
      if_fault_message = [], if_event_type = []\<rparr> = Ok rq \<and>
    injectFault (sample_fault_env rq) \<lparr>fh_RemoteAddr = ''127.0.0.1:4000'', fh_Body = ''rq''\<rparr> =
      ((200, msg), [WroteKernelMessage \<lparr>km_Priority = ''KERN_ERR'', km_Message = ''EXT4-fs (dm-0): Remounting filesystem read-only''\<rparr>])"
proof -
  let ?f = "\<lparr>if_component = ''disk'', if_server_url = ''http://127.0.0.1:15133'', if_clear = False, if_fault_type = ''kmsg'',
      if_fault_message = [], if_event_type = []\<rparr>"
  let ?m = "\<lparr>km_Priority = ''KERN_ERR'', km_Message = ''EXT4-fs (dm-0): Remounting filesystem read-only''\<rparr>"
  let ?rq = "empty_request\<lparr>fr_KernelMessage := Some ?m\<rparr>" let ?h = "\<lparr>fh_RemoteAddr = ''127.0.0.1:4000'', fh_Body = ''rq''\<rparr>"
  have b: "inject_request ?f = Ok ?rq" by (simp add: inject_request_def or_default_def getKernelMessageForComponent_def)
  have l: "from_loopback plain_netlib ''127.0.0.1:4000''" by code_simp
  have "\<exists>msg a. injectFault (sample_fault_env ?rq) ?h = ((200, msg), [a]) \<and> fault_of ?rq = Some a"
    by (rule inject_request_takes_effect [of ?f]) (use b l in \<open>auto simp: sample_fault_env_def working_injector_def\<close>)
  with b show ?thesis by (auto simp: fault_of_def)
qed

text \<open>
  C38: The default address of the \<open>inject\<close> command never works.  The command connects by default to the agent's Unix
  socket, where the peer has no address with a port; the server takes such a peer for a remote one, so that, with
  fault injection enabled or not, the command fails and nothing is injected.
\<close>

theorem inject_over_socket_refused:
  assumes "if_server_url f = DefaultUnixSocketPath" "CHR '':'' \<notin> set peer"
    "\<And>cl u body s. ac_unix_socket cl = Some DefaultUnixSocketPath \<Longrightarrow> ie_post C cl u body = Inr s \<Longrightarrow>
       s = fst (fst (injectFault E \<lparr>fh_RemoteAddr = peer, fh_Body = body\<rparr>))"
  shows "\<not> is_ok (injectCommand C f) \<and> injectFault E \<lparr>fh_RemoteAddr = peer, fh_Body = body\<rparr> = ((403, ''access denied''), [])"
proof -
  have r: "injectFault E \<lparr>fh_RemoteAddr = peer, fh_Body = b\<rparr> = ((403, ''access denied''), [])" for b
    by (simp add: injectFault_def from_loopback_def SplitHostPort_colon [OF assms(2)])
  let ?u = "empty_url\<lparr>u_scheme := ''unix'', u_path := DefaultUnixSocketPath\<rparr>"
  have u: "ValidateLocalServerURL (ie_net C) (if_server_url f) = Ok ?u"
    by (simp add: assms(1) ValidateLocalServerURL_def DefaultUnixSocketPath_def HasPrefix_def)
  have "ie_post C (NewAgentHTTPClient ?u) v b \<noteq> Inr 200" for v b
    using assms(3) [of "NewAgentHTTPClient ?u" v b 200] r by (auto simp: NewAgentHTTPClient_def)
  then have "\<not> is_ok (post_fault C ?u rq)" for rq
    by (auto simp: post_fault_def split: sum.splits option.splits)
  then show ?thesis using r u by (auto simp: injectCommand_def clearComponentFault_def split: sum.splits)
qed

definition sample_inject_env :: "fault_env \<Rightarrow> inject_env" where
  "sample_inject_env E = \<lparr>ie_net = plain_netlib, ie_marshal = (\<lambda>r. Inr ''rq''),
     ie_post = (\<lambda>cl u b. Inr (fst (fst (injectFault E \<lparr>fh_RemoteAddr = (if ac_unix_socket cl = None then ''127.0.0.1:4000'' else ''@''), fh_Body = b\<rparr>))))\<rparr>"

theorem inject_over_socket_refused_witness:
  "let f = \<lparr>if_component = ''cpu'', if_server_url = DefaultUnixSocketPath, if_clear = True, if_fault_type = [], if_fault_message = [], if_event_type = []\<rparr>;
       C = sample_inject_env (sample_fault_env (clear_request ''cpu''))
   in \<not> is_ok (injectCommand C f) \<and> is_ok (injectCommand C (f\<lparr>if_server_url := ''http://127.0.0.1:15133''\<rparr>))"
proof -
  let ?f = "\<lparr>if_component = ''cpu'', if_server_url = DefaultUnixSocketPath, if_clear = True, if_fault_type = [], if_fault_message = [], if_event_type = []\<rparr>"
  let ?E = "sample_fault_env (clear_request ''cpu'')"
  have "\<not> is_ok (injectCommand (sample_inject_env ?E) ?f)"
    using inject_over_socket_refused [of ?f "''@''" "sample_inject_env ?E" ?E] by (simp add: sample_inject_env_def)
  moreover have "is_ok (injectCommand (sample_inject_env ?E) (?f\<lparr>if_server_url := ''http://127.0.0.1:15133''\<rparr>))" by code_simp
  ultimately show ?thesis by (simp add: Let_def)
qed

text \<open>
  A request is not always checked as it is executed.  The check looks at the component to clear before the event,
  the handler at the event before the component to clear: a request with both has an unchecked event, which may
  even name no component, injected, while the answer says that a fault was cleared and none is.
\<close>

theorem event_reported_as_cleared:
  assumes "from_loopback (fe_net E) (fh_RemoteAddr h)" "fe_injector E = Some J" "fe_decode E (take 1048576 (fh_Body h)) = Some rq"
    "rq = empty_request\<lparr>fr_ComponentClear := Some c, fr_Event := Some e\<rparr>" "c \<noteq> []" "ij_Event J = Some g" "g e = None"
  shows "injectFault E h = ((200, ''component fault cleared''), [InjectedEvent e])"
  using assms by (simp add: injectFault_def Request_Validate_def empty_request_def inject_with_def)

theorem event_reported_as_cleared_witness:
  "let e = \<lparr>ei_Component = [], ei_Name = [], ei_Type = [], ei_Message = []\<rparr>
   in injectFault (sample_fault_env (empty_request\<lparr>fr_ComponentClear := Some ''cpu'', fr_Event := Some e\<rparr>))
       \<lparr>fh_RemoteAddr = ''127.0.0.1:4000'', fh_Body = ''rq''\<rparr> = ((200, ''component fault cleared''), [InjectedEvent e])"
proof -
  let ?e = "\<lparr>ei_Component = [], ei_Name = [], ei_Type = [], ei_Message = []\<rparr>"
  let ?E = "sample_fault_env (empty_request\<lparr>fr_ComponentClear := Some ''cpu'', fr_Event := Some ?e\<rparr>)"
  have "from_loopback plain_netlib ''127.0.0.1:4000''" by code_simp
  then show ?thesis unfolding Let_def
    by (intro event_reported_as_cleared [where J = working_injector and c = "''cpu''" and g = "\<lambda>e. None"])
      (simp_all add: sample_fault_env_def working_injector_def)
qed

end
