(* ===== verification/Lifecycle.thy ===== *)
theory Lifecycle
  imports Prelude
begin

text \<open>
  Bookkeeping of resources: a program logs what it acquires and releases, and \<open>track\<close> replays the log on the set
  of resources held.  The replay fails when a resource is acquired twice or released without being held.  The
  server and the scan are checked against it.
\<close>

datatype 'r life = Acquire 'r | Release 'r

fun track :: "'r set \<Rightarrow> 'r life list \<Rightarrow> 'r set option" where
  "track H [] = Some H"
| "track H (Acquire r # ev) = (if r \<in> H then None else track (insert r H) ev)"
| "track H (Release r # ev) = (if r \<in> H then track (H - {r}) ev else None)"

lemma track_append: "track H (a @ b) = (case track H a of None \<Rightarrow> None | Some H' \<Rightarrow> track H' b)"
  by (induction H a rule: track.induct) auto

lemma track_appendI: "track H a = Some H' \<Longrightarrow> track H (a @ b) = track H' b"
  by (simp add: track_append)

lemma track_acquires: "distinct rs \<Longrightarrow> set rs \<inter> H = {} \<Longrightarrow> track H (map Acquire rs) = Some (H \<union> set rs)"
  by (induction rs arbitrary: H) auto

lemma track_releases: "distinct rs \<Longrightarrow> set rs \<subseteq> H \<Longrightarrow> track H (map Release rs) = Some (H - set rs)"
proof (induction rs arbitrary: H)
  case (Cons r rs)
  then have "track (H - {r}) (map Release rs) = Some (H - {r} - set rs)" by (intro Cons.IH) auto
  moreover have "H - {r} - set rs = H - set (r # rs)" by auto
  ultimately show ?case using Cons.prems by simp
qed simp

text \<open>Releasing the resources of a list that is exactly what is held leaves nothing.\<close>

lemma track_clean: "track H a = Some (set rs \<union> B) \<Longrightarrow> distinct rs \<Longrightarrow> set rs \<inter> B = {} \<Longrightarrow>
    track H (a @ map Release rs) = Some B"
  by (subst track_appendI, assumption, subst track_releases) auto

text \<open>A resource that is held under a condition.\<close>

definition only_if :: "bool \<Rightarrow> 'r \<Rightarrow> 'r list" where
  "only_if b r = (if b then [r] else [])"

lemma only_if_simps [simp]:
  "only_if True r = [r]" "only_if False r = []" "distinct (only_if b r)" "x \<in> set (only_if b r) \<longleftrightarrow> b \<and> x = r"
  by (auto simp: only_if_def)

end
