(* ===== verification/Server.thy ===== *)
theory Server
  imports Lifecycle Component_Registry Workload Health_Exporter Enrollment Handlers
begin

text \<open>
  The agent's server (\<open>internal/server/server.go\<close>): its construction in stages, each of which may fail, the
  background loops, the listener with the take-over of a stale socket, and \<open>Stop\<close>.  A stage takes the server built
  so far and a world of database, files, Prometheus registry and log of resources, and returns an optional failure
  with both.  The lemmas relate what the server's fields say it holds to what the log says it acquired, and
  show that a failed construction and a stopped server hold nothing but the two tasks that follow the context.
\<close>

section \<open>State\<close>

datatype server_resource =
    RWDatabase | RODatabase | LoopContext | DCGMInstance | HealthCache | FieldValueCache
  | ServerComponent string | WorkloadMetrics | MetricsSyncer | PrometheusRecorder
  | InventoryLoop | AttestationLoop | HealthExporterTask | HTTPServer | SocketListener

text \<open>
  The fields of \<open>Server\<close>; a pointer that is only compared with nil is a Boolean.  \<open>sv_loops\<close> are the goroutines of
  \<open>loopWG\<close>.
\<close>

record gpud_fields =
  gf_DCGMInstance :: bool
  gf_DCGMHealthCache :: bool
  gf_DCGMFieldValueCache :: bool
  gf_GPUHardwarePresent :: bool

record server =
  sv_dbRW :: bool
  sv_dbRO :: bool
  sv_loopCancel :: bool
  sv_loops :: "server_resource list"
  sv_agentUUID :: string
  sv_faultInjector :: bool
  sv_gpudInstance :: "gpud_fields option"
  sv_componentsRegistry :: "string list option"
  sv_workloadMetrics :: "workload_manager option"
  sv_healthExporter :: "exporter_options option"
  sv_srv :: bool
  sv_listener :: bool
  sv_stopped :: bool

record 'r server_world =
  vw_db :: database
  vw_files :: files
  vw_prom :: 'r
  vw_log :: "server_resource life list"

text \<open>Outcomes of what the construction calls; \<open>Some e\<close> is a failure.\<close>

record 'r server_env =
  ve_sql :: sqlite_env
  ve_identity :: identity_env
  ve_os :: os_env
  ve_dcgm :: "(string, dcgm_device list) result"
  ve_pci :: "(string, bool) result"
  ve_eventstore :: "string option"
  ve_init :: "string \<Rightarrow> string option"
  ve_component :: "string \<Rightarrow> sdk_component"
  ve_start :: "string \<Rightarrow> string option"
  ve_registerer :: "'r registerer"
  ve_scraper :: "string option"
  ve_metricsstore :: "string option"
  ve_metrics :: "int \<Rightarrow> (string, health_metric list) result"
  ve_now :: int
  ve_loops_exit :: bool

datatype server_error =
    InvalidDCGMCollection config_error
  | OpenStateRW string
  | OpenStateRO string
  | CreateMetadataTable sql_error
  | SecureStateFile fs_error
  | AgentUUIDError identity_error
  | CreateDCGM string
  | OpenEvents string
  | StartComponent string string
  | StartWorkload workload_error
  | CreateScraper string
  | CreateMetricsStore string
  | CreateExporter exporter_error

datatype halt = Failed server_error | Panicked string string

type_synonym 'r stage = "server \<Rightarrow> 'r server_world \<Rightarrow> halt option \<times> server \<times> 'r server_world"

definition logged :: "server_resource life list \<Rightarrow> 'r server_world \<Rightarrow> 'r server_world" where
  "logged ev w = w\<lparr>vw_log := vw_log w @ ev\<rparr>"

definition and_then :: "'r stage \<Rightarrow> 'r stage \<Rightarrow> 'r stage" where
  "and_then f g s w = (case f s w of
      (Some e, s1, w1) \<Rightarrow> (Some e, s1, w1)
    | (None, s1, w1) \<Rightarrow> g s1 w1)"

section \<open>Construction\<close>

subsection \<open>Databases and identity\<close>

definition state_file :: "config \<Rightarrow> string" where
  "state_file cfg = (if c_State cfg \<noteq> [] then c_State cfg else '':memory:'')"

definition initializeDatabases :: "'r server_env \<Rightarrow> config \<Rightarrow> 'r server_world \<Rightarrow> (server_error, unit) result \<times> 'r server_world" where
  "initializeDatabases E cfg w =
     (case se_open_rw (ve_sql E) of
        Some e \<Rightarrow> (Error (OpenStateRW e), w)
      | None \<Rightarrow>
     (let w1 = logged [Acquire RWDatabase] w in
      case se_open_ro (ve_sql E) of
        Some e \<Rightarrow> (Error (OpenStateRO e), logged [Release RWDatabase] w1)
      | None \<Rightarrow>
     (let w2 = logged [Acquire RODatabase] w1; closing = logged [Release RODatabase, Release RWDatabase] in
      case CreateTableMetadata (ve_sql E) (vw_db w2) of
        (Inl e, db) \<Rightarrow> (Error (CreateMetadataTable e), closing (w2\<lparr>vw_db := db\<rparr>))
      | (Inr _, db) \<Rightarrow>
     (case SecureStateFilePermissions (ve_os E) (state_file cfg) (vw_files w2) of
        (Inl e, fs) \<Rightarrow> (Error (SecureStateFile e), closing (w2\<lparr>vw_db := db, vw_files := fs\<rparr>))
      | (Inr _, fs) \<Rightarrow> (Ok (), w2\<lparr>vw_db := db, vw_files := fs\<rparr>)))))"

text \<open>\<open>dbAgentUUIDState\<close>, which works on the open databases, and the identity made from it.\<close>

definition db_GetOrCreateAgentUUID :: "sqlite_env \<Rightarrow> (string, string) result \<Rightarrow> database
    \<Rightarrow> (state_error, string \<times> bool) result \<times> database" where
  "db_GetOrCreateAgentUUID E create db = (case CreateTableMetadata E db of
      (Inl e, db1) \<Rightarrow> (Error (CreateTableFailed e), db1)
    | (Inr _, db1) \<Rightarrow> GetOrCreateAgentUUIDMetadata E (Some create) db1)"

definition initializeAgentUUID :: "identity_env \<Rightarrow> sqlite_env \<Rightarrow> database \<Rightarrow> (identity_error, string) result \<times> database" where
  "initializeAgentUUID I E db = (case db_GetOrCreateAgentUUID E (createAgentUUID I) db of
      (Inl e, db1) \<Rightarrow> (Error (EnsureAgentUUIDFailed e), db1)
    | (Inr (uuid, _), db1) \<Rightarrow> (Ok uuid, db1))"

definition agent_stage :: "'r server_env \<Rightarrow> 'r stage" where
  "agent_stage E s w = (case initializeAgentUUID (ve_identity E) (ve_sql E) (vw_db w) of
      (Inl e, db) \<Rightarrow> (Some (Failed (AgentUUIDError e)), s, w\<lparr>vw_db := db\<rparr>)
    | (Inr uuid, db) \<Rightarrow> (None, s\<lparr>sv_agentUUID := uuid\<rparr>, w\<lparr>vw_db := db\<rparr>))"

definition injector_stage :: "config \<Rightarrow> 'r stage" where
  "injector_stage cfg s w = (None, s\<lparr>sv_faultInjector := c_EnableFaultInjection cfg\<rparr>, w)"

subsection \<open>DCGM, event store and components\<close>

text \<open>Without devices the PCI bus is asked; when that fails too, no hardware is assumed.\<close>

definition hardware_present :: "dcgm_device list \<Rightarrow> (string, bool) result \<Rightarrow> bool" where
  "hardware_present devices pci = (devices \<noteq> [] \<or> (case pci of Inl _ \<Rightarrow> False | Inr detected \<Rightarrow> detected))"

definition dcgm_stage :: "'r server_env \<Rightarrow> 'r stage" where
  "dcgm_stage E s w = (case ve_dcgm E of
      Inl e \<Rightarrow> (Some (Failed (CreateDCGM e)), s, w)
    | Inr devices \<Rightarrow>
        (None, s\<lparr>sv_gpudInstance := Some \<lparr>gf_DCGMInstance = True, gf_DCGMHealthCache = False, gf_DCGMFieldValueCache = False,
                  gf_GPUHardwarePresent = hardware_present devices (ve_pci E)\<rparr>\<rparr>,
         logged [Acquire DCGMInstance] w))"

text \<open>Recording the reboot, and starting the caches once the components are registered, only log their failures.\<close>

definition store_stage :: "'r server_env \<Rightarrow> 'r stage" where
  "store_stage E s w = (case ve_eventstore E of
      Some e \<Rightarrow> (Some (Failed (OpenEvents e)), s, w)
    | None \<Rightarrow>
        (None, s\<lparr>sv_gpudInstance := map_option (\<lambda>g. g\<lparr>gf_DCGMHealthCache := True, gf_DCGMFieldValueCache := True\<rparr>) (sv_gpudInstance s)\<rparr>,
         logged [Acquire HealthCache, Acquire FieldValueCache] w))"

text \<open>\<open>registry.All\<close> lists the components by name.\<close>

definition registered :: "server \<Rightarrow> string list" where
  "registered s = (case sv_componentsRegistry s of None \<Rightarrow> [] | Some names \<Rightarrow> names)"

text \<open>\<open>MustRegister\<close>: a component whose initialisation fails, or whose name is taken, is a panic.\<close>

fun register_all :: "'r server_env \<Rightarrow> string list \<Rightarrow> 'r stage" where
  "register_all E [] s w = (None, s, w)"
| "register_all E (n # ns) s w = (case ve_init E n of
      Some e \<Rightarrow> (Some (Panicked n e), s, w)
    | None \<Rightarrow>
        (let w1 = logged [Acquire (ServerComponent n)] w in
         if n \<in> set (registered s) then (Some (Panicked n ''already registered''), s, w1)
         else register_all E ns (s\<lparr>sv_componentsRegistry := Some (insort n (registered s))\<rparr>) w1))"

definition register_stage :: "'r server_env \<Rightarrow> config \<Rightarrow> 'r stage" where
  "register_stage E cfg s w =
     register_all E (fst (select_components registry_All cfg)) (s\<lparr>sv_componentsRegistry := Some []\<rparr>) w"

definition start_components :: "'r server_env \<Rightarrow> 'r stage" where
  "start_components E s w = (case List.find (\<lambda>n. ve_start E n \<noteq> None) (registered s) of
      None \<Rightarrow> (None, s, w)
    | Some n \<Rightarrow> (Some (Failed (StartComponent n (the (ve_start E n)))), s, w))"

subsection \<open>Metrics, loops and exporter\<close>

definition workload_stage :: "'r server_env \<Rightarrow> config \<Rightarrow> 'r stage" where
  "workload_stage E cfg s w = (case startWithRegisterer (ve_registerer E) (c_WorkloadAttribution cfg) (vw_prom w) of
      (Inl e, r) \<Rightarrow> (Some (Failed (StartWorkload e)), s, w\<lparr>vw_prom := r\<rparr>)
    | (Inr m, r) \<Rightarrow> (None, s\<lparr>sv_workloadMetrics := Some m\<rparr>, logged [Acquire WorkloadMetrics] (w\<lparr>vw_prom := r\<rparr>)))"

definition metrics_stage :: "'r server_env \<Rightarrow> 'r stage" where
  "metrics_stage E s w = (case ve_scraper E of
      Some e \<Rightarrow> (Some (Failed (CreateScraper e)), s, w)
    | None \<Rightarrow> (case ve_metricsstore E of
        Some e \<Rightarrow> (Some (Failed (CreateMetricsStore e)), s, w)
      | None \<Rightarrow> (None, s, logged [Acquire MetricsSyncer, Acquire PrometheusRecorder] w)))"

definition getInventorySyncInterval :: "config option \<Rightarrow> duration" where
  "getInventorySyncInterval cfg = (case cfg of
      None \<Rightarrow> 0
    | Some c \<Rightarrow> (case c_Inventory c of None \<Rightarrow> 0 | Some l \<Rightarrow> if \<not> lc_Enabled l then 0 else lc_Interval l))"

definition DefaultInventoryTimeout :: duration where "DefaultInventoryTimeout = time_Minute"

definition getInventorySyncTimeout :: "config option \<Rightarrow> duration" where
  "getInventorySyncTimeout cfg = (case cfg of
      None \<Rightarrow> 0
    | Some c \<Rightarrow> (case c_Inventory c of None \<Rightarrow> 0 | Some l \<Rightarrow> if \<not> lc_Enabled l then 0 else DefaultInventoryTimeout))"

definition getAttestationInterval :: "config option \<Rightarrow> duration" where
  "getAttestationInterval cfg = (case cfg of
      None \<Rightarrow> 0
    | Some c \<Rightarrow> (case c_Attestation c of None \<Rightarrow> 0 | Some l \<Rightarrow> if \<not> lc_Enabled l then 0 else lc_Interval l))"

definition DefaultAttestationTimeout :: duration where "DefaultAttestationTimeout = time_Minute"

definition getAttestationTimeout :: "config option \<Rightarrow> duration" where
  "getAttestationTimeout cfg = (case cfg of
      None \<Rightarrow> 0
    | Some c \<Rightarrow> (case c_Attestation c of None \<Rightarrow> 0 | Some l \<Rightarrow> if \<not> lc_Enabled l then 0 else DefaultAttestationTimeout))"

definition loop_retry :: duration where "loop_retry = 5 * time_Minute"
definition loop_jitter :: duration where "loop_jitter = time_Minute"

text \<open>What the loops are started with; \<^const>\<open>None\<close> when a loop is not started.\<close>

definition inventory_loop :: "config \<Rightarrow> (inv_agent_config \<times> inventory_loop_config) option" where
  "inventory_loop cfg =
     (let interval = getInventorySyncInterval (Some cfg) in
      if interval \<le> 0 then None
      else Some (inventory_agent_config AllComponentNames cfg,
        \<lparr>il_Interval = interval, il_RetryInterval = loop_retry, il_Timeout = getInventorySyncTimeout (Some cfg), il_StartupJitter = loop_jitter\<rparr>))"

definition attestation_loop :: "config \<Rightarrow> attestation_config option" where
  "attestation_loop cfg =
     (let interval = getAttestationInterval (Some cfg) in
      if interval \<le> 0 then None
      else Some \<lparr>at_Interval = interval, at_RetryInterval = loop_retry, at_Timeout = getAttestationTimeout (Some cfg), at_StartupJitter = loop_jitter\<rparr>)"

definition started_loops :: "config \<Rightarrow> server_resource list" where
  "started_loops cfg = (if inventory_loop cfg \<noteq> None then [InventoryLoop] else []) @ (if attestation_loop cfg \<noteq> None then [AttestationLoop] else [])"

definition loops_stage :: "config \<Rightarrow> 'r stage" where
  "loops_stage cfg s w = (None, s\<lparr>sv_loops := sv_loops s @ started_loops cfg\<rparr>, logged (map Acquire (started_loops cfg)) w)"

definition exporter_stage_options :: "'r server_env \<Rightarrow> health_exporter_config \<Rightarrow> server \<Rightarrow> exporter_option list" where
  "exporter_stage_options E he s =
     [WithConfig (Some he), WithMetricsStore (Some (ve_metrics E)), WithEventStore True,
      WithComponentsRegistry (map_option (map (ve_component E)) (sv_componentsRegistry s)),
      WithDCGM (case ve_dcgm E of Inl _ \<Rightarrow> None | Inr devices \<Rightarrow> Some devices),
      WithDatabaseConnections (sv_dbRW s) (sv_dbRO s), WithMachineID (sv_agentUUID s)]"

text \<open>A failed \<open>Start\<close> of the exporter is only logged.\<close>

definition exporter_stage :: "'r server_env \<Rightarrow> config \<Rightarrow> 'r stage" where
  "exporter_stage E cfg s w = (case c_HealthExporter cfg of
      None \<Rightarrow> (None, s, w)
    | Some he \<Rightarrow> (case exporter_New (ve_now E) (exporter_stage_options E he s) of
        Inl e \<Rightarrow> (Some (Failed (CreateExporter e)), s, w)
      | Inr (opts, _) \<Rightarrow> (None, s\<lparr>sv_healthExporter := Some opts\<rparr>, logged [Acquire HealthExporterTask] w)))"

section \<open>Stop\<close>

definition gpud_has :: "(gpud_fields \<Rightarrow> bool) \<Rightarrow> server \<Rightarrow> bool" where
  "gpud_has f s = (case sv_gpudInstance s of None \<Rightarrow> False | Some g \<Rightarrow> f g)"

text \<open>What a server holds, in the order \<open>Stop\<close> lets go of it.\<close>

definition holdings :: "server \<Rightarrow> server_resource list" where
  "holdings s =
     only_if (sv_loopCancel s) LoopContext @ sv_loops s @
     only_if (sv_srv s) HTTPServer @ only_if (sv_listener s) SocketListener @
     only_if (sv_workloadMetrics s \<noteq> None) WorkloadMetrics @
     only_if (sv_healthExporter s \<noteq> None) HealthExporterTask @
     only_if (gpud_has gf_DCGMHealthCache s) HealthCache @
     only_if (gpud_has gf_DCGMFieldValueCache s) FieldValueCache @
     map ServerComponent (registered s) @
     only_if (gpud_has gf_DCGMInstance s) DCGMInstance @
     only_if (sv_dbRW s) RWDatabase @ only_if (sv_dbRO s) RODatabase"

text \<open>The loops are waited for, ten seconds at most: \<open>ve_loops_exit\<close> says whether they end in time.\<close>

definition server_Stop :: "'r server_env \<Rightarrow> server \<Rightarrow> 'r server_world \<Rightarrow> server \<times> 'r server_world" where
  "server_Stop E s w =
     (if sv_stopped s then (s, w)
      else let gone = filter (\<lambda>r. ve_loops_exit E \<or> r \<notin> set (sv_loops s)) (holdings s);
               prom = (if sv_workloadMetrics s \<noteq> None then snd (manager_Close (ve_registerer E) (sv_workloadMetrics s) (vw_prom w)) else vw_prom w)
           in (s\<lparr>sv_stopped := True, sv_workloadMetrics := None\<rparr>, logged (map Release gone) (w\<lparr>vw_prom := prom\<rparr>)))"

section \<open>New\<close>

definition fresh_server :: server where
  "fresh_server = \<lparr>sv_dbRW = True, sv_dbRO = True, sv_loopCancel = True, sv_loops = [], sv_agentUUID = [], sv_faultInjector = False,
     sv_gpudInstance = None, sv_componentsRegistry = None, sv_workloadMetrics = None, sv_healthExporter = None,
     sv_srv = False, sv_listener = False, sv_stopped = False\<rparr>"

definition stages :: "'r server_env \<Rightarrow> config \<Rightarrow> 'r stage" where
  "stages E cfg =
     foldr and_then
       [agent_stage E, injector_stage cfg, dcgm_stage E, store_stage E, register_stage E cfg, start_components E,
        workload_stage E cfg, metrics_stage E, loops_stage cfg, exporter_stage E cfg]
       (\<lambda>s w. (None, s, w))"

datatype new_outcome = NewFailed server_error | NewPanicked string string | Started server

text \<open>The deferred function stops the server when an error is returned; a panic passes it by.\<close>

definition server_New :: "'r server_env \<Rightarrow> config \<Rightarrow> 'r server_world \<Rightarrow> new_outcome \<times> 'r server_world" where
  "server_New E cfg w = (case DCGMCollectionIntervals (c_HealthExporter cfg) of
      Inl e \<Rightarrow> (NewFailed (InvalidDCGMCollection e), w)
    | Inr _ \<Rightarrow> (case initializeDatabases E cfg w of
        (Inl e, w1) \<Rightarrow> (NewFailed e, w1)
      | (Inr _, w1) \<Rightarrow> (case stages E cfg fresh_server (logged [Acquire LoopContext] w1) of
          (None, s, w2) \<Rightarrow> (Started s, w2)
        | (Some (Failed e), s, w2) \<Rightarrow> (NewFailed e, snd (server_Stop E s w2))
        | (Some (Panicked n e), s, w2) \<Rightarrow> (NewPanicked n e, w2))))"

section \<open>The listener\<close>

text \<open>What the listener meets in the file system; a socket carries whether a process listens on it, and its mode.\<close>

datatype sock_node = RegularFile | Directory | Symlink | Socket bool nat

type_synonym sock_files = "string \<rightharpoonup> sock_node"

record sock_env =
  so_dial :: bool
  so_lstat :: "string option"
  so_remove :: "string option"
  so_mkdir :: "string \<Rightarrow> string option"
  so_listen :: "string option"
  so_chmod :: "string option"
  so_serve :: "string option"

datatype sock_error =
    SocketLstat string
  | IsSymlink
  | NotSocket
  | SocketRemove string
  | AlreadyListening
  | SocketDirectory string
  | SocketListen string
  | SocketChmod string
  | ServeFailed string

definition removeStaleSocket :: "sock_env \<Rightarrow> string \<Rightarrow> sock_files \<Rightarrow> (sock_error, unit) result \<times> sock_files" where
  "removeStaleSocket S path fs = (case so_lstat S of
      Some e \<Rightarrow> (Error (SocketLstat e), fs)
    | None \<Rightarrow> (case fs path of
        None \<Rightarrow> (Ok (), fs)
      | Some Symlink \<Rightarrow> (Error IsSymlink, fs)
      | Some (Socket _ _) \<Rightarrow> (case so_remove S of Some e \<Rightarrow> (Error (SocketRemove e), fs) | None \<Rightarrow> (Ok (), fs(path := None)))
      | Some _ \<Rightarrow> (Error NotSocket, fs)))"

text \<open>\<open>filepath.Dir\<close> of an absolute path.\<close>

definition socket_dir :: "string \<Rightarrow> string" where
  "socket_dir p = filepath_Clean (rev (dropWhile (\<lambda>c. c \<noteq> CHR ''/'') (rev p)))"

text \<open>\<open>os.MkdirAll\<close>: the directories of a path from the top, each made when it is missing.\<close>

definition dirs_of :: "string \<Rightarrow> string list" where
  "dirs_of d = map (\<lambda>n. take n d) (filter (\<lambda>n. n = length d \<or> d ! n = CHR ''/'') [1..<Suc (length d)])"

fun mkdirAll :: "sock_env \<Rightarrow> string list \<Rightarrow> sock_files \<Rightarrow> string option \<times> sock_files" where
  "mkdirAll S [] fs = (None, fs)"
| "mkdirAll S (d # ds) fs = (case so_mkdir S d of
      Some e \<Rightarrow> (Some e, fs)
    | None \<Rightarrow> mkdirAll S ds (if fs d = None then fs(d \<mapsto> Directory) else fs))"

text \<open>Binding fails on a path that exists; closing a listener whose mode cannot be set unlinks it again.\<close>

definition open_socket :: "sock_env \<Rightarrow> string \<Rightarrow> sock_files \<Rightarrow> (sock_error, unit) result \<times> sock_files" where
  "open_socket S path fs =
     (if so_dial S then (Error AlreadyListening, fs)
      else case removeStaleSocket S path fs of
        (Inl e, fs1) \<Rightarrow> (Error e, fs1)
      | (Inr _, fs1) \<Rightarrow>
      (case mkdirAll S (dirs_of (socket_dir path)) fs1 of
         (Some e, fs2) \<Rightarrow> (Error (SocketDirectory e), fs2)
       | (None, fs2) \<Rightarrow>
      (case so_listen S of
         Some e \<Rightarrow> (Error (SocketListen e), fs2)
       | None \<Rightarrow>
           if fs2 path \<noteq> None then (Error (SocketListen ''address already in use''), fs2)
           else (case so_chmod S of
               Some e \<Rightarrow> (Error (SocketChmod e), fs2)
             | None \<Rightarrow> (Ok (), fs2(path \<mapsto> Socket True 384))))))"

datatype serve_end = ServeReturned | ServeExit sock_error

text \<open>
  The handler goroutine: it returns, and so stops the server, when the metrics store cannot be created or serving
  ends, and otherwise exits the process.  Closing a Unix listener unlinks its socket.
\<close>

definition startServer :: "'r server_env \<Rightarrow> sock_env \<Rightarrow> config \<Rightarrow> server \<Rightarrow> 'r server_world \<Rightarrow> sock_files
    \<Rightarrow> serve_end \<times> server \<times> 'r server_world \<times> sock_files" where
  "startServer E S cfg s w fs = (case ve_metricsstore E of
      Some e \<Rightarrow> (case server_Stop E s w of (s1, w1) \<Rightarrow> (ServeReturned, s1, w1, fs))
    | None \<Rightarrow>
     (let s1 = s\<lparr>sv_srv := True\<rparr>; w1 = logged [Acquire HTTPServer] w in
      if HasPrefix (c_Address cfg) ''/'' then
        (case open_socket S (c_Address cfg) fs of
           (Inl e, fs1) \<Rightarrow> (ServeExit e, s1, w1, fs1)
         | (Inr _, fs1) \<Rightarrow>
             (let s2 = s1\<lparr>sv_listener := True\<rparr>; w2 = logged [Acquire SocketListener] w1 in
              case so_serve S of
                Some e \<Rightarrow> (ServeExit (ServeFailed e), s2, w2, fs1)
              | None \<Rightarrow> (case server_Stop E s2 w2 of (s3, w3) \<Rightarrow> (ServeReturned, s3, w3, fs1(c_Address cfg := None)))))
      else (case so_serve S of
          Some e \<Rightarrow> (ServeExit (ServeFailed e), s1, w1, fs)
        | None \<Rightarrow> (case server_Stop E s1 w1 of (s2, w2) \<Rightarrow> (ServeReturned, s2, w2, fs)))))"

text \<open>The routes; the one for faults only when it is enabled.\<close>

definition server_routes :: "config \<Rightarrow> (string \<times> string) list" where
  "server_routes cfg =
     [(''GET'', ''/v1/states''), (''GET'', ''/v1/events''), (''GET'', ''/v1/info''), (''GET'', ''/v1/metrics''),
      (''GET'', ''/metrics''), (''GET'', ''/healthz''), (''GET'', ''/machine-info'')] @
     (if c_EnableFaultInjection cfg then [(''POST'', ''/inject-fault'')] else [])"

section \<open>Lemmas\<close>

subsection \<open>What is held\<close>

definition background :: "nat \<Rightarrow> server_resource set" where
  "background k = (if 8 \<le> k then {MetricsSyncer, PrometheusRecorder} else {})"

text \<open>How far the construction has come: after \<open>k\<close> stages the fields of the later ones are still unset.\<close>

definition gpud_at :: "nat \<Rightarrow> gpud_fields option \<Rightarrow> bool" where
  "gpud_at k g \<longleftrightarrow> (case g of None \<Rightarrow> k < 3 | Some x \<Rightarrow> 3 \<le> k \<and> gf_DCGMInstance x \<and>
     (gf_DCGMHealthCache x \<longleftrightarrow> 4 \<le> k) \<and> (gf_DCGMFieldValueCache x \<longleftrightarrow> 4 \<le> k))"

definition built :: "config \<Rightarrow> nat \<Rightarrow> server \<Rightarrow> database \<Rightarrow> bool" where
  "built cfg k s db \<longleftrightarrow> sv_dbRW s \<and> sv_dbRO s \<and> sv_loopCancel s \<and> \<not> sv_stopped s \<and> \<not> sv_listener s \<and> \<not> sv_srv s \<and>
     (1 \<le> k \<longrightarrow> view db MetadataKeyMachineID = Some (sv_agentUUID s)) \<and>
     (2 \<le> k \<longrightarrow> sv_faultInjector s = c_EnableFaultInjection cfg) \<and>
     gpud_at k (sv_gpudInstance s) \<and>
     sv_componentsRegistry s = (if k < 5 then None else Some (sort (fst (select_components registry_All cfg)))) \<and>
     (sv_workloadMetrics s = None \<longleftrightarrow> k < 7) \<and>
     sv_loops s = (if k < 9 then [] else started_loops cfg) \<and>
     (sv_healthExporter s = None \<longleftrightarrow> k < 10 \<or> c_HealthExporter cfg = None)"

definition reached :: "config \<Rightarrow> nat \<Rightarrow> server \<Rightarrow> 'r server_world \<Rightarrow> bool" where
  "reached cfg k s w \<longleftrightarrow> built cfg k s (vw_db w) \<and> track {} (vw_log w) = Some (set (holdings s) \<union> background k)"

lemma logged_simps [simp]:
  "vw_log (logged ev w) = vw_log w @ ev" "vw_db (logged ev w) = vw_db w" "vw_prom (logged ev w) = vw_prom w"
  by (simp_all add: logged_def)

text \<open>A stage that leads from one level to the next, and leaves a level behind when it fails.\<close>

definition leads :: "'r server_env \<Rightarrow> config \<Rightarrow> nat \<Rightarrow> 'r stage \<Rightarrow> nat \<Rightarrow> bool" where
  "leads E cfg i f j \<longleftrightarrow> (\<forall>s w. reached cfg i s w \<longrightarrow> (case f s w of
      (None, s', w') \<Rightarrow> reached cfg j s' w'
    | (Some (Failed e), s', w') \<Rightarrow> (\<exists>k. reached cfg k s' w') \<and> (\<forall>x. e \<noteq> CreateExporter x)
    | (Some (Panicked n e), s', w') \<Rightarrow> ve_init E n = Some e))"

lemma leads_and_then: "leads E cfg i f j \<Longrightarrow> leads E cfg j g k \<Longrightarrow> leads E cfg i (and_then f g) k"
  unfolding leads_def and_then_def by (fastforce split: prod.splits option.splits halt.splits)

lemma reached_acquire:
  assumes "reached cfg k s w" "built cfg j s' (vw_db w')" "vw_log w' = vw_log w @ map Acquire rs" "distinct rs"
    "set rs \<inter> (set (holdings s) \<union> background k) = {}"
    "set (holdings s') \<union> background j = set (holdings s) \<union> background k \<union> set rs"
  shows "reached cfg j s' w'"
  using assms track_acquires [OF assms(4,5)] by (simp add: reached_def track_append)

lemmas level_defs = built_def gpud_at_def background_def gpud_has_def registered_def

lemma leads_stay:
  fixes f :: "'r stage"
  assumes "\<And>s w s' w' r. reached cfg i s w \<Longrightarrow> f s w = (r, s', w') \<Longrightarrow>
      (r = None \<longrightarrow> reached cfg j s' w') \<and> (\<forall>e. r = Some (Failed e) \<longrightarrow> reached cfg i s' w' \<and> (\<forall>x. e \<noteq> CreateExporter x)) \<and>
      (\<forall>n e. r = Some (Panicked n e) \<longrightarrow> ve_init E n = Some e)"
  shows "leads E cfg i f j"
  unfolding leads_def
proof (intro allI impI)
  fix s and w :: "'r server_world"
  assume a: "reached cfg i s w"
  obtain r s' w' where f: "f s w = (r, s', w')" by (metis prod_cases3)
  from assms [OF a f] show "case f s w of (None, s', w') \<Rightarrow> reached cfg j s' w'
      | (Some (Failed e), s', w') \<Rightarrow> (\<exists>k. reached cfg k s' w') \<and> (\<forall>x. e \<noteq> CreateExporter x)
      | (Some (Panicked n e), s', w') \<Rightarrow> ve_init E n = Some e"
    by (auto simp: f split: option.splits halt.splits)
qed

lemma initializeAgentUUID_Ok:
  "initializeAgentUUID I E db = (Inr u, db1) \<Longrightarrow> view db1 MetadataKeyMachineID = Some u"
  using getOrCreate_Ok by (fastforce simp: initializeAgentUUID_def db_GetOrCreateAgentUUID_def split: sum.splits prod.splits)

lemma holdings_agent [simp]:
  "holdings (s\<lparr>sv_agentUUID := u\<rparr>) = holdings s" "holdings (s\<lparr>sv_faultInjector := b\<rparr>) = holdings s"
  by (simp_all add: holdings_def gpud_has_def registered_def)

lemma agent_leads: "leads E cfg 0 (agent_stage E) 1"
  by (rule leads_stay) (auto simp: agent_stage_def reached_def level_defs dest!: initializeAgentUUID_Ok split: sum.splits prod.splits option.splits)

lemma injector_leads: "leads E cfg 1 (injector_stage cfg) 2"
  by (rule leads_stay) (auto simp: injector_stage_def reached_def level_defs split: option.splits)

text \<open>A stage that fails without a trace or sets fields and acquires what they hold.\<close>

lemma leads_acquire:
  fixes f :: "'r stage"
  assumes "\<And>s w r s' w'. built cfg i s (vw_db w) \<Longrightarrow> f s w = (r, s', w') \<Longrightarrow>
      (case r of
         None \<Rightarrow> vw_log w' = vw_log w @ map Acquire rs \<and> built cfg j s' (vw_db w') \<and>
           set rs \<inter> (set (holdings s) \<union> background i) = {} \<and> set (holdings s') \<union> background j = set (holdings s) \<union> background i \<union> set rs
       | Some h \<Rightarrow> s' = s \<and> vw_db w' = vw_db w \<and> vw_log w' = vw_log w \<and> (\<exists>e. h = Failed e \<and> (\<forall>x. e \<noteq> CreateExporter x)))"
    "distinct rs"
  shows "leads E cfg i f j"
proof (rule leads_stay)
  fix s s' r and w w' :: "'r server_world"
  assume a: "reached cfg i s w" and f: "f s w = (r, s', w')"
  from a have b: "built cfg i s (vw_db w)" by (simp add: reached_def)
  show "(r = None \<longrightarrow> reached cfg j s' w') \<and> (\<forall>e. r = Some (Failed e) \<longrightarrow> reached cfg i s' w' \<and> (\<forall>x. e \<noteq> CreateExporter x)) \<and>
      (\<forall>n e. r = Some (Panicked n e) \<longrightarrow> ve_init E n = Some e)"
  proof (cases r)
    case None
    with assms(1) [OF b f] show ?thesis using reached_acquire [OF a _ _ assms(2), of j s' w'] by auto
  next
    case (Some h)
    with assms(1) [OF b f] a show ?thesis by (auto simp: reached_def)
  qed
qed

lemma reached_built: "reached cfg k s w \<Longrightarrow> built cfg k s (vw_db w)"
  by (simp add: reached_def)

lemmas stage_simps = level_defs holdings_def

lemma dcgm_leads: "leads E cfg 2 (dcgm_stage E) 3"
  by (rule leads_acquire [where rs = "[DCGMInstance]"])
    (auto simp: dcgm_stage_def stage_simps split: sum.splits option.splits)

lemma store_leads: "leads E cfg 3 (store_stage E) 4"
  by (rule leads_acquire [where rs = "[HealthCache, FieldValueCache]"])
    (auto simp: store_stage_def stage_simps split: sum.splits option.splits)

lemma register_all_spec:
  assumes "register_all E ns s w = (None, s', w')" "sv_componentsRegistry s = Some xs"
  shows "s' = s\<lparr>sv_componentsRegistry := Some (fold insort ns xs)\<rparr> \<and> w' = logged (map Acquire (map ServerComponent ns)) w"
  using assms
proof (induction ns arbitrary: s w xs)
  case (Cons n ns)
  from Cons.prems have "register_all E ns (s\<lparr>sv_componentsRegistry := Some (insort n xs)\<rparr>) (logged [Acquire (ServerComponent n)] w) = (None, s', w')"
    by (auto simp: registered_def Let_def split: option.splits if_splits)
  from Cons.IH [OF this] show ?case by (simp add: logged_def)
qed (simp add: logged_def)

lemma register_all_halts: "register_all E ns s w = (Some h, s', w') \<Longrightarrow> \<exists>n e. h = Panicked n e"
  by (induction ns arbitrary: s w) (auto simp: Let_def split: option.splits if_splits)

lemma register_all_panic:
  assumes "register_all E ns s w = (Some (Panicked n e), s', w')" "distinct ns" "set ns \<inter> set (registered s) = {}"
  shows "ve_init E n = Some e"
  using assms
proof (induction ns arbitrary: s w)
  case (Cons m ns)
  have r: "registered (s\<lparr>sv_componentsRegistry := Some xs\<rparr>) = xs" for xs by (simp add: registered_def)
  show ?case
  proof (cases "ve_init E m")
    case None
    with Cons.prems have "register_all E ns (s\<lparr>sv_componentsRegistry := Some (insort m (registered s))\<rparr>) (logged [Acquire (ServerComponent m)] w) =
        (Some (Panicked n e), s', w')" by (auto simp: Let_def)
    from Cons.IH [OF this] Cons.prems show ?thesis by (auto simp: r set_insort_key)
  qed (use Cons.prems in simp)
qed simp

lemma select_components_distinct: "distinct (map ce_Name cs) \<Longrightarrow> distinct (fst (select_components cs c)) \<and> set (fst (select_components cs c)) \<subseteq> ce_Name ` set cs"
proof (induction cs arbitrary: c)
  case (Cons x cs)
  obtain b c1 where s: "shouldEnableComponent (ce_Name x) (ce_EnabledByDefault x) c = (b, c1)" by fastforce
  from Cons.IH [of c1] Cons.prems show ?case by (auto simp: s split: prod.splits)
qed simp

lemma selected_distinct: "distinct (fst (select_components registry_All cfg))"
  using select_components_distinct component_names_distinct by (simp add: registry_All_def comp_def)

lemma register_leads:
  fixes E :: "'r server_env"
  shows "leads E cfg 4 (register_stage E cfg) 5"
proof (rule leads_stay)
  fix s s' r and w w' :: "'r server_world"
  assume a: "reached cfg 4 s w" and f: "register_stage E cfg s w = (r, s', w')"
  let ?ns = "fst (select_components registry_All cfg)"
  have b: "built cfg 4 s (vw_db w)" by (rule reached_built [OF a])
  have "reached cfg 5 s' w'" if r: "r = None"
  proof -
    have s': "s' = s\<lparr>sv_componentsRegistry := Some (sort ?ns)\<rparr>" and w': "w' = logged (map Acquire (map ServerComponent ?ns)) w"
      using register_all_spec [of E ?ns "s\<lparr>sv_componentsRegistry := Some []\<rparr>" w s' w' "[]"] f r
      by (simp_all add: register_stage_def sort_conv_fold)
    show ?thesis
      by (rule reached_acquire [OF a, where rs = "map ServerComponent ?ns"]) (use b w'  selected_distinct in \<open>auto simp: s' stage_simps distinct_map inj_on_def split: option.splits\<close>)
  qed
  moreover have "\<forall>e. r \<noteq> Some (Failed e)" using register_all_halts f by (fastforce simp: register_stage_def)
  moreover have "\<forall>n e. r = Some (Panicked n e) \<longrightarrow> ve_init E n = Some e"
    using register_all_panic [of E ?ns "s\<lparr>sv_componentsRegistry := Some []\<rparr>" w] f selected_distinct [of cfg]
    by (auto simp: register_stage_def registered_def)
  ultimately show "(r = None \<longrightarrow> reached cfg 5 s' w') \<and>
      (\<forall>e. r = Some (Failed e) \<longrightarrow> reached cfg 4 s' w' \<and> (\<forall>x. e \<noteq> CreateExporter x)) \<and>
      (\<forall>n e. r = Some (Panicked n e) \<longrightarrow> ve_init E n = Some e)" by simp
qed

lemma start_leads: "leads E cfg 5 (start_components E) 6"
  by (rule leads_stay) (auto simp: start_components_def reached_def level_defs split: option.splits)

lemma workload_leads: "leads E cfg 6 (workload_stage E cfg) 7"
  by (rule leads_acquire [where rs = "[WorkloadMetrics]"])
    (auto simp: workload_stage_def stage_simps split: sum.splits option.splits prod.splits)

lemma metrics_leads: "leads E cfg 7 (metrics_stage E) 8"
  by (rule leads_acquire [where rs = "[MetricsSyncer, PrometheusRecorder]"])
    (auto simp: metrics_stage_def stage_simps split: option.splits)

lemma started_loops_props: "distinct (started_loops cfg)" "set (started_loops cfg) \<subseteq> {InventoryLoop, AttestationLoop}"
  by (auto simp: started_loops_def)

lemma loops_leads: "leads E cfg 8 (loops_stage cfg) 9"
  by (rule leads_acquire [where rs = "started_loops cfg"])
    (use started_loops_props [of cfg] in \<open>auto simp: loops_stage_def stage_simps split: option.splits\<close>)

lemma view_nonempty: "view db k = Some v \<Longrightarrow> v \<noteq> []"
  by (auto simp: view_def ok_if_nonempty_def split: option.splits if_splits)

text \<open>Everything the exporter asks for is there, so that its construction cannot fail.\<close>

lemma exporter_New_Ok:
  assumes "sv_dbRW s" "sv_dbRO s" "sv_agentUUID s \<noteq> []" "sv_componentsRegistry s \<noteq> None"
  shows "\<exists>opts p. exporter_New now (exporter_stage_options E he s) = Ok (opts, p)"
  using assms by (auto simp: exporter_New_def exporter_stage_options_def validate_options_def Let_def no_options_def)

lemma exporter_leads:
  fixes E :: "'r server_env"
  shows "leads E cfg 9 (exporter_stage E cfg) 10"
proof (cases "c_HealthExporter cfg")
  case None
  then show ?thesis
    by (intro leads_acquire [where rs = "[]"]) (auto simp: exporter_stage_def stage_simps split: option.splits)
next
  case (Some he)
  have new: "\<exists>opts p. exporter_New (ve_now E) (exporter_stage_options E he s) = Ok (opts, p)" if "built cfg 9 s db" for s db
    by (rule exporter_New_Ok) (use that in \<open>auto simp: built_def dest: view_nonempty\<close>)
  show ?thesis
  proof (rule leads_acquire [where rs = "[HealthExporterTask]"])
    fix s s' r and w w' :: "'r server_world"
    assume b: "built cfg 9 s (vw_db w)" and f: "exporter_stage E cfg s w = (r, s', w')"
    from new [OF b] obtain opts where "r = None" "s' = s\<lparr>sv_healthExporter := Some opts\<rparr>" "w' = logged [Acquire HealthExporterTask] w"
      using f by (auto simp: exporter_stage_def Some)
    with b Some show "case r of
         None \<Rightarrow> vw_log w' = vw_log w @ map Acquire [HealthExporterTask] \<and> built cfg 10 s' (vw_db w') \<and>
           set [HealthExporterTask] \<inter> (set (holdings s) \<union> background 9) = {} \<and>
           set (holdings s') \<union> background 10 = set (holdings s) \<union> background 9 \<union> set [HealthExporterTask]
       | Some h \<Rightarrow> s' = s \<and> vw_db w' = vw_db w \<and> vw_log w' = vw_log w \<and> (\<exists>e. h = Failed e \<and> (\<forall>x. e \<noteq> CreateExporter x))"
      using started_loops_props(2) [of cfg] by (auto simp: stage_simps split: option.splits)
  qed simp
qed

lemmas stage_leads = agent_leads injector_leads dcgm_leads store_leads register_leads start_leads workload_leads
  metrics_leads loops_leads exporter_leads

lemma stages_lead: "leads E cfg 0 (stages E cfg) 10"
proof -
  have "leads E cfg 10 (\<lambda>s w. (None, s, w)) 10" by (simp add: leads_def)
  then show ?thesis unfolding stages_def by simp (rule stage_leads leads_and_then | assumption)+
qed

subsection \<open>Stopping\<close>

definition tracked :: "server_resource set \<Rightarrow> server \<Rightarrow> 'r server_world \<Rightarrow> bool" where
  "tracked B s w \<longleftrightarrow> track {} (vw_log w) = Some (set (holdings s) \<union> B) \<and> distinct (holdings s) \<and> set (holdings s) \<inter> B = {} \<and> \<not> sv_stopped s"

lemma distinct_holdings:
  assumes "distinct (sv_loops s)" "set (sv_loops s) \<subseteq> {InventoryLoop, AttestationLoop}" "distinct (registered s)"
  shows "distinct (holdings s)"
  using assms unfolding holdings_def distinct_append by (auto simp: distinct_map inj_on_def)

lemma reached_tracked: "reached cfg k s w \<Longrightarrow> tracked (background k) s w"
proof -
  assume a: "reached cfg k s w"
  then have b: "built cfg k s (vw_db w)" by (rule reached_built)
  then have l: "distinct (sv_loops s)" "set (sv_loops s) \<subseteq> {InventoryLoop, AttestationLoop}" "distinct (registered s)"
    using started_loops_props [of cfg] selected_distinct [of cfg] by (simp_all add: built_def registered_def)
  have "set (holdings s) \<inter> background k = {}" using l(2) by (auto simp: holdings_def background_def)
  with a b distinct_holdings [OF l] show ?thesis by (simp add: tracked_def reached_def built_def)
qed

lemma Stop_tracked:
  assumes "tracked B s w" "ve_loops_exit E" "server_Stop E s w = (s', w')"
  shows "track {} (vw_log w') = Some B" "sv_stopped s'" "vw_log w' = vw_log w @ map Release (holdings s)"
proof -
  have w': "vw_log w' = vw_log w @ map Release (holdings s)" and "sv_stopped s'"
    using assms by (auto simp: tracked_def server_Stop_def Let_def)
  then show "sv_stopped s'" "vw_log w' = vw_log w @ map Release (holdings s)" by simp_all
  show "track {} (vw_log w') = Some B" using assms(1) unfolding w' tracked_def by (intro track_clean) simp_all
qed

lemma Stop_twice: "sv_stopped s \<Longrightarrow> server_Stop E s w = (s, w)"
  by (simp add: server_Stop_def)

lemma tracked_acquire:
  assumes "tracked B s w" "distinct (holdings s')" "r \<notin> set (holdings s) \<union> B" "set (holdings s') = insert r (set (holdings s))" "\<not> sv_stopped s'"
  shows "tracked B s' (logged [Acquire r] w)"
  using assms by (auto simp: tracked_def track_append)

lemma startServer_tracked:
  assumes "startServer E S cfg s w fs = (ServeReturned, s', w', fs')" "tracked B s w" "\<not> sv_srv s" "\<not> sv_listener s"
    "ve_loops_exit E" "B \<inter> {HTTPServer, SocketListener} = {}"
    "distinct (sv_loops s)" "set (sv_loops s) \<subseteq> {InventoryLoop, AttestationLoop}" "distinct (registered s)"
  shows "track {} (vw_log w') = Some B \<and> sv_stopped s'"
proof -
  let ?s1 = "s\<lparr>sv_srv := True\<rparr>" let ?s2 = "?s1\<lparr>sv_listener := True\<rparr>"
  let ?w1 = "logged [Acquire HTTPServer] w" let ?w2 = "logged [Acquire SocketListener] ?w1"
  have reg: "registered ?s1 = registered s" "registered ?s2 = registered s" by (simp_all add: registered_def)
  have n: "\<not> sv_stopped s" using assms(2) by (simp add: tracked_def)
  have t1: "tracked B ?s1 ?w1"
  proof (rule tracked_acquire [OF assms(2)])
    show "distinct (holdings ?s1)" by (rule distinct_holdings) (simp_all add: assms(7-9) reg)
    show "HTTPServer \<notin> set (holdings s) \<union> B" using assms(3,6,8) by (auto simp: holdings_def)
    show "set (holdings ?s1) = insert HTTPServer (set (holdings s))" by (auto simp: holdings_def gpud_has_def registered_def)
  qed (simp add: n)
  have t2: "tracked B ?s2 ?w2"
  proof (rule tracked_acquire [OF t1])
    show "distinct (holdings ?s2)" by (rule distinct_holdings) (simp_all add: assms(7-9) reg)
    show "SocketListener \<notin> set (holdings ?s1) \<union> B" using assms(4,6,8) by (auto simp: holdings_def)
    show "set (holdings ?s2) = insert SocketListener (set (holdings ?s1))" by (auto simp: holdings_def gpud_has_def registered_def)
  qed (simp add: n)
  obtain sa wa where a: "server_Stop E s w = (sa, wa)" by fastforce
  obtain sb wb where b: "server_Stop E ?s1 ?w1 = (sb, wb)" by fastforce
  obtain sc wc where c: "server_Stop E ?s2 ?w2 = (sc, wc)" by fastforce
  note stops = Stop_tracked(1,2) [OF assms(2,5) a] Stop_tracked(1,2) [OF t1 assms(5) b] Stop_tracked(1,2) [OF t2 assms(5) c]
  obtain r fs1 where o: "open_socket S (c_Address cfg) fs = (r, fs1)" by fastforce
  have "(s', w') \<in> {(sa, wa), (sb, wb), (sc, wc)}"
    using assms(1) by (cases r) (auto simp: startServer_def Let_def a b c o split: option.splits if_splits)
  with stops show ?thesis by auto
qed

subsection \<open>The outcome of New\<close>

lemma initializeDatabases_cases:
  assumes "initializeDatabases E cfg w = (r, w1)" "vw_log w = []"
  shows "(\<exists>e. r = Inl e) \<Longrightarrow> track {} (vw_log w1) = Some {}" "r = Inr () \<Longrightarrow> vw_log w1 = [Acquire RWDatabase, Acquire RODatabase]"
    "r \<noteq> Inl (CreateExporter x)"
  using assms by (auto simp: initializeDatabases_def Let_def split: option.splits sum.splits prod.splits)

lemma New_cases:
  assumes "server_New E cfg w = (out, w1)" "vw_log w = []"
  obtains (early) e where "out = NewFailed e" "track {} (vw_log w1) = Some {}" "\<And>x. e \<noteq> CreateExporter x"
  | (failed) e k s w2 where "out = NewFailed e" "reached cfg k s w2" "w1 = snd (server_Stop E s w2)" "\<And>x. e \<noteq> CreateExporter x"
  | (panicked) n e where "out = NewPanicked n e" "ve_init E n = Some e"
  | (started) s where "out = Started s" "reached cfg 10 s w1"
proof (cases "DCGMCollectionIntervals (c_HealthExporter cfg)")
  case (Inl e)
  then show thesis using assms early [of "InvalidDCGMCollection e"] by (auto simp: server_New_def)
next
  case (Inr iv)
  obtain r w0 where i: "initializeDatabases E cfg w = (r, w0)" by fastforce
  note d = initializeDatabases_cases [OF i assms(2)]
  show thesis
  proof (cases r)
    case (Inl e)
    then show thesis using assms(1) i Inr d(1,3) early [of e] by (auto simp: server_New_def)
  next
    case (Inr u)
    let ?w = "logged [Acquire LoopContext] w0"
    have "reached cfg 0 fresh_server ?w"
      using d(2) Inr by (auto simp: reached_def stage_simps fresh_server_def)
    with stages_lead [of E cfg] have l: "case stages E cfg fresh_server ?w of
        (None, s', w') \<Rightarrow> reached cfg 10 s' w'
      | (Some (Failed e), s', w') \<Rightarrow> (\<exists>k. reached cfg k s' w') \<and> (\<forall>x. e \<noteq> CreateExporter x)
      | (Some (Panicked n e), s', w') \<Rightarrow> ve_init E n = Some e" by (simp add: leads_def)
    obtain h s w2 where st: "stages E cfg fresh_server ?w = (h, s, w2)" by (metis prod_cases3)
    show thesis
    proof (cases h)
      case None
      then show thesis using l st i Inr \<open>DCGMCollectionIntervals _ = _\<close> assms(1) started [of s] by (auto simp: server_New_def)
    next
      case (Some x)
      show thesis
      proof (cases x)
        case (Failed e)
        then show thesis using l st i Inr Some \<open>DCGMCollectionIntervals _ = _\<close> assms(1) failed [of e _ s w2] by (auto simp: server_New_def)
      next
        case (Panicked n e)
        then show thesis using st i Inr Some \<open>DCGMCollectionIntervals _ = _\<close> l assms(1) panicked [of n e] by (auto simp: server_New_def)
      qed
    qed
  qed
qed

lemma mkdirAll_only_adds:
  "mkdirAll S ds fs = (m, fs') \<Longrightarrow> fs' q \<noteq> fs q \<Longrightarrow> q \<in> set ds \<and> fs q = None \<and> fs' q = Some Directory"
proof (induction ds arbitrary: fs)
  case (Cons d ds)
  show ?case
  proof (cases "so_mkdir S d")
    case None
    with Cons.prems(1) have "mkdirAll S ds (if fs d = None then fs(d \<mapsto> Directory) else fs) = (m, fs')" by simp
    note ih = Cons.IH [OF this]
    show ?thesis
    proof (cases "q = d \<and> fs d = None")
      case True
      then show ?thesis using ih by fastforce
    next
      case False
      then have "(if fs d = None then fs(d \<mapsto> Directory) else fs) q = fs q" by auto
      then show ?thesis using ih Cons.prems(2) by simp
    qed
  qed (use Cons.prems in simp)
qed simp

section \<open>Properties\<close>

text \<open>
  C7: The server releases what it acquires.  A construction that fails, wherever it fails, releases everything it
  had acquired except the metric tasks that follow the context.  It panics only for a
  component that cannot be initialised.  A server that was started and then stopped, by the end of serving or by a signal, has released every resource exactly once, the databases last, with the same
  exception, and stopping it again does nothing.  (The background loops are taken to end in the time they are
  given.)
\<close>

theorem server_releases_what_it_acquired:
  assumes "server_New E cfg w = (out, w1)" "vw_log w = []" "ve_loops_exit E"
  shows "case out of
      NewFailed e \<Rightarrow> (\<exists>H. track {} (vw_log w1) = Some H \<and> H \<subseteq> {MetricsSyncer, PrometheusRecorder})
    | NewPanicked n e \<Rightarrow> ve_init E n = Some e
    | Started s \<Rightarrow>
        (\<forall>S fs s' w' fs'. startServer E S cfg s w1 fs = (ServeReturned, s', w', fs') \<or> server_Stop E s w1 = (s', w') \<longrightarrow>
           track {} (vw_log w') = Some {MetricsSyncer, PrometheusRecorder} \<and> server_Stop E s' w' = (s', w')) \<and>
        (\<exists>pre. vw_log (snd (server_Stop E s w1)) = pre @ [Release RWDatabase, Release RODatabase])"
  using assms(1,2)
proof (cases rule: New_cases)
  case (early e)
  then show ?thesis by auto
next
  case (failed e k s w2)
  obtain s' w' where st: "server_Stop E s w2 = (s', w')" by fastforce
  from Stop_tracked(1) [OF reached_tracked [OF failed(2)] assms(3) st] failed st show ?thesis
    by (auto simp: background_def)
next
  case (panicked n e)
  then show ?thesis by simp
next
  case (started s)
  note t = reached_tracked [OF started(2)] and b = reached_built [OF started(2)]
  have bg: "background 10 = {MetricsSyncer, PrometheusRecorder}" by (simp add: background_def)
  obtain sa wa where st: "server_Stop E s w1 = (sa, wa)" by fastforce
  note k = Stop_tracked [OF t assms(3) st]
  have "track {} (vw_log w') = Some {MetricsSyncer, PrometheusRecorder} \<and> server_Stop E s' w' = (s', w')"
    if "startServer E S cfg s w1 fs = (ServeReturned, s', w', fs')" for S fs s' w' fs'
    using startServer_tracked [OF that t _ _ assms(3)] b started_loops_props [of cfg] selected_distinct [of cfg]
    by (simp add: bg built_def registered_def Stop_twice)
  moreover have "\<exists>pre. vw_log (snd (server_Stop E s w1)) = pre @ [Release RWDatabase, Release RODatabase]"
    using k(3) b by (simp add: st holdings_def built_def)
  ultimately show ?thesis using k(1) st Stop_twice [OF k(2)] by (auto simp: started(1) bg)
qed

text \<open>A node with one working component and everything else in order.\<close>

definition sample_server_env :: "unit server_env" where
  "sample_server_env = \<lparr>ve_sql = healthy, ve_identity = \<lparr>ie_system_uuid = [], ie_uuid_parse = (\<lambda>s. None), ie_new_uuid = ''u''\<rparr>,
     ve_os = \<lparr>oe_root = True, oe_home = Inr ''/root'', oe_stat_err = (\<lambda>p. None), oe_mkdir_err = (\<lambda>p. None), oe_chmod_err = (\<lambda>p. None)\<rparr>,
     ve_dcgm = Inr [], ve_pci = Inr False, ve_eventstore = None, ve_init = (\<lambda>n. None),
     ve_component = (\<lambda>n. \<lparr>co_Name = n, co_Events = (\<lambda>t. Inr []), co_LastHealthStates = []\<rparr>), ve_start = (\<lambda>n. None),
     ve_registerer = \<lparr>rg_Register = (\<lambda>c r. (Inr (), r)), rg_Unregister = (\<lambda>c r. r)\<rparr>, ve_scraper = None, ve_metricsstore = None,
     ve_metrics = (\<lambda>t. Inr []), ve_now = 0, ve_loops_exit = True\<rparr>"

definition empty_server_world :: "unit server_world" where
  "empty_server_world = \<lparr>vw_db = None, vw_files = Map.empty, vw_prom = (), vw_log = []\<rparr>"

lemma sample_server_starts: "\<exists>s w. server_New sample_server_env (sample_config [''cpu'']) empty_server_world = (Started s, w)"
proof -
  have "case fst (server_New sample_server_env (sample_config [''cpu'']) empty_server_world) of Started s \<Rightarrow> True | _ \<Rightarrow> False"
    by code_simp
  then show ?thesis
    by (cases "server_New sample_server_env (sample_config [''cpu'']) empty_server_world") (auto split: new_outcome.splits)
qed

theorem server_releases_what_it_acquired_witness:
  "\<exists>s w s' w'. server_New sample_server_env (sample_config [''cpu'']) empty_server_world = (Started s, w) \<and>
     server_Stop sample_server_env s w = (s', w') \<and> track {} (vw_log w') = Some {MetricsSyncer, PrometheusRecorder}"
proof -
  obtain s w where n: "server_New sample_server_env (sample_config [''cpu'']) empty_server_world = (Started s, w)"
    using sample_server_starts by blast
  obtain s' w' where st: "server_Stop sample_server_env s w = (s', w')" by fastforce
  have "vw_log empty_server_world = []" "ve_loops_exit sample_server_env"
    by (simp_all add: empty_server_world_def sample_server_env_def)
  from server_releases_what_it_acquired [OF n this] st have "track {} (vw_log w') = Some {MetricsSyncer, PrometheusRecorder}" by simp
  with n st show ?thesis by blast
qed

text \<open>
  C13: The server runs what the configuration says.  A started server has the agent's stored UUID, the fault injector
  and its route exactly when fault injection is enabled, an exporter exactly when one is configured, the loops that
  are enabled, and exactly the selected components; the exporter's construction is never the reason for a failure.
\<close>

theorem server_built_as_configured:
  assumes "server_New E cfg w = (out, w1)" "vw_log w = []"
  shows "(\<forall>e. out \<noteq> NewFailed (CreateExporter e)) \<and>
    (\<forall>s. out = Started s \<longrightarrow> view (vw_db w1) MetadataKeyMachineID = Some (sv_agentUUID s) \<and>
       (sv_faultInjector s \<longleftrightarrow> (''POST'', ''/inject-fault'') \<in> set (server_routes cfg)) \<and>
       (sv_healthExporter s \<noteq> None \<longleftrightarrow> c_HealthExporter cfg \<noteq> None) \<and>
       (InventoryLoop \<in> set (sv_loops s) \<longleftrightarrow> (\<exists>l. c_Inventory cfg = Some l \<and> lc_Enabled l \<and> 0 < lc_Interval l)) \<and>
       (AttestationLoop \<in> set (sv_loops s) \<longleftrightarrow> (\<exists>l. c_Attestation cfg = Some l \<and> lc_Enabled l \<and> 0 < lc_Interval l)) \<and>
       sv_componentsRegistry s = Some (sort (fst (select_components registry_All cfg))))"
proof -
  have i: "inventory_loop cfg \<noteq> None \<longleftrightarrow> (\<exists>l. c_Inventory cfg = Some l \<and> lc_Enabled l \<and> 0 < lc_Interval l)"
    by (auto simp: inventory_loop_def getInventorySyncInterval_def Let_def split: option.splits)
  have a: "attestation_loop cfg \<noteq> None \<longleftrightarrow> (\<exists>l. c_Attestation cfg = Some l \<and> lc_Enabled l \<and> 0 < lc_Interval l)"
    by (auto simp: attestation_loop_def getAttestationInterval_def Let_def split: option.splits)
  have loops: "InventoryLoop \<in> set (started_loops cfg) \<longleftrightarrow> inventory_loop cfg \<noteq> None"
    "AttestationLoop \<in> set (started_loops cfg) \<longleftrightarrow> attestation_loop cfg \<noteq> None"
    by (auto simp: started_loops_def)
  from assms show ?thesis
  proof (cases rule: New_cases)
    case (started s)
    then have "built cfg 10 s (vw_db w1)" by (simp add: reached_def)
    then show ?thesis unfolding started(1) loops(1) [unfolded i, symmetric] loops(2) [unfolded a, symmetric]
      by (simp add: built_def server_routes_def del: not_None_eq)
  qed auto
qed

theorem server_built_as_configured_witness:
  "\<exists>s w. server_New sample_server_env (sample_config [''cpu'']) empty_server_world = (Started s, w) \<and>
     sv_componentsRegistry s = Some [''cpu''] \<and> sv_healthExporter s = None"
proof -
  obtain s w where n: "server_New sample_server_env (sample_config [''cpu'']) empty_server_world = (Started s, w)"
    using sample_server_starts by blast
  have "sort (fst (select_components registry_All (sample_config [''cpu'']))) = [''cpu'']" by code_simp
  with server_built_as_configured [OF n] have "sv_componentsRegistry s = Some [''cpu'']" "sv_healthExporter s = None"
    by (auto simp: empty_server_world_def sample_config_def)
  with n show ?thesis by blast
qed

text \<open>
  A validated configuration paces the loops.  Under a configuration that passes its check, each loop runs exactly
  when it is enabled, at intervals of at least five minutes, with a timeout of one minute, retries after five
  minutes, and a startup jitter of one minute; the inventory reports the interval it runs at.
\<close>

theorem validated_loops_paced:
  assumes "Config_Validate L cfg = Ok ()"
  shows "(inventory_loop cfg \<noteq> None \<longleftrightarrow> loop_GetEnabled (c_Inventory cfg)) \<and> (attestation_loop cfg \<noteq> None \<longleftrightarrow> loop_GetEnabled (c_Attestation cfg)) \<and>
    (\<forall>a lc. inventory_loop cfg = Some (a, lc) \<longrightarrow> 5 * time_Minute \<le> il_Interval lc \<and> il_Timeout lc = time_Minute \<and>
       il_RetryInterval lc = 5 * time_Minute \<and> il_StartupJitter lc = time_Minute \<and> ia_InventoryEnabled a \<and> ia_InventoryIntervalSeconds a = whole_seconds (il_Interval lc)) \<and>
    (\<forall>ac. attestation_loop cfg = Some ac \<longrightarrow> 5 * time_Minute \<le> at_Interval ac \<and> at_Timeout ac = time_Minute \<and> at_RetryInterval ac = 5 * time_Minute \<and>
       at_StartupJitter ac = time_Minute)"
proof -
  have ok: "loop_ok (5 * time_Minute) (c_Inventory cfg)" "loop_ok (5 * time_Minute) (c_Attestation cfg)"
    using assms by (simp_all add: Config_Validate_iff config_ok_def)
  have pos: "0 < time_Minute" by (simp add: time_Minute_def)
  show ?thesis using ok pos
    by (auto simp: inventory_loop_def attestation_loop_def getInventorySyncInterval_def getInventorySyncTimeout_def getAttestationInterval_def
        getAttestationTimeout_def DefaultInventoryTimeout_def DefaultAttestationTimeout_def loop_retry_def loop_jitter_def loop_GetEnabled_def loop_ok_def
        inventory_agent_config_def InventoryLoopAgentConfig_def loop_GetInterval_def Let_def split: option.splits if_splits prod.splits)
qed

theorem validated_loops_paced_witness:
  "\<exists>a lc. inventory_loop ((sample_config [])\<lparr>c_Inventory := Some \<lparr>lc_Enabled = True, lc_Interval = time_Hour\<rparr>\<rparr>) = Some (a, lc) \<and>
     il_Timeout lc = time_Minute"
proof -
  let ?c = "(sample_config [])\<lparr>c_Inventory := Some \<lparr>lc_Enabled = True, lc_Interval = time_Hour\<rparr>\<rparr>"
  have "Config_Validate plain_netlib ?c = Ok ()"
    by (simp add: Config_Validate_iff config_ok_def workload_ok_def loop_ok_def isOfflineMode_def sample_config_def duration_defs)
  from validated_loops_paced [OF this] show ?thesis by (auto simp: loop_GetEnabled_def)
qed

text \<open>
  C20: Taking over the socket is safe.  Opening the Unix socket never removes anything but a socket, and that only
  when no process answered on it; a file, a directory or a symbolic link in its place is left as it is and the server
  does not start.  Nothing else changes but that missing directories of the socket are made.  When the server
  listens, the socket is its own and only the owner may connect.
\<close>

theorem socket_takeover_safe:
  assumes "open_socket S p fs = (r, fs')"
  shows "(r = Ok () \<longrightarrow> \<not> so_dial S \<and> fs' p = Some (Socket True 384)) \<and>
    (fs' p \<noteq> fs p \<longrightarrow> \<not> so_dial S \<and> (fs p = None \<or> (\<exists>l m. fs p = Some (Socket l m)))) \<and>
    (fs p \<in> {Some RegularFile, Some Directory, Some Symlink} \<longrightarrow> r \<noteq> Ok () \<and> fs' = fs) \<and>
    (\<forall>q. q \<noteq> p \<and> fs' q \<noteq> fs q \<longrightarrow> q \<in> set (dirs_of (socket_dir p)) \<and> fs q = None \<and> fs' q = Some Directory)"
proof (cases "so_dial S")
  case True
  then show ?thesis using assms by (auto simp: open_socket_def)
next
  case False
  obtain r1 fs1 where rm: "removeStaleSocket S p fs = (r1, fs1)" by fastforce
  obtain m fs2 where mk: "mkdirAll S (dirs_of (socket_dir p)) fs1 = (m, fs2)" by fastforce
  note d = mkdirAll_only_adds [OF mk]
  have l: "r1 = Ok () \<Longrightarrow> m = None \<Longrightarrow> fs' = fs2 \<or> fs' = fs2(p \<mapsto> Socket True 384)"
    "r1 = Ok () \<Longrightarrow> m \<noteq> None \<Longrightarrow> fs' = fs2" "r1 \<noteq> Ok () \<Longrightarrow> fs' = fs1 \<and> r \<noteq> Ok ()"
    "r = Ok () \<Longrightarrow> r1 = Ok () \<and> fs' p = Some (Socket True 384)"
    using assms rm mk False by (auto simp: open_socket_def split: sum.splits option.splits if_splits)
  have rm1: "fs1 q \<noteq> fs q \<Longrightarrow> q = p \<and> (\<exists>b k. fs p = Some (Socket b k))" "fs p \<in> {Some RegularFile, Some Directory, Some Symlink} \<Longrightarrow> r1 \<noteq> Ok () \<and> fs1 = fs" for q
    using rm by (auto simp: removeStaleSocket_def split: option.splits sock_node.splits if_splits)
  have "r1 = Ok () \<Longrightarrow> fs p = None \<or> (\<exists>b k. fs p = Some (Socket b k))"
    using rm by (auto simp: removeStaleSocket_def split: option.splits sock_node.splits)
  then have p: "fs' p \<noteq> fs p \<Longrightarrow> fs p = None \<or> (\<exists>b k. fs p = Some (Socket b k))"
    using l(3) rm1(1) [of p] by (cases "r1 = Ok ()") simp_all
  have q: "q \<in> set (dirs_of (socket_dir p)) \<and> fs q = None \<and> fs' q = Some Directory" if "q \<noteq> p" "fs' q \<noteq> fs q" for q
  proof -
    have "fs1 q = fs q" using rm1(1) [of q] that(1) by blast
    moreover have "fs' q = fs2 q \<or> fs' q = fs1 q" using l(1-3) that(1) by (cases "r1 = Ok ()"; cases m) auto
    ultimately show ?thesis using d [of q] that(2) by auto
  qed
  show ?thesis using False l(3,4) rm1(2) p q by blast
qed

theorem socket_takeover_safe_witness:
  "\<exists>fs'. open_socket \<lparr>so_dial = False, so_lstat = None, so_remove = None, so_mkdir = (\<lambda>d. None), so_listen = None, so_chmod = None, so_serve = None\<rparr>
     DefaultUnixSocketPath [DefaultUnixSocketPath \<mapsto> Socket False 511] = (Ok (), fs') \<and> fs' DefaultUnixSocketPath = Some (Socket True 384)"
proof -
  let ?S = "\<lparr>so_dial = False, so_lstat = None, so_remove = None, so_mkdir = (\<lambda>d. None), so_listen = None, so_chmod = None, so_serve = None\<rparr>"
  let ?fs = "[DefaultUnixSocketPath \<mapsto> Socket False 511]"
  obtain r fs' where o: "open_socket ?S DefaultUnixSocketPath ?fs = (r, fs')" by fastforce
  have d: "dirs_of (socket_dir DefaultUnixSocketPath) = [''/run'', ''/run/fleetint'']" "DefaultUnixSocketPath \<notin> {''/run'', ''/run/fleetint''}" by code_simp+
  have "r = Ok ()" using o d by (auto simp: open_socket_def removeStaleSocket_def split: if_splits)
  with socket_takeover_safe [OF o] o show ?thesis by blast
qed

end
