(* ===== verification/Scan.thy ===== *)
theory Scan
  imports Lifecycle Component_Registry Machine_Info
begin

text \<open>
  The one-shot scan of a host (\<open>internal/scan/scan.go\<close>) and its command (\<open>cmd/fleetint/scan.go\<close>): every component of
  the table is initialised, the supported ones are checked once, and everything is released by the deferred
  function.  \<open>'p\<close> is the type of the expected InfiniBand port states, a package variable of the SDK that the command
  and the scan set, and \<open>'f\<close> that of the failure injector, which is only handed to the components.
\<close>

section \<open>Model\<close>

datatype scan_resource = ScanDCGM | ScanHealthCache | ScanFieldCache | ScanComponent string

text \<open>What a scan decides of the \<open>GPUdInstance\<close> its components are made with.\<close>

record 'f scan_instance =
  si_GPUHardwarePresent :: bool
  si_InfinibandClassRootDir :: string
  si_FailureInjector :: "'f option"

text \<open>
  The outcomes of the calls: \<open>sn_ports\<close> gives the port states of a product the SDK knows, \<open>sn_check\<close> the result of
  a check under the port states in force (whether healthy, its summary and its text).
\<close>

record ('p, 'f) scan_env =
  sn_dcgm :: "(string, string list) result"
  sn_ports :: "string \<Rightarrow> 'p option"
  sn_pci :: "(string, bool) result"
  sn_init :: "'f scan_instance \<Rightarrow> string \<Rightarrow> string option"
  sn_supported :: "'f scan_instance \<Rightarrow> string \<Rightarrow> bool"
  sn_machine :: "(string, machine_info) result"
  sn_check :: "'f scan_instance \<Rightarrow> 'p option \<Rightarrow> string \<Rightarrow> bool \<times> string \<times> string"

text \<open>The options are applied in order; a blank directory is replaced by the default.\<close>

datatype 'f scan_option = WithInfinibandClassRootDir string | WithFailureInjector "'f option" | WithDebug bool

record 'f scan_op =
  op_infinibandClassRootDir :: string
  op_debug :: bool
  op_failureInjector :: "'f option"

fun scan_option_apply :: "'f scan_option \<Rightarrow> 'f scan_op \<Rightarrow> 'f scan_op" where
  "scan_option_apply (WithInfinibandClassRootDir p) o1 = o1\<lparr>op_infinibandClassRootDir := p\<rparr>"
| "scan_option_apply (WithFailureInjector f) o1 = o1\<lparr>op_failureInjector := f\<rparr>"
| "scan_option_apply (WithDebug b) o1 = o1\<lparr>op_debug := b\<rparr>"

definition scan_applyOpts :: "'f scan_option list \<Rightarrow> 'f scan_op" where
  "scan_applyOpts opts =
     (let o1 = fold scan_option_apply opts \<lparr>op_infinibandClassRootDir = [], op_debug = False, op_failureInjector = None\<rparr>
      in if op_infinibandClassRootDir o1 = [] then o1\<lparr>op_infinibandClassRootDir := DefaultRootDir\<rparr> else o1)"

datatype scan_line = MachineTable machine_info | HealthySummary string string | WarningSummary string string

definition printSummary :: "bool \<times> string \<times> string \<Rightarrow> scan_line" where
  "printSummary result = (case result of (healthy, summary, txt) \<Rightarrow>
     if healthy then HealthySummary summary txt else WarningSummary summary txt)"

text \<open>Initialising the components: those created, those supported, and the error that ended the loop.\<close>

fun scan_init :: "('p, 'f) scan_env \<Rightarrow> 'f scan_instance \<Rightarrow> string list \<Rightarrow> string list \<times> string list \<times> string option" where
  "scan_init E g [] = ([], [], None)"
| "scan_init E g (n # ns) = (case sn_init E g n of
      Some e \<Rightarrow> ([], [], Some e)
    | None \<Rightarrow> (case scan_init E g ns of (created, supported, err) \<Rightarrow>
        (n # created, if sn_supported E g n then n # supported else supported, err)))"

text \<open>
  Polls and watches only log their failures.  The result has the error, the port states in force, the log and the output.
\<close>

record 'p scan_result =
  sr_error :: "string option"
  sr_ports :: "'p option"
  sr_log :: "scan_resource life list"
  sr_output :: "scan_line list"

definition scan_ports :: "('p, 'f) scan_env \<Rightarrow> string list \<Rightarrow> 'p option \<Rightarrow> 'p option" where
  "scan_ports E devices ports = (case devices of
      [] \<Rightarrow> ports
    | product # _ \<Rightarrow> (case sn_ports E product of None \<Rightarrow> ports | Some threshold \<Rightarrow> Some threshold))"

definition scan_gpud :: "('p, 'f) scan_env \<Rightarrow> 'f scan_op \<Rightarrow> string list \<Rightarrow> 'f scan_instance" where
  "scan_gpud E op devices =
     \<lparr>si_GPUHardwarePresent = (if devices = [] then (case sn_pci E of Inl _ \<Rightarrow> False | Inr detected \<Rightarrow> detected) else True),
      si_InfinibandClassRootDir = op_infinibandClassRootDir op, si_FailureInjector = op_failureInjector op\<rparr>"

definition Scan :: "('p, 'f) scan_env \<Rightarrow> 'f scan_option list \<Rightarrow> 'p option \<Rightarrow> 'p scan_result" where
  "Scan E opts ports = (case sn_dcgm E of
      Inl e \<Rightarrow> \<lparr>sr_error = Some e, sr_ports = ports, sr_log = [], sr_output = []\<rparr>
    | Inr devices \<Rightarrow>
        (let g = scan_gpud E (scan_applyOpts opts) devices; ports1 = scan_ports E devices ports in
         case scan_init E g AllComponentNames of (created, supported, err) \<Rightarrow>
         (let log = [Acquire ScanDCGM, Acquire ScanHealthCache, Acquire ScanFieldCache] @ map (Acquire \<circ> ScanComponent) created @
                [Release ScanHealthCache, Release ScanFieldCache] @ map (Release \<circ> ScanComponent) (rev created) @ [Release ScanDCGM];
              result = (\<lambda>e out. \<lparr>sr_error = e, sr_ports = ports1, sr_log = log, sr_output = out\<rparr>)
          in case err of
               Some e \<Rightarrow> result (Some e) []
             | None \<Rightarrow> (case sn_machine E of
                 Inl e \<Rightarrow> result (Some e) []
               | Inr mi \<Rightarrow> result None (MachineTable mi # map (\<lambda>n. printSummary (sn_check E g ports1 n)) supported)))))"

text \<open>
  The command: \<open>level\<close> is the parsed log level, whether it is at most debug, and \<open>parse\<close> decodes the expected port
  states.  Without an error before the scan, it returns what the scan returns.
\<close>

definition cmdScan :: "('p, 'f) scan_env \<Rightarrow> (string, bool) result \<Rightarrow> (string \<Rightarrow> (string, 'p) result) \<Rightarrow> string \<Rightarrow> string \<Rightarrow> 'p option
    \<Rightarrow> (string, 'p scan_result) result" where
  "cmdScan E level parse portStates ibClassRootDir ports = (case level of
      Inl e \<Rightarrow> Error e
    | Inr debug \<Rightarrow>
        (case (if portStates \<noteq> [] then map_sum (\<lambda>e. e) Some (parse portStates) else Ok ports) of
           Inl e \<Rightarrow> Error e
         | Inr ports1 \<Rightarrow>
             Ok (Scan E ([WithInfinibandClassRootDir ibClassRootDir] @ (if debug then [WithDebug True] else [])) ports1)))"

section \<open>Lemmas\<close>

lemma scan_init_spec:
  assumes "scan_init E g ns = (created, supported, err)"
  shows "\<exists>rest. ns = created @ rest \<and> list_all (\<lambda>n. sn_init E g n = None) created \<and> supported = filter (sn_supported E g) created \<and>
    (err = None \<longrightarrow> rest = []) \<and> (\<forall>e. err = Some e \<longrightarrow> rest \<noteq> [] \<and> sn_init E g (hd rest) = Some e)"
  using assms
proof (induction ns arbitrary: created supported err)
  case (Cons n ns)
  show ?case
  proof (cases "sn_init E g n")
    case None
    obtain c s e where i: "scan_init E g ns = (c, s, e)" by (metis prod_cases3)
    from Cons.IH [OF i] Cons.prems None i show ?thesis by auto
  next
    case (Some e)
    with Cons.prems have "created = []" "supported = []" "err = Some e" by auto
    with Some show ?thesis by simp
  qed
qed simp

section \<open>Properties\<close>

text \<open>
  A scan leaves nothing behind.  On every path what a scan acquires it releases exactly once, the DCGM instance
  last; it reports either an error or the check of every supported component of the table, in its order.
\<close>

theorem scan_leaves_nothing_behind:
  "track {} (sr_log (Scan E opts ports)) = Some {} \<and> (sr_log (Scan E opts ports) = [] \<or> last (sr_log (Scan E opts ports)) = Release ScanDCGM) \<and>
   (sr_error (Scan E opts ports) = None \<longleftrightarrow> is_ok (sn_dcgm E) \<and> is_ok (sn_machine E) \<and>
      list_all (\<lambda>n. sn_init E (scan_gpud E (scan_applyOpts opts) (projr (sn_dcgm E))) n = None) AllComponentNames) \<and>
   (sr_error (Scan E opts ports) = None \<longrightarrow>
      (let g = scan_gpud E (scan_applyOpts opts) (projr (sn_dcgm E)) in
       tl (sr_output (Scan E opts ports)) =
         map (\<lambda>n. printSummary (sn_check E g (sr_ports (Scan E opts ports)) n)) (filter (sn_supported E g) AllComponentNames)))"
proof (cases "sn_dcgm E")
  case (Inl e)
  then show ?thesis by (simp add: Scan_def)
next
  case (Inr devices)
  let ?g = "scan_gpud E (scan_applyOpts opts) devices"
  obtain created supported err where i: "scan_init E ?g AllComponentNames = (created, supported, err)" by (metis prod_cases3)
  from scan_init_spec [OF i] obtain rest where r: "AllComponentNames = created @ rest" "list_all (\<lambda>n. sn_init E ?g n = None) created" "supported = filter (sn_supported E ?g) created"
    "err = None \<longrightarrow> rest = []" "\<forall>e. err = Some e \<longrightarrow> rest \<noteq> [] \<and> sn_init E ?g (hd rest) = Some e" by blast
  have d: "distinct created" using component_names_distinct by (simp add: AllComponentNames_eq [symmetric] r(1))
  let ?cs = "map ScanComponent created"
  let ?log = "[Acquire ScanDCGM, Acquire ScanHealthCache, Acquire ScanFieldCache] @ map (Acquire \<circ> ScanComponent) created @
    [Release ScanHealthCache, Release ScanFieldCache] @ map (Release \<circ> ScanComponent) (rev created) @ [Release ScanDCGM]"
  have log: "sr_log (Scan E opts ports) = ?log" using Inr i by (auto simp: Scan_def Let_def split: option.splits sum.splits)
  have dc: "distinct ?cs" using d by (simp add: distinct_map inj_on_def)
  have a: "track {ScanFieldCache, ScanHealthCache, ScanDCGM} (map (Acquire \<circ> ScanComponent) created) =
      Some ({ScanFieldCache, ScanHealthCache, ScanDCGM} \<union> set ?cs)"
    using track_acquires [OF dc, of "{ScanFieldCache, ScanHealthCache, ScanDCGM}"] by auto
  have "track ({ScanDCGM} \<union> set ?cs) (map Release (map ScanComponent (rev created))) = Some {ScanDCGM}"
    by (subst track_releases) (use dc in \<open>auto simp: distinct_map\<close>)
  then have b: "track ({ScanDCGM} \<union> set ?cs) (map (Release \<circ> ScanComponent) (rev created)) = Some {ScanDCGM}" by simp
  have c: "{ScanFieldCache, ScanHealthCache, ScanDCGM} \<union> set ?cs - {ScanHealthCache} - {ScanFieldCache} = {ScanDCGM} \<union> set ?cs" by auto
  have e: "track ({ScanFieldCache, ScanHealthCache, ScanDCGM} \<union> set ?cs) ([Release ScanHealthCache, Release ScanFieldCache] @ ev) =
      track ({ScanDCGM} \<union> set ?cs) ev" for ev by (simp only: append.simps track.simps c) simp
  have "track {} [Acquire ScanDCGM, Acquire ScanHealthCache, Acquire ScanFieldCache] = Some {ScanFieldCache, ScanHealthCache, ScanDCGM}" by simp
  then have "track {} ?log = Some {}" by (simp only: track_appendI a b e) simp
  then have t: "track {} (sr_log (Scan E opts ports)) = Some {} \<and> last (sr_log (Scan E opts ports)) = Release ScanDCGM" by (simp only: log) simp
  have ok: "list_all (\<lambda>n. sn_init E ?g n = None) AllComponentNames \<longleftrightarrow> err = None"
    using r(2,4,5) by (cases rest) (auto simp: r(1) simp del: not_None_eq)
  have e: "sr_error (Scan E opts ports) = (case err of Some e \<Rightarrow> Some e | None \<Rightarrow> (case sn_machine E of Inl e \<Rightarrow> Some e | Inr _ \<Rightarrow> None))"
    "err = None \<Longrightarrow> sn_machine E = Inr mi \<Longrightarrow> sr_output (Scan E opts ports) = MachineTable mi # map (\<lambda>n. printSummary (sn_check E ?g (sr_ports (Scan E opts ports)) n)) supported" for mi
    using Inr i by (simp_all add: Scan_def Let_def split: option.splits sum.splits)
  show ?thesis using t ok e r(1,3,4) Inr by (cases err; cases "sn_machine E"; simp)
qed

definition sample_scan_machine :: machine_info where
  "sample_scan_machine = \<lparr>mi_GPUDriverVersion = ''580'', mi_CUDAVersion = ''13'', mi_ContainerRuntimeVersion = [], mi_KernelVersion = ''6.8'',
     mi_OSImage = [], mi_OperatingSystem = ''linux'', mi_SystemUUID = ''u'', mi_MachineID = ''m'', mi_BootID = ''b'', mi_Hostname = ''h'',
     mi_Uptime = \<lparr>t_nanos = 0, t_utc = True\<rparr>, mi_CPUInfo = None, mi_MemoryInfo = None, mi_GPUInfo = None, mi_DiskInfo = None, mi_NICInfo = None,
     mi_AgentVersion = ''1'', mi_DCGMVersion = ''4''\<rparr>"

definition sample_scan_env :: "(nat, unit) scan_env" where
  "sample_scan_env = \<lparr>sn_dcgm = Inr [''h100''], sn_ports = (\<lambda>p. if p = ''h100'' then Some 8 else None), sn_pci = Inr True,
     sn_init = (\<lambda>g n. None), sn_supported = (\<lambda>g n. n = ''disk''), sn_machine = Inr sample_scan_machine,
     sn_check = (\<lambda>g ports n. (ports = Some 8, n, n))\<rparr>"

theorem scan_leaves_nothing_behind_witness:
  "sr_error (Scan sample_scan_env [] None) = None \<and> track {} (sr_log (Scan sample_scan_env [] None)) = Some {} \<and>
   (\<exists>l. tl (sr_output (Scan sample_scan_env [] None)) = [l])"
proof -
  note s = scan_leaves_nothing_behind [of sample_scan_env "[]" None]
  have e: "sr_error (Scan sample_scan_env [] None) = None" using s by (simp add: sample_scan_env_def list_all_iff)
  have "filter (sn_supported sample_scan_env g) AllComponentNames = [''disk'']" for g
    by (simp add: sample_scan_env_def AllComponentNames_eq component_names_def)
  with s e show ?thesis by (simp add: Let_def)
qed

text \<open>
  The flag for the expected InfiniBand ports is overridden.  On a host whose first GPU is a product the SDK has
  port states for, the scan sets these after the command has set the ones the operator gave, so that the checks
  never see the flag.
\<close>

theorem scan_overrides_port_flag:
  assumes "sn_dcgm E = Ok (product # devices)" "sn_ports E product = Some known" "cmdScan E level parse flag dir ports = Ok r"
  shows "sr_ports r = Some known"
  using assms by (auto simp: cmdScan_def Scan_def scan_ports_def Let_def split: sum.splits option.splits if_splits prod.splits)

theorem scan_overrides_port_flag_witness:
  "\<exists>r. cmdScan sample_scan_env (Inr False) (\<lambda>s. Inr 2) ''ports'' [] None = Ok r \<and> sr_ports r = Some 8"
proof -
  obtain r where c: "cmdScan sample_scan_env (Inr False) (\<lambda>s. Inr 2) ''ports'' [] None = Ok r"
    by (simp add: cmdScan_def)
  have "sn_dcgm sample_scan_env = Ok [''h100'']" "sn_ports sample_scan_env ''h100'' = Some 8" by (simp_all add: sample_scan_env_def)
  from scan_overrides_port_flag [OF this c] c show ?thesis by blast
qed

end
