(* ===== verification/Commands.thy ===== *)
theory Commands
  imports Lifecycle Enrollment
begin

text \<open>
  The commands \<open>status\<close>, \<open>compact\<close>, \<open>machine-info\<close> and \<open>metadata\<close> (\<open>cmd/fleetint/status.go\<close>, \<open>compact.go\<close>,
  \<open>machine_info.go\<close>, \<open>metadata.go\<close>).  Each
  returns its error with what it printed; \<open>compact\<close> and \<open>machine-info\<close> also return the log of the databases they open.
  What they ask of the system is a record of outcomes.
\<close>

definition DefaultHealthPort :: nat where "DefaultHealthPort = 15133"

section \<open>Status\<close>

record enrollment_status =
  es_baseURL :: string
  es_metricsEndpoint :: string
  es_logsEndpoint :: string

datatype status_error =
    StatusLogLevel string
  | StatusServerURL endpoint_error
  | StatusStateFile string
  | StatusPermission
  | StatusOpen string
  | StatusReadBaseURL sql_error
  | StatusMetricsEndpoint
  | StatusLogsEndpoint
  | StatusReadLegacy string sql_error
  | StatusService string
  | StatusProcess string
  | StatusHealthURL
  | StatusConnect string
  | StatusCode nat

definition sql_error_text :: "sql_error \<Rightarrow> string" where
  "sql_error_text e = (case e of
      ErrNoRows \<Rightarrow> ''sql: no rows in result set''
    | SqlFault (Sqlite3Error _ msg) \<Rightarrow> msg
    | SqlFault (OtherSqlError msg) \<Rightarrow> msg)"

definition isMissingMetadata :: "sql_error \<Rightarrow> bool" where
  "isMissingMetadata e \<longleftrightarrow> e = ErrNoRows \<or> Contains (ToLower (sql_error_text e)) ''no such table''"

definition readLegacyEndpoint :: "sqlite_env \<Rightarrow> database \<Rightarrow> string \<Rightarrow> (status_error, string) result" where
  "readLegacyEndpoint E db key = (case ReadMetadata E db key of
      Inl e \<Rightarrow> if isMissingMetadata e then Ok [] else Error (StatusReadLegacy key e)
    | Inr v \<Rightarrow> Ok v)"

definition legacy_status :: "sqlite_env \<Rightarrow> database \<Rightarrow> (status_error, enrollment_status) result" where
  "legacy_status E db = (case readLegacyEndpoint E db ''metrics_endpoint'' of
      Inl e \<Rightarrow> Error e
    | Inr m \<Rightarrow> (case readLegacyEndpoint E db ''logs_endpoint'' of
        Inl e \<Rightarrow> Error e
      | Inr l \<Rightarrow> Ok \<lparr>es_baseURL = [], es_metricsEndpoint = m, es_logsEndpoint = l\<rparr>))"

definition readEnrollmentStatus :: "netlib \<Rightarrow> sqlite_env \<Rightarrow> database \<Rightarrow> (status_error, enrollment_status) result" where
  "readEnrollmentStatus L E db =
     (case (case ReadMetadata E db MetadataKeyBackendBaseURL of
              Inl e \<Rightarrow> if isMissingMetadata e then Ok [] else Error (StatusReadBaseURL e)
            | Inr v \<Rightarrow> Ok v) of
        Inl e \<Rightarrow> Error e
      | Inr baseURL \<Rightarrow>
          if baseURL = [] then legacy_status E db
          else (case ValidateBackendEndpoint L baseURL of
              Inl _ \<Rightarrow> legacy_status E db
            | Inr validated \<Rightarrow>
                (case JoinPath L validated [''api'', ''v1'', ''health'', ''metrics''] of
                   None \<Rightarrow> Error StatusMetricsEndpoint
                 | Some m \<Rightarrow> (case JoinPath L validated [''api'', ''v1'', ''health'', ''logs''] of
                     None \<Rightarrow> Error StatusLogsEndpoint
                   | Some l \<Rightarrow> Ok \<lparr>es_baseURL = baseURL, es_metricsEndpoint = m, es_logsEndpoint = l\<rparr>))))"

text \<open>
  What \<open>status\<close> asks: whether the state file may be read, the service manager (\<^const>\<open>None\<close> without \<open>systemctl\<close>), the
  process list, and the local API, whose answer is a status code.
\<close>

record status_env =
  sx_level :: "(string, unit) result"
  sx_net :: netlib
  sx_state :: "(string, string) result"
  sx_denied :: bool
  sx_sql :: sqlite_env
  sx_service :: "(string, bool) result option"
  sx_process :: "(string, int option) result"
  sx_get :: "agent_client \<Rightarrow> string \<Rightarrow> (string, nat) result"

datatype status_line =
    EnrolledLine string string
  | NotEnrolledLine
  | ServiceLine bool
  | NoProcessLine
  | ProcessLine int
  | CheckedLine
  | HealthyLine

definition enrolled_line :: "enrollment_status \<Rightarrow> status_line" where
  "enrolled_line st =
     (if es_baseURL st \<noteq> [] \<or> es_metricsEndpoint st \<noteq> [] \<or> es_logsEndpoint st \<noteq> []
      then EnrolledLine (es_metricsEndpoint st) (es_logsEndpoint st) else NotEnrolledLine)"

text \<open>The health check, with the TCP address of earlier versions when the socket cannot be reached.\<close>

definition health_get :: "status_env \<Rightarrow> url \<Rightarrow> (status_error, (string, nat) result) result" where
  "health_get X u = (case JoinPath (sx_net X) (AgentBaseURL u) [''healthz''] of
      None \<Rightarrow> Error StatusHealthURL
    | Some healthURL \<Rightarrow> Ok (case sx_get X (NewAgentHTTPClient u) healthURL of
        Inr code \<Rightarrow> Inr code
      | Inl e \<Rightarrow>
          if u_scheme u \<noteq> ''unix'' then Inl e
          else (case ValidateLocalServerURL (sx_net X) (''http://localhost:'' @ FormatNat DefaultHealthPort) of
              Inl _ \<Rightarrow> Inl e
            | Inr tcp \<Rightarrow> sx_get X (NewAgentHTTPClient tcp)
                (case JoinPath (sx_net X) (AgentBaseURL tcp) [''healthz''] of None \<Rightarrow> [] | Some v \<Rightarrow> v))))"

definition health_status :: "status_env \<Rightarrow> url \<Rightarrow> status_line list \<Rightarrow> (status_error, unit) result \<times> status_line list" where
  "health_status X u out = (case health_get X u of
      Inl e \<Rightarrow> (Error e, out)
    | Inr (Inl e) \<Rightarrow> (Error (StatusConnect e), out)
    | Inr (Inr code) \<Rightarrow> if code \<noteq> 200 then (Error (StatusCode code), out) else (Ok (), out @ [HealthyLine]))"

definition process_status :: "status_env \<Rightarrow> url \<Rightarrow> bool \<Rightarrow> status_line list \<Rightarrow> (status_error, unit) result \<times> status_line list" where
  "process_status X u active out =
     (if active then health_status X u (out @ [CheckedLine])
      else case sx_process X of
        Inl e \<Rightarrow> (Error (StatusProcess e), out)
      | Inr None \<Rightarrow> (Ok (), out @ [NoProcessLine])
      | Inr (Some pid) \<Rightarrow> health_status X u (out @ [ProcessLine pid, CheckedLine]))"

definition statusCommand :: "status_env \<Rightarrow> string \<Rightarrow> database \<Rightarrow> (status_error, unit) result \<times> status_line list" where
  "statusCommand X serverURL db = (case sx_level X of
      Inl e \<Rightarrow> (Error (StatusLogLevel e), [])
    | Inr _ \<Rightarrow> (case ValidateLocalServerURL (sx_net X) serverURL of
        Inl e \<Rightarrow> (Error (StatusServerURL e), [])
      | Inr u \<Rightarrow> (case sx_state X of
          Inl e \<Rightarrow> (Error (StatusStateFile e), [])
        | Inr _ \<Rightarrow>
            if sx_denied X then (Error StatusPermission, [])
            else (case se_open_ro (sx_sql X) of
                Some e \<Rightarrow> (Error (StatusOpen e), [])
              | None \<Rightarrow> (case readEnrollmentStatus (sx_net X) (sx_sql X) db of
                  Inl e \<Rightarrow> (Error e, [])
                | Inr st \<Rightarrow> (case sx_service X of
                    None \<Rightarrow> process_status X u False [enrolled_line st]
                  | Some (Inl e) \<Rightarrow> (Error (StatusService e), [enrolled_line st])
                  | Some (Inr active) \<Rightarrow> process_status X u active [enrolled_line st, ServiceLine active]))))))"

section \<open>Compact\<close>

datatype compact_resource = CompactRW | CompactRO

datatype compact_error =
    CompactLogLevel string
  | CompactService string
  | ServiceRunning
  | SocketRunning
  | PortRunning
  | CompactStateFile string
  | CompactPermission
  | CompactOpen string
  | CompactReadSize string
  | CompactFailed string
  | CompactSecure fs_error

record compact_env =
  cx_level :: "(string, unit) result"
  cx_service :: "(string, bool) result option"
  cx_dial :: bool
  cx_port :: bool
  cx_state :: "(string, string) result"
  cx_denied :: bool
  cx_open_rw :: "string option"
  cx_open_ro :: "string option"
  cx_size_before :: "string option"
  cx_compact :: "string option"
  cx_size_after :: "string option"
  cx_os :: os_env

text \<open>The probes before the database is touched.\<close>

definition daemon_probes :: "compact_env \<Rightarrow> compact_error option" where
  "daemon_probes X = (case cx_service X of
      Some (Inl e) \<Rightarrow> Some (CompactService e)
    | Some (Inr True) \<Rightarrow> Some ServiceRunning
    | _ \<Rightarrow> if cx_dial X then Some SocketRunning else if cx_port X then Some PortRunning else None)"

text \<open>The result, whether the database was compacted, the log of the databases, and the files.\<close>

definition compact_open :: "compact_env \<Rightarrow> string \<Rightarrow> files \<Rightarrow> (compact_error, unit) result \<times> bool \<times> files" where
  "compact_open X stateFile fs = (case cx_size_before X of
      Some e \<Rightarrow> (Error (CompactReadSize e), False, fs)
    | None \<Rightarrow> (case cx_compact X of
        Some e \<Rightarrow> (Error (CompactFailed e), False, fs)
      | None \<Rightarrow> (case SecureStateFilePermissions (cx_os X) stateFile fs of
          (Inl e, fs1) \<Rightarrow> (Error (CompactSecure e), True, fs1)
        | (Inr _, fs1) \<Rightarrow> (case cx_size_after X of
            Some e \<Rightarrow> (Error (CompactReadSize e), True, fs1)
          | None \<Rightarrow> (Ok (), True, fs1)))))"

definition compactCommand :: "compact_env \<Rightarrow> files \<Rightarrow> (compact_error, unit) result \<times> bool \<times> compact_resource life list \<times> files" where
  "compactCommand X fs = (case cx_level X of
      Inl e \<Rightarrow> (Error (CompactLogLevel e), False, [], fs)
    | Inr _ \<Rightarrow> (case daemon_probes X of
        Some e \<Rightarrow> (Error e, False, [], fs)
      | None \<Rightarrow> (case cx_state X of
          Inl e \<Rightarrow> (Error (CompactStateFile e), False, [], fs)
        | Inr stateFile \<Rightarrow>
            if cx_denied X then (Error CompactPermission, False, [], fs)
            else (case cx_open_rw X of
                Some e \<Rightarrow> (Error (CompactOpen e), False, [], fs)
              | None \<Rightarrow> (case cx_open_ro X of
                  Some e \<Rightarrow> (Error (CompactOpen e), False, [Acquire CompactRW, Release CompactRW], fs)
                | None \<Rightarrow> (case compact_open X stateFile fs of (r, compacted, fs1) \<Rightarrow>
                    (r, compacted, [Acquire CompactRW, Acquire CompactRO, Release CompactRO, Release CompactRW], fs1)))))))"

section \<open>Machine information\<close>

datatype machine_info_error =
    MachineLogLevel string
  | MachineStateFile string
  | MachinePermission
  | MachineOpen string
  | MachineRead sql_error
  | MachineCollect string

datatype machine_info_line = StoredMachineID string | MachineInfoTable machine_info | NoProviderLine | ProviderLine string string

text \<open>\<open>mx_exists\<close> says whether there is a state file; the provider has its name and private IP.\<close>

record machine_info_env =
  mx_level :: "(string, unit) result"
  mx_state :: "(string, string) result"
  mx_exists :: bool
  mx_denied :: bool
  mx_sql :: sqlite_env
  mx_machine :: "(string, machine_info) result"
  mx_provider :: "(string \<times> string) option"

definition stored_machine_id :: "machine_info_env \<Rightarrow> database \<Rightarrow> (machine_info_error, machine_info_line list) result" where
  "stored_machine_id X db =
     (if \<not> mx_exists X then Ok []
      else if mx_denied X then Error MachinePermission
      else case se_open_ro (mx_sql X) of
        Some e \<Rightarrow> Error (MachineOpen e)
      | None \<Rightarrow> (case ReadMetadata (mx_sql X) db MetadataKeyMachineID of
          Inl e \<Rightarrow> Error (MachineRead e)
        | Inr machineID \<Rightarrow> Ok [StoredMachineID machineID]))"

definition machineInfoCommand :: "machine_info_env \<Rightarrow> database \<Rightarrow> (machine_info_error, unit) result \<times> machine_info_line list" where
  "machineInfoCommand X db = (case mx_level X of
      Inl e \<Rightarrow> (Error (MachineLogLevel e), [])
    | Inr _ \<Rightarrow> (case mx_state X of
        Inl e \<Rightarrow> (Error (MachineStateFile e), [])
      | Inr _ \<Rightarrow> (case stored_machine_id X db of
          Inl e \<Rightarrow> (Error e, [])
        | Inr out \<Rightarrow> (case mx_machine X of
            Inl e \<Rightarrow> (Error (MachineCollect e), out)
          | Inr mi \<Rightarrow> (Ok (), out @ [MachineInfoTable mi] @
              (case mx_provider X of
                 None \<Rightarrow> [NoProviderLine]
               | Some (name, ip) \<Rightarrow> [ProviderLine name (the (PopulatePrivateIPFromMachineInfo (Some ip) (Some mi)))]))))))"

section \<open>The metadata command\<close>

text \<open>
  \<open>mm_rows\<close> lists a table in the order of the query, \<open>mm_query\<close> is a failure of the query or of reading a row, and the
  two probes say whether opening the file was denied.
\<close>

record metadata_env =
  mm_level :: "(string, unit) result"
  mm_denied_read :: bool
  mm_denied_write :: bool
  mm_query :: "sql_error option"
  mm_rows :: "(string \<rightharpoonup> string) \<Rightarrow> (string \<times> string) list"
  mm_sql :: sqlite_env

datatype metadata_error =
    MetadataLogLevel string
  | MetadataState string
  | MetadataReadPermission
  | MetadataOpen string
  | MetadataRead sql_error
  | MetadataWritePermission
  | MetadataUpdate state_error

definition ReadAllMetadata :: "metadata_env \<Rightarrow> database \<Rightarrow> (sql_error, (string \<times> string) list) result" where
  "ReadAllMetadata X db = (case mm_query X of
      Some e \<Rightarrow> if e = ErrNoRows then Ok [] else Error e
    | None \<Rightarrow> (case db of None \<Rightarrow> Error no_such_table | Some t \<Rightarrow> Ok (mm_rows X t)))"

definition metadata_update :: "metadata_env \<Rightarrow> string \<Rightarrow> string \<Rightarrow> database \<Rightarrow> (metadata_error, unit) result \<times> database" where
  "metadata_update X setKey setValue db =
     (if setKey = [] \<or> setValue = [] then (Ok (), db)
      else if mm_denied_write X then (Error MetadataWritePermission, db)
      else (case metadataCommand_set (mm_sql X) setKey setValue db of
          (Inl e, db1) \<Rightarrow> (Error (MetadataUpdate e), db1)
        | (Inr _, db1) \<Rightarrow> (Ok (), db1)))"

definition metadataCommand :: "metadata_env \<Rightarrow> string \<Rightarrow> string \<Rightarrow> database \<Rightarrow> (metadata_error, unit) result \<times> string list \<times> database" where
  "metadataCommand X setKey setValue db = (case mm_level X of
      Inl e \<Rightarrow> (Error (MetadataLogLevel e), [], db)
    | Inr _ \<Rightarrow> (case se_state_file (mm_sql X) of
        Inl e \<Rightarrow> (Error (MetadataState e), [], db)
      | Inr _ \<Rightarrow>
          if mm_denied_read X then (Error MetadataReadPermission, [], db)
          else (case se_open_ro (mm_sql X) of
            Some e \<Rightarrow> (Error (MetadataOpen e), [], db)
          | None \<Rightarrow> (case ReadAllMetadata X db of
              Inl e \<Rightarrow> (Error (MetadataRead e), [], db)
            | Inr rows \<Rightarrow> (case metadata_update X setKey setValue db of (r, db1) \<Rightarrow> (r, writeMetadata rows, db1))))))"

section \<open>Lemmas\<close>

lemma missing_no_such_table: "isMissingMetadata no_such_table"
  by code_simp

text \<open>Without a fault of the database, a key that no reader sees reads as blank.\<close>

lemma ReadMetadata_faultless:
  assumes "\<And>k. se_select E k = None" "view db k = None"
  shows "case ReadMetadata E db k of Inl e \<Rightarrow> isMissingMetadata e | Inr v \<Rightarrow> v = []"
  using ReadMetadata_blank [OF assms(2), of E] assms(1) missing_no_such_table
  by (auto simp: ReadMetadata_def sql_select_def split: sum.splits option.splits)

lemma status_not_enrolled:
  assumes "\<And>k. se_select E k = None" "view db MetadataKeyBackendBaseURL = None" "view db ''metrics_endpoint'' = None" "view db ''logs_endpoint'' = None"
  shows "readEnrollmentStatus L E db = Ok \<lparr>es_baseURL = [], es_metricsEndpoint = [], es_logsEndpoint = []\<rparr>"
  using ReadMetadata_faultless [OF assms(1,2)] ReadMetadata_faultless [OF assms(1,3)] ReadMetadata_faultless [OF assms(1,4)]
  by (auto simp: readEnrollmentStatus_def legacy_status_def readLegacyEndpoint_def split: sum.splits)

text \<open>Two lists of rows that differ only in credentials with the same mask print the same.\<close>

definition same_masked :: "(string \<times> string) list \<Rightarrow> (string \<times> string) list \<Rightarrow> bool" where
  "same_masked = list_all2 (\<lambda>(k, v) (k', v'). k = k' \<and>
     (v = v' \<or> (k = MetadataKeyToken \<or> k = MetadataKeySAKToken) \<and> MaskToken v = MaskToken v'))"

lemma same_masked_keys: "same_masked r1 r2 \<Longrightarrow> map fst r1 = map fst r2"
  unfolding same_masked_def by (induction r1 r2 rule: list_all2_induct) auto

lemma same_masked_map_of:
  "same_masked r1 r2 \<Longrightarrow> map_option (maskMetadataValue k) (map_of r1 k) = map_option (maskMetadataValue k) (map_of r2 k)"
  unfolding same_masked_def
  by (induction r1 r2 rule: list_all2_induct) (auto simp: maskMetadataValue_def MetadataKeySAKToken_def)

lemma masked_lookup:
  "map_option (maskMetadataValue k) a = map_option (maskMetadataValue k) b \<Longrightarrow>
    maskMetadataValue k (case a of None \<Rightarrow> [] | Some v \<Rightarrow> v) = maskMetadataValue k (case b of None \<Rightarrow> [] | Some v \<Rightarrow> v)"
  by (cases a; cases b) auto

lemma unmasked_key: "k \<noteq> MetadataKeyToken \<Longrightarrow> k \<noteq> ''sak_token'' \<Longrightarrow> map_option (maskMetadataValue k) a = a"
  by (cases a) (simp_all add: maskMetadataValue_def)

lemma writeMetadata_masked:
  assumes "same_masked r1 r2"
  shows "writeMetadata r1 = writeMetadata r2"
proof -
  have r: "same_masked (rev r1) (rev r2)" using assms by (simp add: same_masked_def list_all2_rev)
  note m = same_masked_map_of [OF r]
  have id: "MetadataKeyMachineID \<noteq> MetadataKeyToken" "MetadataKeyMachineID \<noteq> ''sak_token''" by (simp_all add: metadata_keys)
  have t: "map_of (rev r1) MetadataKeyMachineID = map_of (rev r2) MetadataKeyMachineID"
    using m [of MetadataKeyMachineID] unfolding unmasked_key [OF id] .
  define vals where "vals t = (case t MetadataKeyMachineID of None \<Rightarrow> t | Some v \<Rightarrow> t(''agent_uuid'' \<mapsto> v))" for t :: "string \<rightharpoonup> string"
  have "map_option (maskMetadataValue k) (vals (map_of (rev r1)) k) = map_option (maskMetadataValue k) (vals (map_of (rev r2)) k)" for k
    using m [of k] t by (auto simp: vals_def split: option.splits)
  note v = masked_lookup [OF this]
  show ?thesis unfolding writeMetadata_def Let_def same_masked_keys [OF assms] t using v unfolding vals_def t by simp
qed

lemma metadata_update_view:
  assumes "metadata_update X k v db = (r, db')"
  shows "view db' q \<noteq> view db q \<Longrightarrow> k \<noteq> [] \<and> v \<noteq> [] \<and> q = (if k = ''agent_uuid'' then MetadataKeyMachineID else k)"
    "r = Ok () \<Longrightarrow> k \<noteq> [] \<Longrightarrow> v \<noteq> [] \<Longrightarrow> view db' (if k = ''agent_uuid'' then MetadataKeyMachineID else k) = Some v"
proof -
  let ?key = "if k = ''agent_uuid'' then MetadataKeyMachineID else k"
  have "db' = db \<and> (r \<noteq> Ok () \<or> k = [] \<or> v = []) \<or> k \<noteq> [] \<and> v \<noteq> [] \<and> view db' = (view db)(?key := ok_if_nonempty v)"
    using assms SetMetadata_cases [of "mm_sql X" ?key v db]
    by (auto simp: metadata_update_def metadataCommand_set_def Let_def split: if_splits sum.splits prod.splits option.splits)
  then show "view db' q \<noteq> view db q \<Longrightarrow> k \<noteq> [] \<and> v \<noteq> [] \<and> q = ?key"
    "r = Ok () \<Longrightarrow> k \<noteq> [] \<Longrightarrow> v \<noteq> [] \<Longrightarrow> view db' ?key = Some v"
    by (auto simp: ok_if_nonempty_def split: if_splits)
qed

section \<open>Properties\<close>

text \<open>
  C30: Compacting is safe.  The database is compacted only when neither the service manager, nor the socket, nor the
  port shows a running agent; every database opened is closed once, whatever fails; nothing but the modes of the
  state files changes, and success means that they are private to the owner.
\<close>

theorem compact_safe:
  assumes "compactCommand X fs = (r, compacted, log, fs')"
  shows "track {} log = Some {} \<and>
    (compacted \<longrightarrow> cx_service X \<noteq> Some (Ok True) \<and> \<not> cx_dial X \<and> \<not> cx_port X) \<and>
    (\<not> compacted \<longrightarrow> fs' = fs \<and> r \<noteq> Ok ()) \<and>
    (\<forall>p. cx_state X = Ok p \<and> p \<noteq> [] \<and> p \<noteq> '':memory:'' \<and> r = Ok () \<longrightarrow> compacted \<and> secured fs fs' p \<and> secured fs fs' (p @ ''-wal''))"
proof -
  have sec: "secured fs fs1 p \<and> secured fs fs1 (p @ ''-wal'')"
    if "SecureStateFilePermissions W p fs = (Ok (), fs1)" "p \<noteq> []" "p \<noteq> '':memory:''" for W p fs1
    using that secure_files_Ok [of W "[p, p @ ''-wal'', p @ ''-shm'']" fs "()" fs1]
    by (auto simp: SecureStateFilePermissions_def)
  show ?thesis
  proof (cases "\<exists>p. cx_level X = Ok () \<and> daemon_probes X = None \<and> cx_state X = Ok p \<and> \<not> cx_denied X \<and> cx_open_rw X = None \<and> cx_open_ro X = None")
    case True
    then obtain p where p: "cx_level X = Ok ()" "daemon_probes X = None" "cx_state X = Ok p" "\<not> cx_denied X" "cx_open_rw X = None" "cx_open_ro X = None"
      by blast
    then have o: "compact_open X p fs = (r, compacted, fs')" and l: "log = [Acquire CompactRW, Acquire CompactRO, Release CompactRO, Release CompactRW]"
      using assms by (auto simp: compactCommand_def split: prod.splits)
    have d: "cx_service X \<noteq> Some (Ok True) \<and> \<not> cx_dial X \<and> \<not> cx_port X"
      using p(2) by (auto simp: daemon_probes_def split: option.splits sum.splits bool.splits if_splits)
    show ?thesis using o d p(3) sec by (auto simp: l compact_open_def split: option.splits sum.splits prod.splits)
  next
    case False
    with assms show ?thesis by (auto simp: compactCommand_def split: option.splits sum.splits if_splits)
  qed
qed

theorem compact_safe_witness:
  "\<exists>log fs'. compactCommand \<lparr>cx_level = Inr (), cx_service = Some (Inr False), cx_dial = False, cx_port = False, cx_state = Inr ''/s'', cx_denied = False,
      cx_open_rw = None, cx_open_ro = None, cx_size_before = None, cx_compact = None, cx_size_after = None, cx_os = root_env\<rparr>
      [''/s'' \<mapsto> \<lparr>fn_dir = False, fn_mode = 420\<rparr>] = (Ok (), True, log, fs') \<and> secured [''/s'' \<mapsto> \<lparr>fn_dir = False, fn_mode = 420\<rparr>] fs' ''/s''"
proof -
  let ?X = "\<lparr>cx_level = Inr (), cx_service = Some (Inr False), cx_dial = False, cx_port = False, cx_state = Inr ''/s'', cx_denied = False,
      cx_open_rw = None, cx_open_ro = None, cx_size_before = None, cx_compact = None, cx_size_after = None, cx_os = root_env\<rparr>"
  let ?fs = "[''/s'' \<mapsto> \<lparr>fn_dir = False, fn_mode = 420\<rparr>]"
  obtain log fs' where c: "compactCommand ?X ?fs = (Ok (), True, log, fs')"
    by (simp add: compactCommand_def daemon_probes_def compact_open_def SecureStateFilePermissions_def root_env_def osStat_def osChmod_def)
  from compact_safe [OF c] c show ?thesis by auto
qed

text \<open>
  C32: The metadata command shows no credential and changes only what it is asked to.  What it prints is the same for
  any two tables whose tokens have the same masks, so that it tells no more of a token than its mask does.  It changes
  no key but the one given, where \<open>agent_uuid\<close> stands for the stored machine ID, and when it succeeds that key has the
  given value.
\<close>

theorem metadata_command_confined:
  assumes "metadataCommand X k v db = (r, out, db')"
  shows "(\<forall>q. view db' q \<noteq> view db q \<longrightarrow> k \<noteq> [] \<and> v \<noteq> [] \<and> q = (if k = ''agent_uuid'' then MetadataKeyMachineID else k)) \<and>
    (r = Ok () \<and> k \<noteq> [] \<and> v \<noteq> [] \<longrightarrow> view db' (if k = ''agent_uuid'' then MetadataKeyMachineID else k) = Some v) \<and>
    (\<forall>t t2. db = Some t \<and> same_masked (mm_rows X t) (mm_rows X t2) \<longrightarrow> fst (snd (metadataCommand X k v (Some t2))) = out)"
proof -
  let ?key = "if k = ''agent_uuid'' then MetadataKeyMachineID else k"
  have u: "db' = db \<and> r \<noteq> Ok () \<or> metadata_update X k v db = (r, db')"
    using assms by (auto simp: metadataCommand_def split: sum.splits option.splits if_splits prod.splits)
  have "\<forall>q. view db' q \<noteq> view db q \<longrightarrow> k \<noteq> [] \<and> v \<noteq> [] \<and> q = ?key" using u metadata_update_view(1) by blast
  moreover have "r = Ok () \<and> k \<noteq> [] \<and> v \<noteq> [] \<longrightarrow> view db' ?key = Some v" using u metadata_update_view(2) by blast
  moreover have "fst (snd (metadataCommand X k v (Some t2))) = out" if d: "db = Some t" and m: "same_masked (mm_rows X t) (mm_rows X t2)" for t t2
    using assms writeMetadata_masked [OF m] unfolding d metadataCommand_def ReadAllMetadata_def
    by (auto split: sum.splits option.splits if_splits prod.splits)
  ultimately show ?thesis by blast
qed

definition sample_metadata_env :: metadata_env where
  "sample_metadata_env = \<lparr>mm_level = Ok (), mm_denied_read = False, mm_denied_write = False, mm_query = None,
     mm_rows = (\<lambda>t. map (\<lambda>k. (k, the (t k))) (filter (\<lambda>k. t k \<noteq> None) [''machine_id'', ''token''])), mm_sql = healthy\<rparr>"

theorem metadata_command_confined_witness:
  "\<exists>out db'. metadataCommand sample_metadata_env ''agent_uuid'' ''u2'' (Some [''token'' \<mapsto> ''nvapi-0123456789abcdef'']) = (Ok (), out, db') \<and>
     out = [''token: nvapi-0123...cdef''] \<and> view db' MetadataKeyMachineID = Some ''u2'' \<and>
     fst (snd (metadataCommand sample_metadata_env ''agent_uuid'' ''u2'' (Some [''token'' \<mapsto> ''nvapi-0123xxxxxxxxcdef'']))) = out"
proof -
  let ?c = "metadataCommand sample_metadata_env ''agent_uuid'' ''u2''"
  let ?t = "[''token'' \<mapsto> ''nvapi-0123456789abcdef'']" and ?t2 = "[''token'' \<mapsto> ''nvapi-0123xxxxxxxxcdef'']"
  obtain r out db' where c: "?c (Some ?t) = (r, out, db')" by (metis prod_cases3)
  have "fst (?c (Some ?t)) = Ok ()" "fst (snd (?c (Some ?t))) = [''token: nvapi-0123...cdef'']" by code_simp+
  then have o: "r = Ok ()" "out = [''token: nvapi-0123...cdef'']" by (simp_all add: c)
  have "same_masked (mm_rows sample_metadata_env ?t) (mm_rows sample_metadata_env ?t2)" by code_simp
  then show ?thesis using metadata_command_confined [OF c] c o by auto
qed

end
