(* ===== verification/Attestation_Attempts.thy ===== *)
theory Attestation_Attempts
  imports Attestation
begin

text \<open>
  The attempts of the attestation manager (\<open>runAttempt\<close> of \<open>internal/attestation/manager.go\<close>) under a timeout.  An attempt
  that times out goes on in its goroutine: it may still replace the last result and submit.  \<open>att_step\<close>
  interleaves the loop with the goroutines of the attempts, each a \<open>CollectOnce\<close> split where other goroutines can look:
  at the last result, at the submission and at the mutex.  The lemmas show that attempts do not overlap nevertheless.
\<close>

section \<open>Model\<close>

datatype att_phase = Gathering | ResultStored | Finished bool

datatype attempt_result = StillBusy | AttemptTimedOut | AttemptDone bool

text \<open>
  Attempts are numbered in the order they are started.  \<open>ax_phase\<close> has the goroutines that hold or will release the
  mutex, \<open>ax_sent\<close> the attempts whose result went to \<open>Submit\<close>, \<open>ax_channel\<close> the buffered results.
\<close>

record att_sys =
  ax_locked :: bool
  ax_count :: nat
  ax_phase :: "nat \<rightharpoonup> att_phase"
  ax_channel :: "nat \<rightharpoonup> bool"
  ax_last :: "nat option"
  ax_sent :: "nat list"
  ax_waiting :: "nat option"
  ax_result :: "attempt_result option"

definition att_init :: att_sys where
  "att_init = \<lparr>ax_locked = False, ax_count = 0, ax_phase = Map.empty, ax_channel = Map.empty, ax_last = None, ax_sent = [],
     ax_waiting = None, ax_result = None\<rparr>"

inductive att_step :: "att_sys \<Rightarrow> att_sys \<Rightarrow> bool" where
  Busy: "ax_waiting s = None \<Longrightarrow> ax_locked s \<Longrightarrow> att_step s (s\<lparr>ax_result := Some StillBusy\<rparr>)"
| Begin: "ax_waiting s = None \<Longrightarrow> \<not> ax_locked s \<Longrightarrow>
    att_step s (s\<lparr>ax_locked := True, ax_count := Suc (ax_count s), ax_phase := (ax_phase s)(ax_count s \<mapsto> Gathering), ax_waiting := Some (ax_count s)\<rparr>)"
| GivesUp: "ax_phase s i = Some Gathering \<Longrightarrow>
    att_step s (s\<lparr>ax_phase := (ax_phase s)(i \<mapsto> Finished False), ax_channel := (ax_channel s)(i \<mapsto> False)\<rparr>)"
| Stores: "ax_phase s i = Some Gathering \<Longrightarrow>
    att_step s (s\<lparr>ax_phase := (ax_phase s)(i \<mapsto> ResultStored), ax_last := Some i\<rparr>)"
| Submits: "ax_phase s i = Some ResultStored \<Longrightarrow>
    att_step s (s\<lparr>ax_phase := (ax_phase s)(i \<mapsto> Finished ok), ax_channel := (ax_channel s)(i \<mapsto> ok), ax_sent := ax_sent s @ [i]\<rparr>)"
| Unlocks: "ax_phase s i = Some (Finished ok) \<Longrightarrow> att_step s (s\<lparr>ax_phase := (ax_phase s)(i := None), ax_locked := False\<rparr>)"
| Receives: "ax_waiting s = Some i \<Longrightarrow> ax_channel s i = Some ok \<Longrightarrow> att_step s (s\<lparr>ax_waiting := None, ax_result := Some (AttemptDone ok)\<rparr>)"
| TimesOut: "ax_waiting s = Some i \<Longrightarrow> att_step s (s\<lparr>ax_waiting := None, ax_result := Some AttemptTimedOut\<rparr>)"

inductive_cases att_stepE: "att_step s s'"

section \<open>Lemmas\<close>

text \<open>Only the newest attempt is active, and the mutex is held exactly while it is.\<close>

definition att_inv :: "att_sys \<Rightarrow> bool" where
  "att_inv s \<longleftrightarrow>
     (\<forall>i. ax_phase s i \<noteq> None \<longrightarrow> Suc i = ax_count s \<and> ax_locked s) \<and> (ax_locked s \<longrightarrow> (\<exists>i. ax_phase s i \<noteq> None)) \<and>
     sorted_wrt (<) (ax_sent s) \<and> (\<forall>i\<in>set (ax_sent s). i < ax_count s) \<and>
     (\<forall>i. ax_phase s i \<in> {Some Gathering, Some ResultStored} \<longrightarrow> i \<notin> set (ax_sent s) \<and> ax_channel s i = None) \<and>
     (\<forall>i. ax_phase s i = Some ResultStored \<longrightarrow> ax_last s = Some i) \<and>
     (\<forall>i. ax_channel s i \<noteq> None \<longrightarrow> i < ax_count s) \<and>
     (\<forall>i. ax_waiting s = Some i \<longrightarrow> Suc i = ax_count s \<and> (ax_phase s i \<noteq> None \<or> ax_channel s i \<noteq> None)) \<and>
     (\<forall>i ok. ax_phase s i = Some (Finished ok) \<longrightarrow> ax_channel s i = Some ok)"

lemma att_init_inv: "att_inv att_init"
  by (simp add: att_inv_def att_init_def)

text \<open>The attempts whose result is sent are those before the active one.\<close>

lemma sent_before:
  assumes "att_inv s" "ax_phase s i \<in> {Some Gathering, Some ResultStored}" "j \<in> set (ax_sent s)"
  shows "j < i"
proof -
  have "Suc i = ax_count s" "i \<notin> set (ax_sent s)" "j < ax_count s" using assms by (auto simp: att_inv_def)
  then show ?thesis using assms(3) by (metis less_Suc_eq)
qed

lemma active_unique:
  assumes "att_inv s" "ax_phase s i = Some p" "j \<noteq> i"
  shows "ax_phase s j = None"
  using assms unfolding att_inv_def by (metis Suc_inject option.distinct(1))

lemma att_step_inv: "att_step s s' \<Longrightarrow> att_inv s \<Longrightarrow> att_inv s'"
proof (erule att_stepE)
  fix i ok
  assume inv: "att_inv s" and p: "ax_phase s i = Some ResultStored"
    and s': "s' = s\<lparr>ax_phase := (ax_phase s)(i \<mapsto> Finished ok), ax_channel := (ax_channel s)(i \<mapsto> ok), ax_sent := ax_sent s @ [i]\<rparr>"
  from sent_before [OF inv] p have "\<forall>j\<in>set (ax_sent s). j < i" by blast
  moreover have "Suc i = ax_count s" using inv p unfolding att_inv_def by blast
  ultimately show "att_inv s'" using inv p active_unique [OF inv p] unfolding s' att_inv_def
    by (simp add: sorted_wrt_append less_Suc_eq) auto
next
  fix i
  assume inv: "att_inv s" and p: "ax_phase s i = Some Gathering" and s': "s' = s\<lparr>ax_phase := (ax_phase s)(i \<mapsto> ResultStored), ax_last := Some i\<rparr>"
  show "att_inv s'" using inv p active_unique [OF inv p] unfolding s' att_inv_def by simp (metis option.distinct(1))
next
  fix i ok
  assume inv: "att_inv s" and p: "ax_phase s i = Some (Finished ok)" and s': "s' = s\<lparr>ax_phase := (ax_phase s)(i := None), ax_locked := False\<rparr>"
  show "att_inv s'" using inv p active_unique [OF inv p] unfolding s' att_inv_def by auto
qed (auto simp: att_inv_def split: if_splits)

interpretation attestations: invariant_system att_step "\<lambda>s. s = att_init" att_inv
  by unfold_locales (auto simp: att_init_inv att_step_inv)

lemmas att_reach_inv = attestations.reachable_invariant [OF _ refl]

section \<open>Properties\<close>

text \<open>
  C16: Attestation attempts never overlap.  In every interleaving of attempts, timeouts and late goroutines at most one
  attempt is active and the mutex is held exactly while one is.  Each attempt submits at most once, and the
  submissions come in the order of the attempts.  While a result is about to be submitted it is the one that
  \<open>LastResult\<close> reports, and a caller that waits will be answered by its own attempt.
\<close>

theorem attestation_attempts_exclusive:
  assumes "att_step\<^sup>*\<^sup>* att_init s"
  shows "(\<forall>i j. ax_phase s i \<noteq> None \<and> ax_phase s j \<noteq> None \<longrightarrow> i = j) \<and> (ax_locked s \<longleftrightarrow> (\<exists>i. ax_phase s i \<noteq> None)) \<and>
    sorted_wrt (<) (ax_sent s) \<and> (\<forall>i. ax_phase s i = Some ResultStored \<longrightarrow> ax_last s = Some i \<and> (\<forall>j\<in>set (ax_sent s). j < i)) \<and>
    (\<forall>i. ax_waiting s = Some i \<longrightarrow> ax_phase s i \<noteq> None \<or> ax_channel s i \<noteq> None)"
proof -
  have inv: "att_inv s" by (rule att_reach_inv [OF assms])
  then have c: "Suc i = ax_count s" if "ax_phase s i \<noteq> None" for i using that unfolding att_inv_def by blast
  have "i = j" if "ax_phase s i \<noteq> None" "ax_phase s j \<noteq> None" for i j using c [OF that(1)] c [OF that(2)] by simp
  moreover have "j < i" if "ax_phase s i = Some ResultStored" "j \<in> set (ax_sent s)" for i j using sent_before [OF inv] that by blast
  ultimately show ?thesis using inv unfolding att_inv_def by blast
qed

text \<open>An attempt that times out goes on and submits.\<close>

theorem attestation_attempts_exclusive_witness:
  "\<exists>s. att_step\<^sup>*\<^sup>* att_init s \<and> ax_result s = Some StillBusy \<and> ax_sent s = [0] \<and> ax_locked s \<and> (\<exists>i. ax_phase s i \<noteq> None)"
proof -
  let ?a = "att_init\<lparr>ax_locked := True, ax_count := 1, ax_phase := [0 \<mapsto> Gathering], ax_waiting := Some 0\<rparr>"
  let ?b = "?a\<lparr>ax_waiting := None, ax_result := Some AttemptTimedOut\<rparr>"
  let ?c = "?b\<lparr>ax_phase := [0 \<mapsto> ResultStored], ax_last := Some 0\<rparr>"
  let ?d = "?c\<lparr>ax_phase := [0 \<mapsto> Finished True], ax_channel := [0 \<mapsto> True], ax_sent := [0]\<rparr>"
  let ?e = "?d\<lparr>ax_result := Some StillBusy\<rparr>"
  have a: "att_step att_init ?a" using att_step.Begin [of att_init] by (simp add: att_init_def)
  have b: "att_step ?a ?b" using att_step.TimesOut [of ?a] by simp
  have c: "att_step ?b ?c" using att_step.Stores [of ?b 0] by simp
  have d: "att_step ?c ?d" using att_step.Submits [of ?c 0 True] by (simp add: att_init_def)
  have e: "att_step ?d ?e" using att_step.Busy [of ?d] by simp
  have r: "att_step\<^sup>*\<^sup>* att_init ?e"
    using a b c d e by (meson rtranclp.rtrancl_into_rtrancl rtranclp.rtrancl_refl)
  have "ax_result ?e = Some StillBusy" "ax_sent ?e = [0]" "ax_locked ?e" by simp_all
  with attestation_attempts_exclusive [OF r] r show ?thesis by blast
qed

end
