(* ===== verification/Command_Line.thy ===== *)
theory Command_Line
  imports Run_Command Enrollment Handlers
begin

text \<open>
  The table of commands and flags (\<open>cmd/fleetint/root.go\<close>) and how the commands read their flags from the parsed
  command line.  The command line library is a parameter: \<open>cli_lib\<close> has its accessors and \<open>cli_documented\<close> states
  what its documentation promises of a declared flag.  The lemmas check every access against the table, so that no
  command reads a flag it does not declare, and resolve the flags of the run command.
\<close>

section \<open>Table\<close>

datatype flag_kind = StringFlag string | BoolFlag | DurationFlag duration

record cli_flag =
  cf_Name :: string
  cf_Kind :: flag_kind
  cf_EnvVar :: string
  cf_Required :: bool
  cf_Hidden :: bool

record cli_command =
  cc_Name :: string
  cc_Aliases :: "string list"
  cc_Flags :: "cli_flag list"

definition cli_flag_of :: "string \<Rightarrow> flag_kind \<Rightarrow> cli_flag" where
  "cli_flag_of name kind = \<lparr>cf_Name = name, cf_Kind = kind, cf_EnvVar = [], cf_Required = False, cf_Hidden = False\<rparr>"

definition defaultLogLevel :: string where "defaultLogLevel = ''warn''"

definition DefaultClientURL :: string where "DefaultClientURL = DefaultUnixSocketPath"

definition log_level_flag :: cli_flag where "log_level_flag = cli_flag_of ''log-level,l'' (StringFlag defaultLogLevel)"

definition scan_command :: cli_command where
  "scan_command = \<lparr>cc_Name = ''scan'', cc_Aliases = [''check'', ''s''], cc_Flags =
     [log_level_flag,
      (cli_flag_of ''infiniband-expected-port-states'' (StringFlag []))\<lparr>cf_Hidden := True\<rparr>,
      (cli_flag_of ''infiniband-class-root-dir'' (StringFlag []))\<lparr>cf_Hidden := True\<rparr>]\<rparr>"

definition run_command :: cli_command where
  "run_command = \<lparr>cc_Name = ''run'', cc_Aliases = [], cc_Flags =
     [log_level_flag,
      cli_flag_of ''log-file'' (StringFlag []),
      cli_flag_of ''listen-address'' (StringFlag DefaultListenAddress),
      (cli_flag_of ''workload-attribution-source'' (StringFlag []))\<lparr>cf_EnvVar := ''FLEETINT_WORKLOAD_ATTRIBUTION_SOURCE''\<rparr>,
      (cli_flag_of ''hpc-job-mapping-dir'' (StringFlag []))\<lparr>cf_EnvVar := ''FLEETINT_HPC_JOB_MAPPING_DIR''\<rparr>,
      (cli_flag_of ''hpc-gpu-identifier'' (StringFlag HPCGPUIdentifierDCGMIndex))\<lparr>cf_EnvVar := ''FLEETINT_HPC_GPU_IDENTIFIER''\<rparr>,
      cli_flag_of ''retention-period'' (DurationFlag (24 * time_Hour)),
      cli_flag_of ''components'' (StringFlag []),
      (cli_flag_of ''infiniband-expected-port-states'' (StringFlag []))\<lparr>cf_Hidden := True\<rparr>,
      (cli_flag_of ''infiniband-class-root-dir'' (StringFlag []))\<lparr>cf_Hidden := True\<rparr>,
      cli_flag_of ''offline-mode'' BoolFlag,
      cli_flag_of ''path'' (StringFlag []),
      cli_flag_of ''duration'' (StringFlag []),
      cli_flag_of ''format'' (StringFlag ''json''),
      cli_flag_of ''enable-fault-injection'' BoolFlag]\<rparr>"

definition status_command :: cli_command where
  "status_command = \<lparr>cc_Name = ''status'', cc_Aliases = [''st''], cc_Flags =
     [log_level_flag, cli_flag_of ''server-url'' (StringFlag DefaultClientURL)]\<rparr>"

definition machine_info_command :: cli_command where
  "machine_info_command = \<lparr>cc_Name = ''machine-info'', cc_Aliases = [], cc_Flags = [log_level_flag]\<rparr>"

definition metadata_command :: cli_command where
  "metadata_command = \<lparr>cc_Name = ''metadata'', cc_Aliases = [], cc_Flags =
     [log_level_flag, cli_flag_of ''set-key'' (StringFlag []), cli_flag_of ''set-value'' (StringFlag [])]\<rparr>"

definition compact_command :: cli_command where
  "compact_command = \<lparr>cc_Name = ''compact'', cc_Aliases = [], cc_Flags = [log_level_flag]\<rparr>"

definition precheck_command :: cli_command where
  "precheck_command = \<lparr>cc_Name = ''precheck'', cc_Aliases = [], cc_Flags = []\<rparr>"

definition enroll_command :: cli_command where
  "enroll_command = \<lparr>cc_Name = ''enroll'', cc_Aliases = [], cc_Flags =
     [(cli_flag_of ''endpoint'' (StringFlag []))\<lparr>cf_Required := True\<rparr>,
      cli_flag_of ''token'' (StringFlag []),
      cli_flag_of ''token-file'' (StringFlag []),
      cli_flag_of ''force'' BoolFlag,
      cli_flag_of ''node-group'' (StringFlag []),
      cli_flag_of ''compute-zone'' (StringFlag [])]\<rparr>"

definition unenroll_command :: cli_command where
  "unenroll_command = \<lparr>cc_Name = ''unenroll'', cc_Aliases = [], cc_Flags = []\<rparr>"

definition inject_command :: cli_command where
  "inject_command = \<lparr>cc_Name = ''inject'', cc_Aliases = [], cc_Flags =
     [cli_flag_of ''server-url'' (StringFlag DefaultClientURL),
      (cli_flag_of ''component,c'' (StringFlag []))\<lparr>cf_Required := True\<rparr>,
      cli_flag_of ''fault-type'' (StringFlag []),
      cli_flag_of ''fault-message'' (StringFlag []),
      cli_flag_of ''event-type'' (StringFlag []),
      cli_flag_of ''clear'' BoolFlag]\<rparr>"

definition App_Commands :: "cli_command list" where
  "App_Commands = [scan_command, run_command, status_command, machine_info_command, metadata_command, compact_command,
     precheck_command, enroll_command, unenroll_command, inject_command]"

text \<open>A name may list aliases, separated by commas.\<close>

definition flag_names :: "cli_flag \<Rightarrow> string list" where
  "flag_names f = map TrimSpace (Split (cf_Name f) CHR '','')"

section \<open>Reading the flags\<close>

text \<open>The accessors of the context \<open>'x\<close> of a parsed command line.\<close>

record 'x cli_lib =
  cl_String :: "'x \<Rightarrow> string \<Rightarrow> string"
  cl_Bool :: "'x \<Rightarrow> string \<Rightarrow> bool"
  cl_Duration :: "'x \<Rightarrow> string \<Rightarrow> duration"
  cl_IsSet :: "'x \<Rightarrow> string \<Rightarrow> bool"

text \<open>
  What is documented of a declared flag, under each of its names: a value on the command line wins, then a value of
  its environment variable, then its default; a Boolean flag that is not given is false.
\<close>

datatype cli_value = TextValue string | TruthValue bool | DurationValue duration

definition flag_default :: "cli_flag \<Rightarrow> cli_value" where
  "flag_default f = (case cf_Kind f of StringFlag d \<Rightarrow> TextValue d | BoolFlag \<Rightarrow> TruthValue False | DurationFlag d \<Rightarrow> DurationValue d)"

definition flag_read :: "'x cli_lib \<Rightarrow> 'x \<Rightarrow> cli_flag \<Rightarrow> string \<Rightarrow> cli_value" where
  "flag_read C x f n = (case cf_Kind f of
      StringFlag _ \<Rightarrow> TextValue (cl_String C x n)
    | BoolFlag \<Rightarrow> TruthValue (cl_Bool C x n)
    | DurationFlag _ \<Rightarrow> DurationValue (cl_Duration C x n))"

definition cli_documented :: "'x cli_lib \<Rightarrow> cli_command \<Rightarrow> (string \<rightharpoonup> cli_value) \<Rightarrow> environ \<Rightarrow> 'x \<Rightarrow> bool" where
  "cli_documented C cmd given env x \<longleftrightarrow> (\<forall>f\<in>set (cc_Flags cmd). \<forall>n\<in>set (flag_names f).
     (\<forall>v. given (cf_Name f) = Some v \<longrightarrow> flag_read C x f n = v \<and> cl_IsSet C x n) \<and>
     (given (cf_Name f) = None \<and> cf_EnvVar f \<noteq> [] \<and> Getenv env (cf_EnvVar f) \<noteq> [] \<and> (\<exists>d. cf_Kind f = StringFlag d) \<longrightarrow>
        flag_read C x f n = TextValue (Getenv env (cf_EnvVar f))) \<and>
     (given (cf_Name f) = None \<and> (cf_EnvVar f = [] \<or> env (cf_EnvVar f) = None) \<longrightarrow> flag_read C x f n = flag_default f \<and> \<not> cl_IsSet C x n))"

text \<open>The flags of the run, enroll and inject commands, as these read them.\<close>

definition run_flags_of :: "'x cli_lib \<Rightarrow> 'x \<Rightarrow> run_flags" where
  "run_flags_of C x =
     \<lparr>rf_listen_address = cl_String C x ''listen-address'', rf_retention_period = cl_Duration C x ''retention-period'',
      rf_workload_source = cl_String C x ''workload-attribution-source'', rf_hpc_dir = cl_String C x ''hpc-job-mapping-dir'',
      rf_hpc_gpu_identifier = cl_String C x ''hpc-gpu-identifier'', rf_ib_class_root_dir = cl_String C x ''infiniband-class-root-dir'',
      rf_components = cl_String C x ''components'', rf_ib_port_states = cl_String C x ''infiniband-expected-port-states'',
      rf_enable_fault_injection = cl_Bool C x ''enable-fault-injection'', rf_offline_mode = cl_Bool C x ''offline-mode'',
      rf_path = cl_String C x ''path'', rf_duration = cl_String C x ''duration'', rf_format = cl_String C x ''format''\<rparr>"

definition optional_flag :: "'x cli_lib \<Rightarrow> 'x \<Rightarrow> string \<Rightarrow> string option" where
  "optional_flag C x name = (if cl_IsSet C x name then Some (cl_String C x name) else None)"

definition enroll_flags_of :: "'x cli_lib \<Rightarrow> 'x \<Rightarrow> enroll_flags" where
  "enroll_flags_of C x =
     \<lparr>ef_endpoint = cl_String C x ''endpoint'', ef_force = cl_Bool C x ''force'', ef_node_group = optional_flag C x ''node-group'',
      ef_compute_zone = optional_flag C x ''compute-zone'', ef_token = cl_String C x ''token'', ef_token_file = cl_String C x ''token-file''\<rparr>"

definition inject_flags_of :: "'x cli_lib \<Rightarrow> 'x \<Rightarrow> inject_flags" where
  "inject_flags_of C x =
     \<lparr>if_component = cl_String C x ''component'', if_server_url = cl_String C x ''server-url'', if_clear = cl_Bool C x ''clear'',
      if_fault_type = cl_String C x ''fault-type'', if_fault_message = cl_String C x ''fault-message'', if_event_type = cl_String C x ''event-type''\<rparr>"

section \<open>Lemmas\<close>

lemmas command_defs = run_command_def enroll_command_def inject_command_def log_level_flag_def cli_flag_of_def

text \<open>Two contexts that agree on the declared flags.\<close>

definition cli_agree :: "'x cli_lib \<Rightarrow> cli_command \<Rightarrow> 'x \<Rightarrow> 'x \<Rightarrow> bool" where
  "cli_agree C cmd x y \<longleftrightarrow> (\<forall>f\<in>set (cc_Flags cmd). \<forall>n\<in>set (flag_names f).
     flag_read C x f n = flag_read C y f n \<and> cl_IsSet C x n = cl_IsSet C y n)"

text \<open>The names of the flags of a command, with the type of each.\<close>

datatype flag_type = TString | TBool | TDuration

definition flag_type :: "cli_flag \<Rightarrow> flag_type" where
  "flag_type f = (case cf_Kind f of StringFlag _ \<Rightarrow> TString | BoolFlag \<Rightarrow> TBool | DurationFlag _ \<Rightarrow> TDuration)"

definition typed_names :: "cli_command \<Rightarrow> (string \<times> flag_type) list" where
  "typed_names cmd = concat (map (\<lambda>f. map (\<lambda>n. (n, flag_type f)) (flag_names f)) (cc_Flags cmd))"

lemma typed_namesE:
  assumes "(n, t) \<in> set (typed_names cmd)"
  obtains f where "f \<in> set (cc_Flags cmd)" "n \<in> set (flag_names f)" "flag_type f = t"
  using assms by (auto simp: typed_names_def)

lemma agree_simps:
  assumes "cli_agree C cmd x y"
  shows "(n, TString) \<in> set (typed_names cmd) \<Longrightarrow> cl_String C x n = cl_String C y n"
    "(n, TBool) \<in> set (typed_names cmd) \<Longrightarrow> cl_Bool C x n = cl_Bool C y n"
    "(n, TDuration) \<in> set (typed_names cmd) \<Longrightarrow> cl_Duration C x n = cl_Duration C y n"
    "(n, TString) \<in> set (typed_names cmd) \<Longrightarrow> cl_IsSet C x n = cl_IsSet C y n"
  using assms by (fastforce simp: cli_agree_def flag_read_def flag_type_def elim!: typed_namesE split: flag_kind.splits)+

text \<open>A flag that is neither given nor in the environment has its default.\<close>

definition unset_flag :: "cli_command \<Rightarrow> (string \<rightharpoonup> cli_value) \<Rightarrow> environ \<Rightarrow> string \<Rightarrow> cli_value \<Rightarrow> bool" where
  "unset_flag cmd given env n v \<longleftrightarrow> list_ex (\<lambda>f. n \<in> set (flag_names f) \<and> given (cf_Name f) = None \<and>
     (cf_EnvVar f = [] \<or> env (cf_EnvVar f) = None) \<and> flag_default f = v) (cc_Flags cmd)"

lemma unset_flag_read:
  assumes "cli_documented C cmd given env x"
  shows "unset_flag cmd given env n (TextValue v) \<Longrightarrow> cl_String C x n = v"
    "unset_flag cmd given env n (TruthValue b) \<Longrightarrow> cl_Bool C x n = b"
    "unset_flag cmd given env n (DurationValue d) \<Longrightarrow> cl_Duration C x n = d"
proof -
  have r: "\<exists>f. flag_read C x f n = flag_default f \<and> flag_default f = v" if "unset_flag cmd given env n v" for v
    using that assms by (auto simp: unset_flag_def cli_documented_def list_ex_iff)
  show "unset_flag cmd given env n (TextValue v) \<Longrightarrow> cl_String C x n = v"
    "unset_flag cmd given env n (TruthValue b) \<Longrightarrow> cl_Bool C x n = b"
    "unset_flag cmd given env n (DurationValue d) \<Longrightarrow> cl_Duration C x n = d"
    using r by (fastforce simp: flag_read_def flag_default_def split: flag_kind.splits)+
qed

text \<open>The flags of a run command line without flags: the workload flags come from the environment, all others are the defaults.\<close>

definition workload_vars :: "string list" where
  "workload_vars = [''FLEETINT_WORKLOAD_ATTRIBUTION_SOURCE'', ''FLEETINT_HPC_JOB_MAPPING_DIR'', ''FLEETINT_HPC_GPU_IDENTIFIER'']"

definition from_env :: "environ \<Rightarrow> string \<Rightarrow> string \<Rightarrow> string" where
  "from_env env k d = (if Getenv env k = [] then d else Getenv env k)"

definition bare_run_flags :: "environ \<Rightarrow> run_flags" where
  "bare_run_flags env =
     \<lparr>rf_listen_address = DefaultListenAddress, rf_retention_period = 24 * time_Hour,
      rf_workload_source = from_env env ''FLEETINT_WORKLOAD_ATTRIBUTION_SOURCE'' [], rf_hpc_dir = from_env env ''FLEETINT_HPC_JOB_MAPPING_DIR'' [],
      rf_hpc_gpu_identifier = from_env env ''FLEETINT_HPC_GPU_IDENTIFIER'' HPCGPUIdentifierDCGMIndex,
      rf_ib_class_root_dir = [], rf_components = [], rf_ib_port_states = [],
      rf_enable_fault_injection = False, rf_offline_mode = False, rf_path = [], rf_duration = [], rf_format = ''json''\<rparr>"

definition default_values :: "(string \<times> cli_value) list" where
  "default_values = concat (map (\<lambda>f. map (\<lambda>n. (n, flag_default f)) (flag_names f)) (filter (\<lambda>f. cf_EnvVar f = []) (cc_Flags run_command)))"

definition env_values :: "(string \<times> string \<times> cli_value) list" where
  "env_values = concat (map (\<lambda>f. map (\<lambda>n. (n, cf_EnvVar f, flag_default f)) (flag_names f)) (filter (\<lambda>f. cf_EnvVar f \<noteq> []) (cc_Flags run_command)))"

lemma bare_unset: "(n, v) \<in> set default_values \<Longrightarrow> unset_flag run_command Map.empty env n v"
  by (auto simp: default_values_def unset_flag_def list_ex_iff)

lemma env_flag_read:
  assumes "cli_documented C run_command Map.empty env x" "(n, k, TextValue d) \<in> set env_values" "env k \<noteq> Some []"
  shows "cl_String C x n = from_env env k d"
proof -
  from assms(2) obtain f where f: "f \<in> set (cc_Flags run_command)" "n \<in> set (flag_names f)" "k = cf_EnvVar f" "k \<noteq> []" "flag_default f = TextValue d"
    by (auto simp: env_values_def)
  then have s: "cf_Kind f = StringFlag d" by (auto simp: flag_default_def split: flag_kind.splits)
  have "flag_read C x f n = (if Getenv env k = [] then flag_default f else TextValue (Getenv env k))"
    using assms(1,3) f s by (auto simp: cli_documented_def Getenv_def split: option.splits)
  then show ?thesis using s f(5) by (simp add: flag_read_def from_env_def split: if_splits)
qed

lemma bare_run_flags:
  assumes "cli_documented C run_command Map.empty env x" "\<And>k. k \<in> set workload_vars \<Longrightarrow> env k \<noteq> Some []"
  shows "run_flags_of C x = bare_run_flags env"
proof -
  have v: "list_all (\<lambda>p. p \<in> set default_values)
      [(''listen-address'', TextValue DefaultListenAddress), (''retention-period'', DurationValue (24 * time_Hour)),
       (''infiniband-class-root-dir'', TextValue []), (''components'', TextValue []), (''infiniband-expected-port-states'', TextValue []),
       (''enable-fault-injection'', TruthValue False), (''offline-mode'', TruthValue False), (''path'', TextValue []), (''duration'', TextValue []),
       (''format'', TextValue ''json'')]" by code_simp
  have e: "list_all (\<lambda>p. p \<in> set env_values)
      [(''workload-attribution-source'', ''FLEETINT_WORKLOAD_ATTRIBUTION_SOURCE'', TextValue []),
       (''hpc-job-mapping-dir'', ''FLEETINT_HPC_JOB_MAPPING_DIR'', TextValue []),
       (''hpc-gpu-identifier'', ''FLEETINT_HPC_GPU_IDENTIFIER'', TextValue HPCGPUIdentifierDCGMIndex)]" by code_simp
  have vars: "env ''FLEETINT_WORKLOAD_ATTRIBUTION_SOURCE'' \<noteq> Some []" "env ''FLEETINT_HPC_JOB_MAPPING_DIR'' \<noteq> Some []"
    "env ''FLEETINT_HPC_GPU_IDENTIFIER'' \<noteq> Some []" by (simp_all add: assms(2) workload_vars_def)
  note r = unset_flag_read [OF assms(1), OF bare_unset]
  have "\<not> cl_Bool C x ''enable-fault-injection''" "\<not> cl_Bool C x ''offline-mode''" using v r(2) [where b = False] by simp_all
  moreover have "cl_String C x ''workload-attribution-source'' = from_env env ''FLEETINT_WORKLOAD_ATTRIBUTION_SOURCE'' []"
    "cl_String C x ''hpc-job-mapping-dir'' = from_env env ''FLEETINT_HPC_JOB_MAPPING_DIR'' []"
    "cl_String C x ''hpc-gpu-identifier'' = from_env env ''FLEETINT_HPC_GPU_IDENTIFIER'' HPCGPUIdentifierDCGMIndex"
    using e vars by (auto intro!: env_flag_read [OF assms(1)] simp del: set_simps)
  ultimately show ?thesis using v by (simp add: run_flags_of_def bare_run_flags_def r(1,3) del: set_simps)
qed

text \<open>The default configuration with the settings of an environment and a workload attribution.\<close>

lemma env_config_workload:
  assumes "Default W opts fs = (Ok c0, fs1)" "configureHealthExporterFromEnv PD env c0 = Ok c1" "configureLoopConfigFromEnv PD env c1 = Ok c2"
    and "c = configureWorkloadAttribution src dir gid c2"
  shows "Config_Validate L c = Ok () \<longleftrightarrow> collector_ok L (Getenv env ''FLEETINT_COLLECTOR_ENDPOINT'') \<and> workload_ok (c_WorkloadAttribution c)"
    "c_Address c = DefaultListenAddress" "c_RetentionPeriod c2 = 24 * time_Hour" "c_Address c2 = DefaultListenAddress"
    "\<not> c_EnableFaultInjection c" "\<not> isOfflineMode c" "c_WorkloadAttribution c = None \<longleftrightarrow> src = [] \<and> dir = []"
proof -
  note d = Default_fields [OF assms(1)]
  obtain he where c1: "c1 = c0\<lparr>c_HealthExporter := Some he\<rparr>" and he: "run_all (exporter_setters PD env) default_exporter = Inr he"
    using assms(2) d(1) by (rule configureHealthExporter_Ok)
  have "intervals_ok he" by (rule run_all_inv [where Q = intervals_ok, OF he default_intervals_ok]) (rule exporter_setters_ok)
  then have on: "\<not> he_OfflineMode he" by (simp add: intervals_ok_def)
  have c2: "c_Address c2 = DefaultListenAddress" "c_RetentionPeriod c2 = 24 * time_Hour" "\<not> c_EnableFaultInjection c2"
    "c_WorkloadAttribution c2 = None" "c_HealthExporter c2 = Some he"
    using assms(3) d by (auto simp: c1 elim!: configureLoop_Ok)
  have w: "config_ok L c \<longleftrightarrow> config_ok L c2 \<and> workload_ok (c_WorkloadAttribution c)"
    using c2(4) by (simp add: assms(4) configureWorkloadAttribution_def config_ok_def isOfflineMode_def workload_ok_def split: if_split option.split) blast
  show "Config_Validate L c = Ok () \<longleftrightarrow> collector_ok L (Getenv env ''FLEETINT_COLLECTOR_ENDPOINT'') \<and> workload_ok (c_WorkloadAttribution c)"
    using env_config_valid [OF assms(1-3), of L] w by (simp add: Config_Validate_iff)
  show "c_Address c = DefaultListenAddress" "c_RetentionPeriod c2 = 24 * time_Hour" "c_Address c2 = DefaultListenAddress"
    "\<not> c_EnableFaultInjection c" "\<not> isOfflineMode c" "c_WorkloadAttribution c = None \<longleftrightarrow> src = [] \<and> dir = []"
    using on c2 by (simp_all add: assms(4) configureWorkloadAttribution_def isOfflineMode_def)
qed

section \<open>Properties\<close>

text \<open>
  No command reads a flag it does not declare.  What the run, enroll and inject commands take from the command
  line depends only on flags of their own table, read at the type they are declared with; within a command no name is
  declared twice, and no two commands share a name or an alias.
\<close>

theorem commands_read_declared_flags:
  "(cli_agree C run_command x y \<longrightarrow> run_flags_of C x = run_flags_of C y) \<and>
   (cli_agree C enroll_command x y \<longrightarrow> enroll_flags_of C x = enroll_flags_of C y) \<and>
   (cli_agree C inject_command x y \<longrightarrow> inject_flags_of C x = inject_flags_of C y) \<and>
   list_all (\<lambda>c. distinct (map fst (typed_names c))) App_Commands \<and> distinct (concat (map (\<lambda>c. cc_Name c # cc_Aliases c) App_Commands))"
proof (intro conjI impI)
  have r: "list_all (\<lambda>p. p \<in> set (typed_names run_command)) (map (\<lambda>n. (n, TString))
      [''listen-address'', ''workload-attribution-source'', ''hpc-job-mapping-dir'', ''hpc-gpu-identifier'', ''infiniband-class-root-dir'',
       ''components'', ''infiniband-expected-port-states'', ''path'', ''duration'', ''format''] @
      [(''retention-period'', TDuration), (''enable-fault-injection'', TBool), (''offline-mode'', TBool)])" by code_simp
  show "run_flags_of C x = run_flags_of C y" if "cli_agree C run_command x y"
    using r by (simp add: run_flags_of_def agree_simps [OF that] del: set_simps)
  have e: "list_all (\<lambda>p. p \<in> set (typed_names enroll_command)) (map (\<lambda>n. (n, TString))
      [''endpoint'', ''token'', ''token-file'', ''node-group'', ''compute-zone''] @ [(''force'', TBool)])" by code_simp
  show "enroll_flags_of C x = enroll_flags_of C y" if "cli_agree C enroll_command x y"
    using e by (simp add: enroll_flags_of_def optional_flag_def agree_simps [OF that] del: set_simps)
  have i: "list_all (\<lambda>p. p \<in> set (typed_names inject_command)) (map (\<lambda>n. (n, TString))
      [''component'', ''server-url'', ''fault-type'', ''fault-message'', ''event-type''] @ [(''clear'', TBool)])" by code_simp
  show "inject_flags_of C x = inject_flags_of C y" if "cli_agree C inject_command x y"
    using i by (simp add: inject_flags_of_def agree_simps [OF that] del: set_simps)
  show "list_all (\<lambda>c. distinct (map fst (typed_names c))) App_Commands" by code_simp
  show "distinct (concat (map (\<lambda>c. cc_Name c # cc_Aliases c) App_Commands))" by code_simp
qed

text \<open>A library that looks the flags up in lists of given values.\<close>

definition sample_cli :: "((string \<times> string) list \<times> string list) cli_lib" where
  "sample_cli = \<lparr>cl_String = (\<lambda>x n. case map_of (fst x) n of None \<Rightarrow> [] | Some v \<Rightarrow> v), cl_Bool = (\<lambda>x n. n \<in> set (snd x)),
     cl_Duration = (\<lambda>x n. if n = ''retention-period'' then 24 * time_Hour else 0), cl_IsSet = (\<lambda>x n. n \<in> set (snd x))\<rparr>"

definition bare_context :: "(string \<times> string) list \<times> string list" where
  "bare_context = ([(''log-level'', ''warn''), (''l'', ''warn''), (''listen-address'', DefaultListenAddress),
     (''hpc-gpu-identifier'', HPCGPUIdentifierDCGMIndex), (''format'', ''json'')], [])"

theorem commands_read_declared_flags_witness:
  "cli_agree sample_cli run_command bare_context ((''unknown'', ''v'') # fst bare_context, []) \<and>
   cli_agree sample_cli enroll_command bare_context ((''unknown'', ''v'') # fst bare_context, []) \<and>
   cli_agree sample_cli inject_command bare_context ((''unknown'', ''v'') # fst bare_context, []) \<and>
   rf_format (run_flags_of sample_cli ((''unknown'', ''v'') # fst bare_context, [])) = ''json''"
proof -
  have a: "cli_agree sample_cli c bare_context ((''unknown'', ''v'') # fst bare_context, [])" if "c \<in> {run_command, enroll_command, inject_command}" for c
  proof -
    have "list_all (\<lambda>c. ''unknown'' \<notin> set (map fst (typed_names c))) [run_command, enroll_command, inject_command]" by code_simp
    moreover have "n \<in> set (map fst (typed_names c))" if "f \<in> set (cc_Flags c)" "n \<in> set (flag_names f)" for f n
      using that by (force simp: typed_names_def)
    ultimately have "''unknown'' \<notin> set (flag_names f)" if "f \<in> set (cc_Flags c)" for f
      using \<open>c \<in> _\<close> that by (auto simp del: set_map)
    then show ?thesis by (fastforce simp: cli_agree_def flag_read_def sample_cli_def bare_context_def split: flag_kind.splits)
  qed
  have "rf_format (run_flags_of sample_cli bare_context) = ''json''" by code_simp
  with a commands_read_declared_flags [of sample_cli bare_context "((''unknown'', ''v'') # fst bare_context, [])"] show ?thesis by simp
qed

text \<open>
  C31: What a bare \<open>fleetint run\<close> runs.  Without flags the command starts exactly when the default configuration can be made,
  the environment's exporter and loop settings are accepted, the collector endpoint it names is well formed and the
  workload attribution it names is complete; what runs is then the default configuration with these settings.  It is
  online, listens on the Unix socket and has fault injection off, and it attributes workloads exactly when the environment
  names a source or a mapping directory.  (A workload variable that is set to the empty string is left aside: the
  documentation of the command line library does not cover it.)
\<close>

theorem bare_run_is_default:
  assumes "cli_documented C run_command Map.empty (re_environ R) x" "\<forall>k\<in>set workload_vars. re_environ R k \<noteq> Some []"
  shows "(runCommand_config R (run_flags_of C x) fs = Ok c \<longleftrightarrow>
      (\<exists>c0 c1 c2. fst (Default (re_os R) [[]] fs) = Ok c0 \<and> configureHealthExporterFromEnv (re_parse_duration R) (re_environ R) c0 = Ok c1 \<and>
         configureLoopConfigFromEnv (re_parse_duration R) (re_environ R) c1 = Ok c2 \<and>
         c = configureWorkloadAttribution (Getenv (re_environ R) ''FLEETINT_WORKLOAD_ATTRIBUTION_SOURCE'')
               (Getenv (re_environ R) ''FLEETINT_HPC_JOB_MAPPING_DIR'') (from_env (re_environ R) ''FLEETINT_HPC_GPU_IDENTIFIER'' HPCGPUIdentifierDCGMIndex) c2 \<and>
         collector_ok (re_net R) (Getenv (re_environ R) ''FLEETINT_COLLECTOR_ENDPOINT'') \<and> workload_ok (c_WorkloadAttribution c))) \<and>
    (runCommand_config R (run_flags_of C x) fs = Ok c \<longrightarrow>
       c_Address c = DefaultUnixSocketPath \<and> \<not> c_EnableFaultInjection c \<and> \<not> isOfflineMode c \<and>
       (c_WorkloadAttribution c = None \<longleftrightarrow> Getenv (re_environ R) ''FLEETINT_WORKLOAD_ATTRIBUTION_SOURCE'' = [] \<and>
          Getenv (re_environ R) ''FLEETINT_HPC_JOB_MAPPING_DIR'' = []))"
proof -
  let ?env = "re_environ R"
  let ?wa = "configureWorkloadAttribution (Getenv ?env ''FLEETINT_WORKLOAD_ATTRIBUTION_SOURCE'') (Getenv ?env ''FLEETINT_HPC_JOB_MAPPING_DIR'')
    (from_env ?env ''FLEETINT_HPC_GPU_IDENTIFIER'' HPCGPUIdentifierDCGMIndex)"
  have f: "run_flags_of C x = bare_run_flags ?env" by (rule bare_run_flags [OF assms(1)]) (use assms(2) in auto)
  have fo: "\<not> rf_offline_mode (bare_run_flags ?env)" "rf_ib_port_states (bare_run_flags ?env) = []" "rf_ib_class_root_dir (bare_run_flags ?env) = []"
    by (simp_all add: bare_run_flags_def)
  have flags: "apply_flags (bare_run_flags ?env) c2 = ?wa c2" if "c_Address c2 = DefaultListenAddress" "c_RetentionPeriod c2 = 24 * time_Hour" for c2
    using that by (simp add: apply_flags_def bare_run_flags_def configureWorkloadAttribution_def from_env_def Let_def)
  have made: "runCommand_config R (run_flags_of C x) fs = Ok c \<longleftrightarrow> c = ?wa c2 \<and>
      collector_ok (re_net R) (Getenv ?env ''FLEETINT_COLLECTOR_ENDPOINT'') \<and> workload_ok (c_WorkloadAttribution c)"
    "c = ?wa c2 \<Longrightarrow> c_Address c = DefaultUnixSocketPath \<and> \<not> c_EnableFaultInjection c \<and> \<not> isOfflineMode c \<and>
       (c_WorkloadAttribution c = None \<longleftrightarrow> Getenv ?env ''FLEETINT_WORKLOAD_ATTRIBUTION_SOURCE'' = [] \<and> Getenv ?env ''FLEETINT_HPC_JOB_MAPPING_DIR'' = [])"
    if "fst (Default (re_os R) [[]] fs) = Ok c0" "configureHealthExporterFromEnv (re_parse_duration R) ?env c0 = Ok c1"
      "configureLoopConfigFromEnv (re_parse_duration R) ?env c1 = Ok c2" for c0 c1 c2
  proof -
    from that(1) obtain fs1 where "Default (re_os R) [[]] fs = (Ok c0, fs1)" by (metis prod.collapse)
    note w = env_config_workload [OF this that(2,3), where src = "Getenv ?env ''FLEETINT_WORKLOAD_ATTRIBUTION_SOURCE''"
        and dir = "Getenv ?env ''FLEETINT_HPC_JOB_MAPPING_DIR''" and gid = "from_env ?env ''FLEETINT_HPC_GPU_IDENTIFIER'' HPCGPUIdentifierDCGMIndex", OF refl]
    have "runCommand_config R (run_flags_of C x) fs = (case Config_Validate (re_net R) (?wa c2) of Inl e \<Rightarrow> Error (RunInvalidConfig e) | Inr _ \<Rightarrow> Ok (?wa c2))"
      using that flags [OF w(4,3)] by (simp add: f fo runCommand_config_def offline_duration_def apply_offline_def)
    then show "runCommand_config R (run_flags_of C x) fs = Ok c \<longleftrightarrow> c = ?wa c2 \<and>
        collector_ok (re_net R) (Getenv ?env ''FLEETINT_COLLECTOR_ENDPOINT'') \<and> workload_ok (c_WorkloadAttribution c)"
      using w(1) [where L = "re_net R"] by (cases "Config_Validate (re_net R) (?wa c2)") auto
    show "c = ?wa c2 \<Longrightarrow> c_Address c = DefaultUnixSocketPath \<and> \<not> c_EnableFaultInjection c \<and> \<not> isOfflineMode c \<and>
       (c_WorkloadAttribution c = None \<longleftrightarrow> Getenv ?env ''FLEETINT_WORKLOAD_ATTRIBUTION_SOURCE'' = [] \<and> Getenv ?env ''FLEETINT_HPC_JOB_MAPPING_DIR'' = [])"
      using w(2,5,6,7) by (simp add: DefaultListenAddress_def)
  qed
  have steps: "\<exists>c0 c1 c2. fst (Default (re_os R) [[]] fs) = Ok c0 \<and> configureHealthExporterFromEnv (re_parse_duration R) ?env c0 = Ok c1 \<and>
      configureLoopConfigFromEnv (re_parse_duration R) ?env c1 = Ok c2" if "runCommand_config R (run_flags_of C x) fs = Ok c"
    using that by (rule runCommand_config_Ok) (auto simp: f fo)
  show ?thesis using made steps by blast
qed

text \<open>With an environment that names a workload source and its directory.\<close>

definition sample_environ :: environ where
  "sample_environ = [''FLEETINT_WORKLOAD_ATTRIBUTION_SOURCE'' \<mapsto> ''hpc'', ''FLEETINT_HPC_JOB_MAPPING_DIR'' \<mapsto> ''/jobs'']"

definition workload_context :: "(string \<times> string) list \<times> string list" where
  "workload_context = ((''workload-attribution-source'', ''hpc'') # (''hpc-job-mapping-dir'', ''/jobs'') # fst bare_context, [])"

lemma workload_documented: "cli_documented sample_cli run_command Map.empty sample_environ workload_context"
proof -
  have "list_all (\<lambda>f. list_all (\<lambda>n.
      (cf_EnvVar f \<noteq> [] \<and> Getenv sample_environ (cf_EnvVar f) \<noteq> [] \<longrightarrow> flag_read sample_cli workload_context f n = TextValue (Getenv sample_environ (cf_EnvVar f))) \<and>
      (cf_EnvVar f = [] \<or> sample_environ (cf_EnvVar f) = None \<longrightarrow>
         flag_read sample_cli workload_context f n = flag_default f \<and> \<not> cl_IsSet sample_cli workload_context n)) (flag_names f)) (cc_Flags run_command)"
    by code_simp
  then show ?thesis by (auto simp: cli_documented_def list_all_iff)
qed

theorem bare_run_is_default_witness:
  "\<exists>c w. runCommand_config (sample_run_env\<lparr>re_environ := sample_environ\<rparr>) (run_flags_of sample_cli workload_context)
       [''/var/lib'' \<mapsto> \<lparr>fn_dir = True, fn_mode = 493\<rparr>] = Ok c \<and>
     c_Address c = DefaultUnixSocketPath \<and> \<not> isOfflineMode c \<and> c_WorkloadAttribution c = Some w \<and> wa_Source w = ''hpc''"
proof -
  let ?R = "sample_run_env\<lparr>re_environ := sample_environ\<rparr>" and ?fs = "[''/var/lib'' \<mapsto> \<lparr>fn_dir = True, fn_mode = 493\<rparr>]"
  let ?r = "runCommand_config ?R (run_flags_of sample_cli workload_context) ?fs"
  have k: "case ?r of Inl _ \<Rightarrow> False | Inr c \<Rightarrow> (case c_WorkloadAttribution c of None \<Rightarrow> False | Some w \<Rightarrow> wa_Source w = ''hpc'')" by code_simp
  then obtain c w where c: "?r = Ok c" "c_WorkloadAttribution c = Some w" "wa_Source w = ''hpc''" by (auto split: sum.splits option.splits)
  have doc: "cli_documented sample_cli run_command Map.empty (re_environ ?R) workload_context" using workload_documented by simp
  have "\<forall>k\<in>set workload_vars. re_environ ?R k \<noteq> Some []" by (simp add: sample_environ_def)
  from bare_run_is_default [OF doc this, of ?fs c] c show ?thesis by blast
qed

end
