(* ===== verification/Agent_Run.thy ===== *)
theory Agent_Run
  imports Server Command_Line
begin

text \<open>
  The run command as a whole (\<open>runCommand\<close> of \<open>cmd/fleetint/run.go\<close>): the configuration, the construction of the server,
  and then three goroutines.  The main one waits for \<open>done\<close>; a watcher waits for a signal or for the end of an
  offline run, cancels the context, stops the server and closes \<open>done\<close>; the goroutine of \<open>startServer\<close> serves and stops
  the server when serving ends.  \<open>agent_step\<close> interleaves them.  The lemmas show that the server is stopped at most
  once in every interleaving, and what is left when it is.
\<close>

section \<open>Model\<close>

datatype wake = BySignal | ByTimer

text \<open>Where the goroutines stand.\<close>

datatype watcher = Watching | Woken wake | CtxCancelled wake | ServerStopped wake | DoneClosed wake

datatype serving = Starting | Configured | Serving | ServeEnded | StopCalled

datatype main_thread = AwaitDone | RunReturned | ProcessExited sock_error

text \<open>
  \<open>ag_shut\<close>: the HTTP server was shut down by \<open>Stop\<close>.  \<open>ag_late_srv\<close> and \<open>ag_late_listener\<close>: it was created, and its
  listener opened, after \<open>Stop\<close> had looked for them.
\<close>

record 'r agent =
  ag_server :: server
  ag_world :: "'r server_world"
  ag_files :: sock_files
  ag_cancelled :: bool
  ag_watcher :: watcher
  ag_serving :: serving
  ag_main :: main_thread
  ag_shut :: bool
  ag_late_srv :: bool
  ag_late_listener :: bool

definition boot :: "server \<Rightarrow> 'r server_world \<Rightarrow> sock_files \<Rightarrow> 'r agent" where
  "boot s w fs = \<lparr>ag_server = s, ag_world = w, ag_files = fs, ag_cancelled = False, ag_watcher = Watching, ag_serving = Starting,
     ag_main = AwaitDone, ag_shut = False, ag_late_srv = False, ag_late_listener = False\<rparr>"

text \<open>\<open>Stop\<close>, whoever calls it; closing the listener unlinks the socket.\<close>

definition agent_Stop :: "'r server_env \<Rightarrow> config \<Rightarrow> 'r agent \<Rightarrow> 'r agent" where
  "agent_Stop E cfg a = (case server_Stop E (ag_server a) (ag_world a) of (s, w) \<Rightarrow>
     (let first = (\<not> sv_stopped (ag_server a)) in
      a\<lparr>ag_server := s, ag_world := w, ag_shut := ag_shut a \<or> first \<and> sv_srv (ag_server a),
        ag_files := (if first \<and> sv_listener (ag_server a) then (ag_files a)(c_Address cfg := None) else ag_files a)\<rparr>))"

definition set_srv :: "'r agent \<Rightarrow> 'r agent" where
  "set_srv a = a\<lparr>ag_server := (ag_server a)\<lparr>sv_srv := True\<rparr>, ag_world := logged [Acquire HTTPServer] (ag_world a),
     ag_late_srv := sv_stopped (ag_server a), ag_serving := Configured\<rparr>"

definition set_listener :: "sock_files \<Rightarrow> 'r agent \<Rightarrow> 'r agent" where
  "set_listener fs a = a\<lparr>ag_server := (ag_server a)\<lparr>sv_listener := True\<rparr>, ag_world := logged [Acquire SocketListener] (ag_world a),
     ag_files := fs, ag_late_listener := sv_stopped (ag_server a), ag_serving := Serving\<rparr>"

text \<open>\<open>Serve\<close> closes a listener that \<open>Stop\<close> had not seen when it finds the server shut down.\<close>

definition serve_returns :: "config \<Rightarrow> 'r agent \<Rightarrow> 'r agent" where
  "serve_returns cfg a =
     (if ag_late_listener a
      then a\<lparr>ag_world := logged [Release SocketListener] (ag_world a), ag_files := (ag_files a)(c_Address cfg := None),
             ag_late_listener := False, ag_serving := ServeEnded\<rparr>
      else a\<lparr>ag_serving := ServeEnded\<rparr>)"

text \<open>
  The steps while the process is alive, for an offline run of \<open>d\<close> (zero when online).  Whether the metrics store can
  be created, the socket be opened, and serving go on, is up to the environment.
\<close>

inductive agent_step :: "'r server_env \<Rightarrow> config \<Rightarrow> duration \<Rightarrow> 'r agent \<Rightarrow> 'r agent \<Rightarrow> bool" for E cfg d where
  Signalled: "ag_main a = AwaitDone \<Longrightarrow> ag_watcher a = Watching \<Longrightarrow> agent_step E cfg d a (a\<lparr>ag_watcher := Woken BySignal\<rparr>)"
| Expired: "ag_main a = AwaitDone \<Longrightarrow> ag_watcher a = Watching \<Longrightarrow> 0 < d \<Longrightarrow> agent_step E cfg d a (a\<lparr>ag_watcher := Woken ByTimer\<rparr>)"
| Cancels: "ag_main a = AwaitDone \<Longrightarrow> ag_watcher a = Woken r \<Longrightarrow>
    agent_step E cfg d a (a\<lparr>ag_cancelled := True, ag_watcher := CtxCancelled r\<rparr>)"
| WatcherStops: "ag_main a = AwaitDone \<Longrightarrow> ag_watcher a = CtxCancelled r \<Longrightarrow>
    agent_step E cfg d a ((agent_Stop E cfg a)\<lparr>ag_watcher := ServerStopped r\<rparr>)"
| ClosesDone: "ag_main a = AwaitDone \<Longrightarrow> ag_watcher a = ServerStopped r \<Longrightarrow> agent_step E cfg d a (a\<lparr>ag_watcher := DoneClosed r\<rparr>)"
| Returns: "ag_main a = AwaitDone \<Longrightarrow> ag_watcher a = DoneClosed r \<Longrightarrow> agent_step E cfg d a (a\<lparr>ag_main := RunReturned\<rparr>)"
| StoreFails: "ag_main a = AwaitDone \<Longrightarrow> ag_serving a = Starting \<Longrightarrow> agent_step E cfg d a (a\<lparr>ag_serving := ServeEnded\<rparr>)"
| SetsServer: "ag_main a = AwaitDone \<Longrightarrow> ag_serving a = Starting \<Longrightarrow> agent_step E cfg d a (set_srv a)"
| ServesTCP: "ag_main a = AwaitDone \<Longrightarrow> ag_serving a = Configured \<Longrightarrow> \<not> HasPrefix (c_Address cfg) ''/'' \<Longrightarrow>
    agent_step E cfg d a (a\<lparr>ag_serving := Serving\<rparr>)"
| ServesSocket: "ag_main a = AwaitDone \<Longrightarrow> ag_serving a = Configured \<Longrightarrow> HasPrefix (c_Address cfg) ''/'' \<Longrightarrow>
    open_socket S (c_Address cfg) (ag_files a) = (Ok (), fs) \<Longrightarrow> agent_step E cfg d a (set_listener fs a)"
| SocketFails: "ag_main a = AwaitDone \<Longrightarrow> ag_serving a = Configured \<Longrightarrow> HasPrefix (c_Address cfg) ''/'' \<Longrightarrow>
    open_socket S (c_Address cfg) (ag_files a) = (Error e, fs) \<Longrightarrow>
    agent_step E cfg d a (a\<lparr>ag_files := fs, ag_main := ProcessExited e\<rparr>)"
| ServeFails: "ag_main a = AwaitDone \<Longrightarrow> ag_serving a = Serving \<Longrightarrow>
    agent_step E cfg d a (a\<lparr>ag_main := ProcessExited (ServeFailed e)\<rparr>)"
| ServeReturns: "ag_main a = AwaitDone \<Longrightarrow> ag_serving a = Serving \<Longrightarrow> ag_shut a \<Longrightarrow> agent_step E cfg d a (serve_returns cfg a)"
| ServingStops: "ag_main a = AwaitDone \<Longrightarrow> ag_serving a = ServeEnded \<Longrightarrow>
    agent_step E cfg d a ((agent_Stop E cfg a)\<lparr>ag_serving := StopCalled\<rparr>)"

inductive_cases agent_stepE: "agent_step E cfg d a a'"

text \<open>The command: the log level and the platform, the configuration, the construction, and the boot.\<close>

datatype 'r run_outcome =
    BadLogLevel string
  | UnsupportedOS
  | RunRefused run_error
  | ServerNotBuilt server_error "'r server_world"
  | ServerPanicked string string
  | Booted config duration "'r agent"

definition runCommand :: "'x cli_lib \<Rightarrow> (string \<Rightarrow> (string, bool) result) \<Rightarrow> string \<Rightarrow> run_env \<Rightarrow> 'r server_env \<Rightarrow> 'x
    \<Rightarrow> 'r server_world \<Rightarrow> sock_files \<Rightarrow> 'r run_outcome" where
  "runCommand C parse_level goos R E x w socks =
     (case parse_level (cl_String C x ''log-level'') of
        Inl e \<Rightarrow> BadLogLevel e
      | Inr _ \<Rightarrow>
         if goos \<noteq> ''linux'' then UnsupportedOS
         else (let f = run_flags_of C x in
           case runCommand_config R f (vw_files w) of
             Inl e \<Rightarrow> RunRefused e
           | Inr cfg \<Rightarrow>
               (let d = (case offline_duration f of Inl _ \<Rightarrow> 0 | Inr d \<Rightarrow> d) in
                case server_New E cfg (w\<lparr>vw_files := snd (Default (re_os R) [rf_ib_class_root_dir f] (vw_files w))\<rparr>) of
                  (NewFailed e, w1) \<Rightarrow> ServerNotBuilt e w1
                | (NewPanicked n e, w1) \<Rightarrow> ServerPanicked n e
                | (Started s, w1) \<Rightarrow> Booted cfg d (boot s w1 socks))))"

section \<open>Lemmas\<close>

subsection \<open>What Stop and the serving goroutine do\<close>

definition metric_tasks :: "server_resource set" where
  "metric_tasks = {MetricsSyncer, PrometheusRecorder}"

lemma agent_Stop_simps [simp]:
  "ag_watcher (agent_Stop E cfg a) = ag_watcher a" "ag_serving (agent_Stop E cfg a) = ag_serving a" "ag_main (agent_Stop E cfg a) = ag_main a"
  "ag_cancelled (agent_Stop E cfg a) = ag_cancelled a" "ag_late_srv (agent_Stop E cfg a) = ag_late_srv a"
  "ag_late_listener (agent_Stop E cfg a) = ag_late_listener a" "sv_stopped (ag_server (agent_Stop E cfg a))"
  "ag_shut (agent_Stop E cfg a) = (ag_shut a \<or> \<not> sv_stopped (ag_server a) \<and> sv_srv (ag_server a))"
  "sv_srv (ag_server (agent_Stop E cfg a)) = sv_srv (ag_server a)" "sv_listener (ag_server (agent_Stop E cfg a)) = sv_listener (ag_server a)"
  by (simp_all add: agent_Stop_def server_Stop_def Let_def split: prod.splits)

lemma agent_Stop_twice: "sv_stopped (ag_server a) \<Longrightarrow> agent_Stop E cfg a = a"
  by (simp add: agent_Stop_def Stop_twice)

text \<open>The control part of the invariant.\<close>

definition control_ok :: "duration \<Rightarrow> 'r agent \<Rightarrow> bool" where
  "control_ok d a \<longleftrightarrow>
     (\<forall>r. ag_watcher a \<in> {ServerStopped r, DoneClosed r} \<longrightarrow> sv_stopped (ag_server a)) \<and>
     (ag_serving a = StopCalled \<longrightarrow> sv_stopped (ag_server a)) \<and>
     (\<forall>r. ag_watcher a \<in> {CtxCancelled r, ServerStopped r, DoneClosed r} \<longrightarrow> ag_cancelled a) \<and>
     (sv_stopped (ag_server a) \<longrightarrow> ag_serving a = StopCalled \<or> (\<exists>r. ag_watcher a \<in> {ServerStopped r, DoneClosed r})) \<and>
     (ag_main a = RunReturned \<longrightarrow> (\<exists>r. ag_watcher a = DoneClosed r)) \<and>
     (ag_watcher a \<in> {Woken ByTimer, CtxCancelled ByTimer, ServerStopped ByTimer, DoneClosed ByTimer} \<longrightarrow> 0 < d) \<and>
     (ag_serving a = Starting \<longrightarrow> \<not> sv_srv (ag_server a) \<and> \<not> sv_listener (ag_server a) \<and> \<not> ag_shut a \<and> \<not> ag_late_srv a \<and> \<not> ag_late_listener a) \<and>
     (ag_serving a = Configured \<longrightarrow> \<not> sv_listener (ag_server a) \<and> \<not> ag_late_listener a) \<and>
     (ag_shut a \<longrightarrow> \<not> ag_late_srv a) \<and> (ag_serving a \<in> {ServeEnded, StopCalled} \<longrightarrow> \<not> ag_late_srv a \<and> \<not> ag_late_listener a) \<and>
     (\<not> sv_stopped (ag_server a) \<longrightarrow> \<not> ag_shut a \<and> \<not> ag_late_srv a \<and> \<not> ag_late_listener a)"

lemma control_okD:
  assumes "control_ok d a"
  shows "ag_main a = RunReturned \<Longrightarrow> \<exists>r. ag_watcher a = DoneClosed r"
    "ag_watcher a = DoneClosed r \<Longrightarrow> sv_stopped (ag_server a) \<and> ag_cancelled a"
    "ag_watcher a = DoneClosed ByTimer \<Longrightarrow> 0 < d"
    "ag_serving a \<in> {ServeEnded, StopCalled} \<Longrightarrow> \<not> ag_late_srv a \<and> \<not> ag_late_listener a"
    "sv_stopped (ag_server a) \<Longrightarrow> ag_cancelled a \<or> ag_serving a = StopCalled"
  using assms unfolding control_ok_def by blast+

lemma step_control: "agent_step E cfg d a a' \<Longrightarrow> control_ok d a \<Longrightarrow> control_ok d a'"
  by (erule agent_stepE; simp add: control_ok_def set_srv_def set_listener_def serve_returns_def; (blast | auto)?)

text \<open>The resources: while the server runs the log agrees with its fields; after the stop only late arrivals are held.\<close>

definition fields_ok :: "server \<Rightarrow> bool" where
  "fields_ok s \<longleftrightarrow> distinct (sv_loops s) \<and> set (sv_loops s) \<subseteq> {InventoryLoop, AttestationLoop} \<and> distinct (registered s)"

definition late :: "'r agent \<Rightarrow> server_resource list" where
  "late a = only_if (ag_late_srv a) HTTPServer @ only_if (ag_late_listener a) SocketListener"

definition resources_ok :: "'r agent \<Rightarrow> bool" where
  "resources_ok a \<longleftrightarrow> fields_ok (ag_server a) \<and>
     (if sv_stopped (ag_server a) then track {} (vw_log (ag_world a)) = Some (set (late a) \<union> metric_tasks)
      else tracked metric_tasks (ag_server a) (ag_world a))"

lemma fields_ok_update [simp]:
  "fields_ok (s\<lparr>sv_srv := b\<rparr>) = fields_ok s" "fields_ok (s\<lparr>sv_listener := b\<rparr>) = fields_ok s"
  by (simp_all add: fields_ok_def registered_def)

lemma fields_ok_Stop [simp]: "fields_ok (ag_server (agent_Stop E cfg a)) = fields_ok (ag_server a)"
  by (simp add: agent_Stop_def server_Stop_def fields_ok_def registered_def Let_def split: prod.splits)

lemma fields_distinct: "fields_ok s \<Longrightarrow> distinct (holdings s)"
  by (simp add: fields_ok_def distinct_holdings)

lemma Stop_resources:
  assumes "resources_ok a" "control_ok d a" "ve_loops_exit E"
  shows "resources_ok (agent_Stop E cfg a)"
proof (cases "sv_stopped (ag_server a)")
  case True
  then show ?thesis using assms by (simp add: agent_Stop_twice)
next
  case False
  obtain s w where st: "server_Stop E (ag_server a) (ag_world a) = (s, w)" by fastforce
  from False assms(1) have "tracked metric_tasks (ag_server a) (ag_world a)" by (simp add: resources_ok_def)
  note t = Stop_tracked(1,2) [OF this assms(3) st]
  have w: "ag_world (agent_Stop E cfg a) = w" by (simp add: agent_Stop_def st Let_def)
  have "late (agent_Stop E cfg a) = []" using False assms(2) by (simp add: late_def control_ok_def)
  then show ?thesis using assms(1) t w by (simp add: resources_ok_def)
qed

text \<open>A step that acquires the server or its listener.\<close>

lemma acquire_resources:
  assumes "resources_ok a" "ag_world a' = logged [Acquire r] (ag_world a)" "r \<in> {HTTPServer, SocketListener}"
    and "sv_stopped (ag_server a') = sv_stopped (ag_server a)" "fields_ok (ag_server a')" "r \<notin> set (late a)" "r \<notin> set (holdings (ag_server a))"
    and "set (holdings (ag_server a')) = insert r (set (holdings (ag_server a)))" "sv_stopped (ag_server a) \<Longrightarrow> set (late a') = insert r (set (late a))"
  shows "resources_ok a'"
proof (cases "sv_stopped (ag_server a)")
  case True
  have "r \<notin> metric_tasks" using assms(3) by (auto simp: metric_tasks_def)
  then show ?thesis using assms True by (auto simp: resources_ok_def track_append)
next
  case False
  have "tracked metric_tasks (ag_server a') (logged [Acquire r] (ag_world a))"
  proof (rule tracked_acquire)
    show "tracked metric_tasks (ag_server a) (ag_world a)" using assms(1) False by (simp add: resources_ok_def)
    show "r \<notin> set (holdings (ag_server a)) \<union> metric_tasks" using assms(3,7) by (auto simp: metric_tasks_def)
  qed (use assms False in \<open>auto simp: fields_distinct\<close>)
  then show ?thesis using assms False by (simp add: resources_ok_def)
qed

lemma no_server_held:
  "\<not> sv_srv s \<Longrightarrow> fields_ok s \<Longrightarrow> HTTPServer \<notin> set (holdings s)" "\<not> sv_listener s \<Longrightarrow> fields_ok s \<Longrightarrow> SocketListener \<notin> set (holdings s)"
  by (auto simp: holdings_def fields_ok_def)

lemma set_srv_resources:
  assumes "resources_ok a" "control_ok d a" "ag_serving a = Starting"
  shows "resources_ok (set_srv a)"
proof (rule acquire_resources [OF assms(1), where r = HTTPServer])
  have f: "fields_ok (ag_server a)" using assms(1) by (simp add: resources_ok_def)
  then show "HTTPServer \<notin> set (holdings (ag_server a))" using assms(2,3) by (intro no_server_held) (simp_all add: control_ok_def)
  show "fields_ok (ag_server (set_srv a))" using f by (simp add: set_srv_def)
  show "set (holdings (ag_server (set_srv a))) = insert HTTPServer (set (holdings (ag_server a)))"
    by (auto simp: set_srv_def holdings_def gpud_has_def registered_def)
qed (use assms in \<open>auto simp: set_srv_def late_def control_ok_def\<close>)

lemma set_listener_resources:
  assumes "resources_ok a" "control_ok d a" "ag_serving a = Configured"
  shows "resources_ok (set_listener fs a)"
proof (rule acquire_resources [OF assms(1), where r = SocketListener])
  have f: "fields_ok (ag_server a)" using assms(1) by (simp add: resources_ok_def)
  then show "SocketListener \<notin> set (holdings (ag_server a))" using assms(2,3) by (intro no_server_held) (simp_all add: control_ok_def)
  show "fields_ok (ag_server (set_listener fs a))" using f by (simp add: set_listener_def)
  show "set (holdings (ag_server (set_listener fs a))) = insert SocketListener (set (holdings (ag_server a)))"
    by (auto simp: set_listener_def holdings_def gpud_has_def registered_def)
qed (use assms in \<open>auto simp: set_listener_def late_def control_ok_def\<close>)

lemma serve_returns_resources:
  assumes "resources_ok a" "control_ok d a"
  shows "resources_ok (serve_returns cfg a)"
proof (cases "ag_late_listener a")
  case True
  with assms(2) have "sv_stopped (ag_server a)" by (auto simp: control_ok_def)
  moreover have "set (late a) \<union> metric_tasks - {SocketListener} = set (only_if (ag_late_srv a) HTTPServer) \<union> metric_tasks"
    by (auto simp: late_def metric_tasks_def)
  ultimately show ?thesis using assms(1) True by (simp add: resources_ok_def serve_returns_def track_append late_def)
qed (use assms in \<open>simp add: resources_ok_def serve_returns_def late_def\<close>)

lemma resources_ok_control [simp]:
  "resources_ok (a\<lparr>ag_watcher := x\<rparr>) = resources_ok a" "resources_ok (a\<lparr>ag_serving := y\<rparr>) = resources_ok a"
  "resources_ok (a\<lparr>ag_main := z\<rparr>) = resources_ok a" "resources_ok (a\<lparr>ag_cancelled := b\<rparr>) = resources_ok a"
  "resources_ok (a\<lparr>ag_files := fs\<rparr>) = resources_ok a"
  by (simp_all add: resources_ok_def late_def)

lemma resources_ok_control2 [simp]:
  "resources_ok (a\<lparr>ag_cancelled := b, ag_watcher := x\<rparr>) = resources_ok a" "resources_ok (a\<lparr>ag_files := fs, ag_main := z\<rparr>) = resources_ok a"
  by (simp_all add: resources_ok_def late_def)

lemma step_resources:
  "agent_step E cfg d a a' \<Longrightarrow> control_ok d a \<Longrightarrow> resources_ok a \<Longrightarrow> ve_loops_exit E \<Longrightarrow> resources_ok a'"
  by (erule agent_stepE) (simp_all add: Stop_resources set_srv_resources set_listener_resources serve_returns_resources)

lemma boot_ok:
  assumes "server_New E cfg w = (Started s, w1)" "vw_log w = []"
  shows "control_ok d (boot s w1 fs) \<and> resources_ok (boot s w1 fs)"
  using assms
proof (cases rule: New_cases)
  case (started s')
  then have r: "reached cfg 10 s w1" by simp
  have b: "built cfg 10 s (vw_db w1)" by (rule reached_built [OF r])
  then have f: "fields_ok s" using started_loops_props [of cfg] selected_distinct [of cfg] by (simp add: fields_ok_def built_def registered_def)
  have "control_ok d (boot s w1 fs)" using b by (simp add: control_ok_def boot_def built_def)
  moreover have "tracked metric_tasks s w1" using reached_tracked [OF r] by (simp add: background_def metric_tasks_def)
  ultimately show ?thesis using f b by (simp add: resources_ok_def boot_def built_def)
qed simp_all

definition booted :: "'r server_env \<Rightarrow> config \<Rightarrow> 'r agent \<Rightarrow> bool" where
  "booted E cfg a \<longleftrightarrow> (\<exists>s w w1 fs. server_New E cfg w = (Started s, w1) \<and> vw_log w = [] \<and> a = boot s w1 fs)"

definition agent_ok :: "'r server_env \<Rightarrow> duration \<Rightarrow> 'r agent \<Rightarrow> bool" where
  "agent_ok E d a \<longleftrightarrow> control_ok d a \<and> (ve_loops_exit E \<longrightarrow> resources_ok a)"

subsection \<open>The steps of a run\<close>

fun watcher_rank :: "watcher \<Rightarrow> nat" where
  "watcher_rank Watching = 4"
| "watcher_rank (Woken _) = 3"
| "watcher_rank (CtxCancelled _) = 2"
| "watcher_rank (ServerStopped _) = 1"
| "watcher_rank (DoneClosed _) = 0"

fun serving_rank :: "serving \<Rightarrow> nat" where
  "serving_rank Starting = 4"
| "serving_rank Configured = 3"
| "serving_rank Serving = 2"
| "serving_rank ServeEnded = 1"
| "serving_rank StopCalled = 0"

definition agent_rank :: "'r agent \<Rightarrow> nat" where
  "agent_rank a = watcher_rank (ag_watcher a) + serving_rank (ag_serving a) + (if ag_main a = AwaitDone then 1 else 0)"

lemma step_rank: "agent_step E cfg d a a' \<Longrightarrow> agent_rank a' < agent_rank a"
  by (erule agent_stepE) (simp_all add: agent_rank_def set_srv_def set_listener_def serve_returns_def)

interpretation running: ranked_system "agent_step E cfg d" "booted E cfg" "agent_ok E d" agent_rank for E cfg d
proof unfold_locales
  show "booted E cfg a \<Longrightarrow> agent_ok E d a" for a :: "'a agent" by (auto simp: booted_def agent_ok_def dest: boot_ok)
  show "agent_step E cfg d a a' \<Longrightarrow> agent_ok E d a \<Longrightarrow> agent_ok E d a'" for a a'
    using step_control step_resources by (auto simp: agent_ok_def)
qed (rule step_rank)

lemma agent_reach_ok:
  assumes "(agent_step E cfg d)\<^sup>*\<^sup>* (boot s w1 fs) a" "server_New E cfg w = (Started s, w1)" "vw_log w = []" "ve_loops_exit E"
  shows "control_ok d a \<and> resources_ok a"
proof -
  have "booted E cfg (boot s w1 fs)" using assms(2,3) by (auto simp: booted_def)
  from running.reachable_invariant [OF assms(1) this] assms(4) show ?thesis by (simp add: agent_ok_def)
qed



text \<open>A bound on the steps of a run, where \<open>Stop\<close> is one step; the time \<open>Stop\<close> takes is the subject of \<open>Background_Loops\<close>.\<close>

lemma run_length:
  assumes "server_New E cfg w = (Started s, w1)" "vw_log w = []" "(agent_step E cfg d ^^ n) (boot s w1 fs) a"
  shows "n \<le> 9"
proof -
  have "agent_ok E d (boot s w1 fs)" using assms(1,2) by (intro running.start_invariant) (auto simp: booted_def)
  from running.run_bounded [OF assms(3) this] show ?thesis by (simp add: agent_rank_def boot_def)
qed

text \<open>From wherever it stands the watcher can carry the run to its end on its own.\<close>

lemma watcher_returns:
  assumes "ag_main a = AwaitDone"
  shows "\<exists>a'. (agent_step E cfg d)\<^sup>*\<^sup>* a a' \<and> ag_main a' = RunReturned"
  using assms
proof (induction "watcher_rank (ag_watcher a)" arbitrary: a rule: less_induct)
  case less
  have step: ?case if "agent_step E cfg d a b" "ag_main b = AwaitDone" "watcher_rank (ag_watcher b) < watcher_rank (ag_watcher a)" for b
    using less.hyps [OF that(3,2)] that(1) by (meson converse_rtranclp_into_rtranclp)
  show ?case
  proof (cases "ag_watcher a")
    case Watching
    from step [OF agent_step.Signalled [OF less.prems Watching]] show ?thesis using less.prems Watching by simp
  next
    case (Woken r)
    from step [OF agent_step.Cancels [OF less.prems Woken]] show ?thesis using less.prems Woken by simp
  next
    case (CtxCancelled r)
    from step [OF agent_step.WatcherStops [OF less.prems CtxCancelled]] show ?thesis using less.prems CtxCancelled by simp
  next
    case (ServerStopped r)
    from step [OF agent_step.ClosesDone [OF less.prems ServerStopped]] show ?thesis using less.prems ServerStopped by simp
  next
    case (DoneClosed r)
    have "agent_step E cfg d a (a\<lparr>ag_main := RunReturned\<rparr>)" by (rule agent_step.Returns [OF less.prems DoneClosed])
    then show ?thesis by (intro exI [where x = "a\<lparr>ag_main := RunReturned\<rparr>"]) auto
  qed
qed

subsection \<open>The outcome of the command\<close>

lemma run_duration:
  assumes "runCommand_config R f fs = Ok c" "offline_duration f = Inr d"
  shows "0 < d \<longleftrightarrow> isOfflineMode c"
  using assms(1)
proof (rule runCommand_config_Ok)
  fix d' c0 c1 c2
  assume a: "offline_duration f = Inr d'" "apply_offline (re_path R) (re_mkdir R) f d' (apply_flags f c2) = Inr c"
  note o = run_config_opt_in [OF assms(1)]
  show ?thesis
  proof (cases "rf_offline_mode f")
    case False
    with o assms(2) show ?thesis by (auto simp: offline_duration_def)
  next
    case True
    from o True obtain he where he: "c_HealthExporter c = Some he" "0 < he_Duration he" by blast
    from a(2) True he(1) have "he_Duration he = d'" by (auto simp: apply_offline_def offline_exporter_def split: sum.splits option.splits)
    with he a(1) assms(2) o True show ?thesis by simp
  qed
qed

lemma runCommand_Booted:
  assumes "runCommand C pl goos R E x w socks = Booted cfg d a"
  obtains s w0 w1 where "runCommand_config R (run_flags_of C x) (vw_files w) = Ok cfg" "server_New E cfg w0 = (Started s, w1)" "vw_log w0 = vw_log w"
    "a = boot s w1 socks" "0 < d \<longleftrightarrow> isOfflineMode cfg"
proof -
  let ?f = "run_flags_of C x"
  let ?w = "w\<lparr>vw_files := snd (Default (re_os R) [rf_ib_class_root_dir ?f] (vw_files w))\<rparr>"
  from assms obtain s w1 where c: "runCommand_config R ?f (vw_files w) = Ok cfg" and n: "server_New E cfg ?w = (Started s, w1)"
    and a: "a = boot s w1 socks" and d: "d = (case offline_duration ?f of Inl _ \<Rightarrow> 0 | Inr d \<Rightarrow> d)"
    by (auto simp: runCommand_def Let_def split: sum.splits if_splits prod.splits new_outcome.splits)
  from c obtain d' where o: "offline_duration ?f = Inr d'" by (rule runCommand_config_Ok)
  show thesis using that [OF c n _ a] run_duration [OF c o] d o by simp
qed

subsection \<open>The sequential server is a run\<close>

text \<open>A server that is shut down while it serves: by the watcher, after which serving ends.\<close>

lemma shut_down_run:
  assumes "ag_main a = AwaitDone" "ag_watcher a = Watching" "ag_serving a = Serving" "\<not> sv_stopped (ag_server a)" "sv_srv (ag_server a)"
    "\<not> ag_late_listener a"
  shows "\<exists>a'. (agent_step E cfg d)\<^sup>*\<^sup>* a a' \<and> ag_server a' = ag_server (agent_Stop E cfg a) \<and> ag_world a' = ag_world (agent_Stop E cfg a) \<and>
    ag_files a' = ag_files (agent_Stop E cfg a) \<and> ag_serving a' = StopCalled \<and> ag_main a' = AwaitDone"
proof -
  let ?b = "a\<lparr>ag_watcher := Woken BySignal\<rparr>"
  let ?c = "?b\<lparr>ag_cancelled := True, ag_watcher := CtxCancelled BySignal\<rparr>"
  let ?e = "(agent_Stop E cfg ?c)\<lparr>ag_watcher := ServerStopped BySignal\<rparr>"
  let ?f = "?e\<lparr>ag_serving := ServeEnded\<rparr>"
  let ?g = "?f\<lparr>ag_serving := StopCalled\<rparr>"
  have b: "agent_step E cfg d a ?b" by (rule agent_step.Signalled) (simp_all add: assms)
  have c: "agent_step E cfg d ?b ?c" by (rule agent_step.Cancels) (simp_all add: assms)
  have e: "agent_step E cfg d ?c ?e" by (rule agent_step.WatcherStops) (simp_all add: assms)
  have sr: "serve_returns cfg ?e = ?f" using assms(6) by (simp add: serve_returns_def)
  have f: "agent_step E cfg d ?e ?f" using agent_step.ServeReturns [of ?e E cfg d] assms unfolding sr by simp
  have st: "agent_Stop E cfg ?f = ?f" by (rule agent_Stop_twice) simp
  have g: "agent_step E cfg d ?f ?g" using agent_step.ServingStops [of ?f E cfg d] assms(1) unfolding st by simp
  have r: "(agent_step E cfg d)\<^sup>*\<^sup>* a ?g" using b c e f g by (meson rtranclp.rtrancl_into_rtrancl rtranclp.rtrancl_refl)
  have "ag_server ?g = ag_server (agent_Stop E cfg a)" "ag_world ?g = ag_world (agent_Stop E cfg a)" "ag_files ?g = ag_files (agent_Stop E cfg a)"
    by (simp_all add: agent_Stop_def Let_def split: prod.splits)
  with r assms(1) show ?thesis by (intro exI [where x = ?g]) simp
qed

text \<open>A run that ends with a given server, world and files, and as serving ended.\<close>

definition ends_as :: "'r server_env \<Rightarrow> config \<Rightarrow> duration \<Rightarrow> 'r agent \<Rightarrow> serve_end \<times> server \<times> 'r server_world \<times> sock_files \<Rightarrow> bool" where
  "ends_as E cfg d a r = (\<exists>c. (agent_step E cfg d)\<^sup>*\<^sup>* a c \<and> snd r = (ag_server c, ag_world c, ag_files c) \<and>
     (case fst r of ServeReturned \<Rightarrow> ag_serving c = StopCalled \<and> ag_main c = AwaitDone | ServeExit e \<Rightarrow> ag_main c = ProcessExited e))"

lemma ends_as_step: "agent_step E cfg d a b \<Longrightarrow> ends_as E cfg d b r \<Longrightarrow> ends_as E cfg d a r"
  unfolding ends_as_def by (meson converse_rtranclp_into_rtranclp)

lemma ends_as_exit:
  "agent_step E cfg d a b \<Longrightarrow> ag_main b = ProcessExited e \<Longrightarrow> ends_as E cfg d a (ServeExit e, ag_server b, ag_world b, ag_files b)"
  unfolding ends_as_def by (intro exI [where x = b]) auto

lemma ends_as_stopped:
  assumes "ag_main a = AwaitDone" "ag_serving a = ServeEnded"
  shows "ends_as E cfg d a (ServeReturned, ag_server (agent_Stop E cfg a), ag_world (agent_Stop E cfg a), ag_files (agent_Stop E cfg a))"
  unfolding ends_as_def using agent_step.ServingStops [OF assms, of E cfg d] assms
  by (intro exI [where x = "(agent_Stop E cfg a)\<lparr>ag_serving := StopCalled\<rparr>"]) auto

lemma ends_as_served:
  assumes "ag_main a = AwaitDone" "ag_watcher a = Watching" "ag_serving a = Serving" "\<not> sv_stopped (ag_server a)" "sv_srv (ag_server a)"
    "\<not> ag_late_listener a"
  shows "ends_as E cfg d a (case so_serve S of
      Some e \<Rightarrow> (ServeExit (ServeFailed e), ag_server a, ag_world a, ag_files a)
    | None \<Rightarrow> (ServeReturned, ag_server (agent_Stop E cfg a), ag_world (agent_Stop E cfg a), ag_files (agent_Stop E cfg a)))"
proof (cases "so_serve S")
  case None
  then show ?thesis using shut_down_run [OF assms, of E cfg d] by (auto simp: ends_as_def)
next
  case (Some e)
  then show ?thesis using ends_as_exit [OF agent_step.ServeFails [OF assms(1,3), of E cfg d e]] by simp
qed

section \<open>Properties\<close>

text \<open>
  C8: Running and stopping the agent.  A run only boots on a valid configuration.  In every interleaving of its
  goroutines nothing is acquired twice and nothing released twice, whoever calls \<open>Stop\<close>.  Once the server is stopped
  only the two metric tasks that follow the context remain, and a listener that was opened after \<open>Stop\<close> had passed;
  when serving has ended, not even that.  The command returns only after a signal, or the end of
  an offline run, with the context cancelled and the server stopped.
\<close>

theorem run_stops_once:
  assumes "runCommand C pl goos R E x w socks = Booted cfg d a0" "vw_log w = []" "ve_loops_exit E" "(agent_step E cfg d)\<^sup>*\<^sup>* a0 a"
  shows "Config_Validate (re_net R) cfg = Ok () \<and>
    (\<exists>H. track {} (vw_log (ag_world a)) = Some H \<and>
       (sv_stopped (ag_server a) \<longrightarrow> metric_tasks \<subseteq> H \<and> H \<subseteq> metric_tasks \<union> {HTTPServer, SocketListener} \<and>
          (ag_serving a \<in> {ServeEnded, StopCalled} \<longrightarrow> H = metric_tasks))) \<and>
    (sv_stopped (ag_server a) \<longrightarrow> ag_cancelled a \<or> ag_serving a = StopCalled) \<and>
    (ag_main a = RunReturned \<longrightarrow> sv_stopped (ag_server a) \<and> ag_cancelled a \<and>
       (ag_watcher a = DoneClosed BySignal \<or> ag_watcher a = DoneClosed ByTimer \<and> isOfflineMode cfg))"
proof -
  from assms(1) obtain s w0 w1 where b: "runCommand_config R (run_flags_of C x) (vw_files w) = Ok cfg" "server_New E cfg w0 = (Started s, w1)"
    "vw_log w0 = vw_log w" "a0 = boot s w1 socks" "0 < d \<longleftrightarrow> isOfflineMode cfg" by (rule runCommand_Booted)
  have v: "Config_Validate (re_net R) cfg = Ok ()" using run_config_opt_in [OF b(1)] by simp
  have "control_ok d a \<and> resources_ok a"
    by (rule agent_reach_ok [OF assms(4) [unfolded b(4)] b(2) _ assms(3)]) (simp add: b(3) assms(2))
  then have c: "control_ok d a" and r: "resources_ok a" by simp_all
  note k = control_okD [OF c]
  have h: "\<exists>H. track {} (vw_log (ag_world a)) = Some H \<and>
       (sv_stopped (ag_server a) \<longrightarrow> metric_tasks \<subseteq> H \<and> H \<subseteq> metric_tasks \<union> {HTTPServer, SocketListener} \<and>
          (ag_serving a \<in> {ServeEnded, StopCalled} \<longrightarrow> H = metric_tasks))"
  proof (cases "sv_stopped (ag_server a)")
    case True
    with r have "track {} (vw_log (ag_world a)) = Some (set (late a) \<union> metric_tasks)" by (simp add: resources_ok_def)
    moreover have "set (late a) \<subseteq> {HTTPServer, SocketListener}" by (auto simp: late_def)
    moreover have "ag_serving a \<in> {ServeEnded, StopCalled} \<Longrightarrow> late a = []" using k(4) by (simp add: late_def)
    ultimately show ?thesis by (intro exI [where x = "set (late a) \<union> metric_tasks"]) auto
  next
    case False
    with r show ?thesis by (simp add: resources_ok_def tracked_def)
  qed
  have w: "sv_stopped (ag_server a) \<and> ag_cancelled a \<and> (ag_watcher a = DoneClosed BySignal \<or> ag_watcher a = DoneClosed ByTimer \<and> isOfflineMode cfg)"
    if m: "ag_main a = RunReturned"
  proof -
    from k(1) [OF m] obtain r where r: "ag_watcher a = DoneClosed r" by blast
    then show ?thesis using k(2) k(3) b(5) by (cases r) auto
  qed
  show ?thesis using v h w k(5) by blast
qed

definition sample_run_world :: "unit server_world" where
  "sample_run_world = empty_server_world\<lparr>vw_files := [''/var/lib'' \<mapsto> \<lparr>fn_dir = True, fn_mode = 493\<rparr>]\<rparr>"

abbreviation sample_run :: "unit run_outcome" where
  "sample_run \<equiv> runCommand sample_cli (\<lambda>s. Inr False) ''linux'' (sample_run_env\<lparr>re_environ := Map.empty\<rparr>) sample_server_env ((''components'', ''cpu'') # fst bare_context, [])
     sample_run_world Map.empty"

lemma sample_run_boots: "\<exists>cfg d a. sample_run = Booted cfg d a"
proof -
  have "case sample_run of Booted _ _ _ \<Rightarrow> True | _ \<Rightarrow> False" by code_simp
  then show ?thesis by (auto split: run_outcome.splits)
qed

theorem run_stops_once_witness:
  "\<exists>cfg d a0 a. sample_run = Booted cfg d a0 \<and> (agent_step sample_server_env cfg d)\<^sup>*\<^sup>* a0 a \<and> ag_main a = RunReturned \<and>
     sv_stopped (ag_server a) \<and> ag_cancelled a"
proof -
  obtain cfg d a0 where r: "sample_run = Booted cfg d a0" using sample_run_boots by blast
  then have "ag_main a0 = AwaitDone" by (rule runCommand_Booted) (simp add: boot_def)
  then obtain a where a: "(agent_step sample_server_env cfg d)\<^sup>*\<^sup>* a0 a" "ag_main a = RunReturned" by (metis watcher_returns)
  have "vw_log sample_run_world = []" "ve_loops_exit sample_server_env"
    by (simp_all add: sample_run_world_def empty_server_world_def sample_server_env_def)
  from run_stops_once [OF r this a(1)] a r show ?thesis by blast
qed



text \<open>
  The two models of serving agree.  What the serving goroutine does from start to end, taken as one operation on a
  server that does not serve yet, is a run of the interleaved goroutines, with the same server, log of resources and
  files, and with the same end of the process if there is one.
\<close>

lemma startServer_is_run:
  assumes "\<not> sv_stopped s" "\<not> sv_srv s" "\<not> sv_listener s"
  shows "ends_as E cfg d (boot s w fs) (startServer E S cfg s w fs)"
proof (cases "ve_metricsstore E")
  case (Some e)
  let ?b = "(boot s w fs)\<lparr>ag_serving := ServeEnded\<rparr>"
  have b: "agent_step E cfg d (boot s w fs) ?b" by (rule agent_step.StoreFails) (simp_all add: boot_def)
  have "ends_as E cfg d ?b (ServeReturned, ag_server (agent_Stop E cfg ?b), ag_world (agent_Stop E cfg ?b), ag_files (agent_Stop E cfg ?b))"
    by (rule ends_as_stopped) (simp_all add: boot_def)
  then show ?thesis using Some assms
    by (intro ends_as_step [OF b]) (simp add: startServer_def agent_Stop_def boot_def Let_def split: prod.splits)
next
  case None
  let ?a = "set_srv (boot s w fs)"
  have a: "agent_step E cfg d (boot s w fs) ?a" by (rule agent_step.SetsServer) (simp_all add: boot_def)
  have pa: "ag_main ?a = AwaitDone" "ag_serving ?a = Configured" by (simp_all add: set_srv_def boot_def)
  note fields = set_srv_def set_listener_def boot_def
  obtain r fs1 where o: "open_socket S (c_Address cfg) fs = (r, fs1)" by fastforce
  have "ends_as E cfg d ?a (startServer E S cfg s w fs)"
  proof (cases "HasPrefix (c_Address cfg) ''/''")
    case False
    let ?b = "?a\<lparr>ag_serving := Serving\<rparr>"
    have s: "ends_as E cfg d ?b (case so_serve S of
        Some e \<Rightarrow> (ServeExit (ServeFailed e), ag_server ?b, ag_world ?b, ag_files ?b)
      | None \<Rightarrow> (ServeReturned, ag_server (agent_Stop E cfg ?b), ag_world (agent_Stop E cfg ?b), ag_files (agent_Stop E cfg ?b)))"
      by (rule ends_as_served) (use assms in \<open>simp_all add: fields\<close>)
    show ?thesis by (rule ends_as_step [OF agent_step.ServesTCP [OF pa False]], rule back_subst [of "ends_as E cfg d ?b", OF s])
      (use assms None False in \<open>simp add: startServer_def agent_Stop_def fields Let_def split: option.splits prod.splits\<close>)
  next
    case True
    show ?thesis
    proof (cases r)
      case (Inl e)
      have b: "agent_step E cfg d ?a (?a\<lparr>ag_files := fs1, ag_main := ProcessExited e\<rparr>)"
        by (rule agent_step.SocketFails [OF pa True, where S = S]) (use o Inl in \<open>simp add: fields\<close>)
      show ?thesis using ends_as_exit [OF b, of e] None True Inl o by (simp add: startServer_def fields Let_def)
    next
      case (Inr u)
      let ?b = "set_listener fs1 ?a"
      have b: "agent_step E cfg d ?a ?b" by (rule agent_step.ServesSocket [OF pa True, where S = S]) (use o Inr in \<open>simp add: fields\<close>)
      have s: "ends_as E cfg d ?b (case so_serve S of
          Some e \<Rightarrow> (ServeExit (ServeFailed e), ag_server ?b, ag_world ?b, ag_files ?b)
        | None \<Rightarrow> (ServeReturned, ag_server (agent_Stop E cfg ?b), ag_world (agent_Stop E cfg ?b), ag_files (agent_Stop E cfg ?b)))"
        by (rule ends_as_served) (use assms in \<open>simp_all add: fields\<close>)
      show ?thesis by (rule ends_as_step [OF b], rule back_subst [of "ends_as E cfg d ?b", OF s])
        (use assms None True Inr o in \<open>simp add: startServer_def agent_Stop_def fields Let_def split: option.splits prod.splits\<close>)
    qed
  qed
  then show ?thesis by (rule ends_as_step [OF a])
qed

end
