(* ===== verification/Background_Loops.thy ===== *)
theory Background_Loops
  imports Server
begin

text \<open>
  How the background loops end (\<open>Run\<close>, \<open>runAttempt\<close> and \<open>sleepWithContext\<close> of \<open>internal/inventory/manager.go\<close> and
  \<open>internal/attestation/manager.go\<close>, \<open>waitForWaitGroup\<close> of \<open>internal/server/server.go\<close>).  \<open>Stop\<close> cancels the context of the
  loops and waits for them, ten seconds at most.  Here the loops run against a clock: an attempt takes the time it takes
  but no longer than its timeout or the context allows, a sleep ends by its timer or with the context.  What takes no
  time in this model is the code between the waits.  The lemmas show that a loop returns at the moment its context is
  cancelled, and that \<open>Stop\<close> with its two waits of ten seconds returns, whoever calls it, unless closing a resource hangs.
\<close>

section \<open>Model\<close>

datatype sleep_end = SleptThrough | ContextEnded

text \<open>
  \<open>left\<close> is the time until the context is done, not positive when it already is; \<open>tie\<close> is the choice of \<open>select\<close> when
  timer and context are ready together.
\<close>

definition sleepWithContext :: "duration \<Rightarrow> duration \<Rightarrow> bool \<Rightarrow> sleep_end" where
  "sleepWithContext delay left tie =
     (if delay \<le> 0 then (if left \<le> 0 then ContextEnded else SleptThrough)
      else if left < delay \<or> left = delay \<and> tie then ContextEnded
      else SleptThrough)"

record loop_timing =
  lt_Interval :: duration
  lt_RetryInterval :: duration
  lt_Timeout :: duration
  lt_StartupJitter :: duration

text \<open>
  An attempt: how long \<open>CollectOnce\<close> takes, \<^const>\<open>None\<close> when it does not return, whether it fails, and the choice of
  \<open>select\<close> for the sleep after it.  An attempt that finds the mutex taken fails at once.
\<close>

record timed_attempt =
  ta_takes :: "duration option"
  ta_fails :: bool
  ta_tie :: bool

text \<open>
  \<open>runAttempt\<close>, started at \<open>t\<close> under a context that is done at \<open>T\<close>: when it returns, and whether with an error.  Without
  a timeout it returns when \<open>CollectOnce\<close> does.
\<close>

definition attempt_end :: "loop_timing \<Rightarrow> duration \<Rightarrow> duration \<Rightarrow> timed_attempt \<Rightarrow> (duration \<times> bool) option" where
  "attempt_end L T t a =
     (if lt_Timeout L \<le> 0 then map_option (\<lambda>d. (t + d, ta_fails a)) (ta_takes a)
      else let limit = min (t + lt_Timeout L) (max t T) in
        (case ta_takes a of
           None \<Rightarrow> Some (limit, True)
         | Some d \<Rightarrow> if t + d \<le> limit then Some (t + d, ta_fails a) else Some (limit, True)))"

definition next_delay :: "loop_timing \<Rightarrow> bool \<Rightarrow> duration" where
  "next_delay L failed = (if failed \<and> 0 < lt_RetryInterval L then lt_RetryInterval L else lt_Interval L)"

text \<open>Attempts and sleeps in turn from \<open>t\<close> on: when the loop returns, \<^const>\<open>None\<close> when it does not within the attempts given.\<close>

fun loop_end :: "loop_timing \<Rightarrow> duration \<Rightarrow> duration \<Rightarrow> timed_attempt list \<Rightarrow> duration option" where
  "loop_end L T t [] = None"
| "loop_end L T t (a # rest) = (case attempt_end L T t a of
      None \<Rightarrow> None
    | Some (e, failed) \<Rightarrow>
        (let d = next_delay L failed in
         case sleepWithContext d (T - e) (ta_tie a) of
           ContextEnded \<Rightarrow> Some (max e T)
         | SleptThrough \<Rightarrow> loop_end L T (e + max 0 d) rest))"

text \<open>The startup jitter, then the body from the time it ends.\<close>

definition after_jitter :: "loop_timing \<Rightarrow> duration \<Rightarrow> duration \<Rightarrow> bool \<Rightarrow> (duration \<Rightarrow> duration option) \<Rightarrow> duration option" where
  "after_jitter L T jitter tie body =
     (if 0 < lt_StartupJitter L then
        (case sleepWithContext jitter T tie of ContextEnded \<Rightarrow> Some (max 0 T) | SleptThrough \<Rightarrow> body (max 0 jitter))
      else body 0)"

text \<open>The two managers differ in what a loop without an interval does: one attempt, or none.\<close>

definition inventory_returns :: "loop_timing \<Rightarrow> duration \<Rightarrow> duration \<Rightarrow> bool \<Rightarrow> timed_attempt list \<Rightarrow> duration option" where
  "inventory_returns L T jitter tie as = after_jitter L T jitter tie (\<lambda>t.
     if lt_Interval L \<le> 0 then (case as of [] \<Rightarrow> None | a # _ \<Rightarrow> map_option fst (attempt_end L T t a)) else loop_end L T t as)"

definition attestation_returns :: "loop_timing \<Rightarrow> duration \<Rightarrow> duration \<Rightarrow> bool \<Rightarrow> timed_attempt list \<Rightarrow> duration option" where
  "attestation_returns L T jitter tie as =
     (if lt_Interval L \<le> 0 then Some 0 else after_jitter L T jitter tie (\<lambda>t. loop_end L T t as))"

definition inventory_timing :: "inventory_loop_config \<Rightarrow> loop_timing" where
  "inventory_timing c = \<lparr>lt_Interval = il_Interval c, lt_RetryInterval = il_RetryInterval c, lt_Timeout = il_Timeout c, lt_StartupJitter = il_StartupJitter c\<rparr>"

definition attestation_timing :: "attestation_config \<Rightarrow> loop_timing" where
  "attestation_timing c = \<lparr>lt_Interval = at_Interval c, lt_RetryInterval = at_RetryInterval c, lt_Timeout = at_Timeout c, lt_StartupJitter = at_StartupJitter c\<rparr>"

text \<open>
  \<open>waitForWaitGroup\<close>, where the last goroutine is done after \<open>finished\<close> and \<open>tie\<close> is again a choice of \<open>select\<close>: what it
  returns and after how long; \<^const>\<open>None\<close> is waiting forever.
\<close>

definition waitForWaitGroup :: "duration \<Rightarrow> duration option \<Rightarrow> bool \<Rightarrow> (bool \<times> duration) option" where
  "waitForWaitGroup timeout finished tie =
     (if timeout \<le> 0 then map_option (Pair True) finished
      else Some (case finished of
        None \<Rightarrow> (False, timeout)
      | Some t \<Rightarrow> if t < timeout \<or> t = timeout \<and> tie then (True, t) else (False, timeout)))"

text \<open>When the loops of a server are done: the later of those that were started.\<close>

definition loops_done :: "config \<Rightarrow> duration \<Rightarrow> duration \<times> bool \<times> timed_attempt list \<Rightarrow> duration \<times> bool \<times> timed_attempt list \<Rightarrow> duration option" where
  "loops_done cfg T ri ra =
     (case (case inventory_loop cfg of None \<Rightarrow> Some T | Some (_, lc) \<Rightarrow> (case ri of (j, tie, as) \<Rightarrow> inventory_returns (inventory_timing lc) T j tie as),
            case attestation_loop cfg of None \<Rightarrow> Some T | Some ac \<Rightarrow> (case ra of (j, tie, as) \<Rightarrow> attestation_returns (attestation_timing ac) T j tie as)) of
        (Some x, Some y) \<Rightarrow> Some (max x y)
      | _ \<Rightarrow> None)"

subsection \<open>Stop\<close>

text \<open>
  The body of \<open>Stop\<close> against the clock.  \<open>finished\<close> is when the loops are done, counted from their cancellation; \<open>drained\<close>
  when the HTTP server would have finished its requests, counted from \<open>Shutdown\<close>; \<open>takes\<close> how long it takes to close a
  resource.  Each is \<^const>\<open>None\<close> when it never happens.  \<open>Shutdown\<close> gives up after ten seconds, and \<open>Close\<close> of the HTTP
  server waits for nothing.
\<close>

definition shutdown_elapsed :: "server \<Rightarrow> duration option \<Rightarrow> duration" where
  "shutdown_elapsed s drained =
     (if \<not> sv_srv s then 0
      else case drained of None \<Rightarrow> 10 * time_Second | Some t \<Rightarrow> min t (10 * time_Second))"

text \<open>What is closed after the waits, one after the other.\<close>

definition closed_in_turn :: "server \<Rightarrow> server_resource list" where
  "closed_in_turn s = filter (\<lambda>r. r \<notin> set (sv_loops s) \<and> r \<noteq> LoopContext \<and> r \<noteq> HTTPServer) (holdings s)"

fun closes_elapsed :: "(server_resource \<Rightarrow> duration option) \<Rightarrow> server_resource list \<Rightarrow> duration option" where
  "closes_elapsed takes [] = Some 0"
| "closes_elapsed takes (r # rs) = (case takes r of
      None \<Rightarrow> None
    | Some t \<Rightarrow> map_option (\<lambda>u. t + u) (closes_elapsed takes rs))"

definition stop_elapsed :: "server \<Rightarrow> duration option \<Rightarrow> bool \<Rightarrow> duration option \<Rightarrow> (server_resource \<Rightarrow> duration option) \<Rightarrow> duration option" where
  "stop_elapsed s finished tie drained takes =
     (case waitForWaitGroup (10 * time_Second) finished tie of
        None \<Rightarrow> None
      | Some (_, waited) \<Rightarrow> map_option (\<lambda>c. waited + shutdown_elapsed s drained + c) (closes_elapsed takes (closed_in_turn s)))"

text \<open>
  \<open>Stop\<close> is called by the watcher of the signals and by the goroutine that serves, which may have been first, and
  \<open>sync.Once\<close> makes a second caller wait for the first.  When a call made at \<open>t\<close> returns, the body taking \<open>elapsed\<close>.
\<close>

definition once_returns :: "duration \<Rightarrow> duration option \<Rightarrow> duration option \<Rightarrow> duration option" where
  "once_returns t other elapsed =
     map_option (\<lambda>b. max t ((case other of None \<Rightarrow> t | Some u \<Rightarrow> min t u) + b)) elapsed"

section \<open>Lemmas\<close>

definition paced :: "loop_timing \<Rightarrow> duration \<Rightarrow> bool" where
  "paced L m \<longleftrightarrow> 0 < m \<and> 0 < lt_Timeout L \<and> m \<le> lt_Interval L \<and> (0 < lt_RetryInterval L \<longrightarrow> m \<le> lt_RetryInterval L)"

lemma paced_delay: "paced L m \<Longrightarrow> m \<le> next_delay L failed"
  by (auto simp: paced_def next_delay_def)

text \<open>Under a context that ends at \<open>T\<close> an attempt with a timeout returns, and not later than that.\<close>

lemma attempt_end_within:
  assumes "0 < lt_Timeout L" "t \<le> T" "\<forall>d. ta_takes a = Some d \<longrightarrow> 0 \<le> d"
  obtains e failed where "attempt_end L T t a = Some (e, failed)" "t \<le> e" "e \<le> T"
proof (cases "ta_takes a")
  case None
  then show thesis using assms that [of "min (t + lt_Timeout L) (max t T)" True] by (simp add: attempt_end_def)
next
  case (Some d)
  then show thesis using assms that by (cases "t + d \<le> min (t + lt_Timeout L) (max t T)") (auto simp: attempt_end_def Let_def)
qed

lemma loop_ends_when_cancelled:
  assumes "paced L m" "t \<le> T" "T - t < m * int (length as)" "list_all (\<lambda>a. \<forall>d. ta_takes a = Some d \<longrightarrow> 0 \<le> d) as"
  shows "loop_end L T t as = Some T"
  using assms(2-4)
proof (induction as arbitrary: t)
  case (Cons a rest)
  have "0 < lt_Timeout L" using assms(1) by (simp add: paced_def)
  then obtain e failed where e: "attempt_end L T t a = Some (e, failed)" "t \<le> e" "e \<le> T"
    using Cons.prems by (auto intro: attempt_end_within [of L t T a])
  let ?d = "next_delay L failed"
  have m: "0 < m" "m \<le> ?d" using assms(1) paced_delay by (auto simp: paced_def)
  show ?case
  proof (cases "sleepWithContext ?d (T - e) (ta_tie a)")
    case ContextEnded
    then show ?thesis using e by (simp add: Let_def)
  next
    case SleptThrough
    with m have le: "e + ?d \<le> T" by (auto simp: sleepWithContext_def split: if_splits)
    moreover have "T - (e + ?d) < m * int (length rest)" using Cons.prems(2) e(2) m by (simp add: algebra_simps)
    ultimately have "loop_end L T (e + ?d) rest = Some T" using Cons.prems(3) by (intro Cons.IH) simp_all
    then show ?thesis using e SleptThrough m by (simp add: Let_def)
  qed
qed simp

lemma after_jitter_ends:
  assumes "0 \<le> T" "0 \<le> jitter" "\<And>t. 0 \<le> t \<Longrightarrow> t \<le> T \<Longrightarrow> body t = Some T"
  shows "after_jitter L T jitter tie body = Some T"
  using assms by (auto simp: after_jitter_def sleepWithContext_def split: sleep_end.splits)

lemma returns_when_cancelled:
  assumes "paced L m" "0 \<le> T" "0 \<le> jitter" "T < m * int (length as)" "list_all (\<lambda>a. \<forall>d. ta_takes a = Some d \<longrightarrow> 0 \<le> d) as"
  shows "inventory_returns L T jitter tie as = Some T" "attestation_returns L T jitter tie as = Some T"
proof -
  have i: "0 < lt_Interval L" using assms(1) by (auto simp: paced_def)
  have l: "loop_end L T t as = Some T" if "0 \<le> t" "t \<le> T" for t
    using that assms by (intro loop_ends_when_cancelled [OF assms(1)]) auto
  show "inventory_returns L T jitter tie as = Some T" "attestation_returns L T jitter tie as = Some T"
    using i l assms by (auto simp: inventory_returns_def attestation_returns_def intro!: after_jitter_ends)
qed

definition run_fits :: "duration \<Rightarrow> duration \<times> bool \<times> timed_attempt list \<Rightarrow> bool" where
  "run_fits T r \<longleftrightarrow> (case r of (jitter, tie, as) \<Rightarrow>
     0 \<le> jitter \<and> T < 5 * time_Minute * int (length as) \<and> list_all (\<lambda>a. \<forall>d. ta_takes a = Some d \<longrightarrow> 0 \<le> d) as)"

lemma validated_paced:
  assumes "Config_Validate L cfg = Ok ()"
  shows "inventory_loop cfg = Some (a, lc) \<Longrightarrow> paced (inventory_timing lc) (5 * time_Minute)"
    "attestation_loop cfg = Some ac \<Longrightarrow> paced (attestation_timing ac) (5 * time_Minute)"
  using validated_loops_paced [OF assms] by (auto simp: paced_def inventory_timing_def attestation_timing_def time_Minute_def)

lemma loops_done_when_cancelled:
  assumes "Config_Validate L cfg = Ok ()" "0 \<le> T" "run_fits T ri" "run_fits T ra"
  shows "loops_done cfg T ri ra = Some T"
proof -
  obtain ji ti ai where i: "ri = (ji, ti, ai)" by (metis prod_cases3)
  obtain ja ta aa where a: "ra = (ja, ta, aa)" by (metis prod_cases3)
  have "inventory_returns (inventory_timing lc) T ji ti ai = Some T" if "inventory_loop cfg = Some (c, lc)" for c lc
    using assms(3) by (intro returns_when_cancelled(1) [OF validated_paced(1) [OF assms(1) that] assms(2)]) (simp_all add: run_fits_def i)
  moreover have "attestation_returns (attestation_timing ac) T ja ta aa = Some T" if "attestation_loop cfg = Some ac" for ac
    using assms(4) by (intro returns_when_cancelled(2) [OF validated_paced(2) [OF assms(1) that] assms(2)]) (simp_all add: run_fits_def a)
  ultimately show ?thesis by (auto simp: loops_done_def i a split: option.splits)
qed

text \<open>Closing in turn takes as long as all together, and forever when one does.\<close>

lemma closes_elapsed_eq:
  "closes_elapsed takes rs = (if \<exists>r \<in> set rs. takes r = None then None else Some (\<Sum>r\<leftarrow>rs. the (takes r)))"
  by (induction rs) (auto split: option.split)

lemma wait_bounded:
  assumes "\<forall>t. finished = Some t \<longrightarrow> 0 \<le> t"
  obtains b waited where "waitForWaitGroup (10 * time_Second) finished tie = Some (b, waited)" "0 \<le> waited" "waited \<le> 10 * time_Second"
    "finished = Some 0 \<Longrightarrow> waited = 0"
proof -
  let ?w = "case finished of None \<Rightarrow> (False, 10 * time_Second)
    | Some t \<Rightarrow> if t < 10 * time_Second \<or> t = 10 * time_Second \<and> tie then (True, t) else (False, 10 * time_Second)"
  have p: "0 < 10 * time_Second" by (simp add: time_Second_def)
  then have w: "waitForWaitGroup (10 * time_Second) finished tie = Some ?w" by (simp add: waitForWaitGroup_def)
  have b: "0 \<le> snd ?w \<and> snd ?w \<le> 10 * time_Second" "finished = Some 0 \<Longrightarrow> snd ?w = 0"
    using assms p by (auto split: option.split)
  show thesis by (rule that [of "fst ?w" "snd ?w"]) (use w b in simp_all)
qed

lemma shutdown_bounded: "\<forall>t. drained = Some t \<longrightarrow> 0 \<le> t \<Longrightarrow> 0 \<le> shutdown_elapsed s drained \<and> shutdown_elapsed s drained \<le> 10 * time_Second"
  by (auto simp: shutdown_elapsed_def time_Second_def split: option.split)

section \<open>Properties\<close>

text \<open>
  C17: Stopping the server ends its loops.  Under a configuration that passes its check, whatever the attempts do, even
  when one never returns, both loops return at the moment their context is cancelled, so that the ten seconds \<open>Stop\<close> waits
  for them are never used up.  (The attempts given reach beyond the time of the cancellation, at one every five minutes.)
\<close>

theorem stop_ends_loops:
  assumes "Config_Validate L cfg = Ok ()" "0 \<le> T" "run_fits T ri" "run_fits T ra"
  shows "loops_done cfg T ri ra = Some T \<and>
    waitForWaitGroup (10 * time_Second) (map_option (\<lambda>e. e - T) (loops_done cfg T ri ra)) tie = Some (True, 0)"
  using loops_done_when_cancelled [OF assms] by (simp add: waitForWaitGroup_def time_Second_def)

text \<open>An attempt that never returns, and a cancellation after a minute and a half.\<close>

theorem stop_ends_loops_witness:
  "\<exists>c lc. inventory_loop ((sample_config [])\<lparr>c_Inventory := Some \<lparr>lc_Enabled = True, lc_Interval = time_Hour\<rparr>\<rparr>) = Some (c, lc) \<and>
     loops_done ((sample_config [])\<lparr>c_Inventory := Some \<lparr>lc_Enabled = True, lc_Interval = time_Hour\<rparr>\<rparr>) (90 * time_Second)
       (0, True, [\<lparr>ta_takes = None, ta_fails = False, ta_tie = True\<rparr>]) (0, True, [\<lparr>ta_takes = None, ta_fails = False, ta_tie = True\<rparr>]) = Some (90 * time_Second)"
proof -
  let ?c = "(sample_config [])\<lparr>c_Inventory := Some \<lparr>lc_Enabled = True, lc_Interval = time_Hour\<rparr>\<rparr>"
  let ?a = "(0, True, [\<lparr>ta_takes = None, ta_fails = False, ta_tie = True\<rparr>]) :: duration \<times> bool \<times> timed_attempt list"
  have v: "Config_Validate plain_netlib ?c = Ok ()"
    by (simp add: Config_Validate_iff config_ok_def workload_ok_def loop_ok_def isOfflineMode_def sample_config_def duration_defs)
  have "run_fits (90 * time_Second) ?a" "0 \<le> 90 * time_Second" by (simp_all add: run_fits_def duration_defs)
  with stop_ends_loops [OF v, of "90 * time_Second" ?a ?a] have "loops_done ?c (90 * time_Second) ?a ?a = Some (90 * time_Second)" by simp
  moreover have "\<exists>c lc. inventory_loop ?c = Some (c, lc)" by (simp add: inventory_loop_def getInventorySyncInterval_def Let_def duration_defs)
  ultimately show ?thesis by blast
qed

text \<open>
  C15: \<open>Stop\<close> returns in time.  Whatever the loops and the requests being served do, even when none of them ever ends, and
  whether or not the serving goroutine has called \<open>Stop\<close> as well, a call returns within twenty seconds and the time it
  takes to close what the server holds; and within ten seconds and that time when the loops end as they do under a
  configuration that passes its check.  It does not return when closing a resource never ends: there the code sets no
  limit.
\<close>

theorem stop_returns_in_time:
  assumes "\<forall>t. finished = Some t \<longrightarrow> 0 \<le> t" "\<forall>t. drained = Some t \<longrightarrow> 0 \<le> t" "\<forall>r t. takes r = Some t \<longrightarrow> 0 \<le> t"
  shows "case once_returns T other (stop_elapsed s finished tie drained takes) of
      None \<Rightarrow> \<exists>r \<in> set (closed_in_turn s). takes r = None
    | Some e \<Rightarrow> (\<forall>r \<in> set (closed_in_turn s). takes r \<noteq> None) \<and> T \<le> e \<and>
        e \<le> T + 20 * time_Second + (\<Sum>r\<leftarrow>closed_in_turn s. the (takes r)) \<and>
        (Config_Validate L cfg = Ok () \<and> 0 \<le> C \<and> run_fits C ri \<and> run_fits C ra \<and> finished = map_option (\<lambda>e. e - C) (loops_done cfg C ri ra) \<longrightarrow>
          e \<le> T + 10 * time_Second + (\<Sum>r\<leftarrow>closed_in_turn s. the (takes r)))"
proof (cases "\<exists>r \<in> set (closed_in_turn s). takes r = None")
  case True
  obtain b waited where "waitForWaitGroup (10 * time_Second) finished tie = Some (b, waited)" using wait_bounded [OF assms(1)] by metis
  then show ?thesis using True by (simp add: once_returns_def stop_elapsed_def closes_elapsed_eq)
next
  case False
  obtain b waited where w: "waitForWaitGroup (10 * time_Second) finished tie = Some (b, waited)" "0 \<le> waited" "waited \<le> 10 * time_Second"
    "finished = Some 0 \<Longrightarrow> waited = 0" by (rule wait_bounded [OF assms(1), of tie]) blast
  note h = shutdown_bounded [OF assms(2), of s]
  let ?c = "\<Sum>r\<leftarrow>closed_in_turn s. the (takes r)"
  let ?b = "waited + shutdown_elapsed s drained + ?c"
  have "0 \<le> ?c" using False assms(3) by (intro sum_list_nonneg) auto
  then have b: "0 \<le> ?b" "?b \<le> 20 * time_Second + ?c" using w h by simp_all
  have e: "once_returns T other (stop_elapsed s finished tie drained takes) = Some (max T ((case other of None \<Rightarrow> T | Some u \<Rightarrow> min T u) + ?b))"
    using False w(1) by (simp add: once_returns_def stop_elapsed_def closes_elapsed_eq)
  have fast: "?b \<le> 10 * time_Second + ?c"
    if "Config_Validate L cfg = Ok () \<and> 0 \<le> C \<and> run_fits C ri \<and> run_fits C ra \<and> finished = map_option (\<lambda>e. e - C) (loops_done cfg C ri ra)"
    using that w(4) h loops_done_when_cancelled [of L cfg C ri ra] by simp
  show ?thesis using False b fast unfolding e by (auto split: option.split)
qed

text \<open>A server whose loops and requests never end, stopped by a signal one second after the serving goroutine stopped it.\<close>

theorem stop_returns_in_time_witness:
  "\<exists>e. once_returns (5 * time_Second) (Some (4 * time_Second)) (stop_elapsed (fresh_server\<lparr>sv_srv := True\<rparr>) None True None (\<lambda>_. Some time_Second)) = Some e \<and>
     closed_in_turn (fresh_server\<lparr>sv_srv := True\<rparr>) = [RWDatabase, RODatabase] \<and> 26 * time_Second = e \<and> e \<le> 27 * time_Second"
proof -
  let ?s = "fresh_server\<lparr>sv_srv := True\<rparr>" and ?takes = "\<lambda>_. Some time_Second :: duration option"
  have c: "closed_in_turn ?s = [RWDatabase, RODatabase]" by code_simp
  have e: "once_returns (5 * time_Second) (Some (4 * time_Second)) (stop_elapsed ?s None True None ?takes) = Some (26 * time_Second)"
    by code_simp
  have t: "(0 :: duration) \<le> time_Second" by (simp add: time_Second_def)
  from stop_returns_in_time [of None None ?takes, where T = "5 * time_Second" and other = "Some (4 * time_Second)" and s = ?s and tie = True] e c t show ?thesis by auto
qed

end
