(* ===== verification/Spec2Isabelle.thy ===== *)
theory Spec2Isabelle
  imports Prelude Endpoint Agent_State Field_Intervals Config Backend_Client Outbound_Validation Inventory
    Attestation Run_Command Enrollment Precheck Health_Exporter Workload Sak_Auth Component_Registry Handlers
    Lifecycle Server Scan Commands Attestation_Attempts Command_Line Agent_Run
    Background_Loops
begin

text \<open>
  A model and correctness proofs of the Fleet Intelligence agent (\<open>src/internal\<close>, \<open>src/cmd/fleetint\<close>), a
  daemon that runs on GPU nodes.  An operator enrolls a node with a backend; the agent then keeps its
  identity and credentials in a SQLite table, reports the node's inventory, answers attestation requests of
  the backend and exports health data.

  \<^bold>\<open>How the parts interact.\<close>  The commands \<open>enroll\<close>, \<open>unenroll\<close> and \<open>metadata\<close> write the table; the inventory and
  attestation loops of the server read it, talk to the backend through one HTTP client, and write back what the
  backend assigns (a refreshed JWT, a placement).  The health exporter of the server collects metrics, events and
  component states, converts them to OTLP or CSV and sends or writes them; it refreshes its credentials from the
  table.  Every URL they use passes the endpoint checks, and the configuration they run under passes the
  configuration check.  The run command builds the server, which starts the loops, the exporter, the components and a
  local API on a Unix socket, and takes all of it down again; \<open>status\<close>, \<open>compact\<close>, \<open>inject\<close> and \<open>scan\<close> look at or work
  around a running server.  A collector gateway between nodes and backend authenticates with its own extension.

  \<^bold>\<open>Theories.\<close>
  \<^item> \<open>Prelude\<close>: results, durations, instants, and what the code uses of the Go packages \<open>strings\<close>, \<open>strconv\<close> and
    \<open>sort\<close>, with their lemmas.  Strings are byte strings.  The locales \<open>invariant_system\<close> and \<open>ranked_system\<close> are step
    relations with an invariant, and with a rank that every step lowers; each relation below interprets the one it fits.
  \<^item> \<open>Endpoint\<close> (\<open>internal/endpoint\<close>): which URLs are accepted for the backend and the local daemon.
  \<^item> \<open>Agent_State\<close> (\<open>internal/agentstate\<close>, \<open>internal/agentidentity\<close>, the SDK's metadata table): every getter and
    setter on an optional table, each failure of the database a branch.  The locale \<open>metadata_store\<close> is the
    contract of a key-value store whose blank value reads as absent; it is interpreted on the model's view and
    update, and the proofs about sequences of writes (enrollment) use its facts.  The relation \<open>uuid_step\<close>
    interleaves processes that race to create the agent UUID.
  \<^item> \<open>Field_Intervals\<close> (the SDK's \<open>field_intervals.go\<close>): field profiles, grouping by interval, and the life cycle
    of the native watch groups under arbitrary failures of the native library.
  \<^item> \<open>Config\<close> (\<open>internal/config\<close>): validation, defaults, component selection with its caches, exported entries,
    the environment file, and the permissions of the state file.
  \<^item> \<open>Component_Registry\<close> (\<open>internal/registry\<close>): the table of components and what the server registers of it.
  \<^item> \<open>Run_Command\<close> (\<open>cmd/fleetint/run.go\<close>): flags and environment to configuration, and the offline path check.
  \<^item> \<open>Backend_Client\<close> (\<open>internal/backendclient\<close>): the four operations; each returns its result with the requests
    it sent, so that statements about what is never sent are possible.
  \<^item> \<open>Otlp\<close>, \<open>Outbound_Validation\<close> (\<open>internal/validation/outbound\<close>): the OTLP messages, and the issues reported on
    outgoing payloads.
  \<^item> \<open>Machine_Info\<close> (\<open>internal/machineinfo\<close>): the description of the machine and its table.
  \<^item> \<open>Inventory\<close> (\<open>internal/inventory\<close> with source, mapper, sink, hash and manager): collection, canonical hash,
    mapping, export, the loop, and \<open>run_step\<close>, the relation of the mutex that keeps attempts apart.  The locale
    \<open>keeping_sink\<close> is the contract of a sink that keeps what it exported.
  \<^item> \<open>Attestation\<close> (\<open>internal/attestation\<close>): nonce check, command, mapping, providers and manager over a world
    of database and log of external effects; the locales \<open>jwt_provider\<close> and \<open>nonce_workflow\<close> state what the
    workflow relies on from its providers.  \<open>Attestation_Attempts\<close>: the interleaving of attempts that time out.
  \<^item> \<open>Precheck\<close> (\<open>internal/precheck\<close>, \<open>internal/dcgmversion\<close>, \<open>cmd/fleetint/precheck.go\<close>): the checks a node passes
    before it may enroll, and the version probe.
  \<^item> \<open>Enrollment\<close> (\<open>internal/enrollment\<close>, \<open>cmd/fleetint/enroll.go\<close>, \<open>unenroll.go\<close>, \<open>metadata.go\<close>): the enrollment
    workflow with the inventory export that follows it, and the commands.
  \<^item> \<open>Entity_Catalog\<close>, \<open>Health_Collector\<close>, \<open>Otlp_Converter\<close>, \<open>Csv_Converter\<close>, \<open>Http_Writer\<close>, \<open>Health_Exporter\<close>
    (\<open>internal/exporter\<close>): the identities of GPUs, the collection with the cached machine information
    (\<open>provider_step\<close> interleaves its refreshes), the conversions, the writers with retries and token refresh, and
    the export cycle.  The locale \<open>world_preserving\<close> is what the exporter needs of its writer, \<open>refresh_barred\<close> what it
    needs when no token can be had.
  \<^item> \<open>Workload\<close> (\<open>internal/workloadmetrics\<close>): the reader of job mapping files and its Prometheus collector.
  \<^item> \<open>Sak_Auth\<close> (\<open>otelcol/auth/sakauth\<close>): the gateway's authenticator, from its construction on; \<open>sak_step\<close>
    interleaves concurrent exports.
  \<^item> \<open>Handlers\<close> (\<open>internal/server/handlers.go\<close>, \<open>handlers_inject_fault.go\<close>, \<open>cmd/fleetint/inject.go\<close>): the local
    API, fault injection and the command that requests it.
  \<^item> \<open>Lifecycle\<close>: a log of acquired and released resources and its replay, shared by server, scan and commands.
  \<^item> \<open>Server\<close> (\<open>internal/server/server.go\<close>): the construction as a sequence of stages, each of which may fail, the
    background loops, the listener, and \<open>Stop\<close>.
  \<^item> \<open>Background_Loops\<close> (\<open>Run\<close>, \<open>runAttempt\<close>, \<open>sleepWithContext\<close> of both managers, \<open>waitForWaitGroup\<close>): the loops against
    a clock, with attempts that may not return, and \<open>Stop\<close> with its waits, closes and callers.
  \<^item> \<open>Command_Line\<close> (\<open>cmd/fleetint/root.go\<close>): the table of commands and flags, and how the commands read them.
  \<^item> \<open>Agent_Run\<close> (\<open>runCommand\<close> of \<open>run.go\<close>): the run command as a whole; \<open>agent_step\<close> interleaves the waiting command,
    the watcher of signals and time, and the serving goroutine; the sequential model of serving is one of its runs.
  \<^item> \<open>Scan\<close> (\<open>internal/scan\<close>, \<open>cmd/fleetint/scan.go\<close>), \<open>Commands\<close> (\<open>status.go\<close>, \<open>compact.go\<close>, \<open>machine_info.go\<close>,
    \<open>metadata.go\<close>): the remaining commands.
  \<^item> this theory: properties that span enrollment, state, inventory, attestation and export.

  \<^bold>\<open>Conventions.\<close>  A struct is a record, a call that may fail returns a sum (\<^const>\<open>Inl\<close> is the error) whose error
  type has one constructor per error return, a nil pointer, slice or interface is \<^const>\<open>None\<close>, and a stateful
  operation takes and returns the database.  Log output is not part of the model.  Code outside the repository
  is an argument: \<open>netlib\<close> (\<open>net/url\<close>, \<open>net.ParseIP\<close>), \<open>timelib\<close> (RFC 3339), \<open>sqlite_env\<close> (outcomes of the database
  driver), \<open>http_client\<close> and \<open>codec\<close> (network and JSON), \<open>hashlib\<close> (canonical JSON and SHA-256), \<open>os_env\<close> and
  \<open>path_env\<close> (files), \<open>cli_env\<close> (the attestation command), \<open>native_lib\<close> (DCGM), \<open>sak_env\<close> (the gateway's transports),
  \<open>registerer\<close> (Prometheus), \<open>server_env\<close>, \<open>sock_env\<close>, \<open>scan_env\<close> (outcomes of what the server and the scan call),
  \<open>cli_lib\<close> (the command line).  Where a proof relies on their documented behaviour it is a named hypothesis
  (\<open>base_url_roundtrip\<close>, \<open>rfc3339_roundtrip\<close>, \<open>fresh_handles\<close>, \<open>backend_fresh\<close>, \<open>cli_documented\<close>), and a witness shows it holds of a
  concrete library.

  \<^bold>\<open>What the lemmas show.\<close>  Identity: one UUID per database under any race, stable across restarts.  Credentials:
  a new base URL is never paired with old tokens; enrolling makes the loops and the exporter ready; unenrolling
  silences the loops and cuts the exporter off from the backend, though not from a collector.  Requests: authenticated, to the validated backend, without redirects; retries are bounded.
  Attestation: ordering of nonce, stored JWT, command and submission; only a harmless nonce reaches the command
  line.  Inventory: order-independent hash, faithful numbers, exclusive attempts, paced loop.  Export: what is
  converted is valid exactly when the data is, does not depend on map order, and goes only where the table says; the
  files of an offline export read back to the data.
  Configuration: the checks equal their declarative reading, and the limits on environment variables fit them.
  Resources: no native group leaks; offline output stays out of system directories; state files are private.
  Gateway: concurrent exports share one enrollment, and the access key goes to the configured HTTPS endpoint only.
  Server: whatever fails, what was acquired is released once, in every interleaving of a run; the loops
  return when they are cancelled, even from an attempt that hangs, and \<open>Stop\<close> returns in bounded time unless closing a
  resource hangs; the socket of another process is never taken; faults come only from the loopback.  Commands: \<open>status\<close> tells what the exporter will do,
  \<open>compact\<close> never touches the database of a running server, \<open>metadata\<close> shows no token.

  \<^bold>\<open>Termination and fuel.\<close>  Only the loop over the ancestors of a path needs fuel; the length of the path is enough
  and the theorem \<open>offline_path_safe\<close> says that it never runs out.  The retry loop of the writer ends by a measure
  on the attempts left and the one refresh.  A run of \<open>agent_step\<close> has at most nine steps, of
  which \<open>Stop\<close> is one; the time it takes is modelled apart.  The daemon loops are modelled
  by their finite runs, for every sequence of outcomes of their sleeps; in \<open>Background_Loops\<close> the attempts given must
  reach beyond the cancellation, at one every five minutes.

  \<^bold>\<open>Not modelled.\<close>  Log output, build constants and terminal symbols; the drawing of tables on the terminal; the
  HTTP framework with its compression and the Prometheus handler; the metric syncer and recorder, which follow the
  context of the server; and the SDK apart from the parts named above: they are libraries to the agent.
\<close>

section \<open>Lemmas across components\<close>

lemma legacy_lookup_SomeD: "legacy_lookup L E db ks = Inr (Some b) \<Longrightarrow> \<exists>k \<in> set ks. view db k \<noteq> None"
proof (induction ks)
  case (Cons k ks)
  show ?case
  proof (cases "view db k")
    case None
    then have "case ReadMetadata E db k of Inl _ \<Rightarrow> True | Inr v \<Rightarrow> v = []" by (rule ReadMetadata_blank)
    with Cons show ?thesis by (auto split: sum.splits if_splits)
  qed auto
qed simp

text \<open>Without a value under any of its keys there is no base URL, whatever fails.\<close>

lemma GetBackendBaseURL_SomeD: "GetBackendBaseURL L E db = Inr (Some b) \<Longrightarrow> \<exists>k \<in> set url_keys. view db k \<noteq> None"
proof (rule ccontr)
  assume g: "GetBackendBaseURL L E db = Inr (Some b)" and n: "\<not> (\<exists>k \<in> set url_keys. view db k \<noteq> None)"
  then have leg: "legacy_lookup L E db legacy_endpoint_keys \<noteq> Inr (Some b)"
    using legacy_lookup_SomeD [of L E db legacy_endpoint_keys b] by (auto simp: url_keys_def)
  have "view db MetadataKeyBackendBaseURL = None" using n by (simp add: url_keys_def)
  then have "case ReadMetadata E db MetadataKeyBackendBaseURL of Inl _ \<Rightarrow> True | Inr v \<Rightarrow> v = []"
    by (rule ReadMetadata_blank)
  with g leg show False
    by (auto simp: GetBackendBaseURL_def openReadOnly_def split: sum.splits option.splits if_splits)
qed

lemma unenroll_view:
  assumes "unenrollCommand E db = (Inr u, db1)"
  shows "view db1 k = (if k \<in> set keysToDelete then None else view db k)"
proof -
  have del: "view (Some (\<lambda>k. if k \<in> set keysToDelete then None else t k)) k = (if k \<in> set keysToDelete then None else view (Some t) k)" for t
    by (simp add: view_def ok_if_nonempty_def coalesce_value_def)
  from assms obtain db0 where c: "CreateTableMetadata E db = (Inr (), db0)" and d: "removeEnrollmentMetadata E db0 = (Inr (), db1)"
    by (auto simp: unenrollCommand_def split: sum.splits prod.splits option.splits)
  from c have "db0 = Some (case db of None \<Rightarrow> Map.empty | Some t \<Rightarrow> t)"
    by (auto simp: CreateTableMetadata_def split: option.splits)
  then have "view db0 = view db \<and> (\<exists>t. db0 = Some t)"
    by (cases db) (auto simp: view_def ok_if_nonempty_def coalesce_value_def fun_eq_iff)
  then obtain t where t: "db0 = Some t" "view db0 = view db" by blast
  with d have "db1 = Some (\<lambda>k. if k \<in> set keysToDelete then None else t k)"
    by (auto simp: removeEnrollmentMetadata_def sql_exec_def split: option.splits)
  then have "view db1 k = (if k \<in> set keysToDelete then None else view (Some t) k)" by (simp only: del)
  with t show ?thesis by simp
qed

lemma url_keys_deleted: "set url_keys \<subseteq> set keysToDelete"
  by (auto simp: url_keys_def legacy_endpoint_keys_def keysToDelete_def)

lemma obtain_nonce_unenrolled:
  assumes "view (aw_db w) MetadataKeyToken = None"
  shows "\<exists>e. state_obtain N E w = (Inl e, w)"
proof -
  have "\<exists>e. provider_GetJWT (Some E) w = Inl e"
    using assms getMetadata_SomeD [of E "aw_db w" MetadataKeyToken]
    by (auto simp: provider_GetJWT_def GetJWT_def split: sum.splits option.splits)
  then show ?thesis by (auto simp: obtain_nonce_def split: sum.splits)
qed

lemma enrolled_credentials:
  assumes "enroll V H comps collected now2 dcfg cfg now ctx ep sak m db = (Ok (), db1, rqs)"
    and "\<And>u. url_Parse (en_net V) [] = Some u \<Longrightarrow> u_host u = []"
  obtains base w jwt uuid where "view db1 MetadataKeyToken = Some jwt" "view db1 MetadataKeyBackendBaseURL = Some base"
    "view db1 MetadataKeyMachineID = Some uuid" "ValidateBackendEndpoint (en_net V) base = Inr w"
  using assms(1)
proof (cases rule: enroll_cases)
  case (accepted u c0 jwt rq0)
  let ?base = "url_String (en_net V) u"
  from accepted(3) have jwt: "jwt \<noteq> []" by (auto elim: Enroll_Ok)
  from persist_view [OF accepted(4), unfolded fst_conv] obtain uuid where uuid: "view db1 MetadataKeyMachineID = Some uuid"
    and v: "\<And>k. k \<notin> placement_keys \<Longrightarrow> k \<noteq> MetadataKeyMachineID \<Longrightarrow>
        view db1 k = (case map_of (rev (take 4 (enroll_kvs (en_time V) ?base jwt sak (to_utc now)))) k of
          None \<Rightarrow> view db k | Some v \<Rightarrow> ok_if_nonempty v)" by auto
  from accepted(2) obtain w where w: "ValidateBackendEndpoint (en_net V) ?base = Inr w" by (auto simp: New_def split: sum.splits)
  then have base: "?base \<noteq> []" using assms(2) by (auto simp: backend_Ok_iff backend_url_ok_def bare_url_def)
  have "view db1 MetadataKeyToken = Some jwt" "view db1 MetadataKeyBackendBaseURL = Some ?base"
    unfolding v [OF credential_keys(2,6)] v [OF credential_keys(3,7)] enroll_kvs_lookup
    using jwt base by (simp_all add: ok_if_nonempty_def)
  with uuid w that show ?thesis by blast
qed simp

text \<open>Without a stored URL the exporter has no endpoints, and then an export does nothing.\<close>

lemma derived_endpoint_blank:
  "view db MetadataKeyBackendBaseURL = None \<Longrightarrow> view db key = None \<Longrightarrow> derived_endpoint X db seg key = []"
  by (simp add: derived_endpoint_def readValidatedEndpoint_def Let_def read_or_empty_blank MetadataKeyBackendBaseURL_def)

definition no_stored_urls :: "database \<Rightarrow> bool" where
  "no_stored_urls db \<longleftrightarrow> (\<forall>k \<in> set url_keys. view db k = None)"

lemma export_unenrolled:
  assumes "TrimRightChar (he_CollectorEndpoint (xs_config s)) CHR ''/'' = []" "\<not> he_OfflineMode (xs_config s)" "xe_dbRO X"
    and "no_stored_urls (xw_db w)"
  shows "\<exists>s1. export_turn X C now s w = (s1, [], [], w) \<and> same_settings (xs_config s) (xs_config s1)"
proof -
  obtain e s1 ev fs w1 where x: "export X C s w = (e, s1, ev, fs, w1)" by (metis prod_cases5)
  have u: "view (xw_db w) MetadataKeyBackendBaseURL = None" "view (xw_db w) ''metrics_endpoint'' = None" "view (xw_db w) ''logs_endpoint'' = None"
    using assms(4) by (auto simp: no_stored_urls_def url_keys_def legacy_endpoint_keys_def)
  let ?cfg = "refreshConfigFromMetadata X (xw_db w) (xs_config s)"
  have "he_MetricsEndpoint ?cfg = [] \<and> he_LogsEndpoint ?cfg = []"
    using assms(1,3)
    by (simp add: refreshConfigFromMetadata_def Let_def derived_endpoint_blank [OF u(1,2)] derived_endpoint_blank [OF u(1,3)] split: sum.split)
  with x assms(2) have "ev = [] \<and> fs = [] \<and> w1 = w"
    by (cases rule: export_cases) (auto simp: exportToHTTP_def)
  with x export_frame [OF x] show ?thesis by (auto simp: export_turn_def split: option.split)
qed

lemma ticks_unenrolled:
  assumes "TrimRightChar (he_CollectorEndpoint (xs_config s)) CHR ''/'' = []" "\<not> he_OfflineMode (xs_config s)" "xe_dbRO X"
    and "no_stored_urls (xw_db w)"
  shows "\<exists>s1. ticks X ts s w = (s1, [], [], w)"
  using assms(1,2)
proof (induction ts arbitrary: s)
  case (Cons t ts)
  obtain C now where t: "t = (C, now)" by fastforce
  obtain s1 where s1: "export_turn X C now s w = (s1, [], [], w)" "same_settings (xs_config s) (xs_config s1)"
    using export_unenrolled [OF Cons.prems assms(3,4)] by blast
  then obtain s2 where "ticks X ts s1 w = (s2, [], [], w)" 
    using Cons.IH [of s1] Cons.prems same_settings_fields [OF s1(2)] by auto
  then show ?case by (simp add: t s1(1))
qed simp

lemma ticks_offline:
  assumes "he_OfflineMode (xs_config s)" "ticks X ts s w = (s1, ev, fs, w1)"
  shows "ev = [] \<and> w1 = w"
  using assms
proof (induction ts arbitrary: s s1 ev fs w1)
  case (Cons t ts)
  obtain C now where t: "t = (C, now)" by fastforce
  obtain e sa eva fsa wa where x: "export X C s w = (e, sa, eva, fsa, wa)" by (metis prod_cases5)
  have o: "eva = [] \<and> wa = w" using x Cons.prems(1) by (cases rule: export_cases) auto
  let ?sb = "case e of Some _ \<Rightarrow> sa | None \<Rightarrow> sa\<lparr>xs_lastExport := to_utc now\<rparr>"
  obtain sc evc fsc wc where y: "ticks X ts ?sb w = (sc, evc, fsc, wc)" by (metis prod_cases4)
  have "he_OfflineMode (xs_config ?sb)" using same_settings_fields(1) export_frame [OF x] Cons.prems(1) by (cases e) auto
  then have "evc = [] \<and> wc = w" by (rule Cons.IH [OF _ y])
  with Cons.prems(2) o x y show ?case by (auto simp: t export_turn_def split: option.splits)
qed simp

section \<open>Properties\<close>

text \<open>C2: unenrolling silences the agent.  After a successful \<open>unenroll\<close> the credentials, the placement and
  every current and legacy URL key are gone and every other key, the agent UUID among them, is as before; an
  inventory export then sends nothing and changes nothing, and an attestation attempt then sends nothing,
  runs nothing and changes nothing, whatever the libraries and the state of the disk are.\<close>

theorem unenroll_silences_agent:
  assumes "unenrollCommand E db = (Ok (), db1)"
  shows "(\<forall>k. view db1 k = (if k \<in> set keysToDelete then None else view db k)) \<and>
    view db1 MetadataKeyMachineID = view db MetadataKeyMachineID \<and>
    (\<exists>e. sink_Export (NewBackendSink L T C fresh R) snap db1 = (Error e, db1, [])) \<and>
    (an_state N = Some S \<longrightarrow> (\<exists>e m. att_CollectOnce clock (state_manager N X timeout cfg) \<lparr>aw_db = db1, aw_log = log\<rparr> =
        ((None, Some e), m, \<lparr>aw_db = db1, aw_log = log\<rparr>)))"
proof (intro conjI allI impI)
  fix k
  show "view db1 k = (if k \<in> set keysToDelete then None else view db k)" by (rule unenroll_view [OF assms])
next
  show "view db1 MetadataKeyMachineID = view db MetadataKeyMachineID"
    using unenroll_view [OF assms, of MetadataKeyMachineID] by (simp add: keysToDelete_def metadata_keys)
next
  let ?K = "NewBackendSink L T C fresh R"
  have "GetBackendBaseURL L R db1 \<noteq> Inr (Some b)" for b
    using GetBackendBaseURL_SomeD [of L R db1 b] url_keys_deleted unenroll_view [OF assms] by (auto split: if_splits)
  then have "\<exists>e. sink_credentials ?K R db1 = Inl e"
    by (auto simp: sink_credentials_def NewBackendSink_def split: sum.splits option.splits)
  then obtain e where "sink_credentials ?K R db1 = Inl e" ..
  then show "\<exists>e. sink_Export ?K snap db1 = (Inl e, db1, [])"
    by (cases "ToNodeUpsertRequest snap") (simp_all add: sink_Export_def NewBackendSink_def)
next
  assume N: "an_state N = Some S"
  let ?w = "\<lparr>aw_db = db1, aw_log = log\<rparr>"
  have "view (aw_db ?w) MetadataKeyToken = None"
    using unenroll_view [OF assms, of MetadataKeyToken] by (simp add: keysToDelete_def)
  then obtain e where "state_obtain N S ?w = (Inl e, ?w)" using obtain_nonce_unenrolled by blast
  then show "\<exists>e m. att_CollectOnce clock (state_manager N X timeout cfg) ?w = ((None, Some e), m, ?w)"
    using N by (auto simp: att_CollectOnce_def state_manager_def NewManager_def)
qed

theorem unenroll_silences_agent_witness:
  "\<exists>db1 e. unenrollCommand healthy sample_db = (Ok (), db1) \<and> view db1 MetadataKeyMachineID = Some ''uuid'' \<and>
     view db1 MetadataKeyToken = None \<and>
     sink_Export (NewBackendSink plain_netlib plain_timelib sample_codec sample_http healthy)
       (Some (sample_snapshot [''g''] zero_time)) db1 = (Error e, db1, [])"
proof -
  have "is_ok (fst (unenrollCommand healthy sample_db))" by code_simp
  then obtain db1 where u: "unenrollCommand healthy sample_db = (Ok (), db1)"
    by (cases "unenrollCommand healthy sample_db") (auto simp: is_ok_iff)
  have "view sample_db MetadataKeyMachineID = Some ''uuid''" by code_simp
  moreover have "MetadataKeyToken \<in> set keysToDelete" by (simp add: keysToDelete_def)
  moreover note unenroll_silences_agent [OF u, where L = plain_netlib and T = plain_timelib and C = sample_codec and fresh = sample_http
      and R = healthy and snap = "Some (sample_snapshot [''g''] zero_time)" and N = sample_att_env]
  ultimately show ?thesis using u by metis
qed



text \<open>
  C11: unenrolling cuts the exporter off from the backend.  After a successful \<open>unenroll\<close> an exporter with the database
  connections the server gives it, running with the old endpoints and token, sends no enrollment request and gets no fresh token, however
  often its ticker fires and whatever it collects.  Offline, or without a collector, it sends nothing at all and changes
  no metadata.  With a collector it goes on sending, but to the two paths of the collector only and without any
  authorization, and it changes no metadata but the token, which a collector may hand out.
\<close>

theorem unenroll_cuts_exporter_off:
  assumes "unenrollCommand E db = (Ok (), db1)" "xw_db w = db1" "xe_dbRO X" "exporter_Start X first later s w = (s1, ev, fs, w1)"
  shows "let ce = TrimRightChar (he_CollectorEndpoint (xs_config s)) CHR ''/'' in
    xw_requests w1 = xw_requests w \<and> refreshes ev = 0 \<and>
    (if ce = [] \<or> he_OfflineMode (xs_config s) then ev = [] \<and> w1 = w
     else (\<forall>rq. Sent rq \<in> set ev \<longrightarrow> orq_url rq \<in> {ce @ ''/v1/metrics'', ce @ ''/v1/logs''} \<and> ''Authorization'' \<notin> fst ` set (orq_headers rq)) \<and>
       (\<forall>k. k \<noteq> MetadataKeyToken \<longrightarrow> view (xw_db w1) k = view db1 k))"
proof -
  let ?ce = "TrimRightChar (he_CollectorEndpoint (xs_config s)) CHR ''/''"
  have "MetadataKeySAKToken \<in> set keysToDelete" by code_simp
  then have u: "no_stored_urls (xw_db w)" "view (xw_db w) MetadataKeySAKToken = None"
    using url_keys_deleted unenroll_view [OF assms(1)] by (auto simp: no_stored_urls_def assms(2))
  obtain ts where t: "ticks X ts s w = (s1, ev, fs, w1) \<or> ev = [] \<and> w1 = w"
    using assms(4) unfolding exporter_Start_def by (metis prod.inject)
  have silent: "ev = [] \<and> w1 = w" if "?ce = [] \<or> he_OfflineMode (xs_config s)"
  proof (cases "he_OfflineMode (xs_config s)")
    case True
    then show ?thesis using t ticks_offline [OF True] by blast
  next
    case False
    with that obtain s2 where "ticks X ts s w = (s2, [], [], w)" using ticks_unenrolled [OF _ False assms(3) u(1)] by blast
    with t show ?thesis by auto
  qed
  have fed: "token_only X w w1 \<and> refreshes ev = 0 \<and> (\<forall>rq. Sent rq \<in> set ev \<longrightarrow> to_collector ?ce rq)" if "?ce \<noteq> []"
    using t
  proof
    assume "ticks X ts s w = (s1, ev, fs, w1)"
    then show ?thesis by (rule ticks_keyless [OF _ u(2) refl that])
  qed (simp add: token_only_refl)
  show ?thesis
  proof (cases "?ce = [] \<or> he_OfflineMode (xs_config s)")
    case True
    with silent show ?thesis by (simp add: Let_def)
  next
    case False
    with fed have f: "token_only X w w1" "refreshes ev = 0" "\<forall>rq. Sent rq \<in> set ev \<longrightarrow> to_collector ?ce rq" by simp_all
    have "xw_requests w1 = xw_requests w" by (rule token_only_keyless(1) [OF f(1) u(2)])
    moreover have "\<forall>k. k \<noteq> MetadataKeyToken \<longrightarrow> view (xw_db w1) k = view db1 k" using f(1) by (simp add: token_only_def assms(2))
    ultimately show ?thesis using False f(2,3) unfolding to_collector_def Let_def by simp
  qed
qed

lemma unenrolled_world:
  obtains db1 where "unenrollCommand healthy (xw_db enrolled_world) = (Ok (), db1)"
proof -
  have "is_ok (fst (unenrollCommand healthy (xw_db enrolled_world)))" by code_simp
  then show thesis using that by (cases "unenrollCommand healthy (xw_db enrolled_world)") (auto simp: is_ok_iff)
qed

theorem unenroll_cuts_exporter_off_witness:
  "\<exists>db1 s1 ev fs w1. unenrollCommand healthy (xw_db enrolled_world) = (Ok (), db1) \<and>
     exporter_Start gateway_env (sample_collector, zero_time) [(sample_collector, zero_time)] gateway_exporter (enrolled_world\<lparr>xw_db := db1\<rparr>) = (s1, ev, fs, w1) \<and>
     xw_requests w1 = xw_requests enrolled_world \<and> refreshes ev = 0"
proof -
  obtain db1 where u: "unenrollCommand healthy (xw_db enrolled_world) = (Ok (), db1)" by (rule unenrolled_world)
  let ?w = "enrolled_world\<lparr>xw_db := db1\<rparr>"
  obtain s1 ev fs w1 where x: "exporter_Start gateway_env (sample_collector, zero_time) [(sample_collector, zero_time)] gateway_exporter ?w = (s1, ev, fs, w1)"
    by (metis prod_cases4)
  have "xe_dbRO gateway_env" by (simp add: gateway_env_def sample_exporter_env_def)
  from unenroll_cuts_exporter_off [OF u _ this x] u x show ?thesis by (auto simp: Let_def)
qed



lemma sample_enroll_ok:
  obtains db1 rqs where "sample_enroll (Some [''machine_id'' \<mapsto> ''old'']) = (Ok (), db1, rqs)"
proof -
  have "is_ok (fst (sample_enroll (Some [''machine_id'' \<mapsto> ''old''])))" by code_simp
  moreover obtain r db1 rqs where x: "sample_enroll (Some [''machine_id'' \<mapsto> ''old'']) = (r, db1, rqs)" by (metis prod_cases3)
  ultimately have "sample_enroll (Some [''machine_id'' \<mapsto> ''old'']) = (Ok (), db1, rqs)" by (cases r) auto
  then show thesis by (rule that)
qed

lemma sample_exporter_net:
  "xe_lib (sample_exporter_env None 200) = en_net sample_enroll_env" "se_select (xe_sql (sample_exporter_env None 200)) k = None"
  "xe_dbRO (sample_exporter_env None 200)" "url_Parse (en_net sample_enroll_env) [] = Some u \<Longrightarrow> u_host u = []"
  "JoinPath (en_net sample_enroll_env) v [''api'', ''v1'', ''health'', seg] =
     Some (the (JoinPath (en_net sample_enroll_env) v [''api'', ''v1'', ''health'', seg]))"
proof -
  have "plain_Parse [] = None" by code_simp
  then show "url_Parse (en_net sample_enroll_env) [] = Some u \<Longrightarrow> u_host u = []"
    by (simp add: sample_enroll_env_def plain_netlib_def)
qed (simp_all add: sample_exporter_env_def sample_enroll_env_def healthy_def plain_netlib_def JoinPath_def plain_JoinPath_def)

text \<open>
  The exporter follows an enrollment.  After a successful \<open>enroll\<close>, the next export of an exporter without
  a collector uses the token the backend issued and the health endpoints below the validated base URL that was
  stored, whatever endpoints and token it had before.
\<close>

theorem exporter_follows_enrollment:
  assumes "enroll V H comps collected now2 dcfg cfg now ctx ep sak m db = (Ok (), db1, rqs)"
    and "xe_lib X = en_net V" "\<And>k. se_select (xe_sql X) k = None" "xe_dbRO X"
    and "TrimRightChar (he_CollectorEndpoint c) CHR ''/'' = []" "\<And>u. url_Parse (en_net V) [] = Some u \<Longrightarrow> u_host u = []"
    and "\<And>u seg. JoinPath (en_net V) u [''api'', ''v1'', ''health'', seg] = Some (join u seg)"
  shows "\<exists>jwt base u. view db1 MetadataKeyToken = Some jwt \<and> view db1 MetadataKeyBackendBaseURL = Some base \<and>
     ValidateBackendEndpoint (en_net V) base = Ok u \<and>
     refreshConfigFromMetadata X db1 c =
       c\<lparr>he_MetricsEndpoint := join u ''metrics'', he_LogsEndpoint := join u ''logs'', he_AuthToken := jwt\<rparr>"
proof -
  obtain base u jwt uuid where e: "view db1 MetadataKeyToken = Some jwt" "view db1 MetadataKeyBackendBaseURL = Some base"
    "ValidateBackendEndpoint (en_net V) base = Inr u"
    using enrolled_credentials [OF assms(1,6)] by metis
  have ne: "base \<noteq> []" using e(2) by (auto simp: view_Some_iff)
  have "read_or_empty X db1 ''backend_base_url'' = base"
    using e(2) assms(3) by (simp add: read_or_empty_view MetadataKeyBackendBaseURL_def)
  then have "derived_endpoint X db1 seg key = join u seg" for seg key
    using ne e(3) assms(2,7) by (simp add: derived_endpoint_def)
  moreover have "ReadMetadata (xe_sql X) db1 MetadataKeyToken = Inr jwt" by (rule ReadMetadata_Some [OF assms(3) e(1)])
  ultimately show ?thesis using e assms(4,5) by (auto simp: refreshConfigFromMetadata_def Let_def)
qed

theorem exporter_follows_enrollment_witness:
  "\<exists>db1 rqs jwt base. sample_enroll (Some [''machine_id'' \<mapsto> ''old'']) = (Ok (), db1, rqs) \<and>
     view db1 MetadataKeyToken = Some jwt \<and> view db1 MetadataKeyBackendBaseURL = Some base \<and>
     he_AuthToken (refreshConfigFromMetadata (sample_exporter_env None 200) db1 sample_exporter_config) = jwt"
proof -
  obtain db1 rqs where r: "sample_enroll (Some [''machine_id'' \<mapsto> ''old'']) = (Ok (), db1, rqs)" by (rule sample_enroll_ok)
  have c: "TrimRightChar (he_CollectorEndpoint sample_exporter_config) CHR ''/'' = []" by code_simp
  from exporter_follows_enrollment [OF r [unfolded sample_enroll_def] sample_exporter_net(1-3) c sample_exporter_net(4,5)] r show ?thesis by auto
qed

text \<open>
  C24: only a qualified node is enrolled.  When the \<open>enroll\<close> command runs its precheck on a node that is not
  qualified and is not forced, it fails before it has touched the configuration, the metadata or the network;
  when it is forced, the outcome of the precheck makes no difference.
\<close>

theorem enroll_requires_qualified_node:
  "(\<not> node_qualified P \<and> \<not> ef_force f \<longrightarrow>
      (\<exists>e. enrollCommand readFile (map_sum id Passed (precheck_Run P)) dcfg envFile PD env workflow f w = (Error e, w))) \<and>
   (ef_force f \<longrightarrow>
      enrollCommand readFile (map_sum id Passed (precheck_Run P)) dcfg envFile PD env workflow f w =
      enrollCommand readFile (Inr True) dcfg envFile PD env workflow f w)"
proof -
  obtain r where r: "precheck_Run P = Inr r" "Passed r \<longleftrightarrow> node_qualified P" using precheck_Run_outcome by blast
  have "\<exists>e. enrollCommand readFile (Inr False) dcfg envFile PD env workflow f w = (Error e, w)" if "\<not> ef_force f"
  proof -
    have "(\<not> False \<and> \<not> ef_force f) = True" using that by simp
    then show ?thesis unfolding enrollCommand_def sum.case by (simp only: if_True) (simp split: sum.split)
  qed
  moreover have "enrollCommand readFile (Inr (Passed r)) dcfg envFile PD env workflow f w =
      enrollCommand readFile (Inr True) dcfg envFile PD env workflow f w" if "ef_force f"
  proof -
    have "(\<not> Passed r \<and> \<not> ef_force f) = False" "(\<not> True \<and> \<not> ef_force f) = False" using that by simp_all
    then show ?thesis unfolding enrollCommand_def sum.case by (simp only: if_False)
  qed
  ultimately show ?thesis unfolding r(1) map_sum.simps r(2) by simp
qed

text \<open>A node without DCGM.\<close>

definition bare_node :: "unit precheck_env" where
  "bare_node = \<lparr>pe_inventory = Inl ''no dcgm'', pe_machine_gpu_info = (\<lambda>d. Inl []), pe_pci_gpus = Inr [], pe_look_path = (\<lambda>n. Inl []),
     pe_dcgm = \<lparr>dcgm_Init = (\<lambda>a f. Inl []), dcgm_VersionInfo = (\<lambda>a. Inl [])\<rparr>, pe_candidates = []\<rparr>"

theorem enroll_requires_qualified_node_witness:
  "\<exists>e. enrollCommand (\<lambda>f. None) (map_sum id Passed (precheck_Run bare_node)) (Inl (OsError [])) FileMissing (\<lambda>s. None) Map.empty
      (\<lambda>ep sak cfg m w. (Inr (), Suc w))
      \<lparr>ef_endpoint = ''https://b.example'', ef_force = False, ef_node_group = None, ef_compute_zone = None, ef_token = ''sak'', ef_token_file = []\<rparr> 0
    = (Error e, 0)"
proof -
  have "\<not> node_qualified bare_node" by (simp add: node_qualified_def bare_node_def collectDCGMGPUInventory_def)
  then show ?thesis by (intro enroll_requires_qualified_node [THEN conjunct1, rule_format]) simp
qed

text \<open>
  C29: The status command tells the truth about enrollment.  After a successful \<open>enroll\<close> it reports the stored base
  URL and exactly the endpoints the exporter sends to; after a successful \<open>unenroll\<close> that follows it reports that the
  node is not enrolled.
\<close>

theorem status_follows_enrollment:
  assumes "enroll V H comps collected now2 dcfg cfg now ctx ep sak m db = (Ok (), db1, rqs)"
    and "xe_lib X = en_net V" "\<And>k. se_select (xe_sql X) k = None"
    and "\<And>u. url_Parse (en_net V) [] = Some u \<Longrightarrow> u_host u = []"
    and "\<And>u seg. JoinPath (en_net V) u [''api'', ''v1'', ''health'', seg] = Some (join u seg)"
    and "unenrollCommand E db1 = (Ok (), db2)"
  shows "(\<exists>base st. view db1 MetadataKeyBackendBaseURL = Some base \<and> readEnrollmentStatus (en_net V) (xe_sql X) db1 = Ok st \<and>
       es_baseURL st = base \<and> enrolled_line st \<noteq> NotEnrolledLine \<and>
       es_metricsEndpoint st = derived_endpoint X db1 ''metrics'' ''metrics_endpoint'' \<and>
       es_logsEndpoint st = derived_endpoint X db1 ''logs'' ''logs_endpoint'') \<and>
    (\<exists>st. readEnrollmentStatus (en_net V) (xe_sql X) db2 = Ok st \<and> enrolled_line st = NotEnrolledLine)"
proof
  obtain base u where e: "view db1 MetadataKeyBackendBaseURL = Some base" "ValidateBackendEndpoint (en_net V) base = Inr u"
    using enrolled_credentials [OF assms(1,4)] by metis
  have ne: "base \<noteq> []" using e(1) by (auto simp: view_Some_iff)
  have "read_or_empty X db1 ''backend_base_url'' = base"
    using e(1) assms(3) by (simp add: read_or_empty_view MetadataKeyBackendBaseURL_def)
  then have d: "derived_endpoint X db1 seg key = join u seg" for seg key
    using ne e(2) assms(2,5) by (simp add: derived_endpoint_def)
  have "ReadMetadata (xe_sql X) db1 MetadataKeyBackendBaseURL = Inr base" by (rule ReadMetadata_Some [OF assms(3) e(1)])
  then have "readEnrollmentStatus (en_net V) (xe_sql X) db1 =
      Ok \<lparr>es_baseURL = base, es_metricsEndpoint = join u ''metrics'', es_logsEndpoint = join u ''logs''\<rparr>"
    using ne e(2) assms(5) by (simp add: readEnrollmentStatus_def)
  then show "\<exists>base st. view db1 MetadataKeyBackendBaseURL = Some base \<and> readEnrollmentStatus (en_net V) (xe_sql X) db1 = Ok st \<and>
       es_baseURL st = base \<and> enrolled_line st \<noteq> NotEnrolledLine \<and>
       es_metricsEndpoint st = derived_endpoint X db1 ''metrics'' ''metrics_endpoint'' \<and>
       es_logsEndpoint st = derived_endpoint X db1 ''logs'' ''logs_endpoint''"
    using e(1) ne d by (simp add: enrolled_line_def)
  have "view db2 k = None" if "k \<in> set url_keys" for k
    using unenroll_view [OF assms(6), of k] that url_keys_deleted by auto
  then show "\<exists>st. readEnrollmentStatus (en_net V) (xe_sql X) db2 = Ok st \<and> enrolled_line st = NotEnrolledLine"
    using status_not_enrolled [OF assms(3), of db2] by (simp add: url_keys_def legacy_endpoint_keys_def enrolled_line_def)
qed

theorem status_follows_enrollment_witness:
  "\<exists>db1 rqs db2 st. sample_enroll (Some [''machine_id'' \<mapsto> ''old'']) = (Ok (), db1, rqs) \<and> unenrollCommand healthy db1 = (Ok (), db2) \<and>
     readEnrollmentStatus (en_net sample_enroll_env) healthy db2 = Ok st \<and> enrolled_line st = NotEnrolledLine"
proof -
  obtain db1 rqs where r: "sample_enroll (Some [''machine_id'' \<mapsto> ''old'']) = (Ok (), db1, rqs)" by (rule sample_enroll_ok)
  obtain db2 where u: "unenrollCommand healthy db1 = (Ok (), db2)"
    by (cases db1) (simp_all add: unenrollCommand_def openReadWrite_def healthy_def CreateTableMetadata_def removeEnrollmentMetadata_def sql_exec_def)
  have "xe_sql (sample_exporter_env None 200) = healthy" by (simp add: sample_exporter_env_def)
  with status_follows_enrollment [OF r [unfolded sample_enroll_def] sample_exporter_net(1,2,4,5) u] r u show ?thesis by auto
qed

end
